(* ===== verification/Prelude.thy ===== *)
theory Prelude
  imports Main "HOL-Library.Product_Lexorder"
begin

text \<open>
  Shared vocabulary of the development.

  The program keeps its durable state in relational tables and talks to them through guarded
  statements: \<open>SELECT ... WHERE\<close>, \<open>UPDATE ... WHERE\<close> followed by a look at \<open>rowcount\<close>, and
  primary-key reads (\<open>db.get\<close>).  A table is a list of records here and those four statements are
  the functions below.  The rest of the theory holds what several components use: Python's
  truthiness of optional integers, insertion-ordered counting dictionaries, \<open>enumerate\<close>, and
  facts about capped prefixes of lists.
\<close>

named_theorems table_simps \<open>rewriting rules for table statements\<close>
named_theorems tally_simps \<open>rewriting rules for counting dictionaries\<close>

section \<open>Python values\<close>

text \<open>Instants and durations are integers in microseconds, as \<open>datetime\<close> and \<open>timedelta\<close> store them.\<close>

type_synonym time = int

definition seconds :: "int \<Rightarrow> time" where
  "seconds n = n * 1000000"

lemma seconds_mono [simp]: "seconds a \<le> seconds b \<longleftrightarrow> a \<le> b"
  by (simp add: seconds_def)

lemma seconds_strict_mono [simp]: "seconds a < seconds b \<longleftrightarrow> a < b"
  by (simp add: seconds_def)

lemma seconds_pos [simp]: "0 < seconds n \<longleftrightarrow> 0 < n"
  by (simp add: seconds_def zero_less_mult_iff)

lemma seconds_nonneg [simp]: "0 \<le> seconds n \<longleftrightarrow> 0 \<le> n"
  by (simp add: seconds_def zero_le_mult_iff)

lemma seconds_nonpos [simp]: "seconds n \<le> 0 \<longleftrightarrow> n \<le> 0"
  by (simp add: seconds_def mult_le_0_iff)

text \<open>\<open>x or default\<close> on an optional integer: both \<open>None\<close> and \<open>0\<close> are falsy.\<close>

definition or_default :: "int option \<Rightarrow> int \<Rightarrow> int" where
  "or_default x d = (case x of None \<Rightarrow> d | Some n \<Rightarrow> if n = 0 then d else n)"

lemma or_default_simps [simp]:
  "or_default None d = d"
  "or_default (Some 0) d = d"
  "n \<noteq> 0 \<Longrightarrow> or_default (Some n) d = n"
  by (simp_all add: or_default_def)

lemma or_default_cases: "or_default x d = d \<or> (\<exists>n. x = Some n \<and> n \<noteq> 0 \<and> or_default x d = n)"
  by (cases x) (auto simp: or_default_def)

section \<open>Tables\<close>

type_synonym 'r table = "'r list"

definition update_where :: "('r \<Rightarrow> bool) \<Rightarrow> ('r \<Rightarrow> 'r) \<Rightarrow> 'r table \<Rightarrow> 'r table" where
  "update_where P f T = map (\<lambda>r. if P r then f r else r) T"

definition rowcount :: "('r \<Rightarrow> bool) \<Rightarrow> 'r table \<Rightarrow> nat" where
  "rowcount P T = length (filter P T)"

definition get_row :: "('r \<Rightarrow> 'k) \<Rightarrow> 'k \<Rightarrow> 'r table \<Rightarrow> 'r option" where
  "get_row key k T = find (\<lambda>r. key r = k) T"

text \<open>A table with a primary key: no two rows share it.\<close>

abbreviation keyed :: "('r \<Rightarrow> 'k) \<Rightarrow> 'r table \<Rightarrow> bool" where
  "keyed key T \<equiv> distinct (map key T)"

lemma update_where_Nil [table_simps, simp]: "update_where P f [] = []"
  by (simp add: update_where_def)

lemma update_where_Cons [table_simps]:
  "update_where P f (r # T) = (if P r then f r else r) # update_where P f T"
  by (simp add: update_where_def)

lemma length_update_where [table_simps, simp]: "length (update_where P f T) = length T"
  by (simp add: update_where_def)

lemma map_update_where: "(\<And>x. f (g x) = f x) \<Longrightarrow> map f (update_where P g T) = map f T"
  by (simp add: update_where_def)

lemma set_update_where: "set (update_where P f T) = (\<lambda>r. if P r then f r else r) ` set T"
  by (simp add: update_where_def)

lemma in_update_whereE:
  assumes "r' \<in> set (update_where P f T)"
  obtains r where "r \<in> set T" "r' = (if P r then f r else r)"
  using assms by (auto simp: set_update_where)

lemma map_key_update_where [table_simps]:
  "(\<And>r. key (f r) = key r) \<Longrightarrow> map key (update_where P f T) = map key T"
  by (simp add: update_where_def)

lemma update_where_none: "rowcount P T = 0 \<Longrightarrow> update_where P f T = T"
  by (induction T) (auto simp: update_where_def rowcount_def split: if_splits)

lemma rowcount_zero_iff: "rowcount P T = 0 \<longleftrightarrow> (\<forall>r \<in> set T. \<not> P r)"
  by (simp add: rowcount_def filter_empty_conv)

lemma get_row_in: "get_row key k T = Some r \<Longrightarrow> r \<in> set T \<and> key r = k"
  by (auto simp: get_row_def find_Some_iff)

lemma get_row_None: "get_row key k T = None \<longleftrightarrow> k \<notin> key ` set T"
  by (auto simp: get_row_def find_None_iff)

lemma get_row_eqI: "keyed key T \<Longrightarrow> r \<in> set T \<Longrightarrow> get_row key (key r) T = Some r"
proof (induction T)
  case Nil
  then show ?case by simp
next
  case (Cons x T)
  then show ?case by (auto simp: get_row_def rev_image_eqI)
qed

lemma keyed_inj: "keyed key T \<Longrightarrow> r \<in> set T \<Longrightarrow> r' \<in> set T \<Longrightarrow> key r = key r' \<Longrightarrow> r = r'"
  by (meson distinct_map inj_onD)

lemma get_row_append:
  "get_row key k (S @ T) = (case get_row key k S of None \<Rightarrow> get_row key k T | Some r \<Rightarrow> Some r)"
  by (induction S) (auto simp: get_row_def)

text \<open>A guarded statement whose guard includes the primary key touches at most one row.\<close>

lemma rowcount_keyed_le_one:
  assumes "keyed key T"
  shows "rowcount (\<lambda>r. key r = k \<and> Q r) T \<le> 1"
  using assms
proof (induction T)
  case Nil
  then show ?case by (simp add: rowcount_def)
next
  case (Cons x T)
  show ?case
  proof (cases "key x = k")
    case True
    then have "\<forall>r \<in> set T. key r \<noteq> k" using Cons.prems by (auto simp: image_iff)
    then have "filter (\<lambda>r. key r = k \<and> Q r) T = []" by (auto simp: filter_empty_conv)
    then show ?thesis by (simp add: rowcount_def)
  next
    case False
    then show ?thesis using Cons by (simp add: rowcount_def)
  qed
qed

lemma rowcount_one_iff:
  assumes "keyed key T"
  shows "rowcount (\<lambda>r. key r = k \<and> Q r) T = 1 \<longleftrightarrow> (\<exists>r \<in> set T. key r = k \<and> Q r)"
proof -
  let ?n = "rowcount (\<lambda>r. key r = k \<and> Q r) T"
  have "?n = 1 \<longleftrightarrow> ?n \<noteq> 0"
    using rowcount_keyed_le_one[OF assms, of k Q] by linarith
  then show ?thesis by (simp add: rowcount_zero_iff)
qed

lemma get_row_update_where:
  assumes "keyed key T" and "\<And>r. key (f r) = key r"
  shows "get_row key k (update_where P f T)
         = map_option (\<lambda>r. if P r then f r else r) (get_row key k T)"
  using assms(1) by (induction T) (auto simp: get_row_def update_where_Cons assms(2))

section \<open>Insertion-ordered counting dictionaries\<close>

type_synonym 'k tally = "('k \<times> nat) list"

fun bump :: "'k \<Rightarrow> 'k tally \<Rightarrow> 'k tally" where
  "bump k [] = [(k, 1)]"
| "bump k ((x, n) # d) = (if x = k then (x, Suc n) # d else (x, n) # bump k d)"

definition tally :: "'k list \<Rightarrow> 'k tally" where
  "tally ks = fold bump ks []"

definition tally_get :: "'k \<Rightarrow> 'k tally \<Rightarrow> nat" where
  "tally_get k d = (case map_of d k of None \<Rightarrow> 0 | Some n \<Rightarrow> n)"

lemma tally_Nil [tally_simps, simp]: "tally [] = []"
  by (simp add: tally_def)

lemma tally_snoc [tally_simps]: "tally (ks @ [k]) = bump k (tally ks)"
  by (simp add: tally_def)

lemma tally_get_bump [tally_simps]:
  "tally_get k (bump j d) = (if k = j then Suc (tally_get k d) else tally_get k d)"
  by (induction j d rule: bump.induct) (auto simp: tally_get_def)

lemma sum_bump [tally_simps]: "sum_list (map snd (bump k d)) = Suc (sum_list (map snd d))"
  by (induction k d rule: bump.induct) auto

lemma keys_bump: "fst ` set (bump k d) = insert k (fst ` set d)"
  by (induction k d rule: bump.induct) auto

lemma distinct_bump: "distinct (map fst d) \<Longrightarrow> distinct (map fst (bump k d))"
proof (induction k d rule: bump.induct)
  case (1 k)
  then show ?case by simp
next
  case (2 k x n d)
  have "x \<notin> fst ` set d" using 2 by simp
  then have "x \<noteq> k \<Longrightarrow> x \<notin> fst ` set (bump k d)" by (simp add: keys_bump)
  then show ?case using 2 by auto
qed

lemma tally_get_tally [tally_simps]: "tally_get k (tally ks) = count_list ks k"
  by (induction ks rule: rev_induct) (auto simp: tally_simps tally_get_def[of k "[]"])

lemma sum_tally [tally_simps]: "sum_list (map snd (tally ks)) = length ks"
  by (induction ks rule: rev_induct) (auto simp: tally_simps)

lemma keys_tally [tally_simps]: "fst ` set (tally ks) = set ks"
  by (induction ks rule: rev_induct) (auto simp: tally_simps keys_bump)

lemma distinct_tally: "distinct (map fst (tally ks))"
  by (induction ks rule: rev_induct) (auto simp: tally_simps distinct_bump)

section \<open>Lists\<close>

text \<open>\<open>enumerate(xs)\<close> from a starting index.\<close>

fun enum_from :: "nat \<Rightarrow> 'a list \<Rightarrow> (nat \<times> 'a) list" where
  "enum_from i [] = []"
| "enum_from i (x # xs) = (i, x) # enum_from (Suc i) xs"

abbreviation enum :: "'a list \<Rightarrow> (nat \<times> 'a) list" where
  "enum xs \<equiv> enum_from 0 xs"

lemma length_enum_from [simp]: "length (enum_from i xs) = length xs"
  by (induction i xs rule: enum_from.induct) auto

lemma map_snd_enum_from [simp]: "map snd (enum_from i xs) = xs"
  by (induction i xs rule: enum_from.induct) auto

lemma map_fst_enum_from [simp]: "map fst (enum_from i xs) = [i ..< i + length xs]"
  by (induction i xs rule: enum_from.induct) (simp_all add: upt_rec del: upt.simps)

lemma set_enum_from: "(j, x) \<in> set (enum_from i xs) \<longleftrightarrow> i \<le> j \<and> j < i + length xs \<and> xs ! (j - i) = x"
proof (induction i xs rule: enum_from.induct)
  case (1 i)
  then show ?case by simp
next
  case (2 i y xs)
  show ?case
  proof (cases "j = i")
    case True
    then show ?thesis using 2 by auto
  next
    case False
    then show ?thesis using 2 by (auto simp: nth_Cons' diff_Suc split: nat.splits)
  qed
qed

lemma nth_enum_from: "j < length xs \<Longrightarrow> enum_from i xs ! j = (i + j, xs ! j)"
  by (induction i xs arbitrary: j rule: enum_from.induct) (auto simp: nth_Cons split: nat.splits)

lemma nth_enum: "j < length xs \<Longrightarrow> enum xs ! j = (j, xs ! j)"
  by (simp add: nth_enum_from)

lemma enum_iff: "(j, x) \<in> set (enum xs) \<longleftrightarrow> j < length xs \<and> xs ! j = x"
  by (simp add: set_enum_from)

text \<open>Smallest element with a default: \<open>min(xs, default=d)\<close>.\<close>

definition min_default :: "'a::linorder \<Rightarrow> 'a list \<Rightarrow> 'a" where
  "min_default d xs = (if xs = [] then d else Min (set xs))"

lemma min_default_code [code]:
  "min_default d xs = (case xs of [] \<Rightarrow> d | x # ys \<Rightarrow> fold min ys x)"
  by (cases xs) (simp_all add: min_default_def Min.set_eq_fold del: list.set)

lemma min_default_le: "x \<in> set xs \<Longrightarrow> min_default d xs \<le> x"
  by (auto simp: min_default_def)

lemma min_default_in: "xs \<noteq> [] \<Longrightarrow> min_default d xs \<in> set xs"
  by (simp add: min_default_def)

lemma min_default_ge: "(\<And>x. x \<in> set xs \<Longrightarrow> b \<le> x) \<Longrightarrow> b \<le> d \<Longrightarrow> b \<le> min_default d xs"
  by (simp add: min_default_def)

text \<open>Sorting by a key is what Python's stable \<open>sorted(xs, key=k)\<close> computes.\<close>

lemma sort_key_prefix_le:
  assumes "x \<in> set (take n (sort_key k xs))" and "y \<in> set (drop n (sort_key k xs))"
  shows "k x \<le> k y"
proof -
  have s: "sorted (map k (take n (sort_key k xs) @ drop n (sort_key k xs)))"
    by (simp only: append_take_drop_id) simp
  from assms have "k x \<in> set (map k (take n (sort_key k xs)))"
    "k y \<in> set (map k (drop n (sort_key k xs)))" by auto
  with s show ?thesis unfolding map_append sorted_append by blast
qed

lemma filter_length_le_partition:
  "length (filter P xs) + length (filter (\<lambda>x. \<not> P x) xs) = length xs"
  by (rule sum_length_filter_compl)

end
