(* ===== verification/PyText.thy ===== *)
theory PyText
  imports Prelude "HOL-Library.Char_ord" "HOL-Library.List_Lexorder"
begin

text \<open>
  The operations of Python's \<open>str\<close> that the program uses.

  A Python string is represented by its UTF-8 encoding, a list of 8-bit characters.  Equality,
  membership (\<open>needle in s\<close>), \<open>replace\<close>, \<open>split\<close>, \<open>join\<close>, \<open>startswith\<close>, \<open>rfind\<close> comparisons and
  the code-point ordering used by \<open>sorted\<close> are the same on both representations, because UTF-8
  preserves order and no encoded character occurs inside another; \<open>len\<close> counts the bytes that are
  not continuation bytes.  The character classes and case mappings (\<open>strip\<close>, \<open>lower\<close>, \<open>upper\<close>,
  \<open>casefold\<close>, \<open>isdigit\<close>, \<open>isalpha\<close>) are Python's on ASCII text and leave every other character alone;
  the Unicode tables beyond ASCII are outside the model.
\<close>

named_theorems text_simps \<open>rewriting rules for string operations\<close>

section \<open>Characters\<close>

abbreviation code :: "char \<Rightarrow> nat" where
  "code c \<equiv> of_char c"

definition py_space :: "char \<Rightarrow> bool" where
  "py_space c \<longleftrightarrow> (9 \<le> code c \<and> code c \<le> 13) \<or> (28 \<le> code c \<and> code c \<le> 32)"

definition py_digit :: "char \<Rightarrow> bool" where
  "py_digit c \<longleftrightarrow> 48 \<le> code c \<and> code c \<le> 57"

definition py_upper_letter :: "char \<Rightarrow> bool" where
  "py_upper_letter c \<longleftrightarrow> 65 \<le> code c \<and> code c \<le> 90"

definition py_lower_letter :: "char \<Rightarrow> bool" where
  "py_lower_letter c \<longleftrightarrow> 97 \<le> code c \<and> code c \<le> 122"

definition py_alpha :: "char \<Rightarrow> bool" where
  "py_alpha c \<longleftrightarrow> py_upper_letter c \<or> py_lower_letter c"

definition lower_char :: "char \<Rightarrow> char" where
  "lower_char c = (if py_upper_letter c then char_of (code c + 32) else c)"

definition upper_char :: "char \<Rightarrow> char" where
  "upper_char c = (if py_lower_letter c then char_of (code c - 32) else c)"

lemma code_char_of [simp]: "n < 256 \<Longrightarrow> code (char_of n) = n"
  by (simp add: of_char_of)

lemma code_minus_mod [simp]: "(code c - n) mod 256 = code c - n"
  by (rule mod_less) (rule le_less_trans[OF diff_le_self nat_of_char_less_256])

lemma code_lower_char:
  "code (lower_char c) = (if py_upper_letter c then code c + 32 else code c)"
  by (simp add: lower_char_def py_upper_letter_def)

lemma code_upper_char:
  "code (upper_char c) = (if py_lower_letter c then code c - 32 else code c)"
  by (simp add: upper_char_def py_lower_letter_def)

lemma lower_char_idem [simp]: "lower_char (lower_char c) = lower_char c"
  by (simp add: lower_char_def py_upper_letter_def)

lemma upper_char_idem [simp]: "upper_char (upper_char c) = upper_char c"
  by (auto simp add: upper_char_def py_lower_letter_def)

lemma lower_char_upper_char [simp]: "lower_char (upper_char c) = lower_char c"
  by (auto simp add: upper_char_def lower_char_def py_lower_letter_def py_upper_letter_def)

lemma upper_char_lower_char [simp]: "upper_char (lower_char c) = upper_char c"
  by (simp add: upper_char_def lower_char_def py_lower_letter_def py_upper_letter_def)

lemma py_space_lower_char [simp]: "py_space (lower_char c) = py_space c"
  by (auto simp: lower_char_def py_space_def py_upper_letter_def)

lemma py_space_upper_char [simp]: "py_space (upper_char c) = py_space c"
  by (auto simp: upper_char_def py_space_def py_lower_letter_def)

section \<open>Whole strings\<close>

definition lower :: "string \<Rightarrow> string" where
  "lower s = map lower_char s"

definition upper :: "string \<Rightarrow> string" where
  "upper s = map upper_char s"

text \<open>On ASCII text \<open>casefold\<close> and \<open>lower\<close> agree.\<close>

definition casefold :: "string \<Rightarrow> string" where
  "casefold s = lower s"

definition lstrip :: "string \<Rightarrow> string" where
  "lstrip s = dropWhile py_space s"

definition rstrip :: "string \<Rightarrow> string" where
  "rstrip s = rev (dropWhile py_space (rev s))"

definition strip :: "string \<Rightarrow> string" where
  "strip s = rstrip (lstrip s)"

definition isdigit :: "string \<Rightarrow> bool" where
  "isdigit s \<longleftrightarrow> s \<noteq> [] \<and> list_all py_digit s"

definition isalpha :: "string \<Rightarrow> bool" where
  "isalpha s \<longleftrightarrow> s \<noteq> [] \<and> list_all py_alpha s"

definition py_len :: "string \<Rightarrow> nat" where
  "py_len s = length (filter (\<lambda>c. code c div 64 \<noteq> 2) s)"

lemma lower_simps [text_simps, simp]:
  "lower [] = []" "lower (c # s) = lower_char c # lower s" "lower (s @ t) = lower s @ lower t"
  "lower (lower s) = lower s" "length (lower s) = length s" "(lower s = []) = (s = [])"
  by (simp_all add: lower_def)

lemma upper_simps [text_simps, simp]:
  "upper [] = []" "upper (c # s) = upper_char c # upper s" "upper (s @ t) = upper s @ upper t"
  "upper (upper s) = upper s" "length (upper s) = length s" "(upper s = []) = (s = [])"
  by (simp_all add: upper_def)

lemma lower_upper [text_simps, simp]: "lower (upper s) = lower s"
  by (simp add: lower_def upper_def)

lemma upper_lower [text_simps, simp]: "upper (lower s) = upper s"
  by (simp add: lower_def upper_def)

subsection \<open>Stripping\<close>

lemma strip_empty [simp]: "strip [] = []"
  by (simp add: strip_def lstrip_def rstrip_def)

lemma lstrip_eq_self_iff: "lstrip s = s \<longleftrightarrow> s = [] \<or> \<not> py_space (hd s)"
  by (simp add: lstrip_def dropWhile_eq_self_iff)

lemma rstrip_eq_self_iff: "rstrip s = s \<longleftrightarrow> s = [] \<or> \<not> py_space (last s)"
proof -
  have "rstrip s = s \<longleftrightarrow> lstrip (rev s) = rev s"
    by (metis lstrip_def rev_rev_ident rstrip_def)
  also have "\<dots> \<longleftrightarrow> s = [] \<or> \<not> py_space (last s)"
    by (simp add: lstrip_eq_self_iff hd_rev)
  finally show ?thesis .
qed

lemma lstrip_idem [text_simps, simp]: "lstrip (lstrip s) = lstrip s"
  by (simp add: lstrip_def)

lemma rstrip_idem [text_simps, simp]: "rstrip (rstrip s) = rstrip s"
  by (simp add: rstrip_def)

lemma rstrip_append_spaces: "\<exists>u. s = rstrip s @ u \<and> list_all py_space u"
proof (intro exI conjI)
  show "s = rstrip s @ rev (takeWhile py_space (rev s))"
    unfolding rstrip_def by (metis rev_append rev_rev_ident takeWhile_dropWhile_id)
  show "list_all py_space (rev (takeWhile py_space (rev s)))"
    by (auto simp: list_all_iff dest: set_takeWhileD)
qed

lemma lstrip_append_spaces: "\<exists>u. s = u @ lstrip s \<and> list_all py_space u"
  unfolding lstrip_def
  by (metis list_all_iff set_takeWhileD takeWhile_dropWhile_id)

lemma strip_hd: "strip s \<noteq> [] \<Longrightarrow> \<not> py_space (hd (strip s))"
proof -
  assume ne: "strip s \<noteq> []"
  obtain u where u: "lstrip s = strip s @ u"
    using rstrip_append_spaces[of "lstrip s"] by (auto simp: strip_def)
  have "hd (strip s) = hd (lstrip s)" using u ne by simp
  moreover have "lstrip s \<noteq> []" using u ne by simp
  ultimately show ?thesis
    by (metis hd_dropWhile lstrip_def)
qed

lemma strip_last: "strip s \<noteq> [] \<Longrightarrow> \<not> py_space (last (strip s))"
  by (metis rstrip_eq_self_iff rstrip_idem strip_def)

lemma strip_eq_empty_iff: "strip s = [] \<longleftrightarrow> list_all py_space s"
proof
  assume "strip s = []"
  then show "list_all py_space s"
    using rstrip_append_spaces[of "lstrip s"] lstrip_append_spaces[of s]
    by (metis append_Nil list_all_append strip_def)
next
  assume "list_all py_space s"
  then have "lstrip s = []" by (simp add: lstrip_def list_all_iff)
  then show "strip s = []" by (simp add: strip_def rstrip_def)
qed

lemma strip_idem [text_simps, simp]: "strip (strip s) = strip s"
proof (cases "strip s = []")
  case True
  then show ?thesis by simp
next
  case False
  then have "lstrip (strip s) = strip s"
    using strip_hd lstrip_eq_self_iff by blast
  then show ?thesis by (metis rstrip_idem strip_def)
qed

lemma lstrip_lower: "lstrip (lower s) = lower (lstrip s)"
  by (simp add: lstrip_def lower_def dropWhile_map comp_def)

lemma rstrip_lower: "rstrip (lower s) = lower (rstrip s)"
  by (simp add: rstrip_def lower_def dropWhile_map comp_def rev_map)

lemma strip_lower: "strip (lower s) = lower (strip s)"
  by (simp add: strip_def lstrip_lower rstrip_lower)


lemma strip_fixed: "s \<noteq> [] \<Longrightarrow> \<not> py_space (hd s) \<Longrightarrow> \<not> py_space (last s) \<Longrightarrow> strip s = s"
  by (simp add: strip_def lstrip_eq_self_iff[THEN iffD2] rstrip_eq_self_iff[THEN iffD2])

subsection \<open>Splitting, joining, searching and replacing\<close>

fun split_on :: "char \<Rightarrow> string \<Rightarrow> string list" where
  "split_on d [] = [[]]"
| "split_on d (c # s) =
     (if c = d then [] # split_on d s
      else (case split_on d s of [] \<Rightarrow> [[c]] | w # ws \<Rightarrow> (c # w) # ws))"

fun join :: "string \<Rightarrow> string list \<Rightarrow> string" where
  "join sep [] = []"
| "join sep [w] = w"
| "join sep (w # v # ws) = w @ sep @ join sep (v # ws)"

lemma split_on_ne [simp]: "split_on d s \<noteq> []"
  by (induction s) (auto split: list.splits)

lemma join_split_on: "join [d] (split_on d s) = s"
proof (induction s)
  case Nil
  then show ?case by simp
next
  case (Cons c s)
  obtain w ws where w: "split_on d s = w # ws"
    by (metis neq_Nil_conv split_on_ne)
  show ?case
    using Cons w by (cases ws) auto
qed

lemma length_split_on: "length (split_on d s) = Suc (count_list s d)"
proof (induction s)
  case Nil
  then show ?case by simp
next
  case (Cons c s)
  then show ?case by (cases "split_on d s") auto
qed

definition starts_with :: "string \<Rightarrow> string \<Rightarrow> bool" where
  "starts_with p s \<longleftrightarrow> take (length p) s = p"

definition ends_with :: "string \<Rightarrow> string \<Rightarrow> bool" where
  "ends_with p s \<longleftrightarrow> starts_with (rev p) (rev s)"

fun contains :: "string \<Rightarrow> string \<Rightarrow> bool" where
  "contains p [] \<longleftrightarrow> p = []"
| "contains p (c # s) \<longleftrightarrow> starts_with p (c # s) \<or> contains p s"

definition replace_char :: "char \<Rightarrow> string \<Rightarrow> string \<Rightarrow> string" where
  "replace_char d r s = concat (map (\<lambda>c. if c = d then r else [c]) s)"

text \<open>\<open>s.replace(old, new)\<close> for a non-empty \<open>old\<close>: leftmost, non-overlapping occurrences.\<close>

function replace_str :: "string \<Rightarrow> string \<Rightarrow> string \<Rightarrow> string" where
  "replace_str old new s =
     (case s of [] \<Rightarrow> []
      | c # t \<Rightarrow>
          (if old \<noteq> [] \<and> starts_with old s then new @ replace_str old new (drop (length old) s)
           else c # replace_str old new t))"
  by pat_completeness auto
termination
  by (relation "measure (\<lambda>(old, new, s). length s)") auto

declare replace_str.simps [simp del]

text \<open>\<open>s.rfind(c)\<close>: the last index of a character, or \<open>-1\<close>.\<close>

fun rfind_from :: "int \<Rightarrow> int \<Rightarrow> char \<Rightarrow> string \<Rightarrow> int" where
  "rfind_from i best d [] = best"
| "rfind_from i best d (c # s) = rfind_from (i + 1) (if c = d then i else best) d s"

definition rfind :: "char \<Rightarrow> string \<Rightarrow> int" where
  "rfind d s = rfind_from 0 (-1) d s"

lemma replace_char_simps [simp]:
  "replace_char d r [] = []"
  "replace_char d r (c # s) = (if c = d then r else [c]) @ replace_char d r s"
  by (simp_all add: replace_char_def)

lemma replace_char_absent: "d \<notin> set s \<Longrightarrow> replace_char d r s = s"
  by (induction s) auto

lemma replace_char_removes: "d \<notin> set r \<Longrightarrow> d \<notin> set (replace_char d r s)"
  by (induction s) auto

lemma replace_char_idem: "d \<notin> set r \<Longrightarrow> replace_char d r (replace_char d r s) = replace_char d r s"
  by (simp add: replace_char_absent replace_char_removes)

lemma replace_char_delete: "replace_char d [] s = filter (\<lambda>c. c \<noteq> d) s"
  by (induction s) auto

subsection \<open>Whitespace patterns\<close>

text \<open>\<open>re.sub(r"\s+", r, s)\<close>: every maximal run of whitespace becomes \<open>r\<close>.\<close>

function sub_ws :: "string \<Rightarrow> string \<Rightarrow> string" where
  "sub_ws r [] = []"
| "sub_ws r (c # s) =
     (if py_space c then r @ sub_ws r (dropWhile py_space s) else c # sub_ws r s)"
  by pat_completeness auto
termination
  by (relation "measure (\<lambda>(r, s). length s)") (auto simp: le_imp_less_Suc length_dropWhile_le)

text \<open>
  \<open>re.sub(r"(\S)\s{2,}(\S)", r"\1 \2", s)\<close>.  The scan is leftmost and does not overlap: the
  character matched by the second group is consumed (with its UTF-8 continuation bytes), so it
  cannot start the next match.
\<close>

definition py_cont :: "char \<Rightarrow> bool" where
  "py_cont c \<longleftrightarrow> code c div 64 = 2"

function sub_multispace :: "string \<Rightarrow> string" where
  "sub_multispace [] = []"
| "sub_multispace (c # s) =
     (case dropWhile py_space s of
        [] \<Rightarrow> c # sub_multispace s
      | d # r \<Rightarrow>
          (if \<not> py_space c \<and> 2 \<le> length (takeWhile py_space s)
           then c # CHR '' '' # d # takeWhile py_cont r @ sub_multispace (dropWhile py_cont r)
           else c # sub_multispace s))"
  by pat_completeness auto
termination
proof (relation "measure length", goal_cases)
  case 1 show ?case by simp
next
  case 2 show ?case by simp
next
  case (3 c s d r)
  have "length (dropWhile py_cont r) \<le> length r" by (rule length_dropWhile_le)
  also have "length r < length (dropWhile py_space s)" using 3 by simp
  also have "\<dots> \<le> length s" by (rule length_dropWhile_le)
  finally show ?case by simp
next
  case 4 then show ?case by simp
qed

text \<open>\<open>re.search(r"\S\s{2,}\S", s)\<close>.\<close>

fun has_multispace :: "string \<Rightarrow> bool" where
  "has_multispace [] = False"
| "has_multispace (c # s) =
     (\<not> py_space c \<and> 2 \<le> length (takeWhile py_space s) \<and> dropWhile py_space s \<noteq> []
      \<or> has_multispace s)"


declare sub_multispace.simps(2) [simp del]

lemma length_sub_multispace: "length (sub_multispace s) \<le> length s"
  and sub_multispace_shrinks: "has_multispace s \<Longrightarrow> length (sub_multispace s) < length s"
proof (induction s rule: sub_multispace.induct)
  case 1
  show "length (sub_multispace []) \<le> length ([] :: string)" by simp
  show "length (sub_multispace []) < length ([] :: string)" if "has_multispace []"
    using that by simp
next
  case (2 c s)
  have len_s: "length s = length (takeWhile py_space s) + length (dropWhile py_space s)"
    by (metis length_append takeWhile_dropWhile_id)
  show "length (sub_multispace (c # s)) \<le> length (c # s)"
  proof (cases "dropWhile py_space s")
    case Nil
    then show ?thesis using 2(1)[OF Nil] by (simp add: sub_multispace.simps(2) del: dropWhile_eq_Nil_conv)
  next
    case (Cons d r)
    have len_r: "length r = length (takeWhile py_cont r) + length (dropWhile py_cont r)"
      by (metis length_append takeWhile_dropWhile_id)
    show ?thesis
    proof (cases "\<not> py_space c \<and> 2 \<le> length (takeWhile py_space s)")
      case True
      then show ?thesis using 2(3)[OF Cons True] Cons len_s len_r
        by (simp add: sub_multispace.simps(2) del: dropWhile_eq_Nil_conv)
    next
      case False
      then show ?thesis using 2(5)[OF Cons False] Cons False
        by (simp only: sub_multispace.simps(2) list.case if_False) simp
    qed
  qed
  show "length (sub_multispace (c # s)) < length (c # s)" if m: "has_multispace (c # s)"
  proof (cases "dropWhile py_space s")
    case Nil
    then show ?thesis using 2(2)[OF Nil] m by (simp add: sub_multispace.simps(2) del: dropWhile_eq_Nil_conv)
  next
    case (Cons d r)
    have len_r: "length r = length (takeWhile py_cont r) + length (dropWhile py_cont r)"
      by (metis length_append takeWhile_dropWhile_id)
    show ?thesis
    proof (cases "\<not> py_space c \<and> 2 \<le> length (takeWhile py_space s)")
      case True
      then show ?thesis using 2(3)[OF Cons True] Cons len_s len_r
        by (simp add: sub_multispace.simps(2) del: dropWhile_eq_Nil_conv)
    next
      case False
      then have "has_multispace s" using m Cons by auto
      then show ?thesis using 2(6)[OF Cons False] Cons False
        by (simp only: sub_multispace.simps(2) list.case if_False) simp
    qed
  qed
qed

lemma sub_multispace_no_match: "\<not> has_multispace s \<Longrightarrow> sub_multispace s = s"
proof (induction s)
  case Nil
  then show ?case by simp
next
  case (Cons c s)
  then show ?case by (cases "dropWhile py_space s") (auto simp: sub_multispace.simps(2) simp del: dropWhile_eq_Nil_conv)
qed

lemma sub_multispace_eq_iff: "sub_multispace s = s \<longleftrightarrow> \<not> has_multispace s"
  using sub_multispace_no_match sub_multispace_shrinks by fastforce

text \<open>Collapsing every run of whitespace.\<close>

lemma sub_ws_hd: "s \<noteq> [] \<Longrightarrow> \<not> py_space (hd s) \<Longrightarrow> sub_ws r s \<noteq> [] \<and> hd (sub_ws r s) = hd s"
  by (cases s) auto

lemma sub_ws_drop_lead: "dropWhile py_space (sub_ws '' '' (dropWhile py_space s))
    = sub_ws '' '' (dropWhile py_space s)"
proof (cases "dropWhile py_space s")
  case Nil
  then show ?thesis by (simp del: dropWhile_eq_Nil_conv)
next
  case (Cons c t)
  then have "\<not> py_space c" by (metis hd_dropWhile list.distinct(1) list.sel(1))
  then show ?thesis using Cons by simp
qed

lemma py_space_blank [simp]: "py_space CHR '' ''"
  by (simp add: py_space_def)

lemma sub_ws_idem: "sub_ws '' '' (sub_ws '' '' s) = sub_ws '' '' s"
proof (induction "'' ''" s rule: sub_ws.induct)
  case 1
  then show ?case by simp
next
  case (2 c s)
  then show ?case by (simp add: sub_ws_drop_lead)
qed

lemma sub_ws_last:
  "s \<noteq> [] \<Longrightarrow> \<not> py_space (last s) \<Longrightarrow> sub_ws r s \<noteq> [] \<and> last (sub_ws r s) = last s"
proof (induction r s rule: sub_ws.induct)
  case 1
  then show ?case by simp
next
  case (2 r c s)
  have *: "dropWhile py_space s \<noteq> [] \<and> last (dropWhile py_space s) = last s"
    if "s \<noteq> []" "\<not> py_space (last s)"
    using that by (metis dropWhile_eq_Nil_conv dropWhile_last last_in_set)
  then show ?case using 2 by (cases "s = []") (auto simp del: dropWhile_eq_Nil_conv)
qed

lemma strip_sub_ws_strip: "strip (sub_ws '' '' (strip s)) = sub_ws '' '' (strip s)"
proof (cases "strip s = []")
  case True
  then show ?thesis by simp
next
  case False
  with sub_ws_hd[OF False strip_hd[OF False]] sub_ws_last[OF False strip_last[OF False]]
  show ?thesis by (metis strip_fixed strip_hd strip_last)
qed

subsection \<open>Title case of \<open>str.title()\<close>\<close>

text \<open>The first letter of every maximal run of letters is upper case, the others lower case.\<close>

fun title_from :: "bool \<Rightarrow> string \<Rightarrow> string" where
  "title_from prev [] = []"
| "title_from prev (c # s) =
     (if py_alpha c then (if prev then lower_char c else upper_char c) # title_from True s
      else c # title_from False s)"

definition title :: "string \<Rightarrow> string" where
  "title s = title_from False s"

section \<open>Printing numbers\<close>

fun show_nat :: "nat \<Rightarrow> string" where
  "show_nat n = (if n < 10 then [char_of (48 + n)] else show_nat (n div 10) @ [char_of (48 + n mod 10)])"

declare show_nat.simps [simp del]

end
