(* ===== verification/PyFloat.thy ===== *)
theory PyFloat
  imports Prelude "HOL-Library.Log_Nat" Complex_Main
begin

text \<open>
  Python's \<open>float\<close> as the rational number it denotes.

  \<open>fl\<close> is IEEE-754 binary64 rounding to nearest, ties to even: 53 significant bits, with the fixed
  exponent \<open>-1074\<close> below the normal range.  Every arithmetic operation of the program is the exact
  operation followed by \<open>fl\<close>.  Results beyond \<open>1.8e308\<close> (infinities) and NaN are outside the model;
  a negative zero is the number zero.
\<close>

named_theorems float_simps \<open>rewriting rules for rounding\<close>

definition pow2 :: "int \<Rightarrow> rat" where
  "pow2 e = (if 0 \<le> e then 2 ^ nat e else 1 / 2 ^ nat (- e))"

text \<open>The binary exponent of a positive number: \<open>pow2 (exponent x) \<le> x < pow2 (exponent x + 1)\<close>.\<close>

definition exponent :: "rat \<Rightarrow> int" where
  "exponent x = (let (p, q) = quotient_of x; k = bitlen p - bitlen q
                 in if pow2 k \<le> x then k else k - 1)"

definition round_even :: "rat \<Rightarrow> int" where
  "round_even x =
     (let n = \<lfloor>x\<rfloor>; r = x - of_int n
      in if r < 1 / 2 then n else if 1 / 2 < r then n + 1 else if even n then n else n + 1)"

definition ulp_exp :: "rat \<Rightarrow> int" where
  "ulp_exp x = max (- 1074) (exponent \<bar>x\<bar> - 52)"

definition fl :: "rat \<Rightarrow> rat" where
  "fl x = (if x = 0 then 0 else of_int (round_even (x / pow2 (ulp_exp x))) * pow2 (ulp_exp x))"

section \<open>Powers of two\<close>

lemma pow2_pos [simp]: "0 < pow2 e"
  by (simp add: pow2_def)

lemma pow2_nonneg [simp]: "0 \<le> pow2 e"
  by (rule less_imp_le) simp

lemma pow2_neq0 [simp]: "pow2 e \<noteq> 0"
  by (metis less_irrefl pow2_pos)

lemma pow2_powi: "pow2 e = 2 powi e"
  by (simp add: pow2_def power_int_def power_one_over inverse_eq_divide)

lemma pow2_add: "pow2 (a + b) = pow2 a * pow2 b"
  by (simp add: pow2_powi power_int_add)

lemma pow2_0 [simp]: "pow2 0 = 1"
  by (simp add: pow2_def)

lemma pow2_Suc: "pow2 (e + 1) = 2 * pow2 e"
  by (simp add: pow2_add) (simp add: pow2_def)

lemma pow2_mono: "a \<le> b \<Longrightarrow> pow2 a \<le> pow2 b"
  by (simp add: pow2_powi power_int_increasing)

lemma pow2_strict_mono: "a < b \<Longrightarrow> pow2 a < pow2 b"
  by (simp add: pow2_powi power_int_strict_increasing)

lemma pow2_less_iff: "pow2 a < pow2 b \<longleftrightarrow> a < b"
  using pow2_mono[of b a] pow2_strict_mono[of a b] by fastforce

lemma pow2_div: "pow2 a / pow2 b = pow2 (a - b)"
proof -
  have "pow2 a = pow2 (a - b) * pow2 b" using pow2_add[of "a - b" b] by simp
  then show ?thesis by simp
qed

lemma pow2_nat: "pow2 (int n) = 2 ^ n"
  by (simp add: pow2_def)

section \<open>The exponent\<close>

lemma bitlen_pow2_bounds: "0 < p \<Longrightarrow> pow2 (bitlen p - 1) \<le> of_int p \<and> of_int p < pow2 (bitlen p)"
proof -
  assume p: "0 < p"
  have b: "0 < bitlen p" using bitlen_nonneg[of p] bitlen_eq_zero_iff[of p] p by linarith
  have "2 ^ nat (bitlen p - 1) \<le> p" "p < 2 ^ nat (bitlen p)"
    using bitlen_bounds[OF p] by simp_all
  then have "(2::rat) ^ nat (bitlen p - 1) \<le> of_int p" "of_int p < (2::rat) ^ nat (bitlen p)"
    by (metis of_int_le_iff of_int_numeral of_int_power, metis of_int_less_iff of_int_numeral of_int_power)
  then show ?thesis using b by (simp add: pow2_def)
qed

lemma exponent_bounds:
  assumes x: "0 < x"
  shows "pow2 (exponent x) \<le> x" and "x < pow2 (exponent x + 1)"
proof -
  obtain p q where pq: "quotient_of x = (p, q)" by (cases "quotient_of x")
  have q: "0 < q" using quotient_of_denom_pos[OF pq] .
  have xe: "x = of_int p / of_int q" using quotient_of_div[OF pq] .
  have p: "0 < p" using x q xe by (simp add: zero_less_divide_iff)
  let ?k = "bitlen p - bitlen q"
  have bp: "pow2 (bitlen p - 1) \<le> of_int p" "of_int p < pow2 (bitlen p)"
    and bq: "pow2 (bitlen q - 1) \<le> of_int q" "of_int q < pow2 (bitlen q)"
    using bitlen_pow2_bounds[OF p] bitlen_pow2_bounds[OF q] by auto
  have q0: "(0::rat) < of_int q" using q by simp
  have "pow2 (?k - 1) * of_int q \<le> pow2 (?k - 1) * pow2 (bitlen q)"
    using bq(2) by (intro mult_left_mono) auto
  also have "\<dots> = pow2 (bitlen p - 1)" by (simp add: pow2_add[symmetric])
  also have "\<dots> \<le> of_int p" by (rule bp(1))
  finally have lo: "pow2 (?k - 1) \<le> x" using q0 by (simp add: xe pos_le_divide_eq)
  have "of_int p < pow2 (bitlen p)" by (rule bp(2))
  also have "\<dots> = pow2 (?k + 1) * pow2 (bitlen q - 1)" by (simp add: pow2_add[symmetric])
  also have "\<dots> \<le> pow2 (?k + 1) * of_int q" using bq(1) by (intro mult_left_mono) auto
  finally have hi: "x < pow2 (?k + 1)" using q0 by (simp add: xe pos_divide_less_eq)
  show "pow2 (exponent x) \<le> x" using lo by (simp add: exponent_def pq Let_def)
  show "x < pow2 (exponent x + 1)" using hi by (simp add: exponent_def pq Let_def)
qed

lemma exponent_mono:
  assumes "0 < x" "x \<le> y"
  shows "exponent x \<le> exponent y"
proof -
  have "pow2 (exponent x) < pow2 (exponent y + 1)"
    using exponent_bounds(1)[OF assms(1)] exponent_bounds(2)[of y] assms by linarith
  then show ?thesis by (simp add: pow2_less_iff)
qed

section \<open>Rounding to an integer\<close>

lemma round_even_mono: "x \<le> y \<Longrightarrow> round_even x \<le> round_even y"
proof -
  assume xy: "x \<le> y"
  have fl: "\<lfloor>x\<rfloor> \<le> \<lfloor>y\<rfloor>" using xy by (rule floor_mono)
  show ?thesis
  proof (cases "\<lfloor>x\<rfloor> = \<lfloor>y\<rfloor>")
    case True
    then show ?thesis using xy by (auto simp: round_even_def Let_def)
  next
    case False
    have "round_even x \<le> \<lfloor>x\<rfloor> + 1" "\<lfloor>y\<rfloor> \<le> round_even y"
      by (auto simp: round_even_def Let_def)
    then show ?thesis using fl False by linarith
  qed
qed

lemma round_even_of_int [simp]: "round_even (of_int n) = n"
  by (simp add: round_even_def Let_def)

lemma round_even_minus: "round_even (- x) = - round_even x"
proof (cases "x = of_int \<lfloor>x\<rfloor>")
  case True
  then show ?thesis by (metis of_int_minus round_even_of_int)
next
  case False
  then have "of_int \<lfloor>x\<rfloor> < x" by (metis of_int_floor_le order_le_less)
  then have f: "\<lfloor>- x\<rfloor> = - \<lfloor>x\<rfloor> - 1"
    by (intro floor_unique) (use floor_correct[of x] in auto)
  show ?thesis
    by (auto simp: round_even_def Let_def f field_simps)
qed

section \<open>Rounding to a double\<close>

lemma fl_0 [simp]: "fl 0 = 0"
  by (simp add: fl_def)

lemma fl_minus: "fl (- x) = - fl x"
  by (simp add: fl_def ulp_exp_def round_even_minus)

lemma fl_eqI: "x = of_int n * pow2 (ulp_exp x) \<Longrightarrow> fl x = x"
  by (simp add: fl_def) (metis nonzero_eq_divide_eq pow2_neq0 round_even_of_int)

lemma fl_bounds:
  assumes x: "0 < x"
  shows "fl x \<le> pow2 (max (exponent x + 1) (- 1074))"
    and "- 1022 \<le> exponent x \<Longrightarrow> pow2 (exponent x) \<le> fl x"
proof -
  let ?e = "ulp_exp x"
  have fx: "fl x = of_int (round_even (x / pow2 ?e)) * pow2 ?e" using x by (simp add: fl_def)
  have e: "?e = max (- 1074) (exponent x - 52)" using x by (simp add: ulp_exp_def)
  define m where "m = nat (max (exponent x + 1) (- 1074) - ?e)"
  have m: "int m = max (exponent x + 1) (- 1074) - ?e" unfolding m_def e by auto
  have "x \<le> pow2 (max (exponent x + 1) (- 1074))"
    using exponent_bounds(2)[OF x] pow2_mono[of "exponent x + 1" "max (exponent x + 1) (- 1074)"] by linarith
  then have "x / pow2 ?e \<le> pow2 (max (exponent x + 1) (- 1074)) / pow2 ?e"
    by (intro divide_right_mono) auto
  also have "\<dots> = of_int (2 ^ m)" unfolding pow2_div m[symmetric] by (simp add: pow2_nat)
  finally have "round_even (x / pow2 ?e) \<le> 2 ^ m"
    using round_even_mono round_even_of_int by metis
  then have "of_int (round_even (x / pow2 ?e)) \<le> (of_int (2 ^ m) :: rat)"
    by (simp only: of_int_le_iff)
  then have "fl x \<le> of_int (2 ^ m) * pow2 ?e" unfolding fx by (intro mult_right_mono) auto
  also have "\<dots> = pow2 (max (exponent x + 1) (- 1074))"
    using m by (simp add: pow2_nat[symmetric] pow2_add[symmetric])
  finally show "fl x \<le> pow2 (max (exponent x + 1) (- 1074))" .
  show "pow2 (exponent x) \<le> fl x" if n: "- 1022 \<le> exponent x"
  proof -
    have e': "?e = exponent x - 52" using n e by simp
    have "of_int (2 ^ 52) = pow2 (exponent x) / pow2 ?e"
      unfolding pow2_div e' by (simp add: pow2_def)
    also have "\<dots> \<le> x / pow2 ?e" using exponent_bounds(1)[OF x] by (intro divide_right_mono) auto
    finally have "2 ^ 52 \<le> round_even (x / pow2 ?e)"
      using round_even_mono round_even_of_int by metis
    then have "(of_int (2 ^ 52) :: rat) \<le> of_int (round_even (x / pow2 ?e))"
      by (simp only: of_int_le_iff)
    then have "of_int (2 ^ 52) * pow2 ?e \<le> fl x" unfolding fx by (intro mult_right_mono) auto
    moreover have "of_int (2 ^ 52) * pow2 ?e = pow2 (exponent x)"
      unfolding e' using pow2_add[of 52 "exponent x - 52"] by (simp add: pow2_def[of 52])
    ultimately show ?thesis by simp
  qed
qed

lemma fl_nonneg: "0 \<le> x \<Longrightarrow> 0 \<le> fl x"
proof (cases "x = 0")
  case False
  assume "0 \<le> x"
  then have "of_int 0 \<le> x / pow2 (ulp_exp x)" by simp
  then have "0 \<le> round_even (x / pow2 (ulp_exp x))" using round_even_mono round_even_of_int by metis
  then show ?thesis by (simp add: fl_def)
qed simp

lemma fl_mono_pos:
  assumes x: "0 < x" and xy: "x \<le> y"
  shows "fl x \<le> fl y"
proof -
  have y: "0 < y" using assms by linarith
  show ?thesis
  proof (cases "ulp_exp x = ulp_exp y")
    case True
    have "x / pow2 (ulp_exp y) \<le> y / pow2 (ulp_exp y)" using xy by (intro divide_right_mono) auto
    then have "round_even (x / pow2 (ulp_exp y)) \<le> round_even (y / pow2 (ulp_exp y))"
      by (rule round_even_mono)
    then show ?thesis using x y True by (simp add: fl_def mult_right_mono)
  next
    case False
    have ex: "exponent x \<le> exponent y" by (rule exponent_mono[OF assms])
    have lt: "exponent x < exponent y" "- 1022 \<le> exponent y"
      using False ex x y by (auto simp: ulp_exp_def)
    have "fl x \<le> pow2 (max (exponent x + 1) (- 1074))" by (rule fl_bounds(1)[OF x])
    also have "\<dots> \<le> pow2 (exponent y)" using lt by (intro pow2_mono) auto
    also have "\<dots> \<le> fl y" by (rule fl_bounds(2)[OF y lt(2)])
    finally show ?thesis .
  qed
qed

lemma fl_mono: "x \<le> y \<Longrightarrow> fl x \<le> fl y"
proof -
  assume xy: "x \<le> y"
  consider "0 < x" | "x \<le> 0" "0 \<le> y" | "y < 0" by linarith
  then show ?thesis
  proof cases
    case 1
    then show ?thesis using fl_mono_pos xy by blast
  next
    case 2
    then have "fl x \<le> 0" "0 \<le> fl y"
      using fl_nonneg[of "- x"] fl_nonneg[of y] by (simp_all add: fl_minus)
    then show ?thesis by linarith
  next
    case 3
    then have "fl (- y) \<le> fl (- x)" using xy by (intro fl_mono_pos) auto
    then show ?thesis by (simp add: fl_minus)
  qed
qed

lemma fl_1 [simp]: "fl 1 = 1"
proof -
  have e: "exponent 1 = 0"
  proof -
    have "(1::rat) < pow2 1" by (simp add: pow2_def)
    then have "pow2 (exponent 1) < pow2 1" "pow2 0 < pow2 (exponent 1 + 1)"
      using exponent_bounds[of 1] by simp_all
    then show ?thesis unfolding pow2_less_iff by simp
  qed
  have "(1::rat) = of_int (2 ^ 52) * pow2 (- 52)" by (simp add: pow2_def)
  then show ?thesis by (intro fl_eqI[where n = "2 ^ 52"]) (simp add: ulp_exp_def e)
qed

lemma fl_unit: "0 \<le> x \<Longrightarrow> x \<le> 1 \<Longrightarrow> 0 \<le> fl x \<and> fl x \<le> 1"
  using fl_nonneg[of x] fl_mono[of x 1] by simp

section \<open>Decimal rounding of floats\<close>

text \<open>\<open>round(x, n)\<close>: the exact value rounded to \<open>n\<close> decimals, ties to even, then to the nearest double.\<close>

definition py_round :: "rat \<Rightarrow> nat \<Rightarrow> rat" where
  "py_round x n = fl (of_int (round_even (x * 10 ^ n)) / 10 ^ n)"

lemma py_round_unit: "0 \<le> x \<Longrightarrow> x \<le> 1 \<Longrightarrow> 0 \<le> py_round x n \<and> py_round x n \<le> 1"
proof -
  assume x: "0 \<le> x" "x \<le> 1"
  have "of_int 0 \<le> x * 10 ^ n" "x * 10 ^ n \<le> of_int (10 ^ n)"
    using x by (simp_all add: mult_left_le_one_le)
  then have "0 \<le> round_even (x * 10 ^ n)" "round_even (x * 10 ^ n) \<le> 10 ^ n"
    using round_even_mono round_even_of_int by metis+
  then have "(0::rat) \<le> of_int (round_even (x * 10 ^ n))"
      "of_int (round_even (x * 10 ^ n)) \<le> (of_int (10 ^ n) :: rat)"
    by (simp_all only: of_int_le_iff of_int_0_le_iff)
  then show ?thesis unfolding py_round_def by (intro fl_unit) (simp_all add: divide_le_eq)
qed

end
