(* ===== verification/PyDecimal.thy ===== *)
theory PyDecimal
  imports PyText PyFloat
begin

text \<open>
  Numerals: what \<open>decimal.Decimal(s)\<close> and \<open>float(s)\<close> accept, and the numbers they denote.

  \<open>Decimal\<close> strips whitespace, drops every underscore, and accepts a decimal numeral, an infinity
  or a NaN; a numeral outside the largest context raises \<open>InvalidOperation\<close>.  \<open>float\<close> accepts the
  same numerals, but an underscore only between two digits.  The names of infinities and NaNs are
  not accepted by the \<open>float_of\<close> of this theory: the program never passes one to \<open>float\<close>.
\<close>

datatype decimal = Finite bool nat int | Infinite bool | NotANumber

definition digits_value :: "string \<Rightarrow> nat" where
  "digits_value s = foldl (\<lambda>n c. 10 * n + (code c - 48)) 0 s"

fun split_sign :: "string \<Rightarrow> bool \<times> string" where
  "split_sign [] = (False, [])"
| "split_sign (c # s) =
     (if c = CHR ''-'' then (True, s) else if c = CHR ''+'' then (False, s) else (False, c # s))"

definition parse_exponent :: "string \<Rightarrow> int option" where
  "parse_exponent s =
     (case s of [] \<Rightarrow> Some 0
      | c # t \<Rightarrow>
          (let (neg, u) = split_sign t in
           if lower_char c = CHR ''e'' \<and> isdigit u
           then Some (if neg then - int (digits_value u) else int (digits_value u))
           else None))"

text \<open>\<open>[sign] digits [. digits] [e [sign] digits]\<close>: sign, coefficient and exponent.\<close>

definition parse_numeral :: "string \<Rightarrow> (bool \<times> nat \<times> int) option" where
  "parse_numeral s =
     (let (neg, u) = split_sign s;
          ip = takeWhile py_digit u; r = dropWhile py_digit u;
          (fp, r') = (case r of [] \<Rightarrow> ([], [])
                      | c # t \<Rightarrow> if c = CHR ''.'' then (takeWhile py_digit t, dropWhile py_digit t)
                                 else ([], c # t))
      in if ip = [] \<and> fp = [] then None
         else map_option (\<lambda>e. (neg, digits_value (ip @ fp), e - int (length fp))) (parse_exponent r'))"

fun count_digits :: "nat \<Rightarrow> nat" where
  "count_digits n = (if n < 10 then 1 else Suc (count_digits (n div 10)))"

declare count_digits.simps [simp del]

definition in_context :: "nat \<Rightarrow> int \<Rightarrow> bool" where
  "in_context c e \<longleftrightarrow> e + int (count_digits c) - 1 \<le> 999999999999999999 \<and> - 1999999999999999997 \<le> e"

definition parse_special :: "string \<Rightarrow> decimal option" where
  "parse_special s =
     (let (neg, u) = split_sign s; v = lower u in
      if v = ''inf'' \<or> v = ''infinity'' then Some (Infinite neg)
      else if starts_with ''nan'' v \<and> list_all py_digit (drop 3 v) then Some NotANumber
      else if starts_with ''snan'' v \<and> list_all py_digit (drop 4 v) then Some NotANumber
      else None)"

definition decimal_of :: "string \<Rightarrow> decimal option" where
  "decimal_of s =
     (let t = filter (\<lambda>c. c \<noteq> CHR ''_'') (strip s) in
      case parse_numeral t of
        Some (neg, c, e) \<Rightarrow> if in_context c e then Some (Finite neg c e) else None
      | None \<Rightarrow> parse_special t)"

fun is_finite :: "decimal \<Rightarrow> bool" where
  "is_finite (Finite neg c e) = True"
| "is_finite d = False"

definition pow10 :: "int \<Rightarrow> rat" where
  "pow10 e = (if 0 \<le> e then 10 ^ nat e else 1 / 10 ^ nat (- e))"

definition numeral_value :: "bool \<times> nat \<times> int \<Rightarrow> rat" where
  "numeral_value x = (case x of (neg, c, e) \<Rightarrow> (if neg then - of_nat c else of_nat c) * pow10 e)"

text \<open>An underscore is accepted by \<open>float\<close> only between two digits.\<close>

fun underscores_ok :: "bool \<Rightarrow> string \<Rightarrow> bool" where
  "underscores_ok after_digit [] = True"
| "underscores_ok after_digit (c # s) =
     (if c = CHR ''_'' then after_digit \<and> s \<noteq> [] \<and> py_digit (hd s) \<and> underscores_ok False s
      else underscores_ok (py_digit c) s)"

definition float_of :: "string \<Rightarrow> rat option" where
  "float_of s =
     (let t = strip s in
      if underscores_ok False t
      then map_option (\<lambda>x. fl (numeral_value x)) (parse_numeral (filter (\<lambda>c. c \<noteq> CHR ''_'') t))
      else None)"

section \<open>Facts\<close>

lemma pow10_pos [simp]: "0 < pow10 e"
  by (simp add: pow10_def)

lemma finite_is_numeral:
  "decimal_of s = Some d \<Longrightarrow> is_finite d \<Longrightarrow> parse_numeral (filter (\<lambda>c. c \<noteq> CHR ''_'') (strip s)) \<noteq> None"
  by (auto simp: decimal_of_def parse_special_def Let_def split: option.splits prod.splits if_splits)

lemma filter_no_underscore: "CHR ''_'' \<notin> set s \<Longrightarrow> filter (\<lambda>c. c \<noteq> CHR ''_'') s = s"
  by (induction s) auto

lemma underscores_ok_none: "CHR ''_'' \<notin> set s \<Longrightarrow> underscores_ok b s"
  by (induction s arbitrary: b) auto

lemma set_strip: "set (strip s) \<subseteq> set s"
  unfolding strip_def rstrip_def lstrip_def by (metis order_trans set_dropWhileD set_rev subsetI)

text \<open>Without underscores the two parsers agree.\<close>

lemma float_of_decimal:
  assumes "CHR ''_'' \<notin> set s" "decimal_of s = Some d" "is_finite d"
  shows "\<exists>x. float_of s = Some x"
proof -
  have "CHR ''_'' \<notin> set (strip s)" using assms(1) set_strip by blast
  then show ?thesis
    using finite_is_numeral[OF assms(2,3)] underscores_ok_none
    by (auto simp: float_of_def filter_no_underscore)
qed

section \<open>Digit groups\<close>

text \<open>\<open>-?\d{1,3}(d\d{3})+\<close>, matched against the whole string.\<close>

definition grouped_by :: "char \<Rightarrow> string \<Rightarrow> bool" where
  "grouped_by d s =
     (let u = (case s of [] \<Rightarrow> [] | c # t \<Rightarrow> if c = CHR ''-'' then t else c # t)
      in case split_on d u of
           [] \<Rightarrow> False
         | g # gs \<Rightarrow> gs \<noteq> [] \<and> isdigit g \<and> length g \<le> 3
             \<and> list_all (\<lambda>h. isdigit h \<and> length h = 3) gs)"

section \<open>Printed digits\<close>

lemma py_digit_iff: "py_digit c \<longleftrightarrow> 48 \<le> code c \<and> code c \<le> 57"
  by (simp add: py_digit_def)

lemma show_nat_ne [simp]: "show_nat n \<noteq> []"
  by (subst show_nat.simps) simp

lemma show_nat_digits: "list_all py_digit (show_nat n)"
proof (induction n rule: show_nat.induct)
  case (1 n)
  moreover have "py_digit (char_of (48 + n mod 10))" "n < 10 \<Longrightarrow> py_digit (char_of (48 + n))"
    by (simp_all add: py_digit_iff)
  ultimately show ?case by (subst show_nat.simps) auto
qed

lemma digits_value_append: "digits_value (s @ t) = digits_value s * 10 ^ length t + digits_value t"
proof (induction t rule: rev_induct)
  case (snoc c t)
  then show ?case by (simp add: digits_value_def algebra_simps flip: append_assoc)
qed (simp add: digits_value_def)

lemma digits_value_single: "digits_value [c] = code c - 48"
  by (simp add: digits_value_def)

lemma digits_value_show [simp]: "digits_value (show_nat n) = n"
proof (induction n rule: show_nat.induct)
  case (1 n)
  then show ?case
    by (subst show_nat.simps) (auto simp: digits_value_append digits_value_single)
qed

end
