(* ===== verification/Externals.thy ===== *)
theory Externals
  imports PyText
begin

text \<open>
  What the program takes from outside: the \<open>phonenumbers\<close> package, and the parsing and formatting of
  dates and times, which \<open>datetime\<close> delegates to the platform's \<open>strftime\<close> and locale.

  The record \<open>oracles\<close> is an argument of every definition that uses one of them; \<open>'d\<close> stands for
  \<open>date\<close>, \<open>datetime\<close> and \<open>time\<close> objects.  A parser returns \<open>None\<close> where the source catches its
  exception.  \<open>e164 v region\<close> is the E.164 form of \<open>v\<close> if \<open>phonenumbers.parse\<close> accepts it for the
  region and \<open>is_valid_number\<close> holds.  No theorem assumes anything of them unless it says so.
\<close>

record 'd oracles =
  e164 :: "string \<Rightarrow> string option \<Rightarrow> string option"
  datetime_fromisoformat :: "string \<Rightarrow> 'd option"
  date_fromisoformat :: "string \<Rightarrow> 'd option"
  time_fromisoformat :: "string \<Rightarrow> 'd option"
  isoformat :: "'d \<Rightarrow> string"
  strptime :: "string \<Rightarrow> string \<Rightarrow> 'd option"
  strftime :: "'d \<Rightarrow> string \<Rightarrow> string"

text \<open>An instance on which every hypothesis of the development is satisfied: nothing parses.\<close>

definition no_oracles :: "unit oracles" where
  "no_oracles = \<lparr>e164 = (\<lambda>v r. None), datetime_fromisoformat = (\<lambda>s. None),
     date_fromisoformat = (\<lambda>s. None), time_fromisoformat = (\<lambda>s. None), isoformat = (\<lambda>d. []),
     strptime = (\<lambda>s f. None), strftime = (\<lambda>d f. [])\<rparr>"

text \<open>Python's truth value of an optional string, and \<open>x or ""\<close>.\<close>

definition truthy :: "string option \<Rightarrow> bool" where
  "truthy x \<longleftrightarrow> x \<noteq> None \<and> x \<noteq> Some []"

definition or_empty :: "string option \<Rightarrow> string" where
  "or_empty x = (case x of None \<Rightarrow> [] | Some s \<Rightarrow> s)"

lemma truthy_simps [simp]: "\<not> truthy None" "truthy (Some s) \<longleftrightarrow> s \<noteq> []"
  by (simp_all add: truthy_def)

lemma or_empty_simps [simp]: "or_empty None = []" "or_empty (Some s) = s"
  by (simp_all add: or_empty_def)

end
