(* ===== verification/Detection.thy ===== *)
theory Detection
  imports PyDecimal Externals
begin

text \<open>
  \<open>app.detection\<close>: the value objects, the validity predicates and the rules.

  A rule is a function from a dataset to the findings it yields, in order.  Only the outlier rule
  can raise: its result is \<open>None\<close> when \<open>float\<close> does.  Cells are indexed as the source does; the
  loader guarantees rows as long as the header, which is part of \<open>dataset_ok\<close>.

  The \<open>phonenumbers\<close> package and the ISO-8601 parsers of \<open>datetime\<close> are parameters (\<open>Externals\<close>).
\<close>

section \<open>Data\<close>

datatype severity = INFO | LOW | MEDIUM | HIGH | CRITICAL

datatype issue_type =
    MISSING_VALUE | EMPTY_STRING | NULL_VALUE | DUPLICATE_ROW | DUPLICATE_PRIMARY_KEY
  | INVALID_EMAIL | INVALID_PHONE | INVALID_DATE | INVALID_NUMERIC | REQUIRED_FIELD_VIOLATION
  | LEADING_WHITESPACE | TRAILING_WHITESPACE | MULTIPLE_INTERNAL_SPACES
  | INCONSISTENT_CAPITALIZATION | BOOLEAN_INCONSISTENCY | INVALID_ENUM_VALUE | OUTLIER
  | BROKEN_FK_REFERENCE

fun issue_value :: "issue_type \<Rightarrow> string" where
  "issue_value MISSING_VALUE = ''missing_value''"
| "issue_value EMPTY_STRING = ''empty_string''"
| "issue_value NULL_VALUE = ''null_value''"
| "issue_value DUPLICATE_ROW = ''duplicate_row''"
| "issue_value DUPLICATE_PRIMARY_KEY = ''duplicate_primary_key''"
| "issue_value INVALID_EMAIL = ''invalid_email''"
| "issue_value INVALID_PHONE = ''invalid_phone''"
| "issue_value INVALID_DATE = ''invalid_date''"
| "issue_value INVALID_NUMERIC = ''invalid_numeric''"
| "issue_value REQUIRED_FIELD_VIOLATION = ''required_field_violation''"
| "issue_value LEADING_WHITESPACE = ''leading_whitespace''"
| "issue_value TRAILING_WHITESPACE = ''trailing_whitespace''"
| "issue_value MULTIPLE_INTERNAL_SPACES = ''multiple_internal_spaces''"
| "issue_value INCONSISTENT_CAPITALIZATION = ''inconsistent_capitalization''"
| "issue_value BOOLEAN_INCONSISTENCY = ''boolean_inconsistency''"
| "issue_value INVALID_ENUM_VALUE = ''invalid_enum_value''"
| "issue_value OUTLIER = ''outlier''"
| "issue_value BROKEN_FK_REFERENCE = ''broken_fk_reference''"

record column_rule_config =
  expected_type :: "string option"
  is_required :: bool
  is_primary_key :: bool
  allowed_values :: "string list option"
  outlier_enabled :: bool
  outlier_zscore_threshold :: "rat option"
  capitalization_check_enabled :: bool

record finding =
  row_number :: nat
  column_name :: "string option"
  issue_type :: issue_type
  severity :: severity
  original_value :: "string option"
  suggested_fix :: "string option"
  confidence :: rat

record structural_issue =
  si_type :: string
  si_row_number :: nat
  si_field_count :: nat

record dataset =
  headers :: "string list"
  rows :: "string list list"
  structural_issues :: "structural_issue list"
  column_rules :: "string \<Rightarrow> column_rule_config option"



section \<open>Validators\<close>

definition is_valid_email_syntax :: "string \<Rightarrow> bool" where
  "is_valid_email_syntax value =
     (let parts = split_on CHR ''@'' value in
      if length parts \<noteq> 2 \<or> parts ! 0 = [] \<or> parts ! 1 = [] then False
      else (let domain = parts ! 1 in
            contains ''.'' domain \<and> \<not> starts_with ''.'' domain \<and> \<not> ends_with ''.'' domain))"

definition is_valid_phone_international :: "'d oracles \<Rightarrow> string \<Rightarrow> bool" where
  "is_valid_phone_international env value =
     (if \<not> starts_with ''+'' value then False else e164 env value None \<noteq> None)"

definition is_valid_iso_date :: "'d oracles \<Rightarrow> string \<Rightarrow> bool" where
  "is_valid_iso_date env value =
     (let stripped = strip value
      in datetime_fromisoformat env (replace_char CHR ''Z'' ''+00:00'' stripped) \<noteq> None
         \<or> date_fromisoformat env stripped \<noteq> None)"

definition is_valid_numeric :: "string \<Rightarrow> bool" where
  "is_valid_numeric value =
     (let stripped = strip value in
      if stripped = [] then False
      else (let candidate =
              (if CHR '','' \<in> set stripped \<and> CHR ''.'' \<notin> set stripped \<and> grouped_by CHR '','' stripped
               then replace_char CHR '','' [] stripped else stripped)
            in case decimal_of candidate of None \<Rightarrow> False | Some d \<Rightarrow> is_finite d))"

definition BOOLEAN_TOKEN_FAMILIES :: "(string \<times> (string \<times> bool) list) list" where
  "BOOLEAN_TOKEN_FAMILIES =
     [(''true_false'', [(''true'', True), (''false'', False)]),
      (''yes_no'', [(''yes'', True), (''no'', False)]),
      (''y_n'', [(''y'', True), (''n'', False)]),
      (''one_zero'', [(''1'', True), (''0'', False)])]"

fun find_token :: "string \<Rightarrow> (string \<times> (string \<times> bool) list) list \<Rightarrow> (string \<times> bool) option" where
  "find_token v [] = None"
| "find_token v ((family, tokens) # fs) =
     (case map_of tokens v of Some b \<Rightarrow> Some (family, b) | None \<Rightarrow> find_token v fs)"

definition classify_boolean_token :: "string \<Rightarrow> (string \<times> bool) option" where
  "classify_boolean_token value = find_token (casefold (strip value)) BOOLEAN_TOKEN_FAMILIES"

section \<open>Iteration over cells\<close>

definition csv_row_number :: "nat \<Rightarrow> nat" where
  "csv_row_number row_index = row_index + 2"

definition cells :: "dataset \<Rightarrow> (nat \<times> nat \<times> string) list" where
  "cells ds = concat (map (\<lambda>(i, row). map (\<lambda>(j, v). (i, j, v)) (enum row)) (enum (rows ds)))"

definition target_columns :: "(column_rule_config \<Rightarrow> bool) \<Rightarrow> dataset \<Rightarrow> nat list" where
  "target_columns P ds =
     filter (\<lambda>j. case column_rules ds (headers ds ! j) of None \<Rightarrow> False | Some r \<Rightarrow> P r)
       [0 ..< length (headers ds)]"

text \<open>The cells of some columns, row by row.\<close>

definition column_cells :: "nat list \<Rightarrow> dataset \<Rightarrow> (nat \<times> nat \<times> string) list" where
  "column_cells js ds =
     concat (map (\<lambda>(i, row). map (\<lambda>j. (i, j, row ! j)) js) (enum (rows ds)))"

section \<open>Rules\<close>

definition NULL_SENTINELS :: "string list" where
  "NULL_SENTINELS = [''null'', ''none'', ''n/a'', ''na'', ''-'', ''nan'', ''nil'']"

definition missing_value_rule :: "dataset \<Rightarrow> finding list" where
  "missing_value_rule ds =
     concat (map (\<lambda>issue. map (\<lambda>j.
         \<lparr>row_number = si_row_number issue, column_name = Some (headers ds ! j),
          issue_type = MISSING_VALUE, severity = MEDIUM, original_value = None,
          suggested_fix = None, confidence = 1\<rparr>)
         [si_field_count issue ..< length (headers ds)])
       (filter (\<lambda>issue. si_type issue = ''too_few_fields'') (structural_issues ds)))"

text \<open>\<open>row_number - 2\<close> is an integer in the source; a padded row is a data row, so it is not negative.\<close>

definition missing_cells :: "dataset \<Rightarrow> (nat \<times> nat) list" where
  "missing_cells ds =
     concat (map (\<lambda>issue. map (\<lambda>j. (si_row_number issue - 2, j))
         [si_field_count issue ..< length (headers ds)])
       (filter (\<lambda>issue. si_type issue = ''too_few_fields'') (structural_issues ds)))"

definition cell_finding ::
  "dataset \<Rightarrow> issue_type \<Rightarrow> severity \<Rightarrow> rat \<Rightarrow> nat \<Rightarrow> nat \<Rightarrow> string option \<Rightarrow> string option \<Rightarrow> finding"
where
  "cell_finding ds ty sev conf i j orig fix =
     \<lparr>row_number = csv_row_number i, column_name = Some (headers ds ! j), issue_type = ty,
      severity = sev, original_value = orig, suggested_fix = fix, confidence = conf\<rparr>"

definition empty_string_rule :: "dataset \<Rightarrow> finding list" where
  "empty_string_rule ds =
     map (\<lambda>(i, j, v). cell_finding ds EMPTY_STRING LOW 1 i j (Some []) None)
       (filter (\<lambda>(i, j, v). (i, j) \<notin> set (missing_cells ds) \<and> v = []) (cells ds))"

definition null_value_rule :: "dataset \<Rightarrow> finding list" where
  "null_value_rule ds =
     map (\<lambda>(i, j, v). cell_finding ds NULL_VALUE LOW 1 i j (Some v) None)
       (filter (\<lambda>(i, j, v). v \<noteq> [] \<and> casefold (strip v) \<in> set NULL_SENTINELS) (cells ds))"

text \<open>The indices at which a key repeats an earlier one.\<close>

fun repeats_from :: "nat \<Rightarrow> 'k list \<Rightarrow> 'k list \<Rightarrow> nat list" where
  "repeats_from i seen [] = []"
| "repeats_from i seen (k # ks) =
     (if k \<in> set seen then i # repeats_from (Suc i) seen ks
      else repeats_from (Suc i) (k # seen) ks)"

definition duplicate_row_rule :: "dataset \<Rightarrow> finding list" where
  "duplicate_row_rule ds =
     map (\<lambda>i. \<lparr>row_number = csv_row_number i, column_name = None, issue_type = DUPLICATE_ROW,
              severity = MEDIUM, original_value = None, suggested_fix = None, confidence = 1\<rparr>)
       (repeats_from 0 [] (rows ds))"

definition duplicate_primary_key_rule :: "dataset \<Rightarrow> finding list" where
  "duplicate_primary_key_rule ds =
     (let key_columns = target_columns is_primary_key ds;
          key_column_names = join ''+'' (map (\<lambda>j. headers ds ! j) key_columns);
          key = (\<lambda>row. map (\<lambda>j. row ! j) key_columns)
      in if key_columns = [] then []
         else map (\<lambda>i. \<lparr>row_number = csv_row_number i, column_name = Some key_column_names,
                issue_type = DUPLICATE_PRIMARY_KEY, severity = CRITICAL,
                original_value = Some (join '', '' (key (rows ds ! i))), suggested_fix = None,
                confidence = 1\<rparr>)
              (repeats_from 0 [] (map key (rows ds))))"

definition expected_type_rule ::
  "issue_type \<Rightarrow> string \<Rightarrow> rat \<Rightarrow> (string \<Rightarrow> bool) \<Rightarrow> dataset \<Rightarrow> finding list"
where
  "expected_type_rule ty wanted conf valid ds =
     map (\<lambda>(i, j, v). cell_finding ds ty MEDIUM conf i j (Some v) None)
       (filter (\<lambda>(i, j, v). \<not> (v = [] \<or> valid v))
          (column_cells (target_columns (\<lambda>r. expected_type r = Some wanted) ds) ds))"

definition invalid_email_rule :: "dataset \<Rightarrow> finding list" where
  "invalid_email_rule = expected_type_rule INVALID_EMAIL ''email'' 1 is_valid_email_syntax"

definition invalid_phone_rule :: "'d oracles \<Rightarrow> dataset \<Rightarrow> finding list" where
  "invalid_phone_rule env =
     expected_type_rule INVALID_PHONE ''phone'' (fl (7 / 10)) (is_valid_phone_international env)"

definition invalid_date_rule :: "'d oracles \<Rightarrow> dataset \<Rightarrow> finding list" where
  "invalid_date_rule env = expected_type_rule INVALID_DATE ''date'' 1 (is_valid_iso_date env)"

definition invalid_numeric_rule :: "dataset \<Rightarrow> finding list" where
  "invalid_numeric_rule = expected_type_rule INVALID_NUMERIC ''numeric'' 1 is_valid_numeric"

definition is_blank :: "string \<Rightarrow> bool" where
  "is_blank value \<longleftrightarrow> value = [] \<or> casefold (strip value) \<in> set NULL_SENTINELS"

definition required_field_rule :: "dataset \<Rightarrow> finding list" where
  "required_field_rule ds =
     map (\<lambda>(i, j, v). cell_finding ds REQUIRED_FIELD_VIOLATION HIGH 1 i j
            (if v \<noteq> [] then Some v else None) None)
       (filter (\<lambda>(i, j, v). is_blank v) (column_cells (target_columns is_required ds) ds))"

definition nonblank_cells :: "dataset \<Rightarrow> (nat \<times> nat \<times> string) list" where
  "nonblank_cells ds = filter (\<lambda>(i, j, v). v \<noteq> []) (cells ds)"

definition leading_whitespace_rule :: "dataset \<Rightarrow> finding list" where
  "leading_whitespace_rule ds =
     map (\<lambda>(i, j, v). cell_finding ds LEADING_WHITESPACE INFO 1 i j (Some v) (Some (lstrip v)))
       (filter (\<lambda>(i, j, v). v \<noteq> lstrip v) (nonblank_cells ds))"

definition trailing_whitespace_rule :: "dataset \<Rightarrow> finding list" where
  "trailing_whitespace_rule ds =
     map (\<lambda>(i, j, v). cell_finding ds TRAILING_WHITESPACE INFO 1 i j (Some v) (Some (rstrip v)))
       (filter (\<lambda>(i, j, v). v \<noteq> rstrip v) (nonblank_cells ds))"

definition multiple_internal_spaces_rule :: "dataset \<Rightarrow> finding list" where
  "multiple_internal_spaces_rule ds =
     map (\<lambda>(i, j, v). cell_finding ds MULTIPLE_INTERNAL_SPACES INFO 1 i j (Some v)
            (Some (sub_multispace v)))
       (filter (\<lambda>(i, j, v). has_multispace v) (nonblank_cells ds))"

definition invalid_enum_rule :: "dataset \<Rightarrow> finding list" where
  "invalid_enum_rule ds =
     (let allowed = (\<lambda>j. case column_rules ds (headers ds ! j) of None \<Rightarrow> []
                         | Some r \<Rightarrow> (case allowed_values r of None \<Rightarrow> [] | Some vs \<Rightarrow> vs))
      in map (\<lambda>(i, j, v). cell_finding ds INVALID_ENUM_VALUE HIGH 1 i j (Some v) None)
           (filter (\<lambda>(i, j, v). v \<noteq> [] \<and> v \<notin> set (allowed j))
              (column_cells (target_columns
                 (\<lambda>r. case allowed_values r of None \<Rightarrow> False | Some vs \<Rightarrow> vs \<noteq> []) ds) ds)))"

text \<open>Deferred in the source: registered, yields nothing.\<close>

definition broken_fk_rule :: "dataset \<Rightarrow> finding list" where
  "broken_fk_rule ds = []"

subsection \<open>Dominant patterns\<close>

datatype casing = Lower | Title | Upper | Mixed

definition classify_casing :: "string \<Rightarrow> casing option" where
  "classify_casing value =
     (if \<not> list_ex py_alpha value then None
      else if value = lower value then Some Lower
      else if value = upper value then Some Upper
      else if value = title value then Some Title
      else Some Mixed)"

definition PATTERN_PRIORITY :: "casing list" where
  "PATTERN_PRIORITY = [Lower, Title, Upper, Mixed]"

text \<open>The first of the candidates whose count is the maximum.\<close>

definition dominant_pattern :: "casing tally \<Rightarrow> casing" where
  "dominant_pattern counts =
     (let max_count = Max (set (map snd counts))
      in hd (filter (\<lambda>p. tally_get p counts = max_count) PATTERN_PRIORITY))"

text \<open>\<open>enumerate\<close> over one column with the rows that classify.\<close>

definition classified :: "(string \<Rightarrow> 'p option) \<Rightarrow> dataset \<Rightarrow> nat \<Rightarrow> (nat \<times> 'p) list" where
  "classified cls ds j =
     map (\<lambda>(i, row). (i, the (cls (row ! j))))
       (filter (\<lambda>(i, row). cls (row ! j) \<noteq> None) (enum (rows ds)))"

definition capitalization_column :: "dataset \<Rightarrow> nat \<Rightarrow> finding list" where
  "capitalization_column ds j =
     (let patterns = classified classify_casing ds j; counts = tally (map snd patterns) in
      if counts = [] then []
      else map (\<lambda>(i, p). cell_finding ds INCONSISTENT_CAPITALIZATION LOW (fl (6 / 10)) i j
                  (Some (rows ds ! i ! j)) None)
             (filter (\<lambda>(i, p). p \<noteq> dominant_pattern counts) patterns))"

definition capitalization_rule :: "dataset \<Rightarrow> finding list" where
  "capitalization_rule ds =
     concat (map (capitalization_column ds) (target_columns capitalization_check_enabled ds))"

definition boolean_family :: "string \<Rightarrow> string option" where
  "boolean_family v = map_option fst (classify_boolean_token v)"

definition dominant_family :: "string tally \<Rightarrow> string" where
  "dominant_family counts =
     (let max_count = Max (set (map snd counts))
      in Min (set (map fst (filter (\<lambda>(f, c). c = max_count) counts))))"

definition boolean_column :: "dataset \<Rightarrow> nat \<Rightarrow> finding list" where
  "boolean_column ds j =
     (let nonempty = filter (\<lambda>(i, row). row ! j \<noteq> []) (enum (rows ds));
          unrecognized = map fst (filter (\<lambda>(i, row). boolean_family (row ! j) = None) nonempty);
          families = map (\<lambda>(i, row). (i, the (boolean_family (row ! j))))
                       (filter (\<lambda>(i, row). boolean_family (row ! j) \<noteq> None) nonempty);
          counts = tally (map snd families);
          bad = map (\<lambda>i. cell_finding ds BOOLEAN_INCONSISTENCY HIGH 1 i j
                        (Some (rows ds ! i ! j)) None) unrecognized
      in if counts = [] then bad
         else bad @ map (\<lambda>(i, f). cell_finding ds BOOLEAN_INCONSISTENCY MEDIUM (fl (7 / 10)) i j
                           (Some (rows ds ! i ! j)) None)
                      (filter (\<lambda>(i, f). f \<noteq> dominant_family counts) families))"

definition boolean_rule :: "dataset \<Rightarrow> finding list" where
  "boolean_rule ds =
     concat (map (boolean_column ds) (target_columns (\<lambda>r. expected_type r = Some ''boolean'') ds))"

subsection \<open>Outliers\<close>

definition median :: "rat list \<Rightarrow> rat" where
  "median values =
     (let ordered = sort values; n = length ordered; mid = n div 2
      in if n mod 2 = 1 then ordered ! mid
         else fl (fl (ordered ! (mid - 1) + ordered ! mid) / 2))"

definition MODIFIED_ZSCORE_CONSTANT :: rat where
  "MODIFIED_ZSCORE_CONSTANT = fl (6745 / 10000)"

definition FALLBACK_ZSCORE_THRESHOLD :: rat where
  "FALLBACK_ZSCORE_THRESHOLD = 35 / 10"

text \<open>\<open>threshold or fallback\<close>: a zero threshold is falsy.\<close>

definition effective_threshold :: "column_rule_config \<Rightarrow> rat" where
  "effective_threshold r =
     (case outlier_zscore_threshold r of None \<Rightarrow> FALLBACK_ZSCORE_THRESHOLD
      | Some t \<Rightarrow> if t = 0 then FALLBACK_ZSCORE_THRESHOLD else t)"

text \<open>\<open>numeric_by_row\<close>; \<open>None\<close> when \<open>float\<close> raises \<open>ValueError\<close> on some numeric cell.\<close>

fun numeric_cells :: "nat \<Rightarrow> string list \<Rightarrow> (nat \<times> rat) list option" where
  "numeric_cells i [] = Some []"
| "numeric_cells i (v # vs) =
     (if v \<noteq> [] \<and> is_valid_numeric v
      then (case float_of (replace_char CHR '','' [] (strip v)) of
              None \<Rightarrow> None
            | Some x \<Rightarrow> map_option (\<lambda>r. (i, x) # r) (numeric_cells (Suc i) vs))
      else numeric_cells (Suc i) vs)"

definition zscore :: "rat \<Rightarrow> rat \<Rightarrow> rat \<Rightarrow> rat" where
  "zscore med mad value = fl (fl (MODIFIED_ZSCORE_CONSTANT * fl (value - med)) / mad)"

definition outlier_confidence :: "rat \<Rightarrow> rat \<Rightarrow> rat" where
  "outlier_confidence threshold z = py_round (min 1 (fl (\<bar>z\<bar> / fl (threshold * 2)))) 4"

definition outlier_column :: "dataset \<Rightarrow> nat \<Rightarrow> finding list option" where
  "outlier_column ds j =
     (let threshold = (case column_rules ds (headers ds ! j) of
                         None \<Rightarrow> FALLBACK_ZSCORE_THRESHOLD | Some r \<Rightarrow> effective_threshold r)
      in case numeric_cells 0 (map (\<lambda>row. row ! j) (rows ds)) of
           None \<Rightarrow> None
         | Some xs \<Rightarrow>
             (let med = median (map snd xs); mad = median (map (\<lambda>(i, v). \<bar>fl (v - med)\<bar>) xs) in
              if length xs < 2 then Some []
              else if mad = 0 then Some []
              else Some (map (\<lambda>(i, v). cell_finding ds OUTLIER MEDIUM
                               (outlier_confidence threshold (zscore med mad v)) i j
                               (Some (rows ds ! i ! j)) None)
                          (filter (\<lambda>(i, v). threshold < \<bar>zscore med mad v\<bar>) xs))))"

fun concat_results :: "'a list option list \<Rightarrow> 'a list option" where
  "concat_results [] = Some []"
| "concat_results (None # rs) = None"
| "concat_results (Some xs # rs) = map_option (\<lambda>ys. xs @ ys) (concat_results rs)"

definition outlier_rule :: "dataset \<Rightarrow> finding list option" where
  "outlier_rule ds = concat_results (map (outlier_column ds) (target_columns outlier_enabled ds))"

end
