(* ===== verification/DetectionRules.thy ===== *)
theory DetectionRules
  imports Detection
begin

text \<open>
  The contract every detection rule keeps (\<open>app.detection.base.DetectionRule\<close>), as a locale, its
  interpretation for each of the registered rules, and the facts about single rules.
\<close>

definition finding_ok :: "dataset \<Rightarrow> issue_type \<Rightarrow> finding \<Rightarrow> bool" where
  "finding_ok ds ty f \<longleftrightarrow> issue_type f = ty \<and> 0 \<le> confidence f \<and> confidence f \<le> 1
     \<and> 2 \<le> row_number f \<and> row_number f < length (rows ds) + 2"

text \<open>
  What the loader guarantees of a dataset: rows as long as the header, padded cells recorded with
  their row and empty; and what the column configuration guarantees: no negative threshold.
\<close>

definition padding_ok :: "dataset \<Rightarrow> structural_issue \<Rightarrow> bool" where
  "padding_ok ds s \<longleftrightarrow> si_type s = ''too_few_fields'' \<longrightarrow>
     2 \<le> si_row_number s \<and> si_row_number s < length (rows ds) + 2
     \<and> (\<forall>j. si_field_count s \<le> j \<longrightarrow> j < length (headers ds) \<longrightarrow> rows ds ! (si_row_number s - 2) ! j = [])"

definition dataset_ok :: "dataset \<Rightarrow> bool" where
  "dataset_ok ds \<longleftrightarrow> list_all (\<lambda>row. length row = length (headers ds)) (rows ds)
     \<and> list_all (padding_ok ds) (structural_issues ds)
     \<and> list_all (\<lambda>h. case column_rules ds h of None \<Rightarrow> True
           | Some r \<Rightarrow> (case outlier_zscore_threshold r of None \<Rightarrow> True | Some t \<Rightarrow> 0 \<le> t)) (headers ds)"

locale detection_rule =
  fixes ty :: issue_type and detect :: "dataset \<Rightarrow> finding list option"
  assumes sound: "dataset_ok ds \<Longrightarrow> detect ds = Some fs \<Longrightarrow> f \<in> set fs \<Longrightarrow> finding_ok ds ty f"
begin

lemma own_type: "dataset_ok ds \<Longrightarrow> detect ds = Some fs \<Longrightarrow> f \<in> set fs \<Longrightarrow> issue_type f = ty"
  using sound by (simp add: finding_ok_def)

lemma row_in_range:
  "dataset_ok ds \<Longrightarrow> detect ds = Some fs \<Longrightarrow> f \<in> set fs \<Longrightarrow> row_number f - 2 < length (rows ds)"
  using sound[of ds fs f] by (auto simp: finding_ok_def)

end

section \<open>Cells\<close>

lemma in_concat_enum:
  "x \<in> set (concat (map (\<lambda>(i, r). g i r) (enum rs))) \<longleftrightarrow> (\<exists>i < length rs. x \<in> set (g i (rs ! i)))"
proof
  assume "x \<in> set (concat (map (\<lambda>(i, r). g i r) (enum rs)))"
  then obtain i r where "(i, r) \<in> set (enum rs)" "x \<in> set (g i r)" by auto
  then show "\<exists>i < length rs. x \<in> set (g i (rs ! i))" by (auto simp: enum_iff)
next
  assume "\<exists>i < length rs. x \<in> set (g i (rs ! i))"
  then obtain i where i: "i < length rs" "x \<in> set (g i (rs ! i))" by blast
  then have "(i, rs ! i) \<in> set (enum rs)" by (simp add: enum_iff)
  then have "g i (rs ! i) \<in> set (map (\<lambda>(i, r). g i r) (enum rs))" by force
  then show "x \<in> set (concat (map (\<lambda>(i, r). g i r) (enum rs)))" using i(2) by (auto simp del: set_map)
qed

lemma cells_iff:
  "(i, j, v) \<in> set (cells ds) \<longleftrightarrow> i < length (rows ds) \<and> j < length (rows ds ! i) \<and> rows ds ! i ! j = v"
proof -
  have "(i, j, v) \<in> set (map (\<lambda>(j, v). (k, j, v)) (enum row)) \<longleftrightarrow> k = i \<and> j < length row \<and> row ! j = v" for k row
    by (auto simp: enum_iff image_iff)
  then show ?thesis unfolding cells_def in_concat_enum by auto
qed

lemma column_cells_iff:
  "(i, j, v) \<in> set (column_cells js ds) \<longleftrightarrow> i < length (rows ds) \<and> j \<in> set js \<and> v = rows ds ! i ! j"
  unfolding column_cells_def in_concat_enum by auto

lemma cell_finding_simps [simp]:
  "issue_type (cell_finding ds ty sev c i j x y) = ty"
  "row_number (cell_finding ds ty sev c i j x y) = i + 2"
  "confidence (cell_finding ds ty sev c i j x y) = c"
  "severity (cell_finding ds ty sev c i j x y) = sev"
  "column_name (cell_finding ds ty sev c i j x y) = Some (headers ds ! j)"
  "original_value (cell_finding ds ty sev c i j x y) = x"
  "suggested_fix (cell_finding ds ty sev c i j x y) = y"
  by (simp_all add: cell_finding_def csv_row_number_def)

lemma cell_finding_ok:
  "i < length (rows ds) \<Longrightarrow> 0 \<le> c \<Longrightarrow> c \<le> 1 \<Longrightarrow> finding_ok ds ty (cell_finding ds ty sev c i j x y)"
  by (simp add: finding_ok_def)

lemma repeats_from_iff:
  "i \<in> set (repeats_from n seen ks) \<longleftrightarrow>
     n \<le> i \<and> i < n + length ks \<and> ks ! (i - n) \<in> set seen \<union> set (take (i - n) ks)"
proof (induction n seen ks rule: repeats_from.induct)
  case (1 i seen)
  then show ?case by simp
next
  case (2 n seen k ks)
  show ?case
  proof (cases "i \<le> n")
    case True
    then show ?thesis using 2 by (cases "i = n") auto
  next
    case False
    then obtain m where m: "i - n = Suc m" "i - Suc n = m" by (cases "i - n") auto
    show ?thesis using 2 False by (auto simp: m)
  qed
qed

lemma distinct_repeats_from: "distinct (repeats_from n seen ks)"
  by (induction n seen ks rule: repeats_from.induct) (auto simp: repeats_from_iff)

lemma length_repeats_from:
  "length (repeats_from n seen ks) + card (set ks - set seen) = length ks"
proof (induction n seen ks rule: repeats_from.induct)
  case (2 n seen k ks)
  show ?case
  proof (cases "k \<in> set seen")
    case True
    then show ?thesis using 2 by (simp add: insert_Diff_if)
  next
    case False
    have "card (set (k # ks) - set seen) = Suc (card (set ks - set (k # seen)))"
    proof -
      have "set (k # ks) - set seen = insert k (set ks - set (k # seen))" using False by auto
      then show ?thesis by simp
    qed
    then show ?thesis using 2 False by simp
  qed
qed simp

lemma classified_iff:
  "(i, p) \<in> set (classified cls ds j) \<longleftrightarrow> i < length (rows ds) \<and> cls (rows ds ! i ! j) = Some p"
proof
  assume "(i, p) \<in> set (classified cls ds j)"
  then show "i < length (rows ds) \<and> cls (rows ds ! i ! j) = Some p"
    by (auto simp: classified_def enum_iff)
next
  assume a: "i < length (rows ds) \<and> cls (rows ds ! i ! j) = Some p"
  then have "(i, rows ds ! i) \<in> set (filter (\<lambda>(i, row). cls (row ! j) \<noteq> None) (enum (rows ds)))"
    by (simp add: enum_iff)
  then have "(\<lambda>(i, row). (i, the (cls (row ! j)))) (i, rows ds ! i) \<in> set (classified cls ds j)"
    unfolding classified_def set_map by (rule imageI)
  then show "(i, p) \<in> set (classified cls ds j)" using a by simp
qed

lemma target_columns_iff:
  "j \<in> set (target_columns P ds) \<longleftrightarrow>
     j < length (headers ds) \<and> (\<exists>r. column_rules ds (headers ds ! j) = Some r \<and> P r)"
  by (auto simp: target_columns_def split: option.splits)

lemma conf_unit: "0 \<le> fl (7 / 10)" "fl (7 / 10) \<le> 1" "0 \<le> fl (3 / 5)" "fl (3 / 5) \<le> 1"
  using fl_unit[of "7 / 10"] fl_unit[of "3 / 5"] by simp_all

lemma in_concat_results:
  "concat_results rs = Some xs \<Longrightarrow> x \<in> set xs \<Longrightarrow> \<exists>ys. Some ys \<in> set rs \<and> x \<in> set ys"
  by (induction rs arbitrary: xs rule: concat_results.induct) (auto, blast+)

section \<open>Each registered rule keeps the contract\<close>

interpretation missing_value: detection_rule MISSING_VALUE "\<lambda>ds. Some (missing_value_rule ds)"
  by unfold_locales
    (auto simp: missing_value_rule_def finding_ok_def dataset_ok_def padding_ok_def list_all_iff)

interpretation empty_string: detection_rule EMPTY_STRING "\<lambda>ds. Some (empty_string_rule ds)"
  by unfold_locales (auto simp: empty_string_rule_def cells_iff intro!: cell_finding_ok)

interpretation null_value: detection_rule NULL_VALUE "\<lambda>ds. Some (null_value_rule ds)"
  by unfold_locales (auto simp: null_value_rule_def cells_iff intro!: cell_finding_ok)

interpretation duplicate_row: detection_rule DUPLICATE_ROW "\<lambda>ds. Some (duplicate_row_rule ds)"
  by unfold_locales (auto simp: duplicate_row_rule_def finding_ok_def csv_row_number_def repeats_from_iff)

interpretation duplicate_key: detection_rule DUPLICATE_PRIMARY_KEY "\<lambda>ds. Some (duplicate_primary_key_rule ds)"
  by unfold_locales
    (auto simp: duplicate_primary_key_rule_def Let_def finding_ok_def csv_row_number_def repeats_from_iff
      split: if_splits)

lemma expected_type_sound:
  "0 \<le> c \<Longrightarrow> c \<le> 1 \<Longrightarrow> detection_rule ty (\<lambda>ds. Some (expected_type_rule ty wanted c valid ds))"
  by unfold_locales (auto simp: expected_type_rule_def column_cells_iff intro!: cell_finding_ok)

interpretation invalid_email: detection_rule INVALID_EMAIL "\<lambda>ds. Some (invalid_email_rule ds)"
  unfolding invalid_email_rule_def by (rule expected_type_sound) simp_all

interpretation invalid_phone: detection_rule INVALID_PHONE "\<lambda>ds. Some (invalid_phone_rule env ds)" for env
  unfolding invalid_phone_rule_def by (rule expected_type_sound) (simp_all only: conf_unit)

interpretation invalid_date: detection_rule INVALID_DATE "\<lambda>ds. Some (invalid_date_rule env ds)" for env
  unfolding invalid_date_rule_def by (rule expected_type_sound) simp_all

interpretation invalid_numeric: detection_rule INVALID_NUMERIC "\<lambda>ds. Some (invalid_numeric_rule ds)"
  unfolding invalid_numeric_rule_def by (rule expected_type_sound) simp_all

interpretation required_field: detection_rule REQUIRED_FIELD_VIOLATION "\<lambda>ds. Some (required_field_rule ds)"
  by unfold_locales (auto simp: required_field_rule_def column_cells_iff intro!: cell_finding_ok)

interpretation leading_ws: detection_rule LEADING_WHITESPACE "\<lambda>ds. Some (leading_whitespace_rule ds)"
  by unfold_locales
    (auto simp: leading_whitespace_rule_def nonblank_cells_def cells_iff intro!: cell_finding_ok)

interpretation trailing_ws: detection_rule TRAILING_WHITESPACE "\<lambda>ds. Some (trailing_whitespace_rule ds)"
  by unfold_locales
    (auto simp: trailing_whitespace_rule_def nonblank_cells_def cells_iff intro!: cell_finding_ok)

interpretation internal_ws:
  detection_rule MULTIPLE_INTERNAL_SPACES "\<lambda>ds. Some (multiple_internal_spaces_rule ds)"
  by unfold_locales
    (auto simp: multiple_internal_spaces_rule_def nonblank_cells_def cells_iff intro!: cell_finding_ok)

interpretation capitalization: detection_rule INCONSISTENT_CAPITALIZATION "\<lambda>ds. Some (capitalization_rule ds)"
  by unfold_locales
    (auto simp: capitalization_rule_def capitalization_column_def Let_def classified_iff conf_unit
      intro!: cell_finding_ok split: if_splits)

lemma boolean_column_rows:
  "f \<in> set (boolean_column ds j) \<Longrightarrow>
   \<exists>i sev c. i < length (rows ds) \<and> (c = 1 \<or> c = fl (7 / 10))
     \<and> f = cell_finding ds BOOLEAN_INCONSISTENCY sev c i j (Some (rows ds ! i ! j)) None"
  by (auto simp: boolean_column_def Let_def enum_iff split: if_splits) blast+

interpretation boolean: detection_rule BOOLEAN_INCONSISTENCY "\<lambda>ds. Some (boolean_rule ds)"
  by unfold_locales
    (auto simp: boolean_rule_def conf_unit dest!: boolean_column_rows intro!: cell_finding_ok)

interpretation invalid_enum: detection_rule INVALID_ENUM_VALUE "\<lambda>ds. Some (invalid_enum_rule ds)"
  by unfold_locales (auto simp: invalid_enum_rule_def Let_def column_cells_iff intro!: cell_finding_ok)

interpretation broken_fk: detection_rule BROKEN_FK_REFERENCE "\<lambda>ds. Some (broken_fk_rule ds)"
  by unfold_locales (simp add: broken_fk_rule_def)

lemma numeric_cells_iff:
  "numeric_cells n vs = Some xs \<Longrightarrow> (i, x) \<in> set xs \<longleftrightarrow>
     n \<le> i \<and> i < n + length vs \<and> vs ! (i - n) \<noteq> [] \<and> is_valid_numeric (vs ! (i - n))
     \<and> float_of (replace_char CHR '','' [] (strip (vs ! (i - n)))) = Some x"
proof (induction vs arbitrary: n xs)
  case Nil
  then show ?case by auto
next
  case (Cons v vs)
  show ?case
  proof (cases "i \<le> n")
    case True
    then show ?thesis using Cons by (cases "i = n") (auto split: if_splits option.splits)
  next
    case False
    then obtain m where m: "i - n = Suc m" "i - Suc n = m" by (cases "i - n") auto
    show ?thesis using Cons False by (auto simp: m split: if_splits option.splits)
  qed
qed

lemma effective_threshold_pos:
  "dataset_ok ds \<Longrightarrow> j < length (headers ds) \<Longrightarrow> column_rules ds (headers ds ! j) = Some r \<Longrightarrow>
   0 < effective_threshold r"
  by (fastforce simp: dataset_ok_def list_all_length effective_threshold_def FALLBACK_ZSCORE_THRESHOLD_def
      split: option.splits)

lemma outlier_confidence_unit: "0 < t \<Longrightarrow> 0 \<le> outlier_confidence t z \<and> outlier_confidence t z \<le> 1"
  unfolding outlier_confidence_def
  by (intro py_round_unit) (simp_all add: fl_nonneg)

interpretation outlier: detection_rule OUTLIER outlier_rule
proof
  fix ds fs f
  assume ok: "dataset_ok ds" and fs: "outlier_rule ds = Some fs" and f: "f \<in> set fs"
  obtain ys where ys: "Some ys \<in> set (map (outlier_column ds) (target_columns outlier_enabled ds))" "f \<in> set ys"
    using in_concat_results[OF fs[unfolded outlier_rule_def] f] by blast
  then obtain j where j: "j \<in> set (target_columns outlier_enabled ds)" "outlier_column ds j = Some ys" by auto
  obtain r where r: "j < length (headers ds)" "column_rules ds (headers ds ! j) = Some r"
    using j(1) by (auto simp: target_columns_iff)
  have "0 < effective_threshold r" by (rule effective_threshold_pos[OF ok r])
  then show "finding_ok ds OUTLIER f"
    using j(2) ys(2) r(2) outlier_confidence_unit
    by (auto simp: outlier_column_def Let_def numeric_cells_iff split: option.splits if_splits
        intro!: cell_finding_ok)
qed

end
