(* ===== verification/DetectionEngine.thy ===== *)
theory DetectionEngine
  imports DetectionRules
begin

text \<open>
  \<open>app.detection.engine.detect_issues\<close> over the registry, and the properties of a detection run.
\<close>

section \<open>Registry and engine\<close>

definition DETECTION_RULES :: "'d oracles \<Rightarrow> (issue_type \<times> (dataset \<Rightarrow> finding list option)) list" where
  "DETECTION_RULES env =
     [(MISSING_VALUE, \<lambda>ds. Some (missing_value_rule ds)),
      (EMPTY_STRING, \<lambda>ds. Some (empty_string_rule ds)),
      (NULL_VALUE, \<lambda>ds. Some (null_value_rule ds)),
      (DUPLICATE_ROW, \<lambda>ds. Some (duplicate_row_rule ds)),
      (DUPLICATE_PRIMARY_KEY, \<lambda>ds. Some (duplicate_primary_key_rule ds)),
      (INVALID_EMAIL, \<lambda>ds. Some (invalid_email_rule ds)),
      (INVALID_PHONE, \<lambda>ds. Some (invalid_phone_rule env ds)),
      (INVALID_DATE, \<lambda>ds. Some (invalid_date_rule env ds)),
      (INVALID_NUMERIC, \<lambda>ds. Some (invalid_numeric_rule ds)),
      (REQUIRED_FIELD_VIOLATION, \<lambda>ds. Some (required_field_rule ds)),
      (LEADING_WHITESPACE, \<lambda>ds. Some (leading_whitespace_rule ds)),
      (TRAILING_WHITESPACE, \<lambda>ds. Some (trailing_whitespace_rule ds)),
      (MULTIPLE_INTERNAL_SPACES, \<lambda>ds. Some (multiple_internal_spaces_rule ds)),
      (INCONSISTENT_CAPITALIZATION, \<lambda>ds. Some (capitalization_rule ds)),
      (BOOLEAN_INCONSISTENCY, \<lambda>ds. Some (boolean_rule ds)),
      (INVALID_ENUM_VALUE, \<lambda>ds. Some (invalid_enum_rule ds)),
      (OUTLIER, outlier_rule),
      (BROKEN_FK_REFERENCE, \<lambda>ds. Some (broken_fk_rule ds))]"

record detection_result =
  findings :: "finding list"
  total_issues_found :: nat
  persisted_issue_count :: nat
  issues_by_severity :: "severity tally"
  issues_by_type :: "issue_type tally"
  rows_scanned :: nat
  columns_scanned :: nat

definition finding_sort_key :: "finding \<Rightarrow> nat \<times> string \<times> string" where
  "finding_sort_key f =
     (row_number f, (case column_name f of None \<Rightarrow> [] | Some c \<Rightarrow> c), issue_value (issue_type f))"

definition all_findings :: "'d oracles \<Rightarrow> dataset \<Rightarrow> finding list option" where
  "all_findings env ds =
     map_option (sort_key finding_sort_key)
       (concat_results (map (\<lambda>(ty, detect). detect ds) (DETECTION_RULES env)))"

definition detect_issues :: "'d oracles \<Rightarrow> dataset \<Rightarrow> nat \<Rightarrow> detection_result option" where
  "detect_issues env ds max_persisted_issues =
     (case all_findings env ds of
        None \<Rightarrow> None
      | Some fs \<Rightarrow>
          (let persisted = take max_persisted_issues fs in
           Some \<lparr>findings = persisted, total_issues_found = length fs,
                 persisted_issue_count = length persisted,
                 issues_by_severity = tally (map severity fs),
                 issues_by_type = tally (map issue_type fs),
                 rows_scanned = length (rows ds), columns_scanned = length (headers ds)\<rparr>))"

lemma registry_sound: "(ty, detect) \<in> set (DETECTION_RULES env) \<Longrightarrow> detection_rule ty detect"
  unfolding DETECTION_RULES_def
  using missing_value.detection_rule_axioms empty_string.detection_rule_axioms
    null_value.detection_rule_axioms duplicate_row.detection_rule_axioms
    duplicate_key.detection_rule_axioms invalid_email.detection_rule_axioms
    invalid_phone.detection_rule_axioms invalid_date.detection_rule_axioms
    invalid_numeric.detection_rule_axioms required_field.detection_rule_axioms
    leading_ws.detection_rule_axioms trailing_ws.detection_rule_axioms
    internal_ws.detection_rule_axioms capitalization.detection_rule_axioms
    boolean.detection_rule_axioms invalid_enum.detection_rule_axioms
    outlier.detection_rule_axioms broken_fk.detection_rule_axioms
  by auto

lemma concat_results_Some:
  "concat_results rs = Some xs \<longleftrightarrow> (\<exists>yss. rs = map Some yss \<and> xs = concat yss)"
proof (induction rs arbitrary: xs rule: concat_results.induct)
  case (3 ys rs)
  then show ?case by (auto simp: Cons_eq_map_conv)
qed auto

lemma all_findings_mem:
  assumes "all_findings env ds = Some fs"
  shows "f \<in> set fs \<longleftrightarrow> (\<exists>ty detect ys. (ty, detect) \<in> set (DETECTION_RULES env) \<and> detect ds = Some ys \<and> f \<in> set ys)"
proof -
  obtain yss where y: "map (\<lambda>(ty, detect). detect ds) (DETECTION_RULES env) = map Some yss"
      "fs = sort_key finding_sort_key (concat yss)"
    using assms by (auto simp: all_findings_def concat_results_Some)
  have "f \<in> set fs \<longleftrightarrow> (\<exists>ys \<in> set yss. f \<in> set ys)" using y(2) by auto
  also have "\<dots> \<longleftrightarrow> (\<exists>ys. Some ys \<in> set (map Some yss) \<and> f \<in> set ys)" by auto
  also have "\<dots> \<longleftrightarrow> (\<exists>ty detect ys. (ty, detect) \<in> set (DETECTION_RULES env) \<and> detect ds = Some ys \<and> f \<in> set ys)"
    unfolding y(1)[symmetric] by force
  finally show ?thesis .
qed

lemma all_findings_ok:
  assumes "dataset_ok ds" "all_findings env ds = Some fs" "f \<in> set fs"
  shows "finding_ok ds (issue_type f) f"
  using all_findings_mem[OF assms(2)] assms(3) detection_rule.sound[OF registry_sound _ _]
    detection_rule.own_type[OF registry_sound] assms(1) by metis

section \<open>A sample\<close>

definition sample_rule :: column_rule_config where
  "sample_rule = \<lparr>expected_type = Some ''boolean'', is_required = True, is_primary_key = False,
     allowed_values = None, outlier_enabled = False, outlier_zscore_threshold = None,
     capitalization_check_enabled = True\<rparr>"

definition sample_dataset :: dataset where
  "sample_dataset = \<lparr>headers = [''a'', ''b''], rows = [[''x'', ''true''], [''x'', ''''], [''x'', ''true'']],
     structural_issues = [\<lparr>si_type = ''too_few_fields'', si_row_number = 3, si_field_count = 1\<rparr>],
     column_rules = (\<lambda>h. if h = ''b'' then Some sample_rule else None)\<rparr>"

lemma sample_dataset_ok: "dataset_ok sample_dataset"
  by (simp add: dataset_ok_def sample_dataset_def padding_ok_def sample_rule_def less_Suc_eq)

lemma sample_no_outlier: "outlier_rule sample_dataset = Some []"
proof -
  have "target_columns outlier_enabled sample_dataset = []"
    by (simp add: target_columns_def sample_dataset_def sample_rule_def filter_empty_conv)
  then show ?thesis by (simp add: outlier_rule_def)
qed

lemma sample_detects: "\<exists>r. detect_issues no_oracles sample_dataset 100 = Some r"
  by (simp add: detect_issues_def all_findings_def DETECTION_RULES_def sample_no_outlier)

section \<open>Properties of a run\<close>

text \<open>A detection run is sound and its summary is exact: every persisted finding has a confidence
  in \<open>[0, 1]\<close> and names a row of the file, the findings come in the order of the sort key, and the
  totals by type and by severity count every finding, also those beyond the persistence cap.\<close>

theorem detect_issues_summary:
  assumes ok: "dataset_ok ds" and res: "detect_issues env ds n = Some r"
  shows "sorted (map finding_sort_key (findings r))
    \<and> (\<forall>f \<in> set (findings r). finding_ok ds (issue_type f) f)
    \<and> persisted_issue_count r = min n (total_issues_found r)
    \<and> sum_list (map snd (issues_by_type r)) = total_issues_found r
    \<and> sum_list (map snd (issues_by_severity r)) = total_issues_found r
    \<and> (\<forall>ty. count_list (map issue_type (findings r)) ty \<le> tally_get ty (issues_by_type r))"
proof -
  obtain fs where fs: "all_findings env ds = Some fs"
    using res by (auto simp: detect_issues_def split: option.splits)
  have r: "r = \<lparr>findings = take n fs, total_issues_found = length fs,
                 persisted_issue_count = length (take n fs),
                 issues_by_severity = tally (map severity fs),
                 issues_by_type = tally (map issue_type fs),
                 rows_scanned = length (rows ds), columns_scanned = length (headers ds)\<rparr>"
    using res fs by (simp add: detect_issues_def Let_def)
  have "sorted (map finding_sort_key fs)" using fs by (auto simp: all_findings_def)
  then have "sorted (map finding_sort_key (take n fs))" by (simp add: take_map[symmetric] sorted_wrt_take)
  moreover have "\<forall>f \<in> set (take n fs). finding_ok ds (issue_type f) f"
    using all_findings_ok[OF ok fs] by (auto dest: in_set_takeD)
  moreover have "count_list (map issue_type (take n fs)) ty \<le> count_list (map issue_type fs) ty" for ty
  proof -
    have "fs = take n fs @ drop n fs" by simp
    then have "count_list (map issue_type fs) ty
        = count_list (map issue_type (take n fs)) ty + count_list (map issue_type (drop n fs)) ty"
      by (metis count_list_append map_append)
    then show ?thesis by simp
  qed
  ultimately show ?thesis
    by (auto simp: r sum_tally tally_get_tally)
qed

theorem detect_issues_summary_witness:
  "\<exists>r. detect_issues no_oracles sample_dataset 100 = Some r
     \<and> persisted_issue_count r = min 100 (total_issues_found r)"
  using sample_detects detect_issues_summary[OF sample_dataset_ok, of no_oracles 100] by blast

text \<open>Whether a rule's findings report a cell.\<close>

definition flagged :: "dataset \<Rightarrow> finding list \<Rightarrow> nat \<Rightarrow> nat \<Rightarrow> bool" where
  "flagged ds fs i j \<longleftrightarrow>
     (\<exists>f \<in> set fs. row_number f = csv_row_number i \<and> column_name f = Some (headers ds ! j))"

lemma flagged_cells:
  assumes ok: "dataset_ok ds" and dist: "distinct (headers ds)" and i: "i < length (rows ds)"
    and j: "j < length (headers ds)"
  shows "flagged ds (map (\<lambda>(i, j, v). cell_finding ds ty sev c i j (g v) (h v))
            (filter (\<lambda>(i, j, v). P i j v) (cells ds))) i j \<longleftrightarrow> P i j (rows ds ! i ! j)"
proof -
  have len: "length (rows ds ! k) = length (headers ds)" if "k < length (rows ds)" for k
    using ok that by (simp add: dataset_ok_def list_all_length)
  have cell: "(i, j, rows ds ! i ! j) \<in> set (cells ds)" using i j len by (simp add: cells_iff)
  have same: "k = j" if "k < length (headers ds)" "headers ds ! k = headers ds ! j" for k
    using dist j that by (simp add: nth_eq_iff_index_eq)
  show ?thesis
  proof
    assume "flagged ds (map (\<lambda>(i, j, v). cell_finding ds ty sev c i j (g v) (h v))
            (filter (\<lambda>(i, j, v). P i j v) (cells ds))) i j"
    then obtain k where "P i k (rows ds ! i ! k)" "k < length (headers ds)" "headers ds ! k = headers ds ! j"
      using len by (auto simp: flagged_def cells_iff csv_row_number_def)
    then show "P i j (rows ds ! i ! j)" using same by blast
  next
    assume P: "P i j (rows ds ! i ! j)"
    let ?f = "cell_finding ds ty sev c i j (g (rows ds ! i ! j)) (h (rows ds ! i ! j))"
    have "(i, j, rows ds ! i ! j) \<in> set (filter (\<lambda>(i, j, v). P i j v) (cells ds))"
      using cell P by simp
    then have "?f \<in> set (map (\<lambda>(i, j, v). cell_finding ds ty sev c i j (g v) (h v))
            (filter (\<lambda>(i, j, v). P i j v) (cells ds)))"
      by (force simp del: filter_set)
    then show "flagged ds (map (\<lambda>(i, j, v). cell_finding ds ty sev c i j (g v) (h v))
            (filter (\<lambda>(i, j, v). P i j v) (cells ds))) i j"
      unfolding flagged_def by (rule bexI[rotated]) (simp add: csv_row_number_def)
  qed
qed

lemma flagged_missing:
  assumes ok: "dataset_ok ds" and dist: "distinct (headers ds)" and j: "j < length (headers ds)"
  shows "flagged ds (missing_value_rule ds) i j \<longleftrightarrow> (i, j) \<in> set (missing_cells ds)"
proof -
  have same: "k = j" if "k < length (headers ds)" "headers ds ! k = headers ds ! j" for k
    using dist j that by (simp add: nth_eq_iff_index_eq)
  have two: "2 \<le> si_row_number s" if "s \<in> set (structural_issues ds)" "si_type s = ''too_few_fields''" for s
    using ok that by (auto simp: dataset_ok_def list_all_iff padding_ok_def)
  have "flagged ds (missing_value_rule ds) i j \<longleftrightarrow>
      (\<exists>s \<in> set (structural_issues ds). si_type s = ''too_few_fields'' \<and> si_row_number s = i + 2 \<and> si_field_count s \<le> j)"
    using same j by (fastforce simp: flagged_def missing_value_rule_def csv_row_number_def)
  also have "\<dots> \<longleftrightarrow> (i, j) \<in> set (missing_cells ds)"
    using two j by (fastforce simp: missing_cells_def)
  finally show ?thesis .
qed

text \<open>The three blank classifications are exclusive and complete: a cell is padded in, empty or a
  null sentinel exactly when one of the three rules reports it, and never do two of them report the
  same cell.\<close>

theorem blank_cells_classified_once:
  assumes ok: "dataset_ok ds" and dist: "distinct (headers ds)"
    and i: "i < length (rows ds)" and j: "j < length (headers ds)"
  shows "let missing = flagged ds (missing_value_rule ds) i j;
             empty = flagged ds (empty_string_rule ds) i j;
             null = flagged ds (null_value_rule ds) i j
         in (is_blank (rows ds ! i ! j) \<longleftrightarrow> missing \<or> empty \<or> null)
            \<and> \<not> (missing \<and> empty) \<and> \<not> (missing \<and> null) \<and> \<not> (empty \<and> null)"
proof -
  have padded: "rows ds ! i ! j = []" if "(i, j) \<in> set (missing_cells ds)"
    using that ok by (auto simp: missing_cells_def dataset_ok_def list_all_iff padding_ok_def)
  show ?thesis
    using padded flagged_missing[OF ok dist j, of i]
      flagged_cells[OF assms, of EMPTY_STRING LOW 1 "\<lambda>_. Some []" "\<lambda>_. None"
        "\<lambda>i j v. (i, j) \<notin> set (missing_cells ds) \<and> v = []"]
      flagged_cells[OF assms, of NULL_VALUE LOW 1 Some "\<lambda>_. None"
        "\<lambda>i j v. v \<noteq> [] \<and> casefold (strip v) \<in> set NULL_SENTINELS"]
    by (auto simp: Let_def is_blank_def empty_string_rule_def null_value_rule_def)
qed

theorem blank_cells_classified_once_witness:
  "is_blank (rows sample_dataset ! 1 ! 1) \<and> \<not> flagged sample_dataset (null_value_rule sample_dataset) 1 1"
proof -
  have b: "rows sample_dataset ! 1 ! 1 = []" "distinct (headers sample_dataset)"
    by (simp_all add: sample_dataset_def)
  have "flagged sample_dataset (missing_value_rule sample_dataset) 1 1"
    by (simp add: flagged_def missing_value_rule_def sample_dataset_def csv_row_number_def)
  then show ?thesis
    using blank_cells_classified_once[OF sample_dataset_ok b(2), of 1 1] b(1)
    by (simp add: sample_dataset_def is_blank_def Let_def)
qed

section \<open>Single rules\<close>

text \<open>The duplicate-row rule reports row \<open>i\<close> exactly when an earlier row is equal to it, and the
  number of its findings is the number of rows minus the number of different rows.\<close>

theorem duplicate_rows_exact:
  "(\<forall>i < length (rows ds). (\<exists>f \<in> set (duplicate_row_rule ds). row_number f = csv_row_number i)
       \<longleftrightarrow> (\<exists>k < i. rows ds ! k = rows ds ! i))
   \<and> length (duplicate_row_rule ds) + card (set (rows ds)) = length (rows ds)"
proof
  have "rows ds ! i \<in> set (take i (rows ds)) \<longleftrightarrow> (\<exists>k < i. rows ds ! k = rows ds ! i)"
    if "i < length (rows ds)" for i
    using that by (force simp: in_set_conv_nth)
  then show "\<forall>i < length (rows ds). (\<exists>f \<in> set (duplicate_row_rule ds). row_number f = csv_row_number i)
       \<longleftrightarrow> (\<exists>k < i. rows ds ! k = rows ds ! i)"
    by (simp add: duplicate_row_rule_def csv_row_number_def repeats_from_iff)
  show "length (duplicate_row_rule ds) + card (set (rows ds)) = length (rows ds)"
    using length_repeats_from[of 0 "[]" "rows ds"] by (simp add: duplicate_row_rule_def)
qed

theorem duplicate_rows_exact_witness:
  "\<exists>f \<in> set (duplicate_row_rule sample_dataset). row_number f = csv_row_number 2"
proof -
  have "rows sample_dataset ! 0 = rows sample_dataset ! 2" "2 < length (rows sample_dataset)"
    by (simp_all add: sample_dataset_def)
  then show ?thesis using conjunct1[OF duplicate_rows_exact[of sample_dataset], rule_format, of 2] by auto
qed

text \<open>The repair suggested for repeated internal spaces is strictly shorter than the cell, but it
  is not always a repair: matches do not overlap, so a one-letter word between two runs of spaces
  keeps its second run and the suggested text would be reported again.\<close>

theorem collapse_suggestion_incomplete:
  "(\<forall>f \<in> set (multiple_internal_spaces_rule ds). \<exists>v w. original_value f = Some v \<and> suggested_fix f = Some w
       \<and> length w < length v)
   \<and> sub_multispace ''a  b  c'' = ''a b  c'' \<and> has_multispace (sub_multispace ''a  b  c'')"
  by (auto simp: multiple_internal_spaces_rule_def sub_multispace_shrinks sub_multispace.simps(2)
      py_space_def py_cont_def)

theorem collapse_suggestion_incomplete_witness:
  "\<exists>f \<in> set (multiple_internal_spaces_rule (sample_dataset\<lparr>rows := [[''a  b  c'', '''']]\<rparr>)).
     \<exists>v w. original_value f = Some v \<and> suggested_fix f = Some w \<and> length w < length v"
proof -
  let ?ds = "sample_dataset\<lparr>rows := [[''a  b  c'', '''']]\<rparr>"
  have "has_multispace ''a  b  c''" by (simp add: py_space_def)
  then have "multiple_internal_spaces_rule ?ds \<noteq> []"
    by (simp add: multiple_internal_spaces_rule_def nonblank_cells_def cells_def filter_empty_conv del: has_multispace.simps)
  then obtain f where "f \<in> set (multiple_internal_spaces_rule ?ds)" by (cases "multiple_internal_spaces_rule ?ds") auto
  then show ?thesis using conjunct1[OF collapse_suggestion_incomplete[of ?ds]] by blast
qed

lemma concat_results_None: "None \<in> set rs \<Longrightarrow> concat_results rs = None"
  by (induction rs rule: concat_results.induct) auto

lemma numeric_cells_None:
  "v \<in> set vs \<Longrightarrow> v \<noteq> [] \<Longrightarrow> is_valid_numeric v \<Longrightarrow>
   float_of (replace_char CHR '','' [] (strip v)) = None \<Longrightarrow> numeric_cells n vs = None"
  by (induction vs arbitrary: n) (auto split: option.splits)

text \<open>A cell \<open>_1\<close> in a column with the outlier check makes the whole detection run raise: it is
  numeric for \<open>Decimal\<close>, which drops underscores, but \<open>float\<close> rejects it with a \<open>ValueError\<close> nothing
  catches.\<close>

theorem outlier_underscore_raises:
  assumes r: "column_rules ds (headers ds ! j) = Some cfg" "outlier_enabled cfg" "j < length (headers ds)"
    and v: "row \<in> set (rows ds)" "row ! j = ''_1''"
  shows "is_valid_numeric ''_1'' \<and> detect_issues env ds n = None"
proof
  show num: "is_valid_numeric ''_1''" by code_simp
  have float: "float_of (replace_char CHR '','' [] (strip ''_1'')) = None" by code_simp
  have "''_1'' \<in> set (map (\<lambda>row. row ! j) (rows ds))" using v by force
  then have "numeric_cells 0 (map (\<lambda>row. row ! j) (rows ds)) = None"
    using numeric_cells_None[OF _ _ num float] by simp
  then have col: "outlier_column ds j = None" by (simp add: outlier_column_def Let_def)
  have "j \<in> set (target_columns outlier_enabled ds)" using r by (simp add: target_columns_iff)
  then have "None \<in> set (map (outlier_column ds) (target_columns outlier_enabled ds))"
    using col by force
  then have "outlier_rule ds = None"
    unfolding outlier_rule_def by (rule concat_results_None)
  then have "all_findings env ds = None"
    unfolding all_findings_def by (simp add: concat_results_None DETECTION_RULES_def)
  then show "detect_issues env ds n = None" by (simp add: detect_issues_def)
qed

definition sample_outliers :: dataset where
  "sample_outliers = sample_dataset\<lparr>rows := [[''x'', ''_1''], [''x'', ''2''], [''x'', ''3'']],
     column_rules := (\<lambda>h. Some (sample_rule\<lparr>outlier_enabled := True\<rparr>))\<rparr>"

theorem outlier_underscore_raises_witness: "detect_issues no_oracles sample_outliers 10 = None"
  using outlier_underscore_raises[of sample_outliers 1 "sample_rule\<lparr>outlier_enabled := True\<rparr>"
      "[''x'', ''_1'']" no_oracles 10]
  by (simp add: sample_outliers_def sample_dataset_def)

lemma tally_mem: "(k, n) \<in> set (tally ks) \<longleftrightarrow> k \<in> set ks \<and> n = count_list ks k"
proof -
  have *: "map_of (tally ks) k = Some n \<longleftrightarrow> (k, n) \<in> set (tally ks)"
    by (simp add: distinct_tally)
  have "k \<in> set ks \<longleftrightarrow> map_of (tally ks) k \<noteq> None"
    using keys_tally[of ks] map_of_eq_None_iff[of "tally ks" k] by auto
  moreover have "map_of (tally ks) k = Some m \<Longrightarrow> m = count_list ks k" for m
    using tally_get_tally[of k ks] by (simp add: tally_get_def)
  ultimately show ?thesis using * by auto
qed

lemma tally_max:
  assumes "ks \<noteq> []"
  shows "\<exists>k \<in> set ks. count_list ks k = Max (set (map snd (tally ks)))"
    and "count_list ks k \<le> Max (set (map snd (tally ks)))"
proof -
  have ne: "set (map snd (tally ks)) \<noteq> {}" using assms keys_tally[of ks] by force
  have "Max (set (map snd (tally ks))) \<in> set (map snd (tally ks))"
    by (rule Max_in[OF _ ne]) simp
  then obtain m n where "(m, n) \<in> set (tally ks)" "n = Max (set (map snd (tally ks)))" by auto
  then show "\<exists>k \<in> set ks. count_list ks k = Max (set (map snd (tally ks)))"
    unfolding tally_mem by blast
  show "count_list ks k \<le> Max (set (map snd (tally ks)))"
  proof (cases "k \<in> set ks")
    case True
    then have "(k, count_list ks k) \<in> set (tally ks)" by (simp add: tally_mem)
    then have "count_list ks k \<in> set (map snd (tally ks))" by force
    then show ?thesis by (intro Max_ge) simp_all
  next
    case False
    then show ?thesis by (simp add: count_notin)
  qed
qed

lemma dominant_pattern_max:
  assumes "ks \<noteq> []"
  shows "dominant_pattern (tally ks) \<in> set ks \<and> (\<forall>p. count_list ks p \<le> count_list ks (dominant_pattern (tally ks)))"
proof -
  let ?M = "Max (set (map snd (tally ks)))"
  let ?F = "filter (\<lambda>p. tally_get p (tally ks) = ?M) PATTERN_PRIORITY"
  obtain k where k: "k \<in> set ks" "count_list ks k = ?M" using tally_max(1)[OF assms] by blast
  have "k \<in> set PATTERN_PRIORITY" by (cases k) (simp_all add: PATTERN_PRIORITY_def)
  then have "?F \<noteq> []" using k by (auto simp: filter_empty_conv tally_get_tally)
  then have "hd ?F \<in> set ?F" by (rule hd_in_set)
  then have d: "count_list ks (dominant_pattern (tally ks)) = ?M"
    by (simp add: dominant_pattern_def Let_def tally_get_tally)
  have "count_list ks k > 0" using k(1) count_list_0_iff[of ks k] by auto
  then have "dominant_pattern (tally ks) \<in> set ks"
    using d k(2) count_list_0_iff[of ks "dominant_pattern (tally ks)"] by auto
  then show ?thesis using d tally_max(2)[OF assms] by simp
qed

lemma dominant_family_max:
  assumes "ks \<noteq> []"
  shows "dominant_family (tally ks) \<in> set ks \<and> (\<forall>p. count_list ks p \<le> count_list ks (dominant_family (tally ks)))"
proof -
  let ?M = "Max (set (map snd (tally ks)))"
  let ?F = "set (map fst (filter (\<lambda>(f, c). c = ?M) (tally ks)))"
  obtain k where k: "k \<in> set ks" "count_list ks k = ?M" using tally_max(1)[OF assms] by blast
  then have "k \<in> ?F" by (force simp: tally_mem)
  then have "Min ?F \<in> ?F" by (intro Min_in) auto
  then have "dominant_family (tally ks) \<in> ?F" by (simp only: dominant_family_def Let_def)
  then have "dominant_family (tally ks) \<in> set ks" "count_list ks (dominant_family (tally ks)) = ?M"
    by (auto simp: tally_mem)
  then show ?thesis using tally_max(2)[OF assms] by simp
qed

text \<open>Inconsistent capitalization is a minority report: in a column the rule reports exactly the
  values whose casing differs from the dominant one, and the dominant casing is one that no other
  casing outnumbers in that column.\<close>

theorem capitalization_reports_minority:
  "let ps = map snd (classified classify_casing ds j) in
   (\<forall>i < length (rows ds). (\<exists>f \<in> set (capitalization_column ds j). row_number f = csv_row_number i)
      \<longleftrightarrow> (\<exists>p. classify_casing (rows ds ! i ! j) = Some p \<and> p \<noteq> dominant_pattern (tally ps)))
   \<and> (ps \<noteq> [] \<longrightarrow> dominant_pattern (tally ps) \<in> set ps
        \<and> (\<forall>p. count_list ps p \<le> count_list ps (dominant_pattern (tally ps))))"
proof -
  let ?ps = "map snd (classified classify_casing ds j)"
  have empty: "tally ?ps = [] \<longleftrightarrow> ?ps = []" using keys_tally[of ?ps] by (cases "tally ?ps") auto
  have "(\<exists>f \<in> set (capitalization_column ds j). row_number f = csv_row_number i)
      \<longleftrightarrow> (\<exists>p. classify_casing (rows ds ! i ! j) = Some p \<and> p \<noteq> dominant_pattern (tally ?ps))"
    if "i < length (rows ds)" for i
  proof (cases "?ps = []")
    case True
    then have "\<forall>p. classify_casing (rows ds ! i ! j) \<noteq> Some p"
      using classified_iff[of i _ classify_casing ds j] that by auto
    then show ?thesis using True empty by (simp add: capitalization_column_def Let_def)
  next
    case False
    then show ?thesis
      using empty that classified_iff[of i _ classify_casing ds j]
      by (force simp: capitalization_column_def Let_def csv_row_number_def)
  qed
  then show ?thesis using dominant_pattern_max[of ?ps] by (simp add: Let_def)
qed


theorem capitalization_reports_minority_witness:
  "\<exists>f \<in> set (capitalization_column (sample_dataset\<lparr>rows := [[''x''], [''y''], [''AB'']]\<rparr>) 0).
     row_number f = csv_row_number 2"
proof -
  let ?ds = "sample_dataset\<lparr>rows := [[''x''], [''y''], [''AB'']]\<rparr>"
  have cls: "classify_casing ''x'' = Some Lower" "classify_casing ''y'' = Some Lower"
      "classify_casing ''AB'' = Some Upper"
    by code_simp+
  have c: "map snd (classified classify_casing ?ds 0) = [Lower, Lower, Upper]"
    "classify_casing (rows ?ds ! 2 ! 0) = Some Upper" "dominant_pattern (tally [Lower, Lower, Upper]) = Lower"
    by (simp_all add: classified_def sample_dataset_def cls dominant_pattern_def PATTERN_PRIORITY_def
        tally_def tally_get_def)
  have "2 < length (rows ?ds)" by (simp add: sample_dataset_def)
  then show ?thesis
    using conjunct1[OF capitalization_reports_minority[of ?ds 0, unfolded Let_def], rule_format, of 2] c by auto
qed

end
