(* ===== verification/Standardize.thy ===== *)
theory Standardize
  imports PyDecimal Externals
begin

text \<open>
  The rules of \<open>app.standardization.rules\<close> and the shared \<open>trim_whitespace\<close> of \<open>app.cleaning.rules\<close>.

  Every rule returns the pair of the source: the value, and the name of the rule if it changed it.
  Rule names are a datatype; the reason texts, fixed per name, are not carried.
\<close>

datatype rule_name =
    TrimWhitespace | NormalizeBlank | CoerceInteger | CoerceDecimal | CoerceBoolean | NormalizeDateFormat
  | TitleCase | UpperCase | LowerCase | CompanySuffixLookup | PhoneE164 | AddressAbbreviation
  | StateProvinceAbbreviation | CountryIsoNormalize | PostalCodeFormat | DateFormatNormalize
  | TimeFormatNormalize | BooleanFormatNormalize | NumericFormatNormalize | CurrencyFormatNormalize
  | AbbreviationLookup

type_synonym ruled = "string \<times> rule_name option"

type_synonym lookup = "string \<Rightarrow> string option"

text \<open>The end most rules share: report the rule only if the canonical form differs.\<close>

definition ruled_if_changed :: "string \<Rightarrow> string \<Rightarrow> rule_name \<Rightarrow> ruled" where
  "ruled_if_changed value canonical r = (if canonical = value then (value, None) else (canonical, Some r))"

section \<open>Whitespace and casing\<close>

definition trim_whitespace :: "string \<Rightarrow> ruled" where
  "trim_whitespace value = ruled_if_changed value (sub_ws '' '' (strip value)) TrimWhitespace"

text \<open>\<open>word[:1].upper() + word[1:].lower()\<close>; on UTF-8 text the case mapping of a first character
  outside ASCII is the identity, byte by byte.\<close>

definition capitalize_word :: "string \<Rightarrow> string" where
  "capitalize_word w = (case w of [] \<Rightarrow> [] | c # s \<Rightarrow> upper_char c # lower s)"

definition title_case :: "string \<Rightarrow> string" where
  "title_case value = join '' '' (map capitalize_word (split_on CHR '' '' value))"

definition title_case_step :: "string \<Rightarrow> ruled" where
  "title_case_step value =
     (if value = [] then (value, None) else ruled_if_changed value (title_case value) TitleCase)"

section \<open>Names and abbreviations\<close>

definition standardize_person_name :: "string \<Rightarrow> ruled" where
  "standardize_person_name value = title_case_step value"

definition standardize_company_name :: "lookup \<Rightarrow> string \<Rightarrow> ruled" where
  "standardize_company_name table value =
     (if value = [] then (value, None)
      else case table (lower (strip value)) of
             Some canonical \<Rightarrow> ruled_if_changed value canonical CompanySuffixLookup
           | None \<Rightarrow> title_case_step value)"

definition apply_generic_abbreviation_lookup :: "lookup \<Rightarrow> string \<Rightarrow> ruled" where
  "apply_generic_abbreviation_lookup table value =
     (if value = [] then (value, None)
      else case table (lower (strip value)) of
             None \<Rightarrow> (value, None)
           | Some canonical \<Rightarrow> ruled_if_changed value canonical AbbreviationLookup)"

section \<open>Contact\<close>

definition standardize_email :: "string \<Rightarrow> ruled" where
  "standardize_email value =
     (if value = [] then (value, None)
      else (let parts = split_on CHR ''@'' value in
            if length parts \<noteq> 2 \<or> parts ! 0 = [] \<or> parts ! 1 = [] then (value, None)
            else ruled_if_changed value (lower value) LowerCase))"

definition standardize_phone :: "'d oracles \<Rightarrow> string option \<Rightarrow> string \<Rightarrow> ruled" where
  "standardize_phone env country value =
     (if value = [] \<or> \<not> truthy country then (value, None)
      else case e164 env value country of
             None \<Rightarrow> (value, None)
           | Some formatted \<Rightarrow> ruled_if_changed value formatted PhoneE164)"

section \<open>Geography\<close>

definition DEFAULT_ADDRESS_ABBREVIATIONS :: lookup where
  "DEFAULT_ADDRESS_ABBREVIATIONS = map_of
     [(''st'', ''Street''), (''st.'', ''Street''), (''ave'', ''Avenue''), (''ave.'', ''Avenue''),
      (''blvd'', ''Boulevard''), (''blvd.'', ''Boulevard''), (''rd'', ''Road''), (''rd.'', ''Road''),
      (''dr'', ''Drive''), (''dr.'', ''Drive''), (''ln'', ''Lane''), (''ln.'', ''Lane''),
      (''ct'', ''Court''), (''ct.'', ''Court''), (''apt'', ''Apartment''), (''apt.'', ''Apartment''),
      (''ste'', ''Suite''), (''ste.'', ''Suite''), (''hwy'', ''Highway''), (''hwy.'', ''Highway'')]"

definition DEFAULT_COUNTRY_NAME_VARIANTS :: "(string \<times> string) list" where
  "DEFAULT_COUNTRY_NAME_VARIANTS =
     [(''us'', ''US''), (''usa'', ''US''), (''u.s.a.'', ''US''), (''u.s.'', ''US''),
      (''united states'', ''US''), (''united states of america'', ''US''), (''ca'', ''CA''),
      (''canada'', ''CA''), (''uk'', ''GB''), (''u.k.'', ''GB''), (''united kingdom'', ''GB''),
      (''great britain'', ''GB''), (''gb'', ''GB''), (''mx'', ''MX''), (''mexico'', ''MX''),
      (''au'', ''AU''), (''australia'', ''AU''), (''de'', ''DE''), (''germany'', ''DE''),
      (''fr'', ''FR''), (''france'', ''FR'')]"

definition DEFAULT_US_STATE_ABBREVIATIONS :: "(string \<times> string) list" where
  "DEFAULT_US_STATE_ABBREVIATIONS =
     [(''alabama'', ''AL''), (''alaska'', ''AK''), (''arizona'', ''AZ''), (''arkansas'', ''AR''),
      (''california'', ''CA''), (''colorado'', ''CO''), (''connecticut'', ''CT''), (''delaware'', ''DE''),
      (''florida'', ''FL''), (''georgia'', ''GA''), (''hawaii'', ''HI''), (''idaho'', ''ID''),
      (''illinois'', ''IL''), (''indiana'', ''IN''), (''iowa'', ''IA''), (''kansas'', ''KS''),
      (''kentucky'', ''KY''), (''louisiana'', ''LA''), (''maine'', ''ME''), (''maryland'', ''MD''),
      (''massachusetts'', ''MA''), (''michigan'', ''MI''), (''minnesota'', ''MN''), (''mississippi'', ''MS''),
      (''missouri'', ''MO''), (''montana'', ''MT''), (''nebraska'', ''NE''), (''nevada'', ''NV''),
      (''new hampshire'', ''NH''), (''new jersey'', ''NJ''), (''new mexico'', ''NM''), (''new york'', ''NY''),
      (''north carolina'', ''NC''), (''north dakota'', ''ND''), (''ohio'', ''OH''), (''oklahoma'', ''OK''),
      (''oregon'', ''OR''), (''pennsylvania'', ''PA''), (''rhode island'', ''RI''), (''south carolina'', ''SC''),
      (''south dakota'', ''SD''), (''tennessee'', ''TN''), (''texas'', ''TX''), (''utah'', ''UT''),
      (''vermont'', ''VT''), (''virginia'', ''VA''), (''washington'', ''WA''), (''west virginia'', ''WV''),
      (''wisconsin'', ''WI''), (''wyoming'', ''WY''), (''district of columbia'', ''DC'')]"

definition DEFAULT_CA_PROVINCE_ABBREVIATIONS :: "(string \<times> string) list" where
  "DEFAULT_CA_PROVINCE_ABBREVIATIONS =
     [(''alberta'', ''AB''), (''british columbia'', ''BC''), (''manitoba'', ''MB''),
      (''new brunswick'', ''NB''), (''newfoundland and labrador'', ''NL''),
      (''northwest territories'', ''NT''), (''nova scotia'', ''NS''), (''nunavut'', ''NU''),
      (''ontario'', ''ON''), (''prince edward island'', ''PE''), (''quebec'', ''QC''),
      (''saskatchewan'', ''SK''), (''yukon'', ''YT'')]"

definition expand_token :: "lookup \<Rightarrow> string \<Rightarrow> string" where
  "expand_token table token = (case table (lower token) of None \<Rightarrow> token | Some t \<Rightarrow> t)"

definition expand_address_abbreviations :: "lookup \<Rightarrow> string \<Rightarrow> ruled" where
  "expand_address_abbreviations table value =
     (if value = [] then (value, None)
      else (let tokens = split_on CHR '' '' value in
            if list_ex (\<lambda>token. table (lower token) \<noteq> None) tokens
            then (join '' '' (map (expand_token table) tokens), Some AddressAbbreviation)
            else (value, None)))"

definition standardize_city :: "string \<Rightarrow> ruled" where
  "standardize_city value = title_case_step value"

definition standardize_country :: "lookup \<Rightarrow> string \<Rightarrow> ruled" where
  "standardize_country table value =
     (if value = [] then (value, None)
      else case (map_of DEFAULT_COUNTRY_NAME_VARIANTS ++ table) (lower (strip value)) of
             None \<Rightarrow> (value, None)
           | Some canonical \<Rightarrow> ruled_if_changed value canonical CountryIsoNormalize)"

definition resolve_country_code :: "lookup \<Rightarrow> string \<Rightarrow> string option" where
  "resolve_country_code table value =
     (if value = [] then None
      else case (map_of DEFAULT_COUNTRY_NAME_VARIANTS ++ table) (lower (strip value)) of
             Some cc \<Rightarrow> Some cc
           | None \<Rightarrow> if py_len (strip value) = 2 \<and> isalpha (strip value)
                     then Some (upper (strip value)) else None)"

definition standardize_state_province :: "string option \<Rightarrow> string \<Rightarrow> ruled" where
  "standardize_state_province country value =
     (if value = [] \<or> country \<notin> {Some ''US'', Some ''CA''} then (value, None)
      else (let table = (if country = Some ''US'' then DEFAULT_US_STATE_ABBREVIATIONS
                         else DEFAULT_CA_PROVINCE_ABBREVIATIONS)
            in case map_of table (lower (strip value)) of
                 None \<Rightarrow> (value, None)
               | Some canonical \<Rightarrow> ruled_if_changed value canonical StateProvinceAbbreviation))"

definition alnum_only :: "string \<Rightarrow> string" where
  "alnum_only s = filter (\<lambda>c. py_alpha c \<or> py_digit c) s"

text \<open>\<open>^[A-Za-z]\d[A-Za-z]\s?\d[A-Za-z]\d$\<close> on a text that has its space after the third character.\<close>

definition ca_postal_shape :: "string \<Rightarrow> bool" where
  "ca_postal_shape s \<longleftrightarrow> length s = 7 \<and> py_alpha (s ! 0) \<and> py_digit (s ! 1) \<and> py_alpha (s ! 2)
     \<and> py_space (s ! 3) \<and> py_digit (s ! 4) \<and> py_alpha (s ! 5) \<and> py_digit (s ! 6)"

definition standardize_postal_code :: "string option \<Rightarrow> string \<Rightarrow> ruled" where
  "standardize_postal_code country value =
     (if value = [] \<or> country \<notin> {Some ''US'', Some ''CA''} then (value, None)
      else if country = Some ''US''
      then (let stripped = alnum_only value in
            if \<not> isdigit stripped \<or> length stripped \<notin> {5, 9} then (value, None)
            else ruled_if_changed value
                   (if length stripped = 5 then stripped else take 5 stripped @ ''-'' @ drop 5 stripped)
                   PostalCodeFormat)
      else (let compact = upper (alnum_only value); spaced = take 3 compact @ '' '' @ drop 3 compact in
            if length compact \<noteq> 6 \<or> \<not> ca_postal_shape spaced then (value, None)
            else ruled_if_changed value spaced PostalCodeFormat))"

section \<open>Dates and times\<close>

definition parse_iso :: "'d oracles \<Rightarrow> string \<Rightarrow> 'd option" where
  "parse_iso env stripped =
     (case datetime_fromisoformat env (replace_char CHR ''Z'' ''+00:00'' stripped) of
        Some d \<Rightarrow> Some d | None \<Rightarrow> date_fromisoformat env stripped)"

definition standardize_date :: "'d oracles \<Rightarrow> string option \<Rightarrow> string \<Rightarrow> ruled" where
  "standardize_date env output_format value =
     (if value = [] then (value, None)
      else case parse_iso env (strip value) of
             None \<Rightarrow> (value, None)
           | Some d \<Rightarrow> ruled_if_changed value
               (if truthy output_format then strftime env d (the output_format) else isoformat env d)
               DateFormatNormalize)"

definition standardize_time :: "'d oracles \<Rightarrow> string \<Rightarrow> ruled" where
  "standardize_time env value =
     (if value = [] then (value, None)
      else (let stripped = strip value;
                parsed = (case time_fromisoformat env stripped of
                            Some t \<Rightarrow> Some t
                          | None \<Rightarrow> time_fromisoformat env (replace_char CHR '' '' [] (upper stripped)))
            in case parsed of
                 None \<Rightarrow> (value, None)
               | Some t \<Rightarrow> ruled_if_changed value (isoformat env t) TimeFormatNormalize))"

section \<open>Booleans, numbers, currencies\<close>

definition BOOLEAN_TRUE :: "string list" where
  "BOOLEAN_TRUE = [''true'', ''yes'', ''y'', ''1'']"

definition BOOLEAN_FALSE :: "string list" where
  "BOOLEAN_FALSE = [''false'', ''no'', ''n'', ''0'']"

definition standardize_boolean :: "(string \<times> string) option \<Rightarrow> string \<Rightarrow> ruled" where
  "standardize_boolean output_form value =
     (if value = [] then (value, None)
      else (let lowered = casefold (strip value);
                (true_form, false_form) = (case output_form of None \<Rightarrow> (''true'', ''false'') | Some p \<Rightarrow> p)
            in if lowered \<in> set BOOLEAN_TRUE then ruled_if_changed value true_form BooleanFormatNormalize
               else if lowered \<in> set BOOLEAN_FALSE then ruled_if_changed value false_form BooleanFormatNormalize
               else (value, None)))"

text \<open>\<open>^-?\d+,\d{1,2}$\<close>\<close>

definition trailing_comma_decimal :: "string \<Rightarrow> bool" where
  "trailing_comma_decimal s =
     (let u = (case s of [] \<Rightarrow> [] | c # t \<Rightarrow> if c = CHR ''-'' then t else c # t)
      in case split_on CHR '','' u of
           [a, b] \<Rightarrow> isdigit a \<and> isdigit b \<and> length b \<le> 2
         | _ \<Rightarrow> False)"

definition canonical_numeric :: "string option \<Rightarrow> string \<Rightarrow> string option" where
  "canonical_numeric locale stripped =
     (let has_comma = CHR '','' \<in> set stripped; has_dot = CHR ''.'' \<in> set stripped;
          eu = (locale = Some ''eu'')
      in if has_comma \<and> has_dot
         then Some (if rfind CHR ''.'' stripped > rfind CHR '','' stripped
                    then replace_char CHR '','' [] stripped
                    else replace_char CHR '','' ''.'' (replace_char CHR ''.'' [] stripped))
         else if has_comma
         then (if grouped_by CHR '','' stripped then Some (replace_char CHR '','' [] stripped)
               else if eu \<and> trailing_comma_decimal stripped
               then Some (replace_char CHR '','' ''.'' stripped)
               else None)
         else if has_dot
         then Some (if eu \<and> grouped_by CHR ''.'' stripped then replace_char CHR ''.'' [] stripped
                    else stripped)
         else Some stripped)"

definition standardize_numeric :: "string option \<Rightarrow> string \<Rightarrow> ruled" where
  "standardize_numeric locale value =
     (if value = [] then (value, None)
      else case canonical_numeric locale (strip value) of
             None \<Rightarrow> (value, None)
           | Some canonical \<Rightarrow> ruled_if_changed value canonical NumericFormatNormalize)"

text \<open>The symbols of the euro, the pound and the yen in UTF-8.\<close>

definition DEFAULT_CURRENCY_SYMBOL_MAP :: "(string \<times> string) list" where
  "DEFAULT_CURRENCY_SYMBOL_MAP =
     [([CHR 0xE2, CHR 0x82, CHR 0xAC], ''EUR''), ([CHR 0xC2, CHR 0xA3], ''GBP''),
      ([CHR 0xC2, CHR 0xA5], ''JPY'')]"

definition currency_parts :: "string option \<Rightarrow> string \<Rightarrow> (string \<times> string) option" where
  "currency_parts default_currency stripped =
     (case find (\<lambda>(symbol, cc). contains symbol stripped) DEFAULT_CURRENCY_SYMBOL_MAP of
        Some (symbol, cc) \<Rightarrow> Some (cc, strip (replace_str symbol [] stripped))
      | None \<Rightarrow>
          if CHR ''$'' \<in> set stripped \<and> truthy default_currency
          then Some (the default_currency, strip (replace_char CHR ''$'' [] stripped))
          else None)"

definition standardize_currency :: "string option \<Rightarrow> string option \<Rightarrow> string \<Rightarrow> ruled" where
  "standardize_currency default_currency locale value =
     (if value = [] then (value, None)
      else case currency_parts default_currency (strip value) of
             None \<Rightarrow> (value, None)
           | Some (cc, numeric_part) \<Rightarrow>
               ruled_if_changed value (fst (standardize_numeric locale numeric_part) @ '' '' @ cc)
                 CurrencyFormatNormalize)"

end
