(* ===== verification/StandardizeRules.thy ===== *)
theory StandardizeRules
  imports Standardize
begin

text \<open>
  The contract of the standardization rules, in three strengths, and which rules keep which.

  Every rule leaves the value alone when it names no rule.  All but the token-wise address
  expansion name a rule only if they changed the value.  The mechanical rules are moreover stable:
  applied to their own output they do nothing.
\<close>

locale value_rule =
  fixes rule :: "string \<Rightarrow> ruled"
  assumes empty_kept: "rule [] = ([], None)"
    and none_keeps: "rule v = (w, None) \<Longrightarrow> w = v"
begin

lemma named_if_changed: "fst (rule v) \<noteq> v \<Longrightarrow> snd (rule v) \<noteq> None"
  using none_keeps[of v "fst (rule v)"] by (cases "rule v") auto

end

locale strict_rule = value_rule +
  assumes some_changes: "rule v = (w, Some r) \<Longrightarrow> w \<noteq> v"
begin

lemma named_iff_changed: "snd (rule v) \<noteq> None \<longleftrightarrow> fst (rule v) \<noteq> v"
  using none_keeps[of v "fst (rule v)"] some_changes[of v "fst (rule v)"]
  by (cases "rule v"; cases "snd (rule v)") auto

end

locale stable_rule = strict_rule +
  assumes stable: "rule v = (w, Some r) \<Longrightarrow> rule w = (w, None)"
begin

lemma idempotent: "rule (fst (rule v)) = (fst (rule v), None)"
proof (cases "rule v")
  case (Pair w r)
  then show ?thesis using none_keeps[of v w] stable[of v w] by (cases r) auto
qed

end

lemma strictI:
  assumes "rule [] = ([], None)"
    and "\<And>v. v \<noteq> [] \<Longrightarrow> rule v = (v, None) \<or> (\<exists>w r. rule v = ruled_if_changed v w r)"
  shows "strict_rule rule"
proof
  fix v w r
  have *: "rule v = (v, None) \<or> (\<exists>w r. rule v = ruled_if_changed v w r)"
    using assms by (cases "v = []") auto
  show "rule v = (w, None) \<Longrightarrow> w = v" using * by (auto simp: ruled_if_changed_def split: if_splits)
  show "rule v = (w, Some r) \<Longrightarrow> w \<noteq> v" using * by (auto simp: ruled_if_changed_def split: if_splits)
qed (rule assms(1))

named_theorems rule_defs \<open>definitions of the standardization rules\<close>

lemmas [rule_defs] = title_case_step_def standardize_person_name_def standardize_company_name_def
  apply_generic_abbreviation_lookup_def standardize_email_def standardize_phone_def
  standardize_city_def standardize_country_def standardize_state_province_def
  standardize_postal_code_def standardize_date_def standardize_time_def standardize_boolean_def
  standardize_numeric_def standardize_currency_def

section \<open>Strict rules\<close>

lemma ruled_if_changed_same [simp]: "ruled_if_changed v v r = (v, None)"
  by (simp add: ruled_if_changed_def)

lemma trim_empty: "trim_whitespace [] = ([], None)"
  by (simp add: trim_whitespace_def)

interpretation trim: strict_rule trim_whitespace
  by (rule strictI) (auto simp: trim_empty trim_whitespace_def)

interpretation title: strict_rule title_case_step
  by (rule strictI) (auto simp: rule_defs)

interpretation company: strict_rule "standardize_company_name t" for t
  by (rule strictI) (auto simp: rule_defs split: option.splits)

interpretation generic: strict_rule "apply_generic_abbreviation_lookup t" for t
  by (rule strictI) (auto simp: rule_defs split: option.splits)

interpretation email: strict_rule standardize_email
  by (rule strictI) (auto simp: rule_defs Let_def)

interpretation phone: strict_rule "standardize_phone env c" for env c
  by (rule strictI) (auto simp: rule_defs split: option.splits)

interpretation country: strict_rule "standardize_country t" for t
  by (rule strictI) (auto simp: rule_defs split: option.splits)

interpretation state_province: strict_rule "standardize_state_province c" for c
  by (rule strictI) (auto simp: rule_defs Let_def split: option.splits)

interpretation postal: strict_rule "standardize_postal_code c" for c
  by (rule strictI) (auto simp: rule_defs Let_def)

interpretation date: strict_rule "standardize_date env f" for env f
  by (rule strictI) (auto simp: rule_defs split: option.splits)

interpretation time: strict_rule "standardize_time env" for env
  by (rule strictI) (auto simp: rule_defs Let_def split: option.splits)

interpretation boolean_form: strict_rule "standardize_boolean f" for f
  by (rule strictI) (auto simp: rule_defs Let_def split: option.splits prod.splits)

interpretation numeric: strict_rule "standardize_numeric l" for l
  by (rule strictI) (auto simp: rule_defs split: option.splits)

interpretation currency: strict_rule "standardize_currency d l" for d l
  by (rule strictI) (auto simp: rule_defs split: option.splits prod.splits)

interpretation address: value_rule "expand_address_abbreviations t" for t
  by unfold_locales (auto simp: expand_address_abbreviations_def Let_def split: if_splits)

section \<open>Stable rules\<close>

lemma stableI:
  assumes "strict_rule rule" and "\<And>v w r. rule v = (w, Some r) \<Longrightarrow> rule w = (w, None)"
  shows "stable_rule rule"
  using assms by (simp add: stable_rule_def stable_rule_axioms_def)

lemma ruled_if_changedD: "ruled_if_changed v w r = (x, Some q) \<Longrightarrow> x = w \<and> q = r \<and> w \<noteq> v"
  by (auto simp: ruled_if_changed_def split: if_splits)

interpretation trim_stable: stable_rule trim_whitespace
  by (rule stableI[OF trim.strict_rule_axioms])
    (auto simp: trim_whitespace_def strip_sub_ws_strip sub_ws_idem dest!: ruled_if_changedD)

lemma split_on_absent: "w \<in> set (split_on d s) \<Longrightarrow> d \<notin> set w"
  by (induction s arbitrary: w) (auto split: if_splits list.splits)

lemma split_on_append: "d \<notin> set w \<Longrightarrow> split_on d (w @ d # s) = w # split_on d s"
  by (induction w) auto

lemma split_on_single: "d \<notin> set w \<Longrightarrow> split_on d w = [w]"
  by (induction w) auto

lemma split_on_join: "ws \<noteq> [] \<Longrightarrow> (\<And>w. w \<in> set ws \<Longrightarrow> d \<notin> set w) \<Longrightarrow> split_on d (join [d] ws) = ws"
proof (induction "[d]" ws rule: join.induct)
  case (3 w v ws)
  then show ?case using split_on_append[of d w "join [d] (v # ws)"] by simp
qed (auto simp: split_on_single)

lemma blank_case [simp]: "upper_char c = CHR '' '' \<longleftrightarrow> c = CHR '' ''" "lower_char c = CHR '' '' \<longleftrightarrow> c = CHR '' ''"
proof -
  have "code (upper_char c) = 32 \<longleftrightarrow> code c = 32" "code (lower_char c) = 32 \<longleftrightarrow> code c = 32"
    by (auto simp: code_upper_char code_lower_char py_lower_letter_def py_upper_letter_def)
  moreover have "x = CHR '' '' \<longleftrightarrow> code x = 32" for x
  proof -
    have "code CHR '' '' = (32 :: nat)" by simp
    then show ?thesis by (metis of_char_eq_iff)
  qed
  ultimately show "upper_char c = CHR '' '' \<longleftrightarrow> c = CHR '' ''" "lower_char c = CHR '' '' \<longleftrightarrow> c = CHR '' ''"
    by simp_all
qed

lemma capitalize_word_idem [simp]: "capitalize_word (capitalize_word w) = capitalize_word w"
  by (cases w) (simp_all add: capitalize_word_def)

lemma capitalize_word_blank: "CHR '' '' \<notin> set w \<Longrightarrow> CHR '' '' \<notin> set (capitalize_word w)"
  by (cases w) (auto simp: capitalize_word_def lower_def dest!: sym[where s = "CHR '' ''"])

lemma title_case_idem [simp]: "title_case (title_case v) = title_case v"
proof -
  let ?ws = "map capitalize_word (split_on CHR '' '' v)"
  have "split_on CHR '' '' (join '' '' ?ws) = ?ws"
    by (rule split_on_join) (use capitalize_word_blank split_on_absent in auto)
  then show ?thesis by (simp add: title_case_def comp_def)
qed

lemma title_case_empty: "title_case v = [] \<Longrightarrow> v = []"
proof -
  assume a: "title_case v = []"
  have "length (join '' '' (map capitalize_word ws)) = length (join '' '' ws)" for ws
    by (induction "'' ''" ws rule: join.induct) (auto simp: capitalize_word_def split: list.splits)
  then have "length (title_case v) = length v"
    unfolding title_case_def by (simp add: join_split_on)
  then show ?thesis using a by simp
qed

interpretation title_stable: stable_rule title_case_step
  by (rule stableI[OF title.strict_rule_axioms])
    (auto simp: title_case_step_def dest!: ruled_if_changedD dest: title_case_empty split: if_splits)

lemma split_on_lower: "lower_char d = d \<Longrightarrow> (\<And>c. lower_char c = d \<Longrightarrow> c = d) \<Longrightarrow>
    split_on d (lower s) = map lower (split_on d s)"
  by (induction s) (auto split: list.splits)

lemma at_sign_case: "lower_char CHR ''@'' = CHR ''@''" "lower_char c = CHR ''@'' \<Longrightarrow> c = CHR ''@''"
proof -
  have at: "x = CHR ''@'' \<longleftrightarrow> code x = 64" for x
  proof -
    have "code CHR ''@'' = (64 :: nat)" by simp
    then show ?thesis by (metis of_char_eq_iff)
  qed
  show "lower_char CHR ''@'' = CHR ''@''" by (simp add: lower_char_def py_upper_letter_def)
  show "lower_char c = CHR ''@'' \<Longrightarrow> c = CHR ''@''"
    unfolding at by (auto simp: code_lower_char py_upper_letter_def split: if_splits)
qed

interpretation email_stable: stable_rule standardize_email
proof (rule stableI[OF email.strict_rule_axioms])
  fix v w r
  assume "standardize_email v = (w, Some r)"
  then have "w = lower v" "v \<noteq> []"
    by (auto simp: standardize_email_def Let_def dest!: ruled_if_changedD split: if_splits)
  then show "standardize_email w = (w, None)"
    by (simp add: standardize_email_def Let_def)
qed

text \<open>Token tables whose targets are not sources again.\<close>

lemma boolean_forms: "casefold (strip ''true'') = ''true''" "casefold (strip ''false'') = ''false''"
  by code_simp+

interpretation boolean_stable: stable_rule "standardize_boolean None"
  by (rule stableI[OF boolean_form.strict_rule_axioms])
    (auto simp: standardize_boolean_def boolean_forms BOOLEAN_TRUE_def BOOLEAN_FALSE_def Let_def
      dest!: ruled_if_changedD split: if_splits)

lemma digits_alnum: "list_all py_digit s \<Longrightarrow> alnum_only s = s"
  by (induction s) (auto simp: alnum_only_def)

lemma alnum_only_idem [simp]: "alnum_only (alnum_only s) = alnum_only s"
  by (simp add: alnum_only_def)

lemma alnum_only_append: "alnum_only (s @ t) = alnum_only s @ alnum_only t"
  by (simp add: alnum_only_def)

lemma alnum_upper: "alnum_only (upper s) = upper (alnum_only s)"
proof -
  have "py_alpha (upper_char c) \<or> py_digit (upper_char c) \<longleftrightarrow> py_alpha c \<or> py_digit c" for c
    by (auto simp: py_alpha_def py_upper_letter_def py_lower_letter_def py_digit_def code_upper_char)
  then show ?thesis by (simp add: alnum_only_def upper_def filter_map comp_def)
qed

lemma alnum_punct: "alnum_only (CHR ''-'' # s) = alnum_only s" "alnum_only (CHR '' '' # s) = alnum_only s"
  by (simp_all add: alnum_only_def py_alpha_def py_upper_letter_def py_lower_letter_def py_digit_def)

lemma isdigit_append: "isdigit s \<Longrightarrow> list_all py_digit (take n s) \<and> list_all py_digit (drop n s)"
  by (auto simp: isdigit_def list_all_iff dest: in_set_takeD in_set_dropD)

lemma spaced_alnum: "alnum_only (take 3 (upper (alnum_only v)) @ '' '' @ drop 3 (upper (alnum_only v)))
    = upper (alnum_only v)"
proof -
  let ?c = "upper (alnum_only v)"
  have "alnum_only ?c = ?c" by (simp add: alnum_upper)
  then have a: "alnum_only (take 3 ?c) @ alnum_only (drop 3 ?c) = ?c"
    by (simp add: alnum_only_append[symmetric])
  then show ?thesis by (simp add: alnum_only_append alnum_punct)
qed

lemma zip_alnum: "isdigit s \<Longrightarrow> alnum_only (take 5 s @ ''-'' @ drop 5 s) = s"
  using isdigit_append[of s 5] by (simp add: alnum_only_append alnum_punct digits_alnum)

interpretation postal_stable: stable_rule "standardize_postal_code c" for c
proof (rule stableI[OF postal.strict_rule_axioms])
  fix v w r
  assume a: "standardize_postal_code c v = (w, Some r)"
  show "standardize_postal_code c w = (w, None)"
  proof (cases "c = Some ''US''")
    case True
    let ?s = "alnum_only v"
    have w: "isdigit ?s" "length ?s \<in> {5, 9}"
        "w = (if length ?s = 5 then ?s else take 5 ?s @ ''-'' @ drop 5 ?s)"
      using a True by (auto simp: standardize_postal_code_def Let_def dest!: ruled_if_changedD split: if_splits)
    then have "alnum_only w = ?s" using zip_alnum[OF w(1)] by simp
    then show ?thesis using True w by (simp add: standardize_postal_code_def Let_def)
  next
    case False
    let ?c = "upper (alnum_only v)"
    have w: "c = Some ''CA''" "length ?c = 6" "w = take 3 ?c @ '' '' @ drop 3 ?c"
        "ca_postal_shape (take 3 ?c @ '' '' @ drop 3 ?c)"
      using a False by (auto simp: standardize_postal_code_def Let_def dest!: ruled_if_changedD split: if_splits)
    then have "upper (alnum_only w) = ?c" using spaced_alnum[of v] by simp
    then show ?thesis using False w by (simp add: standardize_postal_code_def Let_def)
  qed
qed

end
