(* ===== verification/Remediation.thy ===== *)
theory Remediation
  imports StandardizeRules Detection
begin

text \<open>
  \<open>app.remediation\<close>: the ten actions, the dispatch by issue type and the engine.

  An action is a function from one issue, the column's configuration (if any) and the dataset's
  configuration to an outcome.  The configured capitalization target is a datatype: its column
  has a CHECK constraint.  Identifiers are natural numbers.
\<close>

section \<open>Data\<close>

datatype remediation_action =
    TRIM_WHITESPACE | COLLAPSE_MULTIPLE_SPACES | STANDARDIZE_CAPITALIZATION | NORMALIZE_BOOLEAN
  | NORMALIZE_DATE | NORMALIZE_PHONE | NORMALIZE_NUMERIC | NORMALIZE_ENUM_VALUE
  | REMOVE_DUPLICATE_ROW | REMOVE_DUPLICATE_PRIMARY_KEY

fun action_value :: "remediation_action \<Rightarrow> string" where
  "action_value TRIM_WHITESPACE = ''trim_whitespace''"
| "action_value COLLAPSE_MULTIPLE_SPACES = ''collapse_multiple_spaces''"
| "action_value STANDARDIZE_CAPITALIZATION = ''standardize_capitalization''"
| "action_value NORMALIZE_BOOLEAN = ''normalize_boolean''"
| "action_value NORMALIZE_DATE = ''normalize_date''"
| "action_value NORMALIZE_PHONE = ''normalize_phone''"
| "action_value NORMALIZE_NUMERIC = ''normalize_numeric''"
| "action_value NORMALIZE_ENUM_VALUE = ''normalize_enum_value''"
| "action_value REMOVE_DUPLICATE_ROW = ''remove_duplicate_row''"
| "action_value REMOVE_DUPLICATE_PRIMARY_KEY = ''remove_duplicate_primary_key''"

fun CHANGE_REASONS :: "remediation_action \<Rightarrow> string" where
  "CHANGE_REASONS TRIM_WHITESPACE =
     ''Leading or trailing whitespace removed (Module 14 suggested_fix reused verbatim).''"
| "CHANGE_REASONS COLLAPSE_MULTIPLE_SPACES =
     ''Repeated internal whitespace collapsed to a single space (Module 14 suggested_fix reused verbatim).''"
| "CHANGE_REASONS STANDARDIZE_CAPITALIZATION =
     ''Value recased to the column's configured capitalization target.''"
| "CHANGE_REASONS NORMALIZE_BOOLEAN =
     ''Value normalized to the canonical boolean form (app.standardization.rules.values.standardize_boolean).''"
| "CHANGE_REASONS NORMALIZE_DATE =
     ''Value reparsed under the column's configured source date format and rendered into the column's configured target date format.''"
| "CHANGE_REASONS NORMALIZE_PHONE =
     ''Value reformatted to E.164 using the column's configured default country (app.standardization.rules.contact.standardize_phone).''"
| "CHANGE_REASONS NORMALIZE_NUMERIC =
     ''Value normalized to canonical numeric form (app.standardization.rules.values.standardize_numeric).''"
| "CHANGE_REASONS NORMALIZE_ENUM_VALUE =
     ''Value matched case-insensitively to exactly one configured allowed value.''"
| "CHANGE_REASONS REMOVE_DUPLICATE_ROW =
     ''Row proposed for exclusion as an exact duplicate of an earlier row (Module 14 duplicate_row finding).''"
| "CHANGE_REASONS REMOVE_DUPLICATE_PRIMARY_KEY =
     ''Row proposed for exclusion due to a duplicate primary key value (Module 14 duplicate_primary_key finding).''"

datatype skip_reason =
    ISSUE_TYPE_NOT_REMEDIABLE | ROW_NOT_FOUND_IN_DATASET | CAPITALIZATION_TARGET_NOT_CONFIGURED
  | SOURCE_DATE_FORMAT_NOT_CONFIGURED | TARGET_DATE_FORMAT_NOT_CONFIGURED
  | DEFAULT_COUNTRY_NOT_CONFIGURED | ALLOWED_VALUES_NOT_CONFIGURED | DUPLICATE_REMOVAL_NOT_ENABLED
  | NO_DETERMINISTIC_CHANGE_AVAILABLE | PERSISTED_CHANGE_LIMIT_REACHED

datatype capitalization = LowerTarget | UpperTarget | TitleTarget

record remediation_dataset =
  rd_headers :: "string list"
  rd_rows :: "string list list"

record remediation_issue =
  ri_id :: nat
  ri_row :: int
  ri_column :: "string option"
  ri_type :: issue_type
  ri_original :: "string option"
  ri_suggested :: "string option"

record column_config =
  cc_source_date_format :: "string option"
  cc_target_date_format :: "string option"
  cc_default_country :: "string option"
  cc_capitalization_target :: "capitalization option"
  cc_allowed_values :: "string list option"

record dataset_config =
  remove_duplicate_rows_enabled :: bool
  remove_duplicate_primary_keys_enabled :: bool

text \<open>\<open>RuleOutcome\<close>: changed with a proposed value (whose reason text is fixed by the action), or not
  changed with a skip reason.\<close>

datatype rule_outcome = Propose "string option" | Leave skip_reason

record proposal =
  rp_issue_id :: nat
  rp_row :: int
  rp_column :: "string option"
  rp_action :: remediation_action
  rp_original :: "string option"
  rp_proposed :: "string option"
  rp_reason :: string
  rp_confidence :: rat

record skipped_issue =
  sk_issue_id :: nat
  sk_row :: int
  sk_column :: "string option"
  sk_type :: issue_type
  sk_reason :: skip_reason

record remediation_result =
  rr_changes :: "proposal list"
  rr_skipped :: "skipped_issue list"
  rr_considered :: nat
  rr_total_changes :: nat
  rr_skipped_count :: nat
  rr_changes_by_action :: "remediation_action tally"

section \<open>Actions\<close>

text \<open>\<open>column_config.f if column_config else None\<close>\<close>

definition configured :: "(column_config \<Rightarrow> 'a option) \<Rightarrow> column_config option \<Rightarrow> 'a option" where
  "configured f cc = (case cc of None \<Rightarrow> None | Some c \<Rightarrow> f c)"

definition propose_suggested :: "remediation_issue \<Rightarrow> rule_outcome" where
  "propose_suggested issue =
     (if \<not> truthy (ri_suggested issue) \<or> ri_suggested issue = ri_original issue
      then Leave NO_DETERMINISTIC_CHANGE_AVAILABLE
      else Propose (ri_suggested issue))"

definition propose_trim :: "remediation_issue \<Rightarrow> rule_outcome" where
  "propose_trim issue = propose_suggested issue"

definition propose_collapse :: "remediation_issue \<Rightarrow> rule_outcome" where
  "propose_collapse issue = propose_suggested issue"

fun apply_capitalization :: "capitalization \<Rightarrow> string \<Rightarrow> string" where
  "apply_capitalization LowerTarget v = lower v"
| "apply_capitalization UpperTarget v = upper v"
| "apply_capitalization TitleTarget v = title_case v"

text \<open>The end the recomputing actions share.\<close>

definition propose_if_changed :: "string \<Rightarrow> string \<Rightarrow> rule_outcome" where
  "propose_if_changed value canonical =
     (if canonical = value then Leave NO_DETERMINISTIC_CHANGE_AVAILABLE else Propose (Some canonical))"

definition propose_standardize_capitalization :: "remediation_issue \<Rightarrow> column_config option \<Rightarrow> rule_outcome" where
  "propose_standardize_capitalization issue cc =
     (case configured cc_capitalization_target cc of
        None \<Rightarrow> Leave CAPITALIZATION_TARGET_NOT_CONFIGURED
      | Some target \<Rightarrow>
          if \<not> truthy (ri_original issue) then Leave NO_DETERMINISTIC_CHANGE_AVAILABLE
          else propose_if_changed (the (ri_original issue))
                 (apply_capitalization target (the (ri_original issue))))"

text \<open>The actions that call a standardization rule: a change is proposed if the rule named itself.\<close>

definition propose_ruled :: "ruled \<Rightarrow> rule_outcome" where
  "propose_ruled r =
     (case snd r of None \<Rightarrow> Leave NO_DETERMINISTIC_CHANGE_AVAILABLE | Some _ \<Rightarrow> Propose (Some (fst r)))"

definition propose_normalize_boolean :: "remediation_issue \<Rightarrow> rule_outcome" where
  "propose_normalize_boolean issue = propose_ruled (standardize_boolean None (or_empty (ri_original issue)))"

definition propose_normalize_numeric :: "remediation_issue \<Rightarrow> rule_outcome" where
  "propose_normalize_numeric issue = propose_ruled (standardize_numeric None (or_empty (ri_original issue)))"

definition propose_normalize_phone ::
  "'d oracles \<Rightarrow> remediation_issue \<Rightarrow> column_config option \<Rightarrow> rule_outcome"
where
  "propose_normalize_phone env issue cc =
     (if \<not> truthy (configured cc_default_country cc) then Leave DEFAULT_COUNTRY_NOT_CONFIGURED
      else propose_ruled
             (standardize_phone env (configured cc_default_country cc) (or_empty (ri_original issue))))"

definition propose_normalize_date ::
  "'d oracles \<Rightarrow> remediation_issue \<Rightarrow> column_config option \<Rightarrow> rule_outcome"
where
  "propose_normalize_date env issue cc =
     (if \<not> truthy (configured cc_source_date_format cc) then Leave SOURCE_DATE_FORMAT_NOT_CONFIGURED
      else if \<not> truthy (configured cc_target_date_format cc) then Leave TARGET_DATE_FORMAT_NOT_CONFIGURED
      else if \<not> truthy (ri_original issue) then Leave NO_DETERMINISTIC_CHANGE_AVAILABLE
      else case strptime env (the (ri_original issue)) (the (configured cc_source_date_format cc)) of
             None \<Rightarrow> Leave NO_DETERMINISTIC_CHANGE_AVAILABLE
           | Some d \<Rightarrow> propose_if_changed (the (ri_original issue))
               (strftime env d (the (configured cc_target_date_format cc))))"

text \<open>\<open>sorted({...})\<close> of the allowed values equal to the value up to case and surrounding whitespace.\<close>

definition enum_matches :: "string list \<Rightarrow> string \<Rightarrow> string list" where
  "enum_matches allowed value =
     sort (remdups (filter (\<lambda>a. casefold (strip a) = casefold (strip value)) allowed))"

definition propose_normalize_enum_value :: "remediation_issue \<Rightarrow> column_config option \<Rightarrow> rule_outcome" where
  "propose_normalize_enum_value issue cc =
     (case configured cc_allowed_values cc of
        None \<Rightarrow> Leave ALLOWED_VALUES_NOT_CONFIGURED
      | Some allowed \<Rightarrow>
          if allowed = [] then Leave ALLOWED_VALUES_NOT_CONFIGURED
          else if \<not> truthy (ri_original issue) then Leave NO_DETERMINISTIC_CHANGE_AVAILABLE
          else (let matches = enum_matches allowed (the (ri_original issue)) in
                if length matches \<noteq> 1 then Leave NO_DETERMINISTIC_CHANGE_AVAILABLE
                else propose_if_changed (the (ri_original issue)) (matches ! 0)))"

definition propose_remove_duplicate_row :: "dataset_config \<Rightarrow> rule_outcome" where
  "propose_remove_duplicate_row dc =
     (if \<not> remove_duplicate_rows_enabled dc then Leave DUPLICATE_REMOVAL_NOT_ENABLED else Propose None)"

definition propose_remove_duplicate_primary_key :: "dataset_config \<Rightarrow> rule_outcome" where
  "propose_remove_duplicate_primary_key dc =
     (if \<not> remove_duplicate_primary_keys_enabled dc then Leave DUPLICATE_REMOVAL_NOT_ENABLED
      else Propose None)"

section \<open>Registry\<close>

type_synonym rule = "remediation_issue \<Rightarrow> column_config option \<Rightarrow> dataset_config \<Rightarrow> rule_outcome"

definition REMEDIATION_RULES :: "'d oracles \<Rightarrow> (issue_type list \<times> remediation_action \<times> rule) list" where
  "REMEDIATION_RULES env =
     [([LEADING_WHITESPACE, TRAILING_WHITESPACE], TRIM_WHITESPACE, \<lambda>i cc dc. propose_trim i),
      ([MULTIPLE_INTERNAL_SPACES], COLLAPSE_MULTIPLE_SPACES, \<lambda>i cc dc. propose_collapse i),
      ([INCONSISTENT_CAPITALIZATION], STANDARDIZE_CAPITALIZATION,
         \<lambda>i cc dc. propose_standardize_capitalization i cc),
      ([BOOLEAN_INCONSISTENCY], NORMALIZE_BOOLEAN, \<lambda>i cc dc. propose_normalize_boolean i),
      ([INVALID_DATE], NORMALIZE_DATE, \<lambda>i cc dc. propose_normalize_date env i cc),
      ([INVALID_PHONE], NORMALIZE_PHONE, \<lambda>i cc dc. propose_normalize_phone env i cc),
      ([INVALID_NUMERIC], NORMALIZE_NUMERIC, \<lambda>i cc dc. propose_normalize_numeric i),
      ([INVALID_ENUM_VALUE], NORMALIZE_ENUM_VALUE, \<lambda>i cc dc. propose_normalize_enum_value i cc),
      ([DUPLICATE_ROW], REMOVE_DUPLICATE_ROW, \<lambda>i cc dc. propose_remove_duplicate_row dc),
      ([DUPLICATE_PRIMARY_KEY], REMOVE_DUPLICATE_PRIMARY_KEY,
         \<lambda>i cc dc. propose_remove_duplicate_primary_key dc)]"

definition get_rule_for_issue_type :: "'d oracles \<Rightarrow> issue_type \<Rightarrow> (remediation_action \<times> rule) option" where
  "get_rule_for_issue_type env ty =
     map_option snd (find (\<lambda>(types, _). ty \<in> set types) (REMEDIATION_RULES env))"

section \<open>Engine\<close>

definition issue_sort_key :: "remediation_issue \<Rightarrow> int \<times> string \<times> string" where
  "issue_sort_key i = (ri_row i, or_empty (ri_column i), issue_value (ri_type i))"

definition skipped_sort_key :: "skipped_issue \<Rightarrow> int \<times> string \<times> string" where
  "skipped_sort_key s = (sk_row s, or_empty (sk_column s), issue_value (sk_type s))"

definition skip :: "remediation_issue \<Rightarrow> skip_reason \<Rightarrow> skipped_issue" where
  "skip i r = \<lparr>sk_issue_id = ri_id i, sk_row = ri_row i, sk_column = ri_column i,
               sk_type = ri_type i, sk_reason = r\<rparr>"

definition proposal_for :: "remediation_issue \<Rightarrow> remediation_action \<Rightarrow> string option \<Rightarrow> proposal" where
  "proposal_for i a v =
     \<lparr>rp_issue_id = ri_id i, rp_row = ri_row i, rp_column = ri_column i, rp_action = a,
      rp_original = ri_original i, rp_proposed = v, rp_reason = CHANGE_REASONS a, rp_confidence = 1\<rparr>"

text \<open>The configuration of the issue's column, if it names one.\<close>

definition resolved_config :: "(string \<Rightarrow> column_config option) \<Rightarrow> string option \<Rightarrow> column_config option" where
  "resolved_config config column = (if truthy column then config (the column) else None)"

text \<open>The body of the loop for one issue: a pending change, or a skipped issue.\<close>

definition process_issue ::
  "'d oracles \<Rightarrow> remediation_dataset \<Rightarrow> (string \<Rightarrow> column_config option) \<Rightarrow> dataset_config \<Rightarrow>
     remediation_issue \<Rightarrow> skipped_issue + (proposal \<times> issue_type)"
where
  "process_issue env ds config dc i =
     (case get_rule_for_issue_type env (ri_type i) of
        None \<Rightarrow> Inl (skip i ISSUE_TYPE_NOT_REMEDIABLE)
      | Some (action, propose) \<Rightarrow>
          if \<not> (2 \<le> ri_row i \<and> ri_row i \<le> int (length (rd_rows ds)) + 1)
          then Inl (skip i ROW_NOT_FOUND_IN_DATASET)
          else case propose i (resolved_config config (ri_column i)) dc of
                 Leave r \<Rightarrow> Inl (skip i r)
               | Propose v \<Rightarrow> Inr (proposal_for i action v, ri_type i))"

fun lefts :: "('a + 'b) list \<Rightarrow> 'a list" where
  "lefts [] = []"
| "lefts (x # xs) = (case x of Inl a \<Rightarrow> a # lefts xs | Inr b \<Rightarrow> lefts xs)"

fun rights :: "('a + 'b) list \<Rightarrow> 'b list" where
  "rights [] = []"
| "rights (x # xs) = (case x of Inl a \<Rightarrow> rights xs | Inr b \<Rightarrow> b # rights xs)"

definition apply_ceiling :: "'a list \<Rightarrow> nat \<Rightarrow> 'a list \<times> 'a list" where
  "apply_ceiling pending limit =
     (if length pending \<le> limit then (pending, []) else (take limit pending, drop limit pending))"

definition overflow_skip :: "proposal \<times> issue_type \<Rightarrow> skipped_issue" where
  "overflow_skip p =
     \<lparr>sk_issue_id = rp_issue_id (fst p), sk_row = rp_row (fst p), sk_column = rp_column (fst p),
      sk_type = snd p, sk_reason = PERSISTED_CHANGE_LIMIT_REACHED\<rparr>"

definition remediate ::
  "'d oracles \<Rightarrow> remediation_dataset \<Rightarrow> remediation_issue list \<Rightarrow> (string \<Rightarrow> column_config option) \<Rightarrow>
     dataset_config \<Rightarrow> nat \<Rightarrow> remediation_result"
where
  "remediate env ds issues config dc max_persisted_changes =
     (let processed = map (process_issue env ds config dc) (sort_key issue_sort_key issues);
          (kept, overflow) = apply_ceiling (rights processed) max_persisted_changes;
          skipped = sort_key skipped_sort_key (lefts processed @ map overflow_skip overflow);
          changes = map fst kept
      in \<lparr>rr_changes = changes, rr_skipped = skipped, rr_considered = length issues,
          rr_total_changes = length changes, rr_skipped_count = length skipped,
          rr_changes_by_action = tally (map rp_action changes)\<rparr>)"

end
