(* ===== verification/Validation.thy ===== *)
theory Validation
  imports Remediation
begin

text \<open>
  \<open>app.validation\<close>: the ten rules, the dispatch by action and the engine.

  The value object of a change carries its action as a string; every action the remediation engine
  writes is one of the ten, so the model takes the datatype, or \<open>None\<close> for a string that is none of
  them.  The column configuration has the fields of the remediation engine's.
\<close>

section \<open>Data\<close>

datatype validation_outcome = Passed | Failed | Skipped

datatype validation_reason =
    PROPOSED_VALUE_MATCHES | DUPLICATE_REMOVAL_CORRECTLY_FORMED
  | PROPOSED_VALUE_MISMATCH | DUPLICATE_REMOVAL_PROPOSED_VALUE_NOT_NONE
  | ACTION_NOT_RECOGNISED | ORIGINAL_VALUE_MISSING | CAPITALIZATION_TARGET_MISSING
  | SOURCE_DATE_FORMAT_MISSING | TARGET_DATE_FORMAT_MISSING | DEFAULT_COUNTRY_MISSING
  | ALLOWED_VALUES_MISSING | RESULT_LIMIT_REACHED

record validation_change =
  vc_id :: nat
  vc_issue_id :: nat
  vc_row :: int
  vc_column :: "string option"
  vc_action :: "remediation_action + string"
  vc_original :: "string option"
  vc_proposed :: "string option"

record validation_item =
  vi_change_id :: nat
  vi_issue_id :: nat
  vi_row :: int
  vi_column :: "string option"
  vi_rule :: "remediation_action option"
  vi_outcome :: validation_outcome
  vi_reason :: validation_reason
  vi_original :: "string option"
  vi_proposed :: "string option"
  vi_rule_version :: string

record validation_result =
  vr_results :: "validation_item list"
  vr_considered :: nat
  vr_passed :: nat
  vr_failed :: nat
  vr_skipped :: nat
  vr_by_rule :: "remediation_action tally"

type_synonym verdict = "validation_outcome \<times> validation_reason"

section \<open>Rules\<close>

definition matching_verdict :: "bool \<Rightarrow> verdict" where
  "matching_verdict ok =
     (if ok then (Passed, PROPOSED_VALUE_MATCHES) else (Failed, PROPOSED_VALUE_MISMATCH))"

definition validate_trim :: "validation_change \<Rightarrow> verdict" where
  "validate_trim c =
     (case vc_original c of
        None \<Rightarrow> (Skipped, ORIGINAL_VALUE_MISSING)
      | Some v \<Rightarrow> matching_verdict (vc_proposed c \<in> {Some (lstrip v), Some (rstrip v)}))"

definition validate_collapse :: "validation_change \<Rightarrow> verdict" where
  "validate_collapse c =
     (case vc_original c of
        None \<Rightarrow> (Skipped, ORIGINAL_VALUE_MISSING)
      | Some v \<Rightarrow> matching_verdict (vc_proposed c = Some (sub_multispace v)))"

definition validate_capitalization :: "validation_change \<Rightarrow> column_config option \<Rightarrow> verdict" where
  "validate_capitalization c cc =
     (case configured cc_capitalization_target cc of
        None \<Rightarrow> (Skipped, CAPITALIZATION_TARGET_MISSING)
      | Some target \<Rightarrow>
          if \<not> truthy (vc_original c) then (Skipped, ORIGINAL_VALUE_MISSING)
          else matching_verdict
                 (Some (apply_capitalization target (the (vc_original c))) = vc_proposed c))"

definition validate_ruled :: "ruled \<Rightarrow> string option \<Rightarrow> verdict" where
  "validate_ruled r proposed =
     (case snd r of None \<Rightarrow> (Failed, PROPOSED_VALUE_MISMATCH)
      | Some _ \<Rightarrow> matching_verdict (proposed = Some (fst r)))"

definition validate_boolean :: "validation_change \<Rightarrow> verdict" where
  "validate_boolean c = validate_ruled (standardize_boolean None (or_empty (vc_original c))) (vc_proposed c)"

definition validate_numeric :: "validation_change \<Rightarrow> verdict" where
  "validate_numeric c = validate_ruled (standardize_numeric None (or_empty (vc_original c))) (vc_proposed c)"

definition validate_phone :: "'d oracles \<Rightarrow> validation_change \<Rightarrow> column_config option \<Rightarrow> verdict" where
  "validate_phone env c cc =
     (if \<not> truthy (configured cc_default_country cc) then (Skipped, DEFAULT_COUNTRY_MISSING)
      else validate_ruled
             (standardize_phone env (configured cc_default_country cc) (or_empty (vc_original c)))
             (vc_proposed c))"

definition validate_date :: "'d oracles \<Rightarrow> validation_change \<Rightarrow> column_config option \<Rightarrow> verdict" where
  "validate_date env c cc =
     (if \<not> truthy (configured cc_source_date_format cc) then (Skipped, SOURCE_DATE_FORMAT_MISSING)
      else if \<not> truthy (configured cc_target_date_format cc) then (Skipped, TARGET_DATE_FORMAT_MISSING)
      else if \<not> truthy (vc_original c) then (Skipped, ORIGINAL_VALUE_MISSING)
      else case strptime env (the (vc_original c)) (the (configured cc_source_date_format cc)) of
             None \<Rightarrow> (Failed, PROPOSED_VALUE_MISMATCH)
           | Some d \<Rightarrow> matching_verdict
               (Some (strftime env d (the (configured cc_target_date_format cc))) = vc_proposed c))"

definition validate_enum_value :: "validation_change \<Rightarrow> column_config option \<Rightarrow> verdict" where
  "validate_enum_value c cc =
     (case configured cc_allowed_values cc of
        None \<Rightarrow> (Skipped, ALLOWED_VALUES_MISSING)
      | Some allowed \<Rightarrow>
          if allowed = [] then (Skipped, ALLOWED_VALUES_MISSING)
          else if \<not> truthy (vc_original c) then (Skipped, ORIGINAL_VALUE_MISSING)
          else (let matches = enum_matches allowed (the (vc_original c)) in
                if length matches \<noteq> 1 then (Failed, PROPOSED_VALUE_MISMATCH)
                else matching_verdict (Some (matches ! 0) = vc_proposed c)))"

definition validate_duplicate_removal :: "validation_change \<Rightarrow> verdict" where
  "validate_duplicate_removal c =
     (if vc_proposed c = None then (Passed, DUPLICATE_REMOVAL_CORRECTLY_FORMED)
      else (Failed, DUPLICATE_REMOVAL_PROPOSED_VALUE_NOT_NONE))"

section \<open>Registry\<close>

text \<open>A rule is named after its action; all rules have version 1.0.\<close>

definition RULE_VERSION :: string where
  "RULE_VERSION = ''1.0''"

definition VALIDATION_RULES ::
  "'d oracles \<Rightarrow> (remediation_action \<times> (validation_change \<Rightarrow> column_config option \<Rightarrow> verdict)) list"
where
  "VALIDATION_RULES env =
     [(TRIM_WHITESPACE, \<lambda>c cc. validate_trim c),
      (COLLAPSE_MULTIPLE_SPACES, \<lambda>c cc. validate_collapse c),
      (STANDARDIZE_CAPITALIZATION, validate_capitalization),
      (NORMALIZE_BOOLEAN, \<lambda>c cc. validate_boolean c),
      (NORMALIZE_DATE, validate_date env),
      (NORMALIZE_PHONE, validate_phone env),
      (NORMALIZE_NUMERIC, \<lambda>c cc. validate_numeric c),
      (NORMALIZE_ENUM_VALUE, validate_enum_value),
      (REMOVE_DUPLICATE_ROW, \<lambda>c cc. validate_duplicate_removal c),
      (REMOVE_DUPLICATE_PRIMARY_KEY, \<lambda>c cc. validate_duplicate_removal c)]"

definition get_rule_for_action ::
  "'d oracles \<Rightarrow> remediation_action + string \<Rightarrow>
     (remediation_action \<times> (validation_change \<Rightarrow> column_config option \<Rightarrow> verdict)) option"
where
  "get_rule_for_action env a =
     (case a of Inr _ \<Rightarrow> None
      | Inl a \<Rightarrow> map_option (\<lambda>f. (a, f)) (map_of (VALIDATION_RULES env) a))"

section \<open>Engine\<close>

definition change_action_value :: "validation_change \<Rightarrow> string" where
  "change_action_value c = (case vc_action c of Inl a \<Rightarrow> action_value a | Inr s \<Rightarrow> s)"

definition change_sort_key :: "validation_change \<Rightarrow> int \<times> string \<times> string" where
  "change_sort_key c = (vc_row c, or_empty (vc_column c), change_action_value c)"

definition item_for ::
  "validation_change \<Rightarrow> remediation_action option \<Rightarrow> validation_outcome \<Rightarrow> validation_reason \<Rightarrow> validation_item"
where
  "item_for c r oc reason =
     \<lparr>vi_change_id = vc_id c, vi_issue_id = vc_issue_id c, vi_row = vc_row c, vi_column = vc_column c,
      vi_rule = r, vi_outcome = oc, vi_reason = reason, vi_original = vc_original c,
      vi_proposed = vc_proposed c, vi_rule_version = (if r = None then [] else RULE_VERSION)\<rparr>"

text \<open>The body of the loop; \<open>n\<close> is the number of results so far.\<close>

definition validate_change ::
  "'d oracles \<Rightarrow> (string \<Rightarrow> column_config option) \<Rightarrow> nat \<Rightarrow> nat \<Rightarrow> validation_change \<Rightarrow> validation_item"
where
  "validate_change env config limit n c =
     (case get_rule_for_action env (vc_action c) of
        None \<Rightarrow> item_for c None Skipped ACTION_NOT_RECOGNISED
      | Some (a, rule) \<Rightarrow>
          if limit \<le> n then item_for c (Some a) Skipped RESULT_LIMIT_REACHED
          else (let (oc, reason) = rule c (resolved_config config (vc_column c))
                in item_for c (Some a) oc reason))"

fun validate_loop ::
  "'d oracles \<Rightarrow> (string \<Rightarrow> column_config option) \<Rightarrow> nat \<Rightarrow> validation_change list \<Rightarrow>
     validation_result \<Rightarrow> validation_result"
where
  "validate_loop env config limit [] acc = acc"
| "validate_loop env config limit (c # cs) acc =
     (let item = validate_change env config limit (length (vr_results acc)) c
      in validate_loop env config limit cs
           (acc\<lparr>vr_results := vr_results acc @ [item],
                vr_passed := vr_passed acc + (if vi_outcome item = Passed then 1 else 0),
                vr_failed := vr_failed acc + (if vi_outcome item = Failed then 1 else 0),
                vr_skipped := vr_skipped acc + (if vi_outcome item = Skipped then 1 else 0),
                vr_by_rule := (case vi_rule item of None \<Rightarrow> vr_by_rule acc
                               | Some a \<Rightarrow> bump a (vr_by_rule acc))\<rparr>))"

definition validate ::
  "'d oracles \<Rightarrow> validation_change list \<Rightarrow> (string \<Rightarrow> column_config option) \<Rightarrow> nat \<Rightarrow> validation_result"
where
  "validate env changes config max_persisted_results =
     validate_loop env config max_persisted_results (sort_key change_sort_key changes)
       \<lparr>vr_results = [], vr_considered = length changes, vr_passed = 0, vr_failed = 0,
        vr_skipped = 0, vr_by_rule = []\<rparr>"

end
