(* ===== verification/Collections.thy ===== *)
theory Collections
  imports PyText
begin

text \<open>
  Insertion-ordered dictionaries of lists (\<open>d.setdefault(k, []).append(v)\<close>) and loops that thread a
  state through calls that may not return.
\<close>

section \<open>Grouping\<close>

type_synonym ('k, 'v) groups = "('k \<times> 'v list) list"

fun add_to :: "'k \<Rightarrow> 'v \<Rightarrow> ('k, 'v) groups \<Rightarrow> ('k, 'v) groups" where
  "add_to k v [] = [(k, [v])]"
| "add_to k v ((k', vs) # gs) = (if k' = k then (k', vs @ [v]) # gs else (k', vs) # add_to k v gs)"

definition group_pairs :: "('k \<times> 'v) list \<Rightarrow> ('k, 'v) groups" where
  "group_pairs kvs = fold (\<lambda>(k, v). add_to k v) kvs []"

abbreviation values_of :: "'k \<Rightarrow> ('k \<times> 'v) list \<Rightarrow> 'v list" where
  "values_of k kvs \<equiv> map snd (filter (\<lambda>(k', v). k' = k) kvs)"

lemma keys_add_to: "fst ` set (add_to k v gs) = insert k (fst ` set gs)"
  by (induction k v gs rule: add_to.induct) auto

lemma distinct_add_to: "distinct (map fst gs) \<Longrightarrow> distinct (map fst (add_to k v gs))"
proof (induction gs)
  case (Cons g gs)
  obtain k' vs where g: "g = (k', vs)" by (cases g)
  have "k' \<notin> fst ` set (add_to k v gs)" if "k' \<noteq> k" using Cons.prems that by (auto simp: g keys_add_to)
  then show ?case using Cons by (auto simp: g)
qed simp

lemma map_of_add_to:
  "map_of (add_to k v gs) x = (if x = k then Some ((case map_of gs k of None \<Rightarrow> [] | Some vs \<Rightarrow> vs) @ [v])
     else map_of gs x)"
  by (induction gs) auto

lemma group_pairs_snoc: "group_pairs (kvs @ [(k, v)]) = add_to k v (group_pairs kvs)"
  by (simp add: group_pairs_def)

lemma distinct_group_pairs: "distinct (map fst (group_pairs kvs))"
proof (induction kvs rule: rev_induct)
  case (snoc x kvs)
  then show ?case by (cases x) (simp add: group_pairs_snoc distinct_add_to)
qed (simp add: group_pairs_def)

lemma map_of_group_pairs:
  "map_of (group_pairs kvs) k = (if k \<in> fst ` set kvs then Some (values_of k kvs) else None)"
proof (induction kvs rule: rev_induct)
  case (snoc x kvs)
  then show ?case
    by (cases x) (force simp: group_pairs_snoc map_of_add_to filter_empty_conv image_iff split: if_splits)
qed (simp add: group_pairs_def)

lemma group_pairs_iff:
  "(k, vs) \<in> set (group_pairs kvs) \<longleftrightarrow> k \<in> fst ` set kvs \<and> vs = values_of k kvs"
proof -
  have "(k, vs) \<in> set (group_pairs kvs) \<longleftrightarrow> map_of (group_pairs kvs) k = Some vs"
    using distinct_group_pairs[of kvs] by simp
  then show ?thesis by (auto simp: map_of_group_pairs)
qed

section \<open>Assignment to a key\<close>

text \<open>\<open>d[k] = v\<close>: a known key keeps its position.\<close>

fun put :: "'k \<Rightarrow> 'v \<Rightarrow> ('k \<times> 'v) list \<Rightarrow> ('k \<times> 'v) list" where
  "put k v [] = [(k, v)]"
| "put k v ((k', v') # d) = (if k' = k then (k', v) # d else (k', v') # put k v d)"

lemma map_of_put: "map_of (put k v d) x = (if x = k then Some v else map_of d x)"
  by (induction d) auto

section \<open>Loops that may not return\<close>

fun foldM :: "('a \<Rightarrow> 's \<Rightarrow> 's option) \<Rightarrow> 'a list \<Rightarrow> 's \<Rightarrow> 's option" where
  "foldM f [] s = Some s"
| "foldM f (x # xs) s = (case f x s of None \<Rightarrow> None | Some s' \<Rightarrow> foldM f xs s')"

fun mapM :: "('a \<Rightarrow> 's \<Rightarrow> ('b \<times> 's) option) \<Rightarrow> 'a list \<Rightarrow> 's \<Rightarrow> ('b list \<times> 's) option" where
  "mapM f [] s = Some ([], s)"
| "mapM f (x # xs) s =
     (case f x s of None \<Rightarrow> None
      | Some (y, s') \<Rightarrow> (case mapM f xs s' of None \<Rightarrow> None | Some (ys, t) \<Rightarrow> Some (y # ys, t)))"

lemma foldM_append: "foldM f (xs @ ys) s = (case foldM f xs s of None \<Rightarrow> None | Some t \<Rightarrow> foldM f ys t)"
  by (induction xs arbitrary: s) (auto split: option.splits)

text \<open>A loop whose body keeps an invariant returns, and keeps it.\<close>

lemma foldM_invariant:
  assumes "I [] s" and "\<And>done x s. x \<in> set xs \<Longrightarrow> I done s \<Longrightarrow> \<exists>s'. f x s = Some s' \<and> I (done @ [x]) s'"
  shows "\<exists>t. foldM f xs s = Some t \<and> I xs t"
proof -
  have "set ys \<subseteq> set xs \<Longrightarrow> I zs s \<Longrightarrow> \<exists>t. foldM f ys s = Some t \<and> I (zs @ ys) t" for ys zs s
  proof (induction ys arbitrary: zs s)
    case (Cons y ys)
    then obtain s' where "f y s = Some s'" "I (zs @ [y]) s'" using assms(2)[of y zs s] by auto
    then show ?case using Cons.IH[of "zs @ [y]" s'] Cons.prems by simp
  qed simp
  from this[of xs "[]" s] show ?thesis using assms(1) by simp
qed

text \<open>A map whose body reads the state and leaves what an invariant says of it.\<close>

lemma mapM_pure:
  assumes "I s" and "\<And>x s. x \<in> set xs \<Longrightarrow> I s \<Longrightarrow> \<exists>s'. f x s = Some (g x, s') \<and> I s'"
  shows "\<exists>t. mapM f xs s = Some (map g xs, t) \<and> I t"
  using assms
proof (induction xs arbitrary: s)
  case (Cons x xs)
  then obtain s' where s': "f x s = Some (g x, s')" "I s'" by force
  then show ?case using Cons.IH[of s'] Cons.prems by force
qed simp

end
