(* ===== verification/Quality.thy ===== *)
theory Quality
  imports Validation Collections PyFloat
begin

text \<open>
  \<open>app.quality\<close>: the value objects, the eight categories, the registry and the engine.

  A category is a record with its weight, its version and the two functions of the protocol;
  \<open>evaluate\<close> is \<open>None\<close> where it raises.  Scores are binary64 values.  Python's numbers keep their
  kind: a weight may be an integer or a float, and integers add exactly.  Counts are integers.
\<close>

section \<open>Numbers\<close>

datatype py_number = IntNum int | FloatNum rat

fun as_float :: "py_number \<Rightarrow> rat" where
  "as_float (IntNum n) = fl (of_int n)"
| "as_float (FloatNum x) = x"

fun num_positive :: "py_number \<Rightarrow> bool" where
  "num_positive (IntNum n) = (0 < n)"
| "num_positive (FloatNum x) = (0 < x)"

fun num_zero :: "py_number \<Rightarrow> bool" where
  "num_zero (IntNum n) = (n = 0)"
| "num_zero (FloatNum x) = (x = 0)"

fun num_add :: "py_number \<Rightarrow> py_number \<Rightarrow> py_number" where
  "num_add (IntNum a) (IntNum b) = IntNum (a + b)"
| "num_add a b = FloatNum (fl (as_float a + as_float b))"

text \<open>\<open>a / b\<close> on integers is the rounded quotient.\<close>

definition int_quotient :: "int \<Rightarrow> int \<Rightarrow> rat" where
  "int_quotient a b = fl (of_int a / of_int b)"

definition clamp_score :: "rat \<Rightarrow> rat" where
  "clamp_score x = max 0 (min 100 x)"

text \<open>\<open>100.0 * (1.0 - rate)\<close> between its bounds.\<close>

definition score_of_rate :: "rat \<Rightarrow> rat" where
  "score_of_rate rate = clamp_score (fl (100 * fl (1 - rate)))"

section \<open>Value objects\<close>

record result_snapshot =
  vs_id :: nat
  vs_outcome :: validation_outcome
  vs_rule_name :: string
  vs_column :: "string option"
  vs_issue_id :: "nat option"
  vs_change_id :: "nat option"

record run_snapshot =
  rs_id :: nat
  rs_considered :: int
  rs_passed :: int
  rs_failed :: int
  rs_skipped :: int
  rs_by_rule :: "(string \<times> int) list"

record issue_snapshot =
  is_id :: nat
  is_severity :: severity
  is_type :: issue_type

record detection_snapshot =
  ds_id :: nat
  ds_total_issues :: int

record profile_snapshot =
  ps_id :: nat
  ps_rows :: int
  ps_columns :: int
  ps_duplicates :: int
  ps_missing :: int

record effective_stats =
  es_rows :: int
  es_duplicates :: int
  es_missing :: int
  es_high :: int
  es_critical :: int
  es_addressed :: int

record threshold_config =
  th_fail :: rat
  th_pass :: rat
  th_failure_rate :: rat
  th_skip_rate :: rat
  th_high :: int
  th_critical :: int
  th_warnings :: int
  th_weights :: "(string \<times> py_number) list option"

definition default_thresholds :: threshold_config where
  "default_thresholds =
     \<lparr>th_fail = 60, th_pass = 85, th_failure_rate = 0, th_skip_rate = 1/2, th_high = 0, th_critical = 0,
      th_warnings = 0, th_weights = None\<rparr>"

record quality_input =
  qi_run :: run_snapshot
  qi_results :: "result_snapshot list"
  qi_detection :: detection_snapshot
  qi_profile :: profile_snapshot
  qi_stats :: effective_stats
  qi_issues :: "issue_snapshot list"
  qi_thresholds :: threshold_config
  qi_max_persisted :: nat

datatype finding_severity = Info | Warning | Blocking

datatype category_status = StatusPassed | StatusWarning | StatusFailed | StatusSkipped

datatype recommendation = PASS | PASS_WITH_WARNINGS | FAIL

record quality_finding =
  qf_category :: string
  qf_rule_name :: string
  qf_rule_version :: string
  qf_severity :: finding_severity
  qf_outcome :: validation_outcome
  qf_reason :: string
  qf_rows :: "int option"
  qf_column :: "string option"

record category_result =
  cr_score :: rat
  cr_findings :: "quality_finding list"

record quality_result =
  qr_score :: "rat option"
  qr_recommendation :: recommendation
  qr_findings :: "quality_finding list"
  qr_total :: nat
  qr_blocking :: nat
  qr_warning :: nat
  qr_info :: nat
  qr_scores :: "(string \<times> rat) list"
  qr_statuses :: "(string \<times> category_status) list"
  qr_weights :: "(string \<times> rat) list"

record quality_category =
  qc_name :: string
  qc_weight :: int
  qc_version :: string
  qc_applicable :: "quality_input \<Rightarrow> bool"
  qc_evaluate :: "quality_input \<Rightarrow> category_result option"

text \<open>A failed finding of version 1.0, and the reason and severity of the three score bands.\<close>

definition failed_finding ::
  "string \<Rightarrow> string \<Rightarrow> finding_severity \<Rightarrow> string \<Rightarrow> int option \<Rightarrow> string option \<Rightarrow> quality_finding"
where
  "failed_finding category rule sev reason affected column =
     \<lparr>qf_category = category, qf_rule_name = rule, qf_rule_version = ''1.0'', qf_severity = sev,
      qf_outcome = Failed, qf_reason = reason, qf_rows = affected, qf_column = column\<rparr>"

definition banded :: "rat \<Rightarrow> string \<Rightarrow> string \<Rightarrow> string \<Rightarrow> finding_severity \<times> string" where
  "banded score critical high present =
     (if score < 60 then (Blocking, critical) else if score < 85 then (Warning, high) else (Info, present))"

section \<open>Categories\<close>

definition completeness_evaluate :: "quality_input \<Rightarrow> category_result option" where
  "completeness_evaluate inp =
     (let finding = failed_finding ''completeness'' ''completeness_missing_value_rate'';
          effective_rows = es_rows (qi_stats inp) in
      if effective_rows = 0
      then Some \<lparr>cr_score = 0, cr_findings = [finding Blocking ''EMPTY_DATASET'' (Some 0) None]\<rparr>
      else (let missing = es_missing (qi_stats inp);
                cells = effective_rows * ps_columns (qi_profile inp);
                rate = (if cells \<le> 0 then 0 else int_quotient missing cells);
                score = score_of_rate rate in
            if rate = 0 then Some \<lparr>cr_score = score, cr_findings = []\<rparr>
            else (let (sev, reason) = banded score ''CRITICAL_MISSING_RATE'' ''HIGH_MISSING_RATE'' ''MISSING_VALUES_PRESENT''
                  in Some \<lparr>cr_score = score, cr_findings = [finding sev reason (Some missing) None]\<rparr>)))"

definition uniqueness_evaluate :: "quality_input \<Rightarrow> category_result option" where
  "uniqueness_evaluate inp =
     (let finding = failed_finding ''uniqueness'' ''uniqueness_duplicate_row_rate'';
          effective_rows = es_rows (qi_stats inp);
          duplicates = es_duplicates (qi_stats inp) in
      if effective_rows = 0 then None
      else (let score = score_of_rate (int_quotient duplicates effective_rows) in
            if duplicates = 0 then Some \<lparr>cr_score = score, cr_findings = []\<rparr>
            else (let (sev, reason) = banded score ''CRITICAL_DUPLICATE_RATE'' ''HIGH_DUPLICATE_RATE'' ''DUPLICATES_PRESENT''
                  in Some \<lparr>cr_score = score, cr_findings = [finding sev reason (Some duplicates) None]\<rparr>)))"

definition validity_evaluate :: "quality_input \<Rightarrow> category_result option" where
  "validity_evaluate inp =
     (let finding = failed_finding ''validity'' ''validity_validation_pass_rate'';
          considered = rs_considered (qi_run inp);
          passed = rs_passed (qi_run inp);
          failed = rs_failed (qi_run inp) in
      if considered = 0 then None
      else (let score = clamp_score (fl (100 * int_quotient passed considered)) in
            if passed = considered then Some \<lparr>cr_score = score, cr_findings = []\<rparr>
            else (let (sev, reason) = banded score ''CRITICAL_VALIDATION_FAILURE_RATE''
                        ''HIGH_VALIDATION_FAILURE_RATE'' ''VALIDATION_FAILURES_PRESENT''
                  in Some \<lparr>cr_score = score,
                           cr_findings = [finding sev reason (if 0 < failed then Some failed else None) None]\<rparr>)))"

definition CONSISTENCY_RULE_NAMES :: "string list" where
  "CONSISTENCY_RULE_NAMES =
     [''validate_standardize_capitalization'', ''validate_normalize_boolean'',
      ''validate_normalize_date'', ''validate_normalize_enum_value'']"

definition consistency_applicable :: "quality_input \<Rightarrow> bool" where
  "consistency_applicable inp = list_ex (\<lambda>(rule, n). rule \<in> set CONSISTENCY_RULE_NAMES) (rs_by_rule (qi_run inp))"

text \<open>The outcomes of every pair of a rule and a column.\<close>

definition pair_outcomes :: "result_snapshot list \<Rightarrow> (string \<times> string, validation_outcome) groups" where
  "pair_outcomes results =
     group_pairs (map (\<lambda>r. ((vs_rule_name r, the (vs_column r)), vs_outcome r))
       (filter (\<lambda>r. vs_rule_name r \<in> set CONSISTENCY_RULE_NAMES \<and> vs_column r \<noteq> None) results))"

definition inconsistent_pairs :: "result_snapshot list \<Rightarrow> (string \<times> string) list" where
  "inconsistent_pairs results =
     sort (map fst (filter (\<lambda>(pair, outcomes). Passed \<in> set outcomes \<and> Failed \<in> set outcomes) (pair_outcomes results)))"

definition consistency_evaluate :: "quality_input \<Rightarrow> category_result option" where
  "consistency_evaluate inp =
     (let pairs = length (pair_outcomes (qi_results inp)) in
      if pairs = 0 then Some \<lparr>cr_score = 100, cr_findings = []\<rparr>
      else (let bad = inconsistent_pairs (qi_results inp) in
            Some \<lparr>cr_score = score_of_rate (int_quotient (int (length bad)) (int pairs)),
                  cr_findings = map (\<lambda>(rule, column).
                    failed_finding ''consistency'' (''consistency_'' @ rule) Warning ''INCONSISTENT_NORMALIZATION''
                      None (Some column)) bad\<rparr>))"

definition unresolved_risk_evaluate :: "quality_input \<Rightarrow> category_result option" where
  "unresolved_risk_evaluate inp =
     (let critical = es_critical (qi_stats inp);
          high = es_high (qi_stats inp);
          issues = ds_total_issues (qi_detection inp) in
      if critical + high = 0 then Some \<lparr>cr_score = 100, cr_findings = []\<rparr>
      else Some \<lparr>cr_score = score_of_rate (int_quotient (critical + high) (max 1 issues)),
                 cr_findings =
                   (if 0 < critical
                    then [failed_finding ''unresolved_risk'' ''unresolved_risk_critical_severity'' Blocking
                            ''UNRESOLVED_CRITICAL_ISSUES'' (Some critical) None] else [])
                   @ (if 0 < high
                      then [failed_finding ''unresolved_risk'' ''unresolved_risk_high_severity'' Warning
                              ''UNRESOLVED_HIGH_ISSUES'' (Some high) None] else [])\<rparr>)"

definition validation_coverage_evaluate :: "quality_input \<Rightarrow> category_result option" where
  "validation_coverage_evaluate inp =
     (let finding = failed_finding ''validation_coverage'' ''validation_coverage_skip_rate'';
          considered = rs_considered (qi_run inp);
          skipped = rs_skipped (qi_run inp) in
      if considered = 0 then None
      else (let rate = int_quotient skipped considered;
                score = score_of_rate rate in
            if skipped = 0 then Some \<lparr>cr_score = score, cr_findings = []\<rparr>
            else (let (sev, reason) = (if th_skip_rate (qi_thresholds inp) < rate then (Blocking, ''HIGH_SKIP_RATE'')
                                       else (Warning, ''RESULTS_SKIPPED''))
                  in Some \<lparr>cr_score = score, cr_findings = [finding sev reason (Some skipped) None]\<rparr>)))"

definition QUALITY_CATEGORIES :: "string list" where
  "QUALITY_CATEGORIES =
     [''completeness'', ''uniqueness'', ''validity'', ''consistency'', ''referential_integrity'',
      ''business_rule_compliance'', ''unresolved_risk'', ''validation_coverage'']"

definition completeness_category :: quality_category where
  "completeness_category =
     \<lparr>qc_name = ''completeness'', qc_weight = 20, qc_version = ''1.0'', qc_applicable = (\<lambda>inp. True),
      qc_evaluate = completeness_evaluate\<rparr>"

definition uniqueness_category :: quality_category where
  "uniqueness_category =
     \<lparr>qc_name = ''uniqueness'', qc_weight = 15, qc_version = ''1.0'',
      qc_applicable = (\<lambda>inp. 0 < es_rows (qi_stats inp)), qc_evaluate = uniqueness_evaluate\<rparr>"

definition validity_category :: quality_category where
  "validity_category =
     \<lparr>qc_name = ''validity'', qc_weight = 25, qc_version = ''1.0'',
      qc_applicable = (\<lambda>inp. 0 < rs_considered (qi_run inp)), qc_evaluate = validity_evaluate\<rparr>"

definition consistency_category :: quality_category where
  "consistency_category =
     \<lparr>qc_name = ''consistency'', qc_weight = 10, qc_version = ''1.0'',
      qc_applicable = consistency_applicable, qc_evaluate = consistency_evaluate\<rparr>"

definition referential_integrity_category :: quality_category where
  "referential_integrity_category =
     \<lparr>qc_name = ''referential_integrity'', qc_weight = 10, qc_version = ''1.0'',
      qc_applicable = (\<lambda>inp. False), qc_evaluate = (\<lambda>inp. None)\<rparr>"

definition business_rule_category :: quality_category where
  "business_rule_category =
     \<lparr>qc_name = ''business_rule_compliance'', qc_weight = 15, qc_version = ''1.0'',
      qc_applicable = (\<lambda>inp. False), qc_evaluate = (\<lambda>inp. None)\<rparr>"

definition unresolved_risk_category :: quality_category where
  "unresolved_risk_category =
     \<lparr>qc_name = ''unresolved_risk'', qc_weight = 25, qc_version = ''1.0'',
      qc_applicable = (\<lambda>inp. 0 < ds_total_issues (qi_detection inp)),
      qc_evaluate = unresolved_risk_evaluate\<rparr>"

definition validation_coverage_category :: quality_category where
  "validation_coverage_category =
     \<lparr>qc_name = ''validation_coverage'', qc_weight = 15, qc_version = ''1.0'',
      qc_applicable = (\<lambda>inp. 0 < rs_considered (qi_run inp)),
      qc_evaluate = validation_coverage_evaluate\<rparr>"

definition QUALITY_RULES :: "quality_category list" where
  "QUALITY_RULES =
     [completeness_category, uniqueness_category, validity_category, consistency_category,
      referential_integrity_category, business_rule_category, unresolved_risk_category,
      validation_coverage_category]"

definition get_rule_for_category :: "string \<Rightarrow> quality_category option" where
  "get_rule_for_category name = map_of (map (\<lambda>r. (qc_name r, r)) QUALITY_RULES) name"

section \<open>Engine\<close>

definition effective_weight :: "string \<Rightarrow> int \<Rightarrow> (string \<times> py_number) list option \<Rightarrow> py_number" where
  "effective_weight name default_weight overrides =
     (case overrides of
        None \<Rightarrow> IntNum default_weight
      | Some ws \<Rightarrow>
          (case map_of ws name of
             None \<Rightarrow> IntNum default_weight
           | Some w \<Rightarrow> if num_positive w then w else IntNum default_weight))"

definition category_status_of :: "rat \<Rightarrow> quality_finding list \<Rightarrow> category_status" where
  "category_status_of score fs =
     (let has_blocking = list_ex (\<lambda>f. qf_severity f = Blocking) fs;
          has_warning = list_ex (\<lambda>f. qf_severity f = Warning) fs in
      if has_blocking \<or> score < 60 then StatusFailed
      else if 85 \<le> score \<and> \<not> has_warning then StatusPassed
      else StatusWarning)"

text \<open>\<open>"\xff"\<close>, as the bytes of \<open>U+00FF\<close>.\<close>

definition quality_sort_key :: "quality_finding \<Rightarrow> string \<times> string \<times> string \<times> string" where
  "quality_sort_key f =
     (qf_category f, qf_rule_name f,
      (if truthy (qf_column f) then the (qf_column f) else map char_of [195::nat, 191]), qf_reason f)"

definition compute_recommendation :: "rat option \<Rightarrow> nat \<Rightarrow> nat \<Rightarrow> quality_input \<Rightarrow> recommendation" where
  "compute_recommendation overall blocking warnings inp =
     (let th = qi_thresholds inp; stats = qi_stats inp; run = qi_run inp in
      case overall of
        None \<Rightarrow> FAIL
      | Some score \<Rightarrow>
          if 0 < blocking then FAIL
          else if score < th_fail th then FAIL
          else if 0 < rs_considered run \<and> th_failure_rate th < int_quotient (rs_failed run) (rs_considered run) then FAIL
          else if th_critical th < es_critical stats then FAIL
          else if th_high th < es_high stats then FAIL
          else if th_pass th \<le> score \<and> int warnings \<le> th_warnings th then PASS
          else PASS_WITH_WARNINGS)"

record quality_acc =
  qa_findings :: "quality_finding list"
  qa_scores :: "(string \<times> rat) list"
  qa_statuses :: "(string \<times> category_status) list"
  qa_weights :: "(string \<times> rat) list"
  qa_weighted :: rat
  qa_weight_sum :: py_number

definition empty_acc :: quality_acc where
  "empty_acc = \<lparr>qa_findings = [], qa_scores = [], qa_statuses = [], qa_weights = [], qa_weighted = 0,
                qa_weight_sum = IntNum 0\<rparr>"

definition quality_step :: "quality_input \<Rightarrow> quality_category \<Rightarrow> quality_acc \<Rightarrow> quality_acc option" where
  "quality_step inp rule acc =
     (if \<not> qc_applicable rule inp
      then Some (acc\<lparr>qa_statuses := put (qc_name rule) StatusSkipped (qa_statuses acc)\<rparr>)
      else (case qc_evaluate rule inp of
              None \<Rightarrow> None
            | Some r \<Rightarrow>
                (let score = cr_score r;
                     weight = effective_weight (qc_name rule) (qc_weight rule) (th_weights (qi_thresholds inp))
                 in Some \<lparr>qa_findings = qa_findings acc @ cr_findings r,
                          qa_scores = put (qc_name rule) score (qa_scores acc),
                          qa_statuses = put (qc_name rule) (category_status_of score (cr_findings r)) (qa_statuses acc),
                          qa_weights = put (qc_name rule) (as_float weight) (qa_weights acc),
                          qa_weighted = fl (qa_weighted acc + fl (score * as_float weight)),
                          qa_weight_sum = num_add (qa_weight_sum acc) weight\<rparr>)))"

definition QUALITY_ENGINE_VERSION :: string where
  "QUALITY_ENGINE_VERSION = ''1.0''"

definition no_categories_finding :: quality_finding where
  "no_categories_finding =
     failed_finding ''quality_control'' ''no_applicable_categories'' Blocking ''NO_APPLICABLE_CATEGORIES'' None None"

definition severity_count :: "finding_severity \<Rightarrow> quality_finding list \<Rightarrow> nat" where
  "severity_count s fs = length (filter (\<lambda>f. qf_severity f = s) fs)"

text \<open>What follows the loop; \<open>None\<close> is the failed assertion on the counts.\<close>

definition quality_finish :: "quality_input \<Rightarrow> quality_acc \<Rightarrow> quality_result option" where
  "quality_finish inp acc =
     (let (overall, fs) = (if num_zero (qa_weight_sum acc) then (None, [no_categories_finding])
                           else (Some (fl (qa_weighted acc / as_float (qa_weight_sum acc))), qa_findings acc));
          blocking = severity_count Blocking fs;
          warnings = severity_count Warning fs;
          infos = severity_count Info fs
      in if blocking + warnings + infos \<noteq> length fs then None
         else Some \<lparr>qr_score = overall, qr_recommendation = compute_recommendation overall blocking warnings inp,
                    qr_findings = take (qi_max_persisted inp) (sort_key quality_sort_key fs),
                    qr_total = length fs, qr_blocking = blocking, qr_warning = warnings, qr_info = infos,
                    qr_scores = qa_scores acc, qr_statuses = qa_statuses acc, qr_weights = qa_weights acc\<rparr>)"

definition quality_control :: "quality_input \<Rightarrow> quality_result option" where
  "quality_control inp =
     (case foldM (quality_step inp) QUALITY_RULES empty_acc of
        None \<Rightarrow> None
      | Some acc \<Rightarrow> quality_finish inp acc)"

end
