(* ===== verification/TaskRuns.thy ===== *)
theory TaskRuns
  imports Prelude
begin

text \<open>
  The execution engine of \<open>app.worker.engine\<close> over the tables of \<open>app.models.task\<close>,
  \<open>app.models.task_run\<close> and \<open>app.models.task_run_event\<close>: claiming pending runs, heartbeating,
  completing, and requeueing for retry.

  The database is a record of tables.  A call is one transaction: it returns the committed
  database, or the error it raises, in which case nothing was committed.  The clock is read once
  per call (\<open>_now()\<close>) and is an argument.  \<open>uuid.uuid4()\<close> is a supply counter in the database
  record, so that freshly drawn tokens differ from every earlier one.  Log lines and Prometheus
  counters are not modelled.
\<close>

section \<open>Data\<close>

datatype task_type =
    SYNC | TRANSFORM | EXPORT | OTHER | STANDARDIZE | MATCH | DETECT | REMEDIATE | VALIDATE | QUALITY_CTRL

datatype run_status = PENDING | RUNNING | SUCCESS | FAILED

record task =
  task_id :: nat
  task_org :: nat
  schedule_interval_seconds :: "int option"
  next_run_at :: "time option"
  max_attempts :: "int option"
  timeout_seconds :: "int option"
  is_active :: bool
  task_name :: string
  task_type :: task_type
  task_source :: "nat option"

record task_run =
  tr_id :: nat
  tr_org :: nat
  tr_task_id :: nat
  tr_status :: run_status
  tr_triggered_by :: "nat option"
  tr_started_at :: "time option"
  tr_finished_at :: "time option"
  tr_log_output :: "string option"
  tr_error_message :: "string option"
  tr_created_at :: time
  tr_idempotency_key :: nat
  tr_lease_token :: "nat option"
  tr_lease_expires_at :: "time option"
  tr_last_heartbeat_at :: "time option"
  tr_attempt_count :: nat
  tr_next_retry_at :: "time option"
  tr_source_task_run_id :: "nat option"

datatype event_detail =
    ClaimedDetail nat time
  | SucceededDetail "time option"
  | RequeuedDetail string time nat
  | FailedDetail string nat bool

record run_event =
  ev_org :: nat
  ev_run :: nat
  ev_type :: string
  ev_from :: "run_status option"
  ev_to :: "run_status option"
  ev_worker :: "string option"
  ev_detail :: event_detail

record settings =
  worker_claim_batch_size :: nat
  worker_default_timeout_seconds :: int
  worker_default_max_attempts :: int
  worker_retry_base_delay_seconds :: int
  worker_retry_max_delay_seconds :: int
  scheduler_claim_batch_size :: nat

record db =
  tasks :: "task table"
  task_runs :: "task_run table"
  events :: "run_event list"
  uuid_supply :: nat

datatype engine_error = LeaseLostError nat | AttributeError

section \<open>Operations\<close>

definition record_event ::
  "task_run \<Rightarrow> string \<Rightarrow> run_status option \<Rightarrow> run_status option \<Rightarrow> string option \<Rightarrow> event_detail \<Rightarrow> db \<Rightarrow> db"
where
  "record_event r etype from_s to_s worker detail d =
     d\<lparr>events := events d @
        [\<lparr>ev_org = tr_org r, ev_run = tr_id r, ev_type = etype, ev_from = from_s, ev_to = to_s,
          ev_worker = worker, ev_detail = detail\<rparr>]\<rparr>"

text \<open>The \<open>task\<close> relationship of a run.\<close>

definition task_of :: "db \<Rightarrow> task_run \<Rightarrow> task option" where
  "task_of d r = get_row task_id (tr_task_id r) (tasks d)"

definition pending_count :: "db \<Rightarrow> nat" where
  "pending_count d = rowcount (\<lambda>r. tr_status r = PENDING) (task_runs d)"

text \<open>The \<open>WHERE\<close> clause of \<open>claim_batch\<close>; its \<open>JOIN\<close> drops runs without a task.\<close>

definition due :: "time \<Rightarrow> task_run \<Rightarrow> bool" where
  "due now r \<longleftrightarrow> tr_status r = PENDING \<and>
     (case tr_next_retry_at r of None \<Rightarrow> True | Some t \<Rightarrow> t \<le> now)"

definition claim_candidates :: "time \<Rightarrow> nat \<Rightarrow> db \<Rightarrow> (nat \<times> int option) list" where
  "claim_candidates now batch_size d =
     take batch_size
       (map (\<lambda>r. (tr_id r, Option.bind (task_of d r) timeout_seconds))
         (sort_key tr_created_at (filter (\<lambda>r. due now r \<and> task_of d r \<noteq> None) (task_runs d))))"

definition effective_timeout :: "settings \<Rightarrow> int option \<Rightarrow> int" where
  "effective_timeout cfg t = or_default t (worker_default_timeout_seconds cfg)"

definition claim_row :: "time \<Rightarrow> nat \<Rightarrow> time \<Rightarrow> task_run \<Rightarrow> task_run" where
  "claim_row now tok expires r =
     r\<lparr>tr_status := RUNNING, tr_started_at := Some now, tr_lease_token := Some tok,
       tr_lease_expires_at := Some expires, tr_last_heartbeat_at := Some now,
       tr_attempt_count := tr_attempt_count r + 1\<rparr>"

definition claim_one ::
  "settings \<Rightarrow> time \<Rightarrow> string \<Rightarrow> nat \<times> int option \<Rightarrow> db \<times> nat list \<Rightarrow> db \<times> nat list"
where
  "claim_one cfg now worker cand acc =
     (let (rid, timeout) = cand;
          (d, claimed) = acc;
          tok = uuid_supply d;
          expires = now + seconds (effective_timeout cfg timeout);
          guard = (\<lambda>r. tr_id r = rid \<and> tr_status r = PENDING);
          n = rowcount guard (task_runs d);
          d1 = d\<lparr>uuid_supply := Suc tok,
                 task_runs := update_where guard (claim_row now tok expires) (task_runs d)\<rparr>
      in if n \<noteq> 1 then (d1, claimed)
         else (case get_row tr_id rid (task_runs d1) of
                 None \<Rightarrow> (d1, claimed)
               | Some r \<Rightarrow>
                   (record_event r ''claimed'' (Some PENDING) (Some RUNNING) (Some worker)
                      (ClaimedDetail (tr_attempt_count r) expires) d1,
                    claimed @ [rid])))"

definition claim_batch ::
  "settings \<Rightarrow> time \<Rightarrow> string \<Rightarrow> nat option \<Rightarrow> db \<Rightarrow> db \<times> nat list"
where
  "claim_batch cfg now worker batch_size d =
     (let n = (case batch_size of None \<Rightarrow> worker_claim_batch_size cfg | Some k \<Rightarrow> k)
      in fold (claim_one cfg now worker) (claim_candidates now n d) (d, []))"

text \<open>The guard every heartbeat and completion carries: id, lease token and status.\<close>

definition holds_lease :: "nat \<Rightarrow> nat option \<Rightarrow> task_run \<Rightarrow> bool" where
  "holds_lease rid tok r \<longleftrightarrow> tr_id r = rid \<and> tr_lease_token r = tok \<and> tr_status r = RUNNING"

definition heartbeat ::
  "settings \<Rightarrow> time \<Rightarrow> nat \<Rightarrow> nat option \<Rightarrow> db \<Rightarrow> engine_error + db"
where
  "heartbeat cfg now rid tok d =
     (let timeout = (case get_row tr_id rid (task_runs d) of
                       None \<Rightarrow> Inr None
                     | Some r \<Rightarrow> (case task_of d r of None \<Rightarrow> Inl AttributeError
                                 | Some t \<Rightarrow> Inr (timeout_seconds t)))
      in case timeout of
           Inl e \<Rightarrow> Inl e
         | Inr t \<Rightarrow>
             (if rowcount (holds_lease rid tok) (task_runs d) \<noteq> 1 then Inl (LeaseLostError rid)
              else Inr (d\<lparr>task_runs := update_where (holds_lease rid tok)
                     (\<lambda>r. r\<lparr>tr_last_heartbeat_at := Some now,
                            tr_lease_expires_at := Some (now + seconds (effective_timeout cfg t))\<rparr>)
                     (task_runs d)\<rparr>)))"

definition success_row :: "time \<Rightarrow> string option \<Rightarrow> task_run \<Rightarrow> task_run" where
  "success_row now log r =
     r\<lparr>tr_status := SUCCESS, tr_finished_at := Some now, tr_log_output := log,
       tr_lease_token := None, tr_lease_expires_at := None\<rparr>"

definition complete_success ::
  "time \<Rightarrow> nat \<Rightarrow> nat option \<Rightarrow> string \<Rightarrow> string option \<Rightarrow> db \<Rightarrow> engine_error + db"
where
  "complete_success now rid tok worker log d =
     (if rowcount (holds_lease rid tok) (task_runs d) \<noteq> 1 then Inl (LeaseLostError rid)
      else (let d1 = d\<lparr>task_runs :=
                       update_where (holds_lease rid tok) (success_row now log) (task_runs d)\<rparr>
            in case get_row tr_id rid (task_runs d1) of
                 None \<Rightarrow> Inl AttributeError
               | Some r \<Rightarrow>
                   Inr (record_event r ''succeeded'' (Some RUNNING) (Some SUCCESS) (Some worker)
                      (SucceededDetail (map_option (\<lambda>s. now - s) (tr_started_at r))) d1)))"

definition retry_delay :: "settings \<Rightarrow> nat \<Rightarrow> int" where
  "retry_delay cfg attempts =
     min (worker_retry_base_delay_seconds cfg * 2 ^ (attempts - 1)) (worker_retry_max_delay_seconds cfg)"

definition requeue_row :: "time \<Rightarrow> string option \<Rightarrow> task_run \<Rightarrow> task_run" where
  "requeue_row retry_at log r =
     r\<lparr>tr_status := PENDING, tr_started_at := None, tr_finished_at := None,
       tr_error_message := None, tr_log_output := log, tr_lease_token := None,
       tr_lease_expires_at := None, tr_next_retry_at := Some retry_at\<rparr>"

definition failed_row :: "time \<Rightarrow> string \<Rightarrow> string option \<Rightarrow> task_run \<Rightarrow> task_run" where
  "failed_row now msg log r =
     r\<lparr>tr_status := FAILED, tr_finished_at := Some now, tr_error_message := Some msg,
       tr_log_output := log, tr_lease_token := None, tr_lease_expires_at := None\<rparr>"

definition effective_max_attempts :: "settings \<Rightarrow> task \<Rightarrow> int" where
  "effective_max_attempts cfg t = or_default (max_attempts t) (worker_default_max_attempts cfg)"

definition complete_failure ::
  "settings \<Rightarrow> time \<Rightarrow> nat \<Rightarrow> nat option \<Rightarrow> string \<Rightarrow> string \<Rightarrow> bool \<Rightarrow> string option \<Rightarrow> db
     \<Rightarrow> engine_error + db"
where
  "complete_failure cfg now rid tok worker msg retryable log d =
     (case get_row tr_id rid (task_runs d) of
        None \<Rightarrow> Inl (LeaseLostError rid)
      | Some r \<Rightarrow>
          if tr_lease_token r \<noteq> tok \<or> tr_status r \<noteq> RUNNING then Inl (LeaseLostError rid)
          else (case task_of d r of
                  None \<Rightarrow> Inl AttributeError
                | Some t \<Rightarrow>
                    (let should_retry = (retryable \<and> int (tr_attempt_count r) < effective_max_attempts cfg t);
                         retry_at = now + seconds (retry_delay cfg (tr_attempt_count r));
                         upd = (if should_retry then requeue_row retry_at log else failed_row now msg log);
                         d1 = d\<lparr>task_runs := update_where (holds_lease rid tok) upd (task_runs d)\<rparr>
                     in if rowcount (holds_lease rid tok) (task_runs d) \<noteq> 1 then Inl (LeaseLostError rid)
                        else if should_retry
                        then Inr (record_event r ''requeued'' (Some RUNNING) (Some PENDING) (Some worker)
                               (RequeuedDetail msg retry_at (tr_attempt_count r)) d1)
                        else Inr (record_event r ''failed'' (Some RUNNING) (Some FAILED) (Some worker)
                               (FailedDetail msg (tr_attempt_count r) retryable) d1))))"

text \<open>
  \<open>app.services.task_run_factory.create_task_run_record\<close> with the column defaults of the model:
  pending, no attempt made, ids drawn from \<open>uuid4\<close>, \<open>created_at\<close> the database clock.
\<close>

definition create_task_run_record ::
  "time \<Rightarrow> nat \<Rightarrow> nat \<Rightarrow> nat option \<Rightarrow> nat option \<Rightarrow> db \<Rightarrow> db \<times> nat"
where
  "create_task_run_record now org tid by source d =
     (let rid = uuid_supply d in
      (d\<lparr>uuid_supply := rid + 2,
         task_runs := task_runs d @
           [\<lparr>tr_id = rid, tr_org = org, tr_task_id = tid, tr_status = PENDING, tr_triggered_by = by,
             tr_started_at = None, tr_finished_at = None, tr_log_output = None,
             tr_error_message = None, tr_created_at = now, tr_idempotency_key = rid + 1,
             tr_lease_token = None, tr_lease_expires_at = None, tr_last_heartbeat_at = None,
             tr_attempt_count = 0, tr_next_retry_at = None, tr_source_task_run_id = source\<rparr>]\<rparr>,
       rid))"

end
