(* ===== verification/Csv.thy ===== *)
theory Csv
  imports Externals
begin

text \<open>
  \<open>app.profiling.csv_loader\<close> and the \<open>_serialize_csv\<close> helper of the handlers, over the reader and
  writer of Python's \<open>csv\<close> module: the state machine of the reader, character by character over the
  lines of a \<open>StringIO(text, newline="")\<close>, and the minimal quoting of the writer.

  The dialect guessed by \<open>csv.Sniffer\<close> is a parameter: a function from the sampled text to a
  dialect, or \<open>None\<close> where the sniffer raises.  Files are byte lists.  The digest, the path and
  the encoding name of a loaded file are not carried.
\<close>

section \<open>Text of a file\<close>

definition LF :: char where "LF = char_of (10::nat)"
definition CR :: char where "CR = char_of (13::nat)"
definition DQUOTE :: char where "DQUOTE = char_of (34::nat)"

definition BOM :: string where
  "BOM = map char_of [239::nat, 187, 191]"

text \<open>Well-formed UTF-8: shortest encodings, no surrogates, nothing above \<open>U+10FFFF\<close>.\<close>

fun utf8_ok :: "string \<Rightarrow> bool" where
  "utf8_ok [] = True"
| "utf8_ok (a # s) =
     (if code a < 128 then utf8_ok s
      else if 194 \<le> code a \<and> code a < 224
      then (case s of b # t \<Rightarrow> py_cont b \<and> utf8_ok t | _ \<Rightarrow> False)
      else if 224 \<le> code a \<and> code a < 240
      then (case s of b # c # t \<Rightarrow> py_cont b \<and> py_cont c
               \<and> (code a = 224 \<longrightarrow> 160 \<le> code b) \<and> (code a = 237 \<longrightarrow> code b < 160) \<and> utf8_ok t
            | _ \<Rightarrow> False)
      else if 240 \<le> code a \<and> code a < 245
      then (case s of b # c # d # t \<Rightarrow> py_cont b \<and> py_cont c \<and> py_cont d
               \<and> (code a = 240 \<longrightarrow> 144 \<le> code b) \<and> (code a = 244 \<longrightarrow> code b < 144) \<and> utf8_ok t
            | _ \<Rightarrow> False)
      else False)"

text \<open>The first \<open>n\<close> characters.\<close>

fun py_take :: "nat \<Rightarrow> string \<Rightarrow> string" where
  "py_take n [] = []"
| "py_take n (c # s) =
     (if py_cont c then c # py_take n s
      else case n of 0 \<Rightarrow> [] | Suc m \<Rightarrow> c # py_take m s)"

text \<open>One line with its terminator, and the lines of a text.\<close>

fun break_line :: "string \<Rightarrow> string \<times> string" where
  "break_line [] = ([], [])"
| "break_line (c # s) =
     (if c = LF then ([c], s)
      else if c = CR then (case s of d # t \<Rightarrow> if d = LF then ([c, d], t) else ([c], s) | [] \<Rightarrow> ([c], s))
      else (let (l, rest) = break_line s in (c # l, rest)))"

lemma break_line_length: "length (snd (break_line (c # s))) \<le> length s"
proof (induction s arbitrary: c)
  case (Cons d s)
  then show ?case
    using Cons[of d] by (auto simp: break_line.simps(2)[of c "d # s"] case_prod_unfold Let_def le_SucI
        simp del: break_line.simps)
qed (simp add: Let_def)

function csv_lines :: "string \<Rightarrow> string list" where
  "csv_lines [] = []"
| "csv_lines (c # s) = fst (break_line (c # s)) # csv_lines (snd (break_line (c # s)))"
  by pat_completeness auto
termination
  by (relation "measure length") (auto simp: le_imp_less_Suc break_line_length simp del: break_line.simps)

section \<open>The reader of the \<open>csv\<close> module\<close>

record dialect =
  delimiter :: char
  quotechar :: char
  doublequote :: bool
  skipinitialspace :: bool

definition excel :: dialect where
  "excel = \<lparr>delimiter = CHR '','', quotechar = DQUOTE, doublequote = True, skipinitialspace = False\<rparr>"

datatype reader_state = StartRecord | StartField | InField | InQuotedField | QuoteInQuotedField | EatCrnl

record reader =
  rd_state :: reader_state
  rd_field :: string
  rd_fields :: "string list"

definition FIELD_SIZE_LIMIT :: int where
  "FIELD_SIZE_LIMIT = 131072"

definition save_field :: "reader \<Rightarrow> reader" where
  "save_field r = r\<lparr>rd_fields := rd_fields r @ [rd_field r], rd_field := []\<rparr>"

definition add_char :: "char \<Rightarrow> reader \<Rightarrow> reader option" where
  "add_char c r =
     (if \<not> py_cont c \<and> FIELD_SIZE_LIMIT \<le> int (py_len (rd_field r)) then None
      else Some (r\<lparr>rd_field := rd_field r @ [c]\<rparr>))"

text \<open>The end of a line is \<open>None\<close>.\<close>

definition is_newline :: "char option \<Rightarrow> bool" where
  "is_newline x \<longleftrightarrow> x = None \<or> x = Some LF \<or> x = Some CR"

definition end_field :: "char option \<Rightarrow> reader \<Rightarrow> reader" where
  "end_field x r = (save_field r)\<lparr>rd_state := if x = None then StartRecord else EatCrnl\<rparr>"

definition start_field :: "dialect \<Rightarrow> char option \<Rightarrow> reader \<Rightarrow> reader option" where
  "start_field d x r =
     (if is_newline x then Some (end_field x r)
      else if the x = quotechar d then Some (r\<lparr>rd_state := InQuotedField\<rparr>)
      else if the x = CHR '' '' \<and> skipinitialspace d then Some (r\<lparr>rd_state := StartField\<rparr>)
      else if the x = delimiter d then Some ((save_field r)\<lparr>rd_state := StartField\<rparr>)
      else add_char (the x) (r\<lparr>rd_state := InField\<rparr>))"

definition process_char :: "dialect \<Rightarrow> char option \<Rightarrow> reader \<Rightarrow> reader option" where
  "process_char d x r =
     (case rd_state r of
        StartRecord \<Rightarrow>
          if x = None then Some r
          else if is_newline x then Some (r\<lparr>rd_state := EatCrnl\<rparr>)
          else start_field d x r
      | StartField \<Rightarrow> start_field d x r
      | InField \<Rightarrow>
          if is_newline x then Some (end_field x r)
          else if the x = delimiter d then Some ((save_field r)\<lparr>rd_state := StartField\<rparr>)
          else add_char (the x) r
      | InQuotedField \<Rightarrow>
          if x = None then Some r
          else if the x = quotechar d
          then Some (r\<lparr>rd_state := if doublequote d then QuoteInQuotedField else InField\<rparr>)
          else add_char (the x) r
      | QuoteInQuotedField \<Rightarrow>
          if x \<noteq> None \<and> the x = quotechar d then add_char (the x) (r\<lparr>rd_state := InQuotedField\<rparr>)
          else if x \<noteq> None \<and> the x = delimiter d then Some ((save_field r)\<lparr>rd_state := StartField\<rparr>)
          else if is_newline x then Some (end_field x r)
          else add_char (the x) (r\<lparr>rd_state := InField\<rparr>)
      | EatCrnl \<Rightarrow>
          if x = None then Some (r\<lparr>rd_state := StartRecord\<rparr>)
          else if is_newline x then Some r
          else None)"

fun process_line :: "dialect \<Rightarrow> string \<Rightarrow> reader \<Rightarrow> reader option" where
  "process_line d [] r = process_char d None r"
| "process_line d (c # s) r =
     (case process_char d (Some c) r of None \<Rightarrow> None | Some r' \<Rightarrow> process_line d s r')"

datatype read_result = StopIteration | CsvError | Record "string list" "string list"

text \<open>\<open>next(reader)\<close>: the record and the lines that remain.\<close>

fun read_loop :: "dialect \<Rightarrow> reader \<Rightarrow> string list \<Rightarrow> read_result" where
  "read_loop d r [] =
     (if rd_field r \<noteq> [] \<or> rd_state r = InQuotedField then Record (rd_fields (save_field r)) []
      else StopIteration)"
| "read_loop d r (l # ls) =
     (case process_line d l r of
        None \<Rightarrow> CsvError
      | Some r' \<Rightarrow> if rd_state r' = StartRecord then Record (rd_fields r') ls else read_loop d r' ls)"

definition fresh_reader :: reader where
  "fresh_reader = \<lparr>rd_state = StartRecord, rd_field = [], rd_fields = []\<rparr>"

definition next_record :: "dialect \<Rightarrow> string list \<Rightarrow> read_result" where
  "next_record d ls = read_loop d fresh_reader ls"

lemma read_loop_shorter: "read_loop d r ls = Record row rest \<Longrightarrow> ls \<noteq> [] \<Longrightarrow> length rest < length ls"
proof (induction d r ls rule: read_loop.induct)
  case (2 d r l ls)
  show ?case
  proof (cases "ls = []")
    case True
    then show ?thesis using 2(2) by (auto split: option.splits if_splits)
  next
    case False
    then show ?thesis using 2 by (fastforce split: option.splits if_splits)
  qed
qed simp

lemma next_record_shorter: "next_record d ls = Record row rest \<Longrightarrow> length rest < length ls"
  using read_loop_shorter[of d fresh_reader ls row rest]
  by (cases ls) (auto simp: next_record_def fresh_reader_def)

section \<open>The writer of the \<open>csv\<close> module\<close>

definition needs_quotes :: "string \<Rightarrow> bool" where
  "needs_quotes s \<longleftrightarrow> list_ex (\<lambda>c. c = CHR '','' \<or> c = DQUOTE \<or> c = CR \<or> c = LF) s"

definition double_quotes :: "string \<Rightarrow> string" where
  "double_quotes s = concat (map (\<lambda>c. if c = DQUOTE then [c, c] else [c]) s)"

definition csv_field :: "bool \<Rightarrow> string \<Rightarrow> string" where
  "csv_field alone s =
     (if needs_quotes s \<or> (alone \<and> s = []) then DQUOTE # double_quotes s @ [DQUOTE] else s)"

definition csv_row :: "string list \<Rightarrow> string" where
  "csv_row fs = join [CHR '',''] (map (csv_field (length fs = 1)) fs) @ [CR, LF]"

definition serialize_csv :: "string list \<Rightarrow> string list list \<Rightarrow> string" where
  "serialize_csv hs rows = concat (map csv_row (hs # rows))"

section \<open>\<open>load_csv\<close>\<close>

record csv_limits =
  max_file_size_bytes :: nat
  max_rows :: nat
  max_columns :: nat
  max_cell_length :: nat
  max_distinct_values :: nat
  max_sample_values :: nat

datatype csv_load_error =
    FileTooLarge
  | NotUtf8
  | SourceEmpty
  | NoHeaderRow
  | HeaderNotParsed
  | TooManyColumns
  | HeaderEmpty
  | TooManyRows
  | CellTooLong nat nat
  | BodyNotParsed

datatype structural_issue =
    BlankHeader nat
  | DuplicateHeader nat nat
  | TooFewFields nat nat
  | TooManyFields nat nat

record loaded_csv =
  ld_size :: nat
  ld_delimiter :: char
  ld_headers :: "string list"
  ld_rows :: "string list list"
  ld_issues :: "structural_issue list"

definition decode_csv :: "string \<Rightarrow> string option" where
  "decode_csv raw =
     (if \<not> utf8_ok raw then None else if take 3 raw = BOM then Some (drop 3 raw) else Some raw)"

text \<open>The header issues, with the first position of every casefolded header.\<close>

fun header_issues :: "nat \<Rightarrow> (string \<Rightarrow> nat option) \<Rightarrow> string list \<Rightarrow> structural_issue list" where
  "header_issues i seen [] = []"
| "header_issues i seen (h # hs) =
     (if h = [] then [BlankHeader i] else [])
     @ (case seen (casefold h) of
          Some j \<Rightarrow> DuplicateHeader i j # header_issues (Suc i) seen hs
        | None \<Rightarrow> header_issues (Suc i) (seen(casefold h \<mapsto> i)) hs)"

definition fit_row :: "nat \<Rightarrow> nat \<Rightarrow> string list \<Rightarrow> string list \<times> structural_issue list" where
  "fit_row n row_number row =
     (if length row < n then (row @ replicate (n - length row) [], [TooFewFields row_number (length row)])
      else if n < length row then (take n row, [TooManyFields row_number (length row)])
      else (row, []))"

definition long_cell :: "nat \<Rightarrow> string list \<Rightarrow> nat option" where
  "long_cell limit row = map_option fst (find (\<lambda>(j, v). limit < py_len v) (enum row))"

function load_rows ::
  "dialect \<Rightarrow> csv_limits \<Rightarrow> nat \<Rightarrow> string list \<Rightarrow> nat \<Rightarrow> string list list \<Rightarrow> structural_issue list \<Rightarrow>
     csv_load_error + string list list \<times> structural_issue list"
where
  "load_rows d limits n ls row_number rows issues =
     (case next_record d ls of
        StopIteration \<Rightarrow> Inr (rows, issues)
      | CsvError \<Rightarrow> Inl BodyNotParsed
      | Record row rest \<Rightarrow>
          if max_rows limits \<le> length rows then Inl TooManyRows
          else (case fit_row n row_number row of (row', found) \<Rightarrow>
            (case long_cell (max_cell_length limits) row' of
               Some j \<Rightarrow> Inl (CellTooLong row_number (j + 1))
             | None \<Rightarrow> load_rows d limits n rest (Suc row_number) (rows @ [row']) (issues @ found))))"
  by pat_completeness auto
termination
  by (relation "measure (\<lambda>(d, limits, n, ls, k, rows, issues). length ls)") (auto dest: next_record_shorter)

declare load_rows.simps [simp del]

definition load_csv ::
  "(string \<Rightarrow> dialect option) \<Rightarrow> csv_limits \<Rightarrow> string \<Rightarrow> csv_load_error + loaded_csv"
where
  "load_csv sniff limits raw =
     (if max_file_size_bytes limits < length raw then Inl FileTooLarge
      else case decode_csv raw of
        None \<Rightarrow> Inl NotUtf8
      | Some body \<Rightarrow>
          if strip body = [] then Inl SourceEmpty
          else (let d = (case sniff (py_take 8192 body) of None \<Rightarrow> excel | Some d \<Rightarrow> d) in
            (case next_record d (csv_lines body) of
               StopIteration \<Rightarrow> Inl NoHeaderRow
             | CsvError \<Rightarrow> Inl HeaderNotParsed
             | Record hs ls \<Rightarrow>
                 if max_columns limits < length hs then Inl TooManyColumns
                 else if hs = [] then Inl HeaderEmpty
                 else (let headers = map strip hs in
                   (case load_rows d limits (length hs) ls 2 [] (header_issues 0 Map.empty headers) of
                      Inl e \<Rightarrow> Inl e
                    | Inr (rows, issues) \<Rightarrow>
                        Inr \<lparr>ld_size = length raw, ld_delimiter = delimiter d, ld_headers = headers,
                             ld_rows = rows, ld_issues = issues\<rparr>)))))"

end
