(* ===== verification/Paths.thy ===== *)
theory Paths
  imports Csv
begin

text \<open>
  The two places that turn a stored text into a file: \<open>resolve_source_path\<close> of
  \<open>app.profiling.csv_loader\<close> for configured input files and \<open>resolve_artifact_path\<close> of
  \<open>app.artifacts.download\<close> for output files.

  A resolved path is its list of components.  \<open>Path.resolve\<close> is lexical: the file system is taken to
  have no symbolic links.  Which paths are regular files is an argument.
\<close>

section \<open>Paths\<close>

type_synonym path = "string list"

definition path_parts :: "string \<Rightarrow> string list" where
  "path_parts s = filter (\<lambda>p. p \<noteq> [] \<and> p \<noteq> ''.'') (split_on CHR ''/'' s)"

definition is_absolute :: "string \<Rightarrow> bool" where
  "is_absolute s = starts_with ''/'' s"

text \<open>The components after the \<open>..\<close> are resolved, from the root of the file system.\<close>

fun resolve_from :: "path \<Rightarrow> string list \<Rightarrow> path" where
  "resolve_from base [] = base"
| "resolve_from base (p # ps) = (if p = ''..'' then resolve_from (butlast base) ps else resolve_from (base @ [p]) ps)"

definition relative_to :: "path \<Rightarrow> path \<Rightarrow> bool" where
  "relative_to p root \<longleftrightarrow> take (length root) p = root"

section \<open>Input files\<close>

datatype path_error = PathRequired | AbsolutePath | PathEscapes | FileNotFound

definition resolve_source_path :: "(path \<Rightarrow> bool) \<Rightarrow> path \<Rightarrow> string \<Rightarrow> path_error + path" where
  "resolve_source_path is_file root configured_path =
     (if configured_path = [] \<or> strip configured_path = [] then Inl PathRequired
      else if is_absolute configured_path then Inl AbsolutePath
      else (let resolved = resolve_from root (path_parts configured_path) in
            if \<not> relative_to resolved root then Inl PathEscapes
            else if \<not> is_file resolved then Inl FileNotFound
            else Inr resolved))"

section \<open>Output files\<close>

text \<open>The stored text of an output path, and the path it denotes: \<open>None\<close> is the containment violation.\<close>

definition path_text :: "path \<Rightarrow> string" where
  "path_text p = concat (map (\<lambda>c. CHR ''/'' # c) p)"

definition resolve_artifact_path :: "path \<Rightarrow> string \<Rightarrow> path option" where
  "resolve_artifact_path root output_file_path =
     (let resolved = resolve_from [] (path_parts output_file_path)
      in if relative_to resolved root then Some resolved else None)"

section \<open>Confinement\<close>

definition plain_component :: "string \<Rightarrow> bool" where
  "plain_component c \<longleftrightarrow> c \<noteq> [] \<and> c \<noteq> ''.'' \<and> c \<noteq> ''..'' \<and> CHR ''/'' \<notin> set c"

lemma split_on_no_sep: "d \<notin> set s \<Longrightarrow> split_on d s = [s]"
  by (induction s) auto

lemma split_on_append_sep: "split_on d (s @ d # t) = split_on d s @ split_on d t"
proof (induction s)
  case (Cons c s)
  then show ?case by (cases "split_on d s") (auto split: list.splits)
qed simp

lemma path_parts_text: "list_all plain_component p \<Longrightarrow> path_parts (path_text p) = p"
proof (induction p rule: rev_induct)
  case (snoc c p)
  have "split_on CHR ''/'' (path_text p @ CHR ''/'' # c) = split_on CHR ''/'' (path_text p) @ [c]"
    using snoc.prems by (simp add: split_on_append_sep split_on_no_sep plain_component_def)
  then show ?case using snoc by (simp add: path_parts_def path_text_def plain_component_def)
qed (simp add: path_parts_def path_text_def)

lemma resolve_plain: "list_all plain_component ps \<Longrightarrow> resolve_from base ps = base @ ps"
  by (induction ps arbitrary: base) (auto simp: plain_component_def)

lemma resolve_artifact_path_ok:
  "list_all plain_component p \<Longrightarrow> resolve_artifact_path root (path_text p) = (if relative_to p root then Some p else None)"
  by (simp add: resolve_artifact_path_def path_parts_text resolve_plain)

lemma relative_to_iff: "relative_to p root \<longleftrightarrow> (\<exists>q. p = root @ q)"
proof
  assume "relative_to p root"
  then have "p = root @ drop (length root) p" unfolding relative_to_def by (metis append_take_drop_id)
  then show "\<exists>q. p = root @ q" ..
qed (auto simp: relative_to_def)

lemma resolve_source_path_confined:
  "resolve_source_path is_file root s = Inr p \<Longrightarrow> is_file p \<and> relative_to p root"
  by (auto simp: resolve_source_path_def Let_def split: if_splits)

end
