(* ===== verification/Store.thy ===== *)
theory Store
  imports TaskRuns Paths PyFloat
begin

text \<open>
  The tables around a run that people review: data sources, the four kinds of runs with an approval
  state machine (\<open>app.models.cleaning_run\<close>, \<open>standardization_run\<close>, \<open>match_run\<close>, \<open>export_run\<close>),
  users, and the audit tables of artifacts.  The engine's own tables are a field.

  The four run tables share their first columns; the output-producing ones share three more.
  They are extended records, so that one definition serves the columns they have in common.
  \<open>scalar_one_or_none\<close> raises when a query has two rows; the error is a value.
\<close>

section \<open>Queries\<close>

datatype query_error = MultipleResultsFound

definition scalar_one_or_none :: "'r list \<Rightarrow> query_error + 'r option" where
  "scalar_one_or_none rows = (case rows of [] \<Rightarrow> Inr None | [r] \<Rightarrow> Inr (Some r) | _ \<Rightarrow> Inl MultipleResultsFound)"

lemma scalar_simps [simp]:
  "scalar_one_or_none [] = Inr None"
  "scalar_one_or_none [r] = Inr (Some r)"
  "scalar_one_or_none (r # s # rs) = Inl MultipleResultsFound"
  by (simp_all add: scalar_one_or_none_def)

lemma scalar_Inr_Some: "scalar_one_or_none xs = Inr (Some r) \<longleftrightarrow> xs = [r]"
  by (auto simp: scalar_one_or_none_def split: list.splits)

lemma scalar_Inr_None: "scalar_one_or_none xs = Inr None \<longleftrightarrow> xs = []"
  by (auto simp: scalar_one_or_none_def split: list.splits)

lemma filter_single: "filter P xs = [x] \<Longrightarrow> x \<in> set xs \<and> P x"
proof -
  assume e: "filter P xs = [x]"
  have "x \<in> set (filter P xs)" unfolding e by simp
  then show ?thesis by simp
qed

section \<open>Rows\<close>

datatype source_type = POSTGRES | MYSQL | REST_API | CSV_UPLOAD | S3 | OTHER_SOURCE

record data_source =
  so_id :: nat
  so_org :: nat
  so_type :: source_type
  so_active :: bool
  so_file_path :: "string option"

datatype review_status = PendingReview | Approved | Rejected | RolledBack

record reviewed_run =
  rv_id :: nat
  rv_org :: nat
  rv_task_run :: nat
  rv_task :: nat
  rv_source :: nat
  rv_upstream :: nat
  rv_status :: review_status
  rv_approved_by :: "nat option"
  rv_approved_at :: "time option"
  rv_rejected_by :: "nat option"
  rv_rejected_at :: "time option"
  rv_rolled_back_by :: "nat option"
  rv_rolled_back_at :: "time option"

record artifact_run = reviewed_run +
  ar_path :: string
  ar_sha256 :: string
  ar_deleted_at :: "time option"

record cleaning_run = artifact_run +
  cn_row_count :: nat
  cn_changes :: nat
  cn_duplicates :: nat
  cn_confidence :: rat
  cn_post_rows :: nat
  cn_post_missing :: nat
  cn_post_duplicates :: nat

record standardization_run = artifact_run +
  sn_row_count :: nat
  sn_changes :: nat
  sn_confidence :: rat

record match_run = reviewed_run +
  mn_rule_set :: "nat option"
  mn_row_count :: nat
  mn_groups :: nat
  mn_confidence :: rat

record export_run = artifact_run +
  en_match_run :: nat
  en_source_rows :: nat
  en_row_count :: nat
  en_excluded :: nat

record user =
  us_id :: nat
  us_org :: nat
  us_superuser :: bool
  us_full_name :: "string option"
  us_email :: string

datatype artifact_type = CleaningArtifact | StandardizationArtifact | ExportArtifact

datatype retention_outcome = Completed | AlreadyMissing | RetentionFailed

datatype retention_failure = UnsafePath | PermissionDenied | FilesystemError

record retention_event =
  rt_org :: nat
  rt_type :: artifact_type
  rt_run :: nat
  rt_outcome :: retention_outcome
  rt_failure :: "retention_failure option"
  rt_dry_run :: bool
  rt_window_days :: int
  rt_size :: "nat option"
  rt_completed_at :: time

datatype download_outcome = DownloadStarted | DownloadCompleted | FileMissing | IntegrityFailed | StreamFailed | Purged

datatype download_failure = HashMismatch | NoSuchFile | NotARegularFile | IoError | StreamInterrupted

record download_event =
  dn_id :: nat
  dn_org :: nat
  dn_type :: artifact_type
  dn_run :: nat
  dn_user :: nat
  dn_status :: review_status
  dn_outcome :: download_outcome
  dn_failure :: "download_failure option"
  dn_sha256 :: "string option"
  dn_bytes :: nat
  dn_completed_at :: "time option"

record store =
  st_engine :: db
  st_sources :: "data_source table"
  st_cleaning :: "cleaning_run table"
  st_standardization :: "standardization_run table"
  st_match :: "match_run table"
  st_export :: "export_run table"
  st_retention_events :: "retention_event list"
  st_download_events :: "download_event list"

text \<open>What a response is when it is not the resource.\<close>

datatype http_error = NotFound | BadRequest | Conflict | Forbidden | Gone | Unprocessable | ServerError

section \<open>Decided runs\<close>

text \<open>The time stamps and users of a run agree with its status.\<close>

definition review_ok :: "'a reviewed_run_scheme \<Rightarrow> bool" where
  "review_ok r \<longleftrightarrow>
     (rv_approved_by r = None \<longleftrightarrow> rv_approved_at r = None)
     \<and> (rv_rejected_by r = None \<longleftrightarrow> rv_rejected_at r = None)
     \<and> (rv_rolled_back_by r = None \<longleftrightarrow> rv_rolled_back_at r = None)
     \<and> (case rv_status r of
          PendingReview \<Rightarrow> rv_approved_at r = None \<and> rv_rejected_at r = None \<and> rv_rolled_back_at r = None
        | Approved \<Rightarrow> rv_approved_at r \<noteq> None \<and> rv_rejected_at r = None \<and> rv_rolled_back_at r = None
        | Rejected \<Rightarrow> rv_approved_at r = None \<and> rv_rejected_at r \<noteq> None \<and> rv_rolled_back_at r = None
        | RolledBack \<Rightarrow> rv_approved_at r \<noteq> None \<and> rv_rejected_at r = None \<and> rv_rolled_back_at r \<noteq> None)"

end
