(* ===== verification/Review.thy ===== *)
theory Review
  imports Store
begin

text \<open>
  The approval state machines of \<open>app.api.tasks\<close>: approve, reject and roll back, for cleaning,
  standardization, match and export runs, behind their chain of 404 checks.

  A request reads its run, checks the status, then writes three columns of that row and commits.
  The check and the commit are separate definitions, because two requests may interleave; an
  endpoint is both on the same database.
\<close>

section \<open>The chain of 404 checks\<close>

definition found :: "query_error + 'r option \<Rightarrow> http_error + 'r" where
  "found q = (case q of Inl _ \<Rightarrow> Inl ServerError | Inr None \<Rightarrow> Inl NotFound | Inr (Some r) \<Rightarrow> Inr r)"

definition get_active_task_or_404 :: "db \<Rightarrow> nat \<Rightarrow> nat \<Rightarrow> http_error + task" where
  "get_active_task_or_404 d tid org =
     found (scalar_one_or_none (filter (\<lambda>t. task_id t = tid \<and> task_org t = org \<and> is_active t) (tasks d)))"

definition get_visible_run_or_404 :: "db \<Rightarrow> nat \<Rightarrow> nat \<Rightarrow> nat \<Rightarrow> http_error + task_run" where
  "get_visible_run_or_404 d tid rid org =
     (case get_active_task_or_404 d tid org of
        Inl e \<Rightarrow> Inl e
      | Inr t \<Rightarrow>
          found (scalar_one_or_none
            (filter (\<lambda>r. tr_id r = rid \<and> tr_task_id r = task_id t \<and> tr_org r = org) (task_runs d))))"

definition get_reviewed_run_or_404 ::
  "db \<Rightarrow> 'a reviewed_run_scheme table \<Rightarrow> nat \<Rightarrow> nat \<Rightarrow> nat \<Rightarrow> http_error + 'a reviewed_run_scheme"
where
  "get_reviewed_run_or_404 d runs tid rid org =
     (case get_visible_run_or_404 d tid rid org of
        Inl e \<Rightarrow> Inl e
      | Inr run \<Rightarrow>
          found (scalar_one_or_none
            (filter (\<lambda>r. rv_task_run r = rid \<and> rv_task r = tr_task_id run \<and> rv_org r = org) runs)))"

definition get_cleaning_run_or_404 :: "store \<Rightarrow> nat \<Rightarrow> nat \<Rightarrow> nat \<Rightarrow> http_error + cleaning_run" where
  "get_cleaning_run_or_404 s = get_reviewed_run_or_404 (st_engine s) (st_cleaning s)"

definition get_standardization_run_or_404 :: "store \<Rightarrow> nat \<Rightarrow> nat \<Rightarrow> nat \<Rightarrow> http_error + standardization_run" where
  "get_standardization_run_or_404 s = get_reviewed_run_or_404 (st_engine s) (st_standardization s)"

definition get_match_run_or_404 :: "store \<Rightarrow> nat \<Rightarrow> nat \<Rightarrow> nat \<Rightarrow> http_error + match_run" where
  "get_match_run_or_404 s = get_reviewed_run_or_404 (st_engine s) (st_match s)"

definition get_export_run_or_404 :: "store \<Rightarrow> nat \<Rightarrow> nat \<Rightarrow> nat \<Rightarrow> http_error + export_run" where
  "get_export_run_or_404 s = get_reviewed_run_or_404 (st_engine s) (st_export s)"

section \<open>Transitions\<close>

datatype transition = Approve | Reject | RollBack

text \<open>The status a transition asks for.\<close>

fun required_status :: "transition \<Rightarrow> review_status" where
  "required_status Approve = PendingReview"
| "required_status Reject = PendingReview"
| "required_status RollBack = Approved"

text \<open>The columns it writes.\<close>

fun decide_columns :: "transition \<Rightarrow> user \<Rightarrow> time \<Rightarrow> 'a reviewed_run_scheme \<Rightarrow> 'a reviewed_run_scheme" where
  "decide_columns Approve u now r =
     r\<lparr>rv_status := Approved, rv_approved_by := Some (us_id u), rv_approved_at := Some now\<rparr>"
| "decide_columns Reject u now r =
     r\<lparr>rv_status := Rejected, rv_rejected_by := Some (us_id u), rv_rejected_at := Some now\<rparr>"
| "decide_columns RollBack u now r =
     r\<lparr>rv_status := RolledBack, rv_rolled_back_by := Some (us_id u), rv_rolled_back_at := Some now\<rparr>"

definition check_transition ::
  "transition \<Rightarrow> http_error + 'a reviewed_run_scheme \<Rightarrow> http_error + 'a reviewed_run_scheme"
where
  "check_transition tr found_run =
     (case found_run of Inl e \<Rightarrow> Inl e | Inr r \<Rightarrow> if rv_status r \<noteq> required_status tr then Inl Conflict else Inr r)"

definition commit_transition ::
  "transition \<Rightarrow> user \<Rightarrow> time \<Rightarrow> nat \<Rightarrow> 'a reviewed_run_scheme table \<Rightarrow> 'a reviewed_run_scheme table"
where
  "commit_transition tr u now rid runs = update_where (\<lambda>x. rv_id x = rid) (decide_columns tr u now) runs"

section \<open>Endpoints\<close>

definition decide_cleaning :: "transition \<Rightarrow> nat \<Rightarrow> nat \<Rightarrow> user \<Rightarrow> time \<Rightarrow> store \<Rightarrow> http_error + store" where
  "decide_cleaning tr tid rid u now s =
     (case check_transition tr (get_cleaning_run_or_404 s tid rid (us_org u)) of
        Inl e \<Rightarrow> Inl e
      | Inr r \<Rightarrow> Inr (s\<lparr>st_cleaning := commit_transition tr u now (rv_id r) (st_cleaning s)\<rparr>))"

definition decide_standardization :: "transition \<Rightarrow> nat \<Rightarrow> nat \<Rightarrow> user \<Rightarrow> time \<Rightarrow> store \<Rightarrow> http_error + store" where
  "decide_standardization tr tid rid u now s =
     (case check_transition tr (get_standardization_run_or_404 s tid rid (us_org u)) of
        Inl e \<Rightarrow> Inl e
      | Inr r \<Rightarrow> Inr (s\<lparr>st_standardization := commit_transition tr u now (rv_id r) (st_standardization s)\<rparr>))"

definition decide_match :: "transition \<Rightarrow> nat \<Rightarrow> nat \<Rightarrow> user \<Rightarrow> time \<Rightarrow> store \<Rightarrow> http_error + store" where
  "decide_match tr tid rid u now s =
     (case check_transition tr (get_match_run_or_404 s tid rid (us_org u)) of
        Inl e \<Rightarrow> Inl e
      | Inr r \<Rightarrow> Inr (s\<lparr>st_match := commit_transition tr u now (rv_id r) (st_match s)\<rparr>))"

definition decide_export :: "transition \<Rightarrow> nat \<Rightarrow> nat \<Rightarrow> user \<Rightarrow> time \<Rightarrow> store \<Rightarrow> http_error + store" where
  "decide_export tr tid rid u now s =
     (case check_transition tr (get_export_run_or_404 s tid rid (us_org u)) of
        Inl e \<Rightarrow> Inl e
      | Inr r \<Rightarrow> Inr (s\<lparr>st_export := commit_transition tr u now (rv_id r) (st_export s)\<rparr>))"

definition approve_task_run_cleaning :: "nat \<Rightarrow> nat \<Rightarrow> user \<Rightarrow> time \<Rightarrow> store \<Rightarrow> http_error + store" where
  "approve_task_run_cleaning = decide_cleaning Approve"

definition reject_task_run_cleaning :: "nat \<Rightarrow> nat \<Rightarrow> user \<Rightarrow> time \<Rightarrow> store \<Rightarrow> http_error + store" where
  "reject_task_run_cleaning = decide_cleaning Reject"

definition rollback_task_run_cleaning :: "nat \<Rightarrow> nat \<Rightarrow> user \<Rightarrow> time \<Rightarrow> store \<Rightarrow> http_error + store" where
  "rollback_task_run_cleaning = decide_cleaning RollBack"

definition approve_task_run_standardization :: "nat \<Rightarrow> nat \<Rightarrow> user \<Rightarrow> time \<Rightarrow> store \<Rightarrow> http_error + store" where
  "approve_task_run_standardization = decide_standardization Approve"

definition reject_task_run_standardization :: "nat \<Rightarrow> nat \<Rightarrow> user \<Rightarrow> time \<Rightarrow> store \<Rightarrow> http_error + store" where
  "reject_task_run_standardization = decide_standardization Reject"

definition rollback_task_run_standardization :: "nat \<Rightarrow> nat \<Rightarrow> user \<Rightarrow> time \<Rightarrow> store \<Rightarrow> http_error + store" where
  "rollback_task_run_standardization = decide_standardization RollBack"

definition approve_task_run_matching :: "nat \<Rightarrow> nat \<Rightarrow> user \<Rightarrow> time \<Rightarrow> store \<Rightarrow> http_error + store" where
  "approve_task_run_matching = decide_match Approve"

definition reject_task_run_matching :: "nat \<Rightarrow> nat \<Rightarrow> user \<Rightarrow> time \<Rightarrow> store \<Rightarrow> http_error + store" where
  "reject_task_run_matching = decide_match Reject"

definition rollback_task_run_matching :: "nat \<Rightarrow> nat \<Rightarrow> user \<Rightarrow> time \<Rightarrow> store \<Rightarrow> http_error + store" where
  "rollback_task_run_matching = decide_match RollBack"

definition approve_task_run_export :: "nat \<Rightarrow> nat \<Rightarrow> user \<Rightarrow> time \<Rightarrow> store \<Rightarrow> http_error + store" where
  "approve_task_run_export = decide_export Approve"

definition reject_task_run_export :: "nat \<Rightarrow> nat \<Rightarrow> user \<Rightarrow> time \<Rightarrow> store \<Rightarrow> http_error + store" where
  "reject_task_run_export = decide_export Reject"

definition rollback_task_run_export :: "nat \<Rightarrow> nat \<Rightarrow> user \<Rightarrow> time \<Rightarrow> store \<Rightarrow> http_error + store" where
  "rollback_task_run_export = decide_export RollBack"

end
