(* ===== verification/Pipeline.thy ===== *)
theory Pipeline
  imports DetectionEngine Quality Review
begin

text \<open>
  The audit chain: the tables that detection, remediation, approval, validation and quality control
  share, the resolution of column configuration, and the handlers \<open>IssueDetectionHandler\<close> and
  \<open>RemediationHandler\<close> of \<open>app.worker.handlers\<close>.

  A handler reads, computes, and then writes a run with its child rows in one transaction.  The two
  halves are separate definitions, since other workers commit in between.  The database's
  constraint \<open>UNIQUE(task_run_id)\<close> refuses a second run of one task run; the handler then answers
  with the run that it finds.  Answers are the id of the run row.  Input files are a function; so are
  SHA-256 and the dialect sniffer.  Ids are drawn from a counter.  The JSON column
  \<open>limits_applied\<close>, engine versions and time stamps are not carried.
\<close>

section \<open>Results\<close>

datatype source_error = BadPath path_error | BadCsv csv_load_error

datatype permanent_reason =
    NoDataSource | UnsupportedSourceType | NoFilePath | SourceNotLoadable source_error | NoSourceTaskRunId
  | NoUpstreamRun | UntrackedSource | SourceChanged | NoThreshold | InvalidThreshold | BrokenChain | NoProfile
  | UpstreamNotApproved | ColumnsChanged | RowsChanged | ReservedColumns | MembersLost nat

datatype handler_error = PermanentExecutionError permanent_reason | MultipleRows | IntegrityError | EngineError
  | FileSystemError | DataError

definition and_then :: "'e + 'a \<Rightarrow> ('a \<Rightarrow> 'e + 'b) \<Rightarrow> 'e + 'b" where
  "and_then x f = (case x of Inl e \<Rightarrow> Inl e | Inr a \<Rightarrow> f a)"

lemma and_then_simps [simp]: "and_then (Inl e) f = Inl e" "and_then (Inr a) f = f a"
  by (simp_all add: and_then_def)

lemma and_then_Inr: "and_then x f = Inr b \<longleftrightarrow> (\<exists>a. x = Inr a \<and> f a = Inr b)"
  by (cases x) auto

definition permanent :: "permanent_reason \<Rightarrow> handler_error + 'a" where
  "permanent r = Inl (PermanentExecutionError r)"

definition required :: "permanent_reason \<Rightarrow> 'a option \<Rightarrow> handler_error + 'a" where
  "required r x = (case x of None \<Rightarrow> permanent r | Some a \<Rightarrow> Inr a)"

text \<open>\<open>scalar_one_or_none\<close>.\<close>

definition one_or_none :: "'r list \<Rightarrow> handler_error + 'r option" where
  "one_or_none rs = (case scalar_one_or_none rs of Inl _ \<Rightarrow> Inl MultipleRows | Inr x \<Rightarrow> Inr x)"

definition one_row :: "permanent_reason \<Rightarrow> 'r list \<Rightarrow> handler_error + 'r" where
  "one_row r rs = and_then (one_or_none rs) (required r)"

section \<open>Tables\<close>

record detection_run =
  dr_id :: nat
  dr_org :: nat
  dr_task_run :: nat
  dr_task :: nat
  dr_source :: nat
  dr_rows :: nat
  dr_columns :: nat
  dr_total :: nat
  dr_persisted :: nat
  dr_by_severity :: "severity tally"
  dr_by_type :: "issue_type tally"
  dr_sha256 :: "string option"

record issue_row =
  iw_id :: nat
  iw_org :: nat
  iw_run :: nat
  iw_row :: int
  iw_column :: "string option"
  iw_type :: issue_type
  iw_severity :: severity
  iw_original :: "string option"
  iw_suggested :: "string option"
  iw_confidence :: rat

record remediation_run =
  mr_id :: nat
  mr_org :: nat
  mr_task_run :: nat
  mr_task :: nat
  mr_source :: nat
  mr_source_task_run :: nat
  mr_considered :: nat
  mr_total :: nat
  mr_skipped :: nat
  mr_by_action :: "remediation_action tally"
  mr_skipped_by_reason :: "skip_reason tally"

record change_row =
  cg_id :: nat
  cg_org :: nat
  cg_run :: nat
  cg_issue :: nat
  cg_row :: int
  cg_column :: "string option"
  cg_action :: remediation_action
  cg_original :: "string option"
  cg_proposed :: "string option"
  cg_reason :: string
  cg_confidence :: rat

datatype change_decision = ChangeApproved | ChangeRejected

record decision_row =
  dc_id :: nat
  dc_org :: nat
  dc_run :: nat
  dc_change :: nat
  dc_decision :: change_decision
  dc_reviewer :: nat
  dc_reviewer_name :: string
  dc_at :: time
  dc_comment :: "string option"

record validation_run =
  va_id :: nat
  va_org :: nat
  va_task_run :: nat
  va_task :: nat
  va_source :: nat
  va_remediation :: nat
  va_considered :: nat
  va_passed :: nat
  va_failed :: nat
  va_skipped :: nat
  va_by_rule :: "remediation_action tally"

record validation_row =
  vw_id :: nat
  vw_org :: nat
  vw_run :: nat
  vw_remediation :: nat
  vw_change :: nat
  vw_issue :: nat
  vw_rule :: string
  vw_outcome :: validation_outcome
  vw_reason :: validation_reason
  vw_original :: "string option"
  vw_proposed :: "string option"

record profile_row =
  pf_id :: nat
  pf_org :: nat
  pf_task_run :: nat
  pf_rows :: nat
  pf_columns :: nat
  pf_duplicates :: nat
  pf_missing :: nat

record threshold_row =
  tw_id :: nat
  tw_org :: nat
  tw_source :: "nat option"
  tw_active :: bool
  tw_config :: threshold_config

record quality_run =
  qn_id :: nat
  qn_org :: nat
  qn_task_run :: nat
  qn_task :: nat
  qn_source :: nat
  qn_validation :: nat
  qn_remediation :: nat
  qn_detection :: nat
  qn_profile :: nat
  qn_score :: "rat option"
  qn_recommendation :: recommendation
  qn_total :: nat
  qn_blocking :: nat
  qn_warning :: nat
  qn_info :: nat

record finding_row =
  fw_org :: nat
  fw_run :: nat
  fw_finding :: quality_finding

text \<open>Configuration: \<open>IssueDetectionColumnRule\<close>, \<open>RemediationColumnRule\<close>, \<open>RemediationDatasetConfig\<close>.\<close>

record scoped_rule =
  sr_org :: nat
  sr_source :: "nat option"
  sr_active :: bool
  sr_column :: string

record detection_rule_row = scoped_rule +
  sd_config :: column_rule_config

record remediation_rule_row = scoped_rule +
  sm_source_date_format :: "string option"
  sm_target_date_format :: "string option"
  sm_default_country :: "string option"
  sm_capitalization_target :: "capitalization option"

record dataset_config_row =
  dg_org :: nat
  dg_source :: nat
  dg_active :: bool
  dg_config :: dataset_config

record pipeline =
  pl_engine :: db
  pl_supply :: nat
  pl_detection_rules :: "detection_rule_row list"
  pl_remediation_rules :: "remediation_rule_row list"
  pl_dataset_configs :: "dataset_config_row list"
  pl_thresholds :: "threshold_row list"
  pl_profiles :: "profile_row table"
  pl_detections :: "detection_run table"
  pl_issues :: "issue_row table"
  pl_remediations :: "remediation_run table"
  pl_changes :: "change_row table"
  pl_decisions :: "decision_row list"
  pl_validations :: "validation_run table"
  pl_results :: "validation_row table"
  pl_quality :: "quality_run table"
  pl_findings :: "finding_row list"

record exec_context =
  cx_run :: task_run
  cx_task :: task
  cx_source :: "data_source option"

record 'd handler_env =
  he_oracles :: "'d oracles"
  he_sniff :: "string \<Rightarrow> dialect option"
  he_limits :: csv_limits
  he_sha256 :: "string \<Rightarrow> string"
  he_input_root :: path
  he_files :: "path \<Rightarrow> string option"
  he_default_zscore :: rat
  he_max_issues :: nat
  he_max_changes :: nat
  he_max_results :: nat
  he_max_findings :: nat

section \<open>Scoped configuration\<close>

text \<open>\<open>dict[key] = row\<close> in a loop keeps the last row of a key.\<close>

definition rule_key :: "string \<Rightarrow> string" where
  "rule_key name = lower (strip name)"

definition rules_by_key :: "nat option \<Rightarrow> 'a scoped_rule_scheme list \<Rightarrow> string \<Rightarrow> 'a scoped_rule_scheme option" where
  "rules_by_key source rules = map_of (rev (map (\<lambda>r. (rule_key (sr_column r), r)) (filter (\<lambda>r. sr_source r = source) rules)))"

definition resolve_rule :: "nat \<Rightarrow> nat \<Rightarrow> 'a scoped_rule_scheme list \<Rightarrow> string \<Rightarrow> 'a scoped_rule_scheme option" where
  "resolve_rule org source rules name =
     (let active = filter (\<lambda>r. sr_org r = org \<and> sr_active r) rules in
      case rules_by_key (Some source) active (rule_key name) of
        Some r \<Rightarrow> Some r
      | None \<Rightarrow> rules_by_key None active (rule_key name))"

definition nonempty :: "string list option \<Rightarrow> string list option" where
  "nonempty x = (case x of None \<Rightarrow> None | Some vs \<Rightarrow> if vs = [] then None else Some vs)"

definition load_column_rules :: "'d handler_env \<Rightarrow> pipeline \<Rightarrow> nat \<Rightarrow> nat \<Rightarrow> string list \<Rightarrow> string \<Rightarrow> column_rule_config option" where
  "load_column_rules env s org source hs h =
     (if h \<notin> set hs then None
      else case resolve_rule org source (pl_detection_rules s) h of
             None \<Rightarrow> None
           | Some r \<Rightarrow>
               Some ((sd_config r)\<lparr>allowed_values := nonempty (allowed_values (sd_config r)),
                  outlier_zscore_threshold :=
                    (case outlier_zscore_threshold (sd_config r) of None \<Rightarrow> Some (he_default_zscore env) | Some z \<Rightarrow> Some z)\<rparr>))"

definition merged_config :: "remediation_rule_row option \<Rightarrow> detection_rule_row option \<Rightarrow> column_config option" where
  "merged_config m d =
     (if m = None \<and> d = None then None
      else Some \<lparr>cc_source_date_format = Option.bind m sm_source_date_format,
                 cc_target_date_format = Option.bind m sm_target_date_format,
                 cc_default_country = Option.bind m sm_default_country,
                 cc_capitalization_target = Option.bind m sm_capitalization_target,
                 cc_allowed_values = Option.bind d (\<lambda>r. nonempty (allowed_values (sd_config r)))\<rparr>)"

definition load_column_config :: "pipeline \<Rightarrow> nat \<Rightarrow> nat \<Rightarrow> string list \<Rightarrow> string \<Rightarrow> column_config option" where
  "load_column_config s org source names name =
     (if name \<notin> set names then None
      else merged_config (resolve_rule org source (pl_remediation_rules s) name)
             (resolve_rule org source (pl_detection_rules s) name))"

definition load_dataset_config :: "pipeline \<Rightarrow> nat \<Rightarrow> nat \<Rightarrow> handler_error + dataset_config" where
  "load_dataset_config s org source =
     and_then (one_or_none (filter (\<lambda>r. dg_org r = org \<and> dg_source r = source \<and> dg_active r) (pl_dataset_configs s)))
       (\<lambda>row. Inr (case row of None \<Rightarrow> \<lparr>remove_duplicate_rows_enabled = False, remove_duplicate_primary_keys_enabled = False\<rparr>
                   | Some r \<Rightarrow> dg_config r))"

section \<open>The input file\<close>

definition load_source :: "'d handler_env \<Rightarrow> nat \<Rightarrow> string \<Rightarrow> source_error + loaded_csv \<times> string" where
  "load_source env org text =
     (case resolve_source_path (\<lambda>p. he_files env p \<noteq> None) (he_input_root env @ [show_nat org]) text of
        Inl e \<Rightarrow> Inl (BadPath e)
      | Inr p \<Rightarrow>
          (case load_csv (he_sniff env) (he_limits env) (the (he_files env p)) of
             Inl e \<Rightarrow> Inl (BadCsv e)
           | Inr l \<Rightarrow> Inr (l, he_sha256 env (the (he_files env p)))))"

definition read_source :: "'d handler_env \<Rightarrow> nat \<Rightarrow> data_source \<Rightarrow> handler_error + loaded_csv \<times> string" where
  "read_source env org src =
     and_then (required NoFilePath (so_file_path src))
       (\<lambda>text. case load_source env org text of
          Inl e \<Rightarrow> permanent (SourceNotLoadable e)
        | Inr l \<Rightarrow> Inr l)"

text \<open>The dictionaries of structural issues, of which detection reads those of short rows.\<close>

fun issue_dict :: "Csv.structural_issue \<Rightarrow> Detection.structural_issue" where
  "issue_dict (BlankHeader i) = \<lparr>si_type = ''blank_header'', si_row_number = 0, si_field_count = 0\<rparr>"
| "issue_dict (DuplicateHeader i j) = \<lparr>si_type = ''duplicate_header'', si_row_number = 0, si_field_count = 0\<rparr>"
| "issue_dict (TooFewFields r n) = \<lparr>si_type = ''too_few_fields'', si_row_number = r, si_field_count = n\<rparr>"
| "issue_dict (TooManyFields r n) = \<lparr>si_type = ''too_many_fields'', si_row_number = r, si_field_count = n\<rparr>"

section \<open>Detection\<close>

definition detection_dataset :: "'d handler_env \<Rightarrow> pipeline \<Rightarrow> nat \<Rightarrow> nat \<Rightarrow> loaded_csv \<Rightarrow> dataset" where
  "detection_dataset env s org source l =
     \<lparr>headers = ld_headers l, rows = ld_rows l, structural_issues = map issue_dict (ld_issues l),
      column_rules = load_column_rules env s org source (ld_headers l)\<rparr>"

definition ISSUE_SEVERITIES :: "severity list" where
  "ISSUE_SEVERITIES = [INFO, LOW, MEDIUM, HIGH, CRITICAL]"

definition detection_prepare ::
  "'d handler_env \<Rightarrow> exec_context \<Rightarrow> pipeline \<Rightarrow> handler_error + (nat + detection_run \<times> finding list)"
where
  "detection_prepare env cx s =
     and_then (required NoDataSource (cx_source cx)) (\<lambda>src.
     if so_type src \<noteq> CSV_UPLOAD then permanent UnsupportedSourceType
     else and_then (read_source env (so_org src) src) (\<lambda>(l, digest).
     and_then (one_or_none (filter (\<lambda>r. dr_task_run r = tr_id (cx_run cx)) (pl_detections s))) (\<lambda>existing.
     case existing of
       Some r \<Rightarrow> Inr (Inl (dr_id r))
     | None \<Rightarrow>
         (case detect_issues (he_oracles env) (detection_dataset env s (tr_org (cx_run cx)) (so_id src) l) (he_max_issues env) of
            None \<Rightarrow> Inl EngineError
          | Some r \<Rightarrow>
              Inr (Inr (\<lparr>dr_id = 0, dr_org = tr_org (cx_run cx), dr_task_run = tr_id (cx_run cx), dr_task = task_id (cx_task cx),
                         dr_source = so_id src, dr_rows = rows_scanned r, dr_columns = columns_scanned r,
                         dr_total = total_issues_found r, dr_persisted = persisted_issue_count r,
                         dr_by_severity = map (\<lambda>v. (v, tally_get v (issues_by_severity r))) ISSUE_SEVERITIES,
                         dr_by_type = issues_by_type r,
                         dr_sha256 = Some digest\<rparr>, findings r))))))"

definition issue_of :: "nat \<Rightarrow> nat \<Rightarrow> nat \<Rightarrow> finding \<Rightarrow> issue_row" where
  "issue_of i org run f =
     \<lparr>iw_id = i, iw_org = org, iw_run = run, iw_row = int (row_number f), iw_column = column_name f,
      iw_type = issue_type f, iw_severity = severity f, iw_original = original_value f,
      iw_suggested = suggested_fix f, iw_confidence = confidence f\<rparr>"

definition detection_commit :: "detection_run \<times> finding list \<Rightarrow> pipeline \<Rightarrow> (handler_error + nat) \<times> pipeline" where
  "detection_commit p s =
     (let (run, fs) = p; rid = pl_supply s in
      case filter (\<lambda>r. dr_task_run r = dr_task_run run) (pl_detections s) of
        [] \<Rightarrow> (Inr rid,
               s\<lparr>pl_supply := rid + 1 + length fs, pl_detections := pl_detections s @ [run\<lparr>dr_id := rid\<rparr>],
                 pl_issues := pl_issues s @ map (\<lambda>(i, f). issue_of i (dr_org run) rid f) (enum_from (Suc rid) fs)\<rparr>)
      | [r] \<Rightarrow> (Inr (dr_id r), s)
      | _ \<Rightarrow> (Inl MultipleRows, s))"

definition detection_execute :: "'d handler_env \<Rightarrow> exec_context \<Rightarrow> pipeline \<Rightarrow> (handler_error + nat) \<times> pipeline" where
  "detection_execute env cx s =
     (case detection_prepare env cx s of
        Inl e \<Rightarrow> (Inl e, s)
      | Inr (Inl rid) \<Rightarrow> (Inr rid, s)
      | Inr (Inr p) \<Rightarrow> detection_commit p s)"

section \<open>Remediation\<close>

definition remediation_input :: "issue_row \<Rightarrow> remediation_issue" where
  "remediation_input i =
     \<lparr>ri_id = iw_id i, ri_row = iw_row i, ri_column = iw_column i, ri_type = iw_type i,
      ri_original = iw_original i, ri_suggested = iw_suggested i\<rparr>"

definition remediation_prepare ::
  "'d handler_env \<Rightarrow> exec_context \<Rightarrow> pipeline \<Rightarrow> handler_error + (nat + remediation_run \<times> proposal list)"
where
  "remediation_prepare env cx s =
     (let org = tr_org (cx_run cx) in
     and_then (required NoDataSource (cx_source cx)) (\<lambda>src.
     if so_type src \<noteq> CSV_UPLOAD then permanent UnsupportedSourceType
     else and_then (required NoSourceTaskRunId (tr_source_task_run_id (cx_run cx))) (\<lambda>upstream.
     and_then (one_row NoUpstreamRun (filter (\<lambda>r. dr_task_run r = upstream \<and> dr_org r = org) (pl_detections s))) (\<lambda>detection.
     and_then (required UntrackedSource (dr_sha256 detection)) (\<lambda>scanned.
     and_then (one_or_none (filter (\<lambda>r. mr_task_run r = tr_id (cx_run cx)) (pl_remediations s))) (\<lambda>existing.
     case existing of
       Some r \<Rightarrow> Inr (Inl (mr_id r))
     | None \<Rightarrow>
         and_then (read_source env org src) (\<lambda>(l, digest).
         if digest \<noteq> scanned then permanent SourceChanged
         else and_then (load_dataset_config s org (so_id src)) (\<lambda>dc.
         (let issues = filter (\<lambda>i. iw_run i = dr_id detection \<and> iw_org i = org) (pl_issues s);
              result = remediate (he_oracles env) \<lparr>rd_headers = ld_headers l, rd_rows = ld_rows l\<rparr> (map remediation_input issues)
                         (load_column_config s org (so_id src) (ld_headers l)) dc (he_max_changes env)
          in Inr (Inr (\<lparr>mr_id = 0, mr_org = org, mr_task_run = tr_id (cx_run cx), mr_task = task_id (cx_task cx),
                        mr_source = so_id src, mr_source_task_run = upstream, mr_considered = rr_considered result,
                        mr_total = rr_total_changes result, mr_skipped = rr_skipped_count result,
                        mr_by_action = rr_changes_by_action result,
                        mr_skipped_by_reason = tally (map sk_reason (rr_skipped result))\<rparr>, rr_changes result)))))))))))"

definition change_of :: "nat \<Rightarrow> nat \<Rightarrow> nat \<Rightarrow> proposal \<Rightarrow> change_row" where
  "change_of i org run p =
     \<lparr>cg_id = i, cg_org = org, cg_run = run, cg_issue = rp_issue_id p, cg_row = rp_row p, cg_column = rp_column p,
      cg_action = rp_action p, cg_original = rp_original p, cg_proposed = rp_proposed p, cg_reason = rp_reason p,
      cg_confidence = rp_confidence p\<rparr>"

definition remediation_commit :: "remediation_run \<times> proposal list \<Rightarrow> pipeline \<Rightarrow> (handler_error + nat) \<times> pipeline" where
  "remediation_commit p s =
     (let (run, ps) = p; rid = pl_supply s in
      case filter (\<lambda>r. mr_task_run r = mr_task_run run) (pl_remediations s) of
        [] \<Rightarrow> (Inr rid,
               s\<lparr>pl_supply := rid + 1 + length ps, pl_remediations := pl_remediations s @ [run\<lparr>mr_id := rid\<rparr>],
                 pl_changes := pl_changes s @ map (\<lambda>(i, q). change_of i (mr_org run) rid q) (enum_from (Suc rid) ps)\<rparr>)
      | [r] \<Rightarrow> (Inr (mr_id r), s)
      | _ \<Rightarrow> (Inl MultipleRows, s))"

definition remediation_execute :: "'d handler_env \<Rightarrow> exec_context \<Rightarrow> pipeline \<Rightarrow> (handler_error + nat) \<times> pipeline" where
  "remediation_execute env cx s =
     (case remediation_prepare env cx s of
        Inl e \<Rightarrow> (Inl e, s)
      | Inr (Inl rid) \<Rightarrow> (Inr rid, s)
      | Inr (Inr p) \<Rightarrow> remediation_commit p s)"

end
