(* ===== verification/StandardizeEngine.thy ===== *)
theory StandardizeEngine
  imports StandardizeRules
begin

text \<open>
  \<open>app.standardization.classification\<close> and \<open>app.standardization.engine\<close>.
\<close>

section \<open>Classification\<close>

datatype field_type =
    PersonName | CompanyName | Email | Phone | PostalAddress | City | StateProvince | Country
  | PostalCode | Date | Time | Boolean | Numeric | Currency

definition HEADER_PATTERNS :: "(field_type \<times> string list) list" where
  "HEADER_PATTERNS =
     [(Email, [''email'', ''e-mail'', ''e_mail'', ''emailaddress'']),
      (Phone, [''phone'', ''telephone'', ''tel'', ''mobile'', ''cell'', ''fax'']),
      (PersonName, [''firstname'', ''first_name'', ''lastname'', ''last_name'', ''fullname'',
                    ''full_name'', ''contactname'', ''contact_name'']),
      (CompanyName, [''company'', ''companyname'', ''company_name'', ''organization'', ''org_name'',
                     ''employer'', ''business_name'']),
      (PostalAddress, [''address'', ''street'', ''addressline'', ''address_line'', ''street_address'']),
      (City, [''city'', ''town'']),
      (StateProvince, [''state'', ''province'', ''state_province'', ''region'']),
      (Country, [''country'', ''nation'']),
      (PostalCode, [''zip'', ''zipcode'', ''zip_code'', ''postal'', ''postalcode'', ''postal_code'']),
      (Date, [''date'', ''dob'', ''birthdate'', ''birth_date'']),
      (Time, [''time'']),
      (Boolean, [''isactive'', ''is_active'', ''active'', ''enabled'', ''flag'']),
      (Numeric, [''amount'', ''quantity'', ''qty'', ''count'', ''number'', ''num'']),
      (Currency, [''price'', ''cost'', ''salary'', ''revenue'', ''currency''])]"

definition drop_separators :: "string \<Rightarrow> string" where
  "drop_separators s = replace_char CHR ''_'' [] (replace_char CHR ''-'' [] s)"

definition normalize_header :: "string \<Rightarrow> string" where
  "normalize_header header = drop_separators (sub_ws [] (lower (strip header)))"

fun first_match :: "string \<Rightarrow> (field_type \<times> string list) list \<Rightarrow> field_type option" where
  "first_match h [] = None"
| "first_match h ((ft, patterns) # rest) =
     (if list_ex (\<lambda>p. contains (drop_separators p) h) patterns then Some ft else first_match h rest)"

definition classify_column :: "(string \<Rightarrow> field_type option) \<Rightarrow> string \<Rightarrow> field_type option" where
  "classify_column overrides header =
     (case overrides (lower (strip header)) of
        Some ft \<Rightarrow> Some ft
      | None \<Rightarrow> if normalize_header header = [] then None
                else first_match (normalize_header header) HEADER_PATTERNS)"

definition classify_columns :: "(string \<Rightarrow> field_type option) \<Rightarrow> string list \<Rightarrow> field_type option list" where
  "classify_columns overrides hs = map (classify_column overrides) hs"

section \<open>Configuration and results\<close>

record std_config =
  default_country :: "string option"
  default_currency :: "string option"
  date_output_format :: "string option"
  boolean_output_form :: "(string \<times> string) option"
  numeric_locale :: "string option"

record lookup_tables =
  scoped :: "field_type \<Rightarrow> lookup"
  global_lookup :: lookup

fun rule_confidence :: "rule_name \<Rightarrow> rat" where
  "rule_confidence TrimWhitespace = 1"
| "rule_confidence NormalizeBlank = fl (9 / 10)"
| "rule_confidence CoerceInteger = fl (85 / 100)"
| "rule_confidence CoerceDecimal = fl (8 / 10)"
| "rule_confidence CoerceBoolean = fl (9 / 10)"
| "rule_confidence NormalizeDateFormat = fl (7 / 10)"
| "rule_confidence TitleCase = fl (95 / 100)"
| "rule_confidence UpperCase = 1"
| "rule_confidence LowerCase = 1"
| "rule_confidence CompanySuffixLookup = fl (9 / 10)"
| "rule_confidence PhoneE164 = fl (85 / 100)"
| "rule_confidence AddressAbbreviation = fl (85 / 100)"
| "rule_confidence StateProvinceAbbreviation = fl (9 / 10)"
| "rule_confidence CountryIsoNormalize = fl (9 / 10)"
| "rule_confidence PostalCodeFormat = fl (9 / 10)"
| "rule_confidence DateFormatNormalize = fl (7 / 10)"
| "rule_confidence TimeFormatNormalize = fl (75 / 100)"
| "rule_confidence BooleanFormatNormalize = fl (95 / 100)"
| "rule_confidence NumericFormatNormalize = fl (85 / 100)"
| "rule_confidence CurrencyFormatNormalize = fl (8 / 10)"
| "rule_confidence AbbreviationLookup = fl (85 / 100)"

definition STANDARDIZATION_ENGINE_VERSION :: string where
  "STANDARDIZATION_ENGINE_VERSION = ''1.0''"

record change =
  ch_row :: nat
  ch_column :: string
  ch_field_type :: field_type
  ch_original :: string
  ch_new :: string
  ch_rule :: rule_name
  ch_version :: string
  ch_confidence :: rat

record std_result =
  standardized_rows :: "string list list"
  std_changes :: "change list"
  std_total_changes :: nat
  std_changes_by_rule :: "rule_name tally"
  std_confidence :: rat

section \<open>One cell\<close>

text \<open>A step is what \<open>_record\<close> is called with; it keeps the step if a rule is named and the text changed.\<close>

type_synonym step = "string \<times> string \<times> rule_name option"

definition std_field ::
  "'d oracles \<Rightarrow> lookup_tables \<Rightarrow> std_config \<Rightarrow> string option \<Rightarrow> field_type \<Rightarrow> string \<Rightarrow> ruled"
where
  "std_field env tables cfg row_country ft value =
     (case ft of
        PersonName \<Rightarrow> standardize_person_name value
      | CompanyName \<Rightarrow> standardize_company_name (scoped tables CompanyName) value
      | Email \<Rightarrow> standardize_email value
      | Phone \<Rightarrow> standardize_phone env row_country value
      | City \<Rightarrow> standardize_city value
      | StateProvince \<Rightarrow> standardize_state_province row_country value
      | PostalCode \<Rightarrow> standardize_postal_code row_country value
      | Date \<Rightarrow> standardize_date env (date_output_format cfg) value
      | Time \<Rightarrow> standardize_time env value
      | Boolean \<Rightarrow> standardize_boolean (boolean_output_form cfg) value
      | Numeric \<Rightarrow> standardize_numeric (numeric_locale cfg) value
      | Currency \<Rightarrow> standardize_currency (default_currency cfg) (numeric_locale cfg) value
      | _ \<Rightarrow> (value, None))"

definition GENERIC_ABBREVIATION_FIELD_TYPES :: "field_type list" where
  "GENERIC_ABBREVIATION_FIELD_TYPES = [PersonName, CompanyName, City, StateProvince, Country]"

definition address_lookup :: "lookup_tables \<Rightarrow> lookup" where
  "address_lookup tables = DEFAULT_ADDRESS_ABBREVIATIONS ++ scoped tables PostalAddress"

text \<open>Applying a list of rules one after the other, keeping every step.\<close>

fun run_rules :: "(string \<Rightarrow> ruled) list \<Rightarrow> string \<Rightarrow> string \<times> step list" where
  "run_rules [] v = (v, [])"
| "run_rules (f # fs) v =
     (let (w, r) = f v; (x, steps) = run_rules fs w in (x, (v, w, r) # steps))"

definition cell_rules ::
  "'d oracles \<Rightarrow> lookup_tables \<Rightarrow> std_config \<Rightarrow> string option \<Rightarrow> field_type \<Rightarrow> (string \<Rightarrow> ruled) list"
where
  "cell_rules env tables cfg row_country ft =
     (if ft = PostalAddress
      then [trim_whitespace, expand_address_abbreviations (address_lookup tables), title_case_step]
      else trim_whitespace # std_field env tables cfg row_country ft #
           (if ft \<in> set GENERIC_ABBREVIATION_FIELD_TYPES
            then [apply_generic_abbreviation_lookup (global_lookup tables)] else []))"

definition country_rules :: "lookup_tables \<Rightarrow> (string \<Rightarrow> ruled) list" where
  "country_rules tables = [trim_whitespace, standardize_country (scoped tables Country)]"

definition changes_of_steps :: "nat \<Rightarrow> string \<Rightarrow> field_type \<Rightarrow> step list \<Rightarrow> change list" where
  "changes_of_steps i column ft steps =
     map (\<lambda>(old, new, r). \<lparr>ch_row = i, ch_column = column, ch_field_type = ft,
            ch_original = old, ch_new = new, ch_rule = the r,
            ch_version = STANDARDIZATION_ENGINE_VERSION, ch_confidence = rule_confidence (the r)\<rparr>)
       (filter (\<lambda>(old, new, r). r \<noteq> None \<and> old \<noteq> new) steps)"

section \<open>One row, one file\<close>

definition country_column :: "field_type option list \<Rightarrow> nat option" where
  "country_column fts = map_option fst (find (\<lambda>(i, ft). ft = Some Country) (enum fts))"

definition row_country ::
  "lookup_tables \<Rightarrow> std_config \<Rightarrow> field_type option list \<Rightarrow> string list \<Rightarrow> string option"
where
  "row_country tables cfg fts row =
     (case country_column fts of
        None \<Rightarrow> default_country cfg
      | Some c \<Rightarrow>
          (case resolve_country_code (scoped tables Country)
                  (fst (run_rules (country_rules tables) (row ! c))) of
             Some cc \<Rightarrow> Some cc | None \<Rightarrow> default_country cfg))"

text \<open>The rules applied to column \<open>j\<close>: none if it is unclassified.\<close>

definition column_pipeline ::
  "'d oracles \<Rightarrow> lookup_tables \<Rightarrow> std_config \<Rightarrow> field_type option list \<Rightarrow> string list \<Rightarrow> nat \<Rightarrow>
     (string \<Rightarrow> ruled) list"
where
  "column_pipeline env tables cfg fts row j =
     (if country_column fts = Some j then country_rules tables
      else case fts ! j of
             None \<Rightarrow> []
           | Some ft \<Rightarrow> cell_rules env tables cfg (row_country tables cfg fts row) ft)"

definition std_row ::
  "'d oracles \<Rightarrow> lookup_tables \<Rightarrow> std_config \<Rightarrow> field_type option list \<Rightarrow> string list \<Rightarrow> string list"
where
  "std_row env tables cfg fts row =
     map (\<lambda>(j, v). fst (run_rules (column_pipeline env tables cfg fts row j) v)) (enum row)"

text \<open>The country column is processed first, the others in order.\<close>

definition column_order :: "field_type option list \<Rightarrow> string list \<Rightarrow> nat list" where
  "column_order fts row =
     (case country_column fts of
        None \<Rightarrow> [0 ..< length row]
      | Some c \<Rightarrow> c # filter (\<lambda>j. j \<noteq> c) [0 ..< length row])"

definition row_changes ::
  "'d oracles \<Rightarrow> lookup_tables \<Rightarrow> std_config \<Rightarrow> string list \<Rightarrow> field_type option list \<Rightarrow>
     nat \<Rightarrow> string list \<Rightarrow> change list"
where
  "row_changes env tables cfg hs fts i row =
     concat (map (\<lambda>j. changes_of_steps i (hs ! j) (the (fts ! j))
                        (snd (run_rules (column_pipeline env tables cfg fts row j) (row ! j))))
       (column_order fts row))"

definition standardize ::
  "'d oracles \<Rightarrow> string list list \<Rightarrow> string list \<Rightarrow> field_type option list \<Rightarrow> lookup_tables \<Rightarrow>
     std_config \<Rightarrow> nat \<Rightarrow> std_result"
where
  "standardize env rows hs fts tables cfg max_persisted =
     (let changes = concat (map (\<lambda>(i, row). row_changes env tables cfg hs fts i row) (enum rows))
      in \<lparr>standardized_rows = map (std_row env tables cfg fts) rows,
          std_changes = take max_persisted changes,
          std_total_changes = length changes,
          std_changes_by_rule = tally (map ch_rule changes),
          std_confidence = min_default 1 (map ch_confidence changes)\<rparr>)"

section \<open>Running rules\<close>

definition rules_ok :: "(string \<Rightarrow> ruled) list \<Rightarrow> bool" where
  "rules_ok fs \<longleftrightarrow> list_all value_rule fs"

lemma std_field_value_rule: "value_rule (std_field env tables cfg c ft)"
proof -
  have keep: "value_rule (\<lambda>v. (v, None))" by unfold_locales auto
  have eqs: "std_field env tables cfg c PersonName = title_case_step"
    "std_field env tables cfg c City = title_case_step"
    by (simp_all add: fun_eq_iff std_field_def standardize_person_name_def standardize_city_def)
  show ?thesis
    using keep eqs title.value_rule_axioms company.value_rule_axioms email.value_rule_axioms
      phone.value_rule_axioms state_province.value_rule_axioms postal.value_rule_axioms
      date.value_rule_axioms time.value_rule_axioms boolean_form.value_rule_axioms
      numeric.value_rule_axioms currency.value_rule_axioms
    by (cases ft) (simp_all add: std_field_def[abs_def])
qed

lemma pipeline_ok: "rules_ok (column_pipeline env tables cfg fts row j)"
  using std_field_value_rule trim.value_rule_axioms address.value_rule_axioms
    title.value_rule_axioms generic.value_rule_axioms country.value_rule_axioms
  by (auto simp: rules_ok_def column_pipeline_def cell_rules_def country_rules_def split: option.splits)

text \<open>The recorded steps chain from the input to the output.\<close>

fun chained :: "string \<Rightarrow> (string \<times> string) list \<Rightarrow> string \<Rightarrow> bool" where
  "chained v [] w \<longleftrightarrow> v = w"
| "chained v ((a, b) # steps) w \<longleftrightarrow> v = a \<and> a \<noteq> b \<and> chained b steps w"

lemma recorded_chain:
  "rules_ok fs \<Longrightarrow>
   chained v (map (\<lambda>c. (ch_original c, ch_new c)) (changes_of_steps i col ft (snd (run_rules fs v))))
     (fst (run_rules fs v))"
proof (induction fs arbitrary: v)
  case Nil
  then show ?case by (simp add: changes_of_steps_def)
next
  case (Cons f fs)
  obtain w r where w: "f v = (w, r)" by (cases "f v")
  have "r = None \<Longrightarrow> w = v"
    using Cons.prems value_rule.none_keeps[of f v w] w by (auto simp: rules_ok_def)
  moreover have "rules_ok fs" using Cons.prems by (simp add: rules_ok_def)
  ultimately show ?case
    using Cons.IH[of w] w
    by (cases "run_rules fs w"; cases r) (auto simp: changes_of_steps_def)
qed

end
