(* ===== verification/Cleaning.thy ===== *)
theory Cleaning
  imports StandardizeEngine
begin

text \<open>
  \<open>app.cleaning\<close>: the rules, the engine and its duplicate count.

  Two coercions can raise: \<open>str(int(d))\<close> of an integer with more than 4300 digits (the
  interpreter's limit), and \<open>Decimal.normalize\<close> when the rounded number overflows the default
  context.  No caller inside the package catches either, so they end the whole run; the result of
  the engine is then \<open>None\<close>.
\<close>

section \<open>Printing numbers\<close>

definition show_signed :: "bool \<Rightarrow> string \<Rightarrow> string" where
  "show_signed neg s = (if neg then CHR ''-'' # s else s)"

definition zeros :: "nat \<Rightarrow> string" where
  "zeros n = replicate n CHR ''0''"

text \<open>\<open>format(d, "f")\<close> of a finite decimal.\<close>

definition format_f :: "bool \<Rightarrow> nat \<Rightarrow> int \<Rightarrow> string" where
  "format_f neg c e =
     show_signed neg
       (if 0 \<le> e then (if c = 0 then ''0'' else show_nat c @ zeros (nat e))
        else (let k = nat (- e); ds = show_nat c;
                  padded = zeros (Suc k - length ds) @ ds
              in take (length padded - k) padded @ ''.'' @ drop (length padded - k) padded))"

section \<open>\<open>Decimal.normalize\<close> in the default context\<close>

definition round_half_even :: "nat \<Rightarrow> nat \<Rightarrow> nat" where
  "round_half_even c m =
     (let q = c div m; r = c mod m in
      if 2 * r < m then q else if 2 * r > m then Suc q else if even q then q else Suc q)"

function strip_zeros :: "nat \<Rightarrow> int \<Rightarrow> nat \<times> int" where
  "strip_zeros c e = (if c \<noteq> 0 \<and> c mod 10 = 0 then strip_zeros (c div 10) (e + 1) else (c, e))"
  by pat_completeness auto
termination
  by (relation "measure fst") auto

declare strip_zeros.simps [simp del]

text \<open>Precision 28, half to even, exponents between -999999 and 999999; \<open>Overflow\<close> is trapped.\<close>

definition normalize_decimal :: "nat \<Rightarrow> int \<Rightarrow> (nat \<times> int) option" where
  "normalize_decimal c e =
     (if c = 0 then Some (0, 0)
      else (let k = max (int (count_digits c) - 28) (- 1000026 - e);
                (c', e') = (if 0 < k then (round_half_even c (10 ^ nat k), e + k) else (c, e))
            in if c' = 0 then Some (0, 0)
               else if e' + int (count_digits c') - 1 > 999999 then None
               else Some (strip_zeros c' e')))"

section \<open>Rules\<close>

definition BLANK_EQUIVALENTS :: "string list" where
  "BLANK_EQUIVALENTS = [''null'', ''n/a'', ''na'', ''-'', ''none'']"

definition normalize_blank :: "string \<Rightarrow> ruled" where
  "normalize_blank value =
     (if value = [] then (value, None)
      else if casefold value \<in> set BLANK_EQUIVALENTS then ([], Some NormalizeBlank)
      else (value, None))"

text \<open>\<open>[+-]?\d+\<close> against the whole string.\<close>

definition integer_shape :: "string \<Rightarrow> bool" where
  "integer_shape s = isdigit (snd (split_sign s))"

definition MAX_STR_DIGITS :: nat where
  "MAX_STR_DIGITS = 4300"

definition is_integral :: "nat \<Rightarrow> int \<Rightarrow> bool" where
  "is_integral c e \<longleftrightarrow> c = 0 \<or> 0 \<le> e \<or> (- e < int (count_digits c) \<and> c mod 10 ^ nat (- e) = 0)"

text \<open>\<open>str(int(d))\<close> of an integral decimal.\<close>

definition show_integral :: "bool \<Rightarrow> nat \<Rightarrow> int \<Rightarrow> string option" where
  "show_integral neg c e =
     (if c = 0 then Some ''0''
      else if int (count_digits c) + e > int MAX_STR_DIGITS then None
      else Some (show_signed neg
             (show_nat (if 0 \<le> e then c * 10 ^ nat e else c div 10 ^ nat (- e)))))"

definition coerce_integer :: "string \<Rightarrow> ruled option" where
  "coerce_integer value =
     (let stripped = strip value in
      if integer_shape stripped then Some (ruled_if_changed value stripped CoerceInteger)
      else case decimal_of stripped of
             Some (Finite neg c e) \<Rightarrow>
               if is_integral c e then map_option (\<lambda>s. (s, Some CoerceInteger)) (show_integral neg c e)
               else Some (value, None)
           | _ \<Rightarrow> Some (value, None))"

definition coerce_decimal :: "string \<Rightarrow> ruled option" where
  "coerce_decimal value =
     (case decimal_of (strip value) of
        Some (Finite neg c e) \<Rightarrow>
          map_option (\<lambda>(c', e'). ruled_if_changed value (format_f neg c' e') CoerceDecimal)
            (normalize_decimal c e)
      | _ \<Rightarrow> Some (value, None))"

definition coerce_boolean :: "string \<Rightarrow> ruled" where
  "coerce_boolean value =
     (let lowered = casefold (strip value) in
      if lowered \<in> set BOOLEAN_TRUE
      then (if value = ''true'' then (''true'', None) else (''true'', Some CoerceBoolean))
      else if lowered \<in> set BOOLEAN_FALSE
      then (if value = ''false'' then (''false'', None) else (''false'', Some CoerceBoolean))
      else (value, None))"

definition coerce_date :: "'d oracles \<Rightarrow> string \<Rightarrow> ruled" where
  "coerce_date env value =
     (case parse_iso env (strip value) of
        None \<Rightarrow> (value, None)
      | Some d \<Rightarrow> ruled_if_changed value (isoformat env d) NormalizeDateFormat)"

definition coerce_type :: "'d oracles \<Rightarrow> string \<Rightarrow> string \<Rightarrow> ruled option" where
  "coerce_type env inferred_type value =
     (if value = [] then Some (value, None)
      else if inferred_type = ''integer'' then coerce_integer value
      else if inferred_type = ''decimal'' then coerce_decimal value
      else if inferred_type = ''boolean'' then Some (coerce_boolean value)
      else if inferred_type = ''date'' \<or> inferred_type = ''datetime'' then Some (coerce_date env value)
      else Some (value, None))"

section \<open>Engine\<close>

record cleaning_change =
  cl_row :: nat
  cl_column :: string
  cl_original :: string
  cl_cleaned :: string
  cl_rule :: rule_name
  cl_confidence :: rat

record cleaning_result =
  cleaned_rows :: "string list list"
  cl_changes :: "cleaning_change list"
  cl_total_changes :: nat
  cl_changes_by_rule :: "rule_name tally"
  cl_duplicate_rows :: nat
  cl_confidence_score :: rat

definition cleaning_steps :: "nat \<Rightarrow> string \<Rightarrow> step list \<Rightarrow> cleaning_change list" where
  "cleaning_steps i column steps =
     map (\<lambda>(old, new, r). \<lparr>cl_row = i, cl_column = column, cl_original = old,
            cl_cleaned = new, cl_rule = the r, cl_confidence = rule_confidence (the r)\<rparr>)
       (filter (\<lambda>(old, new, r). r \<noteq> None \<and> old \<noteq> new) steps)"

text \<open>One cell: the cleaned text and the changes recorded for it.\<close>

definition clean_cell ::
  "'d oracles \<Rightarrow> nat \<Rightarrow> string \<Rightarrow> string \<Rightarrow> string \<Rightarrow> (string \<times> cleaning_change list) option"
where
  "clean_cell env i column ty raw =
     (let (trimmed, r1) = trim_whitespace raw; (value, r2) = normalize_blank trimmed in
      map_option (\<lambda>(w, r3). (w, cleaning_steps i column [(raw, trimmed, r1), (trimmed, value, r2), (value, w, r3)]))
        (coerce_type env ty value))"

definition clean_row ::
  "'d oracles \<Rightarrow> string list \<Rightarrow> string list \<Rightarrow> nat \<Rightarrow> string list \<Rightarrow> (string list \<times> cleaning_change list) option"
where
  "clean_row env hs types i row =
     map_option (\<lambda>cs. (map fst cs, concat (map snd cs)))
       (those (map (\<lambda>(j, v). clean_cell env i (hs ! j) (types ! j) v) (enum row)))"

text \<open>Rows equal to an earlier one, counted with the set of rows seen.\<close>

fun count_duplicates :: "string list list \<Rightarrow> string list list \<Rightarrow> nat" where
  "count_duplicates seen [] = 0"
| "count_duplicates seen (row # rows) =
     (if row \<in> set seen then Suc (count_duplicates seen rows) else count_duplicates (row # seen) rows)"

definition clean ::
  "'d oracles \<Rightarrow> string list list \<Rightarrow> string list \<Rightarrow> string list \<Rightarrow> nat \<Rightarrow> cleaning_result option"
where
  "clean env rows hs types max_persisted =
     map_option (\<lambda>rs.
         (let cleaned = map fst rs; changes = concat (map snd rs)
          in \<lparr>cleaned_rows = cleaned, cl_changes = take max_persisted changes,
              cl_total_changes = length changes, cl_changes_by_rule = tally (map cl_rule changes),
              cl_duplicate_rows = count_duplicates [] cleaned,
              cl_confidence_score = min_default 1 (map cl_confidence changes)\<rparr>))
       (those (map (\<lambda>(i, row). clean_row env hs types i row) (enum rows)))"

end
