(* ===== verification/Profiling.thy ===== *)
theory Profiling
  imports Cleaning Csv
begin

text \<open>
  \<open>app.profiling.csv_profiler\<close>: the type of a value, the type of a column, and the profile of a loaded
  file.

  Rows have the width of the header, as \<open>load_csv\<close> and \<open>clean\<close> leave them.  \<open>fromisoformat\<close> is a
  parameter; \<open>casefold\<close> is exact on ASCII.  The file's name, size, digest, encoding and delimiter,
  which the profile copies, and \<open>limits_applied\<close> are not carried.
\<close>

section \<open>Types of values\<close>

definition BOOLEAN_VALUES :: "string list" where
  "BOOLEAN_VALUES = [''true'', ''false'', ''yes'', ''no'', ''y'', ''n'']"

definition TYPE_PRIORITY :: "string list" where
  "TYPE_PRIORITY = [''boolean'', ''integer'', ''decimal'', ''datetime'', ''date'', ''string'']"

definition matches_integer :: "string \<Rightarrow> bool" where
  "matches_integer s =
     (case s of [] \<Rightarrow> False | c # t \<Rightarrow> if c = CHR ''+'' \<or> c = CHR ''-'' then isdigit t else isdigit s)"

definition value_type :: "'d oracles \<Rightarrow> string \<Rightarrow> string" where
  "value_type env v =
     (let stripped = strip v in
      if stripped = [] then ''null''
      else if casefold stripped \<in> set BOOLEAN_VALUES then ''boolean''
      else if matches_integer stripped then ''integer''
      else if decimal_of stripped \<noteq> None then ''decimal''
      else if datetime_fromisoformat env (replace_char CHR ''Z'' ''+00:00'' stripped) \<noteq> None
              \<and> (contains ''T'' stripped \<or> contains '' '' stripped) then ''datetime''
      else if date_fromisoformat env stripped = None then ''string''
      else ''date'')"

section \<open>The type of a column\<close>

definition priority :: "string \<Rightarrow> nat" where
  "priority ty = length (takeWhile (\<lambda>x. x \<noteq> ty) TYPE_PRIORITY)"

text \<open>The reported type, and the dominant one for the inconsistency count.\<close>

definition dominant_type :: "string tally \<Rightarrow> string \<times> string option" where
  "dominant_type type_counts =
     (case sort_key (\<lambda>(ty, n). (- int n, priority ty)) type_counts of
        [] \<Rightarrow> (''null'', None)
      | (dominant, count) # rest \<Rightarrow>
          (let total = sum_list (map snd type_counts);
               tied = (case rest of [] \<Rightarrow> False | (ty, n) # others \<Rightarrow> n = count)
           in if tied \<or> fl (of_nat count / of_nat total) < fl (8 / 10) then (''mixed'', Some dominant)
              else (dominant, Some dominant)))"

section \<open>Bounded lists\<close>

fun bounded_unique_loop :: "nat \<Rightarrow> string list \<Rightarrow> string list \<Rightarrow> string list" where
  "bounded_unique_loop limit retained [] = retained"
| "bounded_unique_loop limit retained (v # vs) =
     (if v \<in> set retained then bounded_unique_loop limit retained vs
      else if limit \<le> length (retained @ [v]) then retained @ [v]
      else bounded_unique_loop limit (retained @ [v]) vs)"

definition bounded_unique :: "string list \<Rightarrow> nat \<Rightarrow> string list" where
  "bounded_unique values limit = bounded_unique_loop limit [] values"

section \<open>Profiles\<close>

record column_profile =
  cp_name :: string
  cp_position :: nat
  cp_inferred_type :: string
  cp_non_null :: nat
  cp_missing :: nat
  cp_missing_percentage :: rat
  cp_distinct :: nat
  cp_samples :: "string list"
  cp_retained :: "string list"
  cp_truncated :: bool
  cp_inconsistent :: nat
  cp_type_counts :: "string tally"

datatype profile_issue =
    Structural structural_issue
  | InconsistentColumnType nat string string "string option" nat

record profile_result =
  pr_row_count :: nat
  pr_column_count :: nat
  pr_duplicates :: nat
  pr_missing :: nat
  pr_columns :: "column_profile list"
  pr_issues :: "profile_issue list"

definition column_values :: "string list list \<Rightarrow> nat \<Rightarrow> string list" where
  "column_values rows j = map (\<lambda>row. strip (row ! j)) rows"

definition inconsistent_count :: "string tally \<Rightarrow> nat \<Rightarrow> nat" where
  "inconsistent_count type_counts non_null =
     (case dominant_type type_counts of (inferred, dominant) \<Rightarrow>
        if inferred = ''mixed'' then non_null
        else case dominant of
               None \<Rightarrow> 0
             | Some d \<Rightarrow> sum_list (map snd (filter (\<lambda>(ty, n). ty \<noteq> d) type_counts)))"

definition missing_percentage :: "nat \<Rightarrow> nat \<Rightarrow> rat" where
  "missing_percentage missing row_count =
     (if row_count = 0 then 0 else py_round (fl (fl (of_nat missing / of_nat row_count) * 100)) 4)"

definition profile_column :: "'d oracles \<Rightarrow> csv_limits \<Rightarrow> string list list \<Rightarrow> nat \<times> string \<Rightarrow> column_profile" where
  "profile_column env limits rows x =
     (case x of (j, name) \<Rightarrow>
        let non_null = filter (\<lambda>v. v \<noteq> []) (column_values rows j);
            counts = tally (map (value_type env) non_null);
            missing = length rows - length non_null;
            distinct_count = card (set non_null);
            retained = bounded_unique non_null (max_distinct_values limits)
        in \<lparr>cp_name = name, cp_position = j, cp_inferred_type = fst (dominant_type counts),
            cp_non_null = length non_null, cp_missing = missing,
            cp_missing_percentage = missing_percentage missing (length rows),
            cp_distinct = distinct_count, cp_samples = bounded_unique non_null (max_sample_values limits),
            cp_retained = retained, cp_truncated = (length retained < distinct_count),
            cp_inconsistent = inconsistent_count counts (length non_null),
            cp_type_counts = sort_key fst counts\<rparr>)"

definition column_issue :: "'d oracles \<Rightarrow> string list list \<Rightarrow> nat \<times> string \<Rightarrow> profile_issue list" where
  "column_issue env rows x =
     (case x of (j, name) \<Rightarrow>
        let non_null = filter (\<lambda>v. v \<noteq> []) (column_values rows j);
            counts = tally (map (value_type env) non_null);
            n = inconsistent_count counts (length non_null)
        in if n = 0 then []
           else [InconsistentColumnType j name (fst (dominant_type counts)) (snd (dominant_type counts)) n])"

definition profile_csv :: "'d oracles \<Rightarrow> csv_limits \<Rightarrow> string list \<Rightarrow> string list list \<Rightarrow> structural_issue list \<Rightarrow> profile_result" where
  "profile_csv env limits hs rows issues =
     (let columns = map (profile_column env limits rows) (enum hs)
      in \<lparr>pr_row_count = length rows, pr_column_count = length hs,
          pr_duplicates = length rows - card (set (map (map strip) rows)),
          pr_missing = sum_list (map cp_missing columns), pr_columns = columns,
          pr_issues = map Structural issues @ concat (map (column_issue env rows) (enum hs))\<rparr>)"

end
