(* ===== verification/UnionFind.thy ===== *)
theory UnionFind
  imports Collections
begin

text \<open>
  \<open>app.matching.clustering.UnionFind\<close>: union by rank with path compression.

  The two loops of \<open>find\<close> end only on a well-formed parent array, so they are partial functions;
  that they return is part of what is proved.  The contract of a disjoint-set structure is a
  locale, whose client lemma says what a sequence of unions connects.
\<close>

section \<open>The contract\<close>

locale disjoint_sets =
  fixes good :: "'u \<Rightarrow> bool" and dom_size :: "'u \<Rightarrow> nat" and same :: "'u \<Rightarrow> nat \<Rightarrow> nat \<Rightarrow> bool"
    and union :: "'u \<Rightarrow> nat \<Rightarrow> nat \<Rightarrow> 'u option"
  assumes same_refl: "good u \<Longrightarrow> x < dom_size u \<Longrightarrow> same u x x"
    and same_sym: "good u \<Longrightarrow> same u x y \<Longrightarrow> same u y x"
    and same_trans: "good u \<Longrightarrow> same u x y \<Longrightarrow> same u y z \<Longrightarrow> same u x z"
    and same_dom: "good u \<Longrightarrow> same u x y \<Longrightarrow> x < dom_size u"
    and union_ok: "good u \<Longrightarrow> a < dom_size u \<Longrightarrow> b < dom_size u \<Longrightarrow>
      \<exists>u'. union u a b = Some u' \<and> good u' \<and> dom_size u' = dom_size u
         \<and> (\<forall>x y. same u' x y \<longleftrightarrow> same u x y \<or> (same u x a \<and> same u b y) \<or> (same u x b \<and> same u a y))"
begin

text \<open>The edges of a graph, both ways.\<close>

definition linked :: "(nat \<times> nat) list \<Rightarrow> (nat \<times> nat) set" where
  "linked es = (set es \<union> (set es)\<inverse>)\<^sup>*"

lemma linked_mono: "linked es \<subseteq> linked (es @ fs)"
  unfolding linked_def by (intro rtrancl_mono) auto

lemma linked_sym: "(x, y) \<in> linked es \<Longrightarrow> (y, x) \<in> linked es"
  unfolding linked_def by (metis (no_types, lifting) converse_Un converse_converse rtrancl_converseI sup_commute)

lemma linked_trans: "(x, y) \<in> linked es \<Longrightarrow> (y, z) \<in> linked es \<Longrightarrow> (x, z) \<in> linked es"
  unfolding linked_def by (rule rtrancl_trans)

lemma linked_edge: "(x, y) \<in> set es \<Longrightarrow> (x, y) \<in> linked es"
  unfolding linked_def by blast

definition represents :: "'u \<Rightarrow> 'u \<Rightarrow> (nat \<times> nat) list \<Rightarrow> bool" where
  "represents u0 u es \<longleftrightarrow> good u \<and> dom_size u = dom_size u0 \<and>
     (\<forall>x y. same u x y \<longrightarrow> (x, y) \<in> linked es) \<and> (\<forall>(x, y) \<in> set es. same u x y)"

lemma represents_union:
  assumes "represents u0 u es" "a < dom_size u0" "b < dom_size u0"
  shows "\<exists>u'. union u a b = Some u' \<and> represents u0 u' (es @ [(a, b)])"
proof -
  have u: "good u" "dom_size u = dom_size u0" using assms(1) by (auto simp: represents_def)
  then obtain u' where u': "union u a b = Some u'" "good u'" "dom_size u' = dom_size u"
      "\<And>x y. same u' x y \<longleftrightarrow> same u x y \<or> (same u x a \<and> same u b y) \<or> (same u x b \<and> same u a y)"
    using union_ok[OF u(1), of a b] assms(2,3) by auto
  have old: "(x, y) \<in> linked (es @ [(a, b)])" if "same u x y" for x y
    using assms(1) that linked_mono[of es "[(a, b)]"] by (auto simp: represents_def)
  have new: "(a, b) \<in> linked (es @ [(a, b)])" "(b, a) \<in> linked (es @ [(a, b)])"
    using linked_edge[of a b "es @ [(a, b)]"] linked_sym by auto
  have "(x, y) \<in> linked (es @ [(a, b)])" if s: "same u' x y" for x y
  proof -
    consider "same u x y" | "same u x a" "same u b y" | "same u x b" "same u a y" using s u'(4) by blast
    then show ?thesis using old linked_trans[OF linked_trans[OF old new(1)] old]
        linked_trans[OF linked_trans[OF old new(2)] old] by cases simp_all
  qed
  moreover have "same u' x y" if "(x, y) \<in> set (es @ [(a, b)])" for x y
    using that assms u u'(4) same_refl by (auto simp: represents_def)
  ultimately show ?thesis using u'(1-3) u(2) by (auto simp: represents_def)
qed

lemma represents_linked:
  assumes "represents u0 u es" "x < dom_size u0"
  shows "same u x y \<longleftrightarrow> (x, y) \<in> linked es"
proof
  assume "(x, y) \<in> linked es"
  then have "(x, y) \<in> (set es \<union> (set es)\<inverse>)\<^sup>*" by (simp add: linked_def)
  then show "same u x y"
  proof (induction rule: rtrancl_induct)
    case (step y z)
    then have "same u y z" using assms(1) same_sym by (auto simp: represents_def)
    then show ?case using step.IH assms(1) same_trans by (auto simp: represents_def)
  qed (use assms same_refl in \<open>auto simp: represents_def\<close>)
qed (use assms(1) in \<open>auto simp: represents_def\<close>)

end

section \<open>The structure\<close>

record union_find =
  parent :: "nat list"
  rank :: "nat list"

definition new_union_find :: "nat \<Rightarrow> union_find" where
  "new_union_find n = \<lparr>parent = [0 ..< n], rank = replicate n 0\<rparr>"

partial_function (option) find_root :: "nat list \<Rightarrow> nat \<Rightarrow> nat option" where
  "find_root p x = (if p ! x = x then Some x else find_root p (p ! x))"

partial_function (option) compress :: "nat \<Rightarrow> nat list \<Rightarrow> nat \<Rightarrow> nat list option" where
  "compress root p x = (if p ! x = root then Some p else compress root (p[x := root]) (p ! x))"

declare find_root.simps [code] compress.simps [code]

definition uf_find :: "nat \<Rightarrow> union_find \<Rightarrow> (nat \<times> union_find) option" where
  "uf_find x u =
     (case find_root (parent u) x of
        None \<Rightarrow> None
      | Some root \<Rightarrow> map_option (\<lambda>p. (root, u\<lparr>parent := p\<rparr>)) (compress root (parent u) x))"

text \<open>Linking two different roots: the smaller rank goes below.\<close>

definition link :: "nat \<Rightarrow> nat \<Rightarrow> union_find \<Rightarrow> union_find" where
  "link ra rb u =
     (let (ra, rb) = (if rank u ! ra < rank u ! rb then (rb, ra) else (ra, rb));
          u' = u\<lparr>parent := (parent u)[rb := ra]\<rparr>
      in if rank u' ! ra = rank u' ! rb then u'\<lparr>rank := (rank u')[ra := Suc (rank u' ! ra)]\<rparr> else u')"

definition uf_union :: "union_find \<Rightarrow> nat \<Rightarrow> nat \<Rightarrow> union_find option" where
  "uf_union u a b =
     (case uf_find a u of None \<Rightarrow> None
      | Some (ra, u1) \<Rightarrow>
          (case uf_find b u1 of None \<Rightarrow> None
           | Some (rb, u2) \<Rightarrow> Some (if ra = rb then u2 else link ra rb u2)))"

definition uf_components :: "union_find \<Rightarrow> ((nat, nat) groups \<times> union_find) option" where
  "uf_components u =
     map_option (\<lambda>(roots, u'). (group_pairs (zip roots [0 ..< length (parent u)]), u'))
       (mapM uf_find [0 ..< length (parent u)] u)"

section \<open>Well-formed arrays\<close>

text \<open>Ranks grow along parent links; that is what makes every walk to the root end.\<close>

definition forest :: "nat list \<Rightarrow> nat list \<Rightarrow> bool" where
  "forest p r \<longleftrightarrow> length r = length p \<and>
     (\<forall>i < length p. p ! i < length p \<and> (p ! i = i \<or> r ! i < r ! (p ! i)))"

lemma forestD: "forest p r \<Longrightarrow> i < length p \<Longrightarrow> p ! i < length p \<and> (p ! i = i \<or> r ! i < r ! (p ! i))"
  by (simp add: forest_def)

lemma forest_induct [consumes 2, case_names step]:
  assumes "forest p r" "x < length p"
    and "\<And>x. x < length p \<Longrightarrow> (p ! x \<noteq> x \<Longrightarrow> P (p ! x)) \<Longrightarrow> P x"
  shows "P x"
proof -
  have bound: "r ! i \<le> Max (set r)" if "i < length p" for i
    using assms(1) that by (intro Max_ge) (auto simp: forest_def)
  show ?thesis using assms(2)
  proof (induction "Max (set r) - r ! x" arbitrary: x rule: less_induct)
    case less
    show ?case
    proof (rule assms(3)[OF less.prems])
      assume n: "p ! x \<noteq> x"
      have d: "p ! x < length p" "r ! x < r ! (p ! x)" using forestD[OF assms(1) less.prems] n by auto
      then show "P (p ! x)" using bound[OF d(1)] by (intro less.hyps) auto
    qed
  qed
qed

lemma find_root_step: "p ! x \<noteq> x \<Longrightarrow> find_root p x = find_root p (p ! x)"
  by (subst find_root.simps) simp

lemma find_root_top: "p ! x = x \<Longrightarrow> find_root p x = Some x"
  by (subst find_root.simps) simp

lemma find_root_ok:
  assumes "forest p r" "x < length p"
  shows "\<exists>y. find_root p x = Some y \<and> y < length p \<and> p ! y = y \<and> (x = y \<or> r ! x < r ! y)"
  using assms
proof (induction rule: forest_induct)
  case (step x)
  show ?case
  proof (cases "p ! x = x")
    case True
    then show ?thesis using step(1) find_root_top by auto
  next
    case False
    then show ?thesis using step forestD[OF assms(1) step(1)] find_root_step[OF False] by fastforce
  qed
qed

text \<open>Pointing an element straight at its root changes no root.\<close>

lemma forest_shortcut:
  assumes f: "forest p r" and x: "x < length p" and root: "find_root p x = Some y"
  shows "forest (p[x := y]) r" and "z < length p \<Longrightarrow> find_root (p[x := y]) z = find_root p z"
proof -
  have y: "y < length p" "p ! y = y" "x = y \<or> r ! x < r ! y" using find_root_ok[OF f x] root by auto
  show "forest (p[x := y]) r"
    using f x y by (auto simp: forest_def nth_list_update)
  have yy: "find_root (p[x := y]) y = Some y" using y x by (intro find_root_top) (auto simp: nth_list_update)
  show "find_root (p[x := y]) z = find_root p z" if "z < length p"
    using f that
  proof (induction rule: forest_induct)
    case (step z)
    show ?case
    proof (cases "z = x")
      case True
      then show ?thesis
        using yy root x find_root_step[of "p[x := y]" x] by (cases "x = y") auto
    next
      case False
      then show ?thesis
      proof (cases "p ! z = z")
        case True
        then show ?thesis using False find_root_top[of "p[x := y]" z] find_root_top[of p z] by simp
      next
        case up: False
        then show ?thesis
          using False step find_root_step[of "p[x := y]" z] find_root_step[of p z] by simp
      qed
    qed
  qed
qed

lemma compress_ok:
  assumes "forest p r" "x < length p" "find_root p x = Some y"
  shows "\<exists>q. compress y p x = Some q \<and> forest q r \<and> length q = length p
           \<and> (\<forall>z < length p. find_root q z = find_root p z)"
proof -
  have bound: "r ! i \<le> Max (set r)" if "i < length p" "length r = length p" for i p
    using that by (intro Max_ge) auto
  show ?thesis using assms
  proof (induction "Max (set r) - r ! x" arbitrary: p x rule: less_induct)
    case less
    show ?case
    proof (cases "p ! x = y")
      case True
      then show ?thesis using less.prems by (subst compress.simps) simp
    next
      case False
      let ?p = "p[x := y]"
      have d: "p ! x < length p" using forestD[OF less.prems(1,2)] by simp
      have nx: "p ! x \<noteq> x"
        using False less.prems(3) find_root_top[of p x] by auto
      have r: "r ! x < r ! (p ! x)" using forestD[OF less.prems(1,2)] nx by simp
      have s: "forest ?p r" "\<And>z. z < length p \<Longrightarrow> find_root ?p z = find_root p z"
        using forest_shortcut[OF less.prems] by auto
      have "find_root ?p (p ! x) = Some y"
        using s(2)[OF d] find_root_step[OF nx] less.prems(3) by simp
      moreover have "r ! (p ! x) \<le> Max (set r)"
        using bound[OF d] less.prems(1) by (simp add: forest_def)
      then have "Max (set r) - r ! (p ! x) < Max (set r) - r ! x" using r by simp
      ultimately have "\<exists>q. compress y ?p (p ! x) = Some q \<and> forest q r \<and> length q = length ?p
           \<and> (\<forall>z < length ?p. find_root q z = find_root ?p z)"
        using less.hyps[of "p ! x" ?p] s(1) d by simp
      then show ?thesis using False s(2) by (subst compress.simps) auto
    qed
  qed
qed

definition uf_good :: "union_find \<Rightarrow> bool" where
  "uf_good u \<longleftrightarrow> forest (parent u) (rank u)"

definition uf_size :: "union_find \<Rightarrow> nat" where
  "uf_size u = length (parent u)"

definition uf_root :: "union_find \<Rightarrow> nat \<Rightarrow> nat option" where
  "uf_root u x = find_root (parent u) x"

definition uf_same :: "union_find \<Rightarrow> nat \<Rightarrow> nat \<Rightarrow> bool" where
  "uf_same u x y \<longleftrightarrow> x < uf_size u \<and> y < uf_size u \<and> uf_root u x = uf_root u y"

lemma new_union_find_good: "uf_good (new_union_find n)" "uf_size (new_union_find n) = n"
  by (auto simp: uf_good_def forest_def new_union_find_def uf_size_def)

lemma new_union_find_same: "uf_same (new_union_find n) x y \<longleftrightarrow> x = y \<and> x < n"
  by (auto simp: uf_same_def uf_root_def uf_size_def new_union_find_def find_root_top)

lemma uf_root_ok: "uf_good u \<Longrightarrow> x < uf_size u \<Longrightarrow> \<exists>y < uf_size u. uf_root u x = Some y \<and> parent u ! y = y"
  using find_root_ok[of "parent u" "rank u" x] by (auto simp: uf_good_def uf_size_def uf_root_def)

text \<open>\<open>find\<close> returns the root and changes no root.\<close>

lemma uf_find_ok:
  assumes "uf_good u" "x < uf_size u"
  shows "\<exists>u'. uf_find x u = Some (the (uf_root u x), u') \<and> uf_good u' \<and> uf_size u' = uf_size u
           \<and> (\<forall>z < uf_size u. uf_root u' z = uf_root u z)"
proof -
  obtain y where y: "find_root (parent u) x = Some y"
    using uf_root_ok[OF assms] by (auto simp: uf_root_def)
  obtain q where q: "compress y (parent u) x = Some q" "forest q (rank u)" "length q = length (parent u)"
      "\<And>z. z < length (parent u) \<Longrightarrow> find_root q z = find_root (parent u) z"
    using compress_ok[OF _ _ y] assms by (auto simp: uf_good_def uf_size_def)
  show ?thesis
    by (rule exI[of _ "u\<lparr>parent := q\<rparr>"])
      (use y q in \<open>simp add: uf_find_def uf_root_def uf_good_def uf_size_def\<close>)
qed

lemma link_forest:
  assumes f: "forest p r" and hi: "hi < length p" "p ! hi = hi" and lo: "lo < length p" "p ! lo = lo"
    and ne: "hi \<noteq> lo" and ranks: "r ! lo \<le> r ! hi"
  shows "forest (p[lo := hi]) (if r ! hi = r ! lo then r[hi := Suc (r ! hi)] else r)"
    and "z < length p \<Longrightarrow> find_root (p[lo := hi]) z =
      (if find_root p z = Some lo then Some hi else find_root p z)"
proof -
  have len: "length r = length p" using f by (simp add: forest_def)
  show "forest (p[lo := hi]) (if r ! hi = r ! lo then r[hi := Suc (r ! hi)] else r)"
    unfolding forest_def
  proof (intro conjI allI impI)
    fix i
    assume i: "i < length (p[lo := hi])"
    then show "p[lo := hi] ! i < length (p[lo := hi])"
      using forestD[OF f, of i] hi by (cases "i = lo") auto
    have "p ! i = i \<or> r ! i < r ! (p ! i)" "p ! i < length p" using forestD[OF f, of i] i by auto
    moreover have "i \<noteq> hi" if "p ! i \<noteq> i" using that hi(2) by auto
    ultimately show "p[lo := hi] ! i = i \<or>
        (if r ! hi = r ! lo then r[hi := Suc (r ! hi)] else r) ! i
        < (if r ! hi = r ! lo then r[hi := Suc (r ! hi)] else r) ! (p[lo := hi] ! i)"
      using i hi lo ne ranks len
      by (cases "i = lo"; cases "p ! i = hi") (auto simp: nth_list_update)
  qed (use len in simp)
  have t: "find_root (p[lo := hi]) hi = Some hi"
    using hi lo ne by (intro find_root_top) (simp add: nth_list_update)
  show "find_root (p[lo := hi]) z = (if find_root p z = Some lo then Some hi else find_root p z)"
    if "z < length p"
    using f that
  proof (induction rule: forest_induct)
    case (step z)
    show ?case
    proof (cases "z = lo")
      case True
      then show ?thesis
        using t lo ne find_root_step[of "p[lo := hi]" lo] find_root_top[of p lo] by simp
    next
      case False
      show ?thesis
      proof (cases "p ! z = z")
        case True
        then show ?thesis
          using False find_root_top[of "p[lo := hi]" z] find_root_top[of p z] by simp
      next
        case up: False
        then show ?thesis
          using False step find_root_step[of "p[lo := hi]" z] find_root_step[of p z] by simp
      qed
    qed
  qed
qed

lemma link_ok:
  assumes "uf_good u" "ra < uf_size u" "rb < uf_size u" "parent u ! ra = ra" "parent u ! rb = rb" "ra \<noteq> rb"
  shows "\<exists>hi \<in> {ra, rb}. uf_good (link ra rb u) \<and> uf_size (link ra rb u) = uf_size u \<and>
    (\<forall>z < uf_size u. uf_root (link ra rb u) z =
       (if uf_root u z \<in> {Some ra, Some rb} then Some hi else uf_root u z))"
proof -
  have f: "forest (parent u) (rank u)" using assms(1) by (simp add: uf_good_def)
  define hi lo where tl: "hi = (if rank u ! ra < rank u ! rb then rb else ra)"
      "lo = (if rank u ! ra < rank u ! rb then ra else rb)"
  have l: "link ra rb u = \<lparr>parent = (parent u)[lo := hi],
      rank = (if rank u ! hi = rank u ! lo then (rank u)[hi := Suc (rank u ! hi)] else rank u)\<rparr>"
    by (cases u) (auto simp: link_def tl Let_def)
  have tops: "hi < length (parent u)" "parent u ! hi = hi" "lo < length (parent u)" "parent u ! lo = lo"
      "hi \<noteq> lo" "rank u ! lo \<le> rank u ! hi"
    using assms by (auto simp: tl uf_size_def)
  have t: "find_root (parent u) hi = Some hi" by (rule find_root_top[OF tops(2)])
  have set: "{ra, rb} = {hi, lo}" by (auto simp: tl)
  show ?thesis
  proof (rule bexI[of _ hi])
    show "uf_good (link ra rb u) \<and> uf_size (link ra rb u) = uf_size u \<and>
      (\<forall>z < uf_size u. uf_root (link ra rb u) z =
         (if uf_root u z \<in> {Some ra, Some rb} then Some hi else uf_root u z))"
      using link_forest[OF f tops] set
      by (auto simp: uf_good_def uf_size_def uf_root_def l doubleton_eq_iff split: if_splits)
  qed (simp add: tl)
qed

lemma uf_union_ok:
  assumes "uf_good u" "a < uf_size u" "b < uf_size u"
  shows "\<exists>u'. uf_union u a b = Some u' \<and> uf_good u' \<and> uf_size u' = uf_size u
    \<and> (\<forall>x y. uf_same u' x y \<longleftrightarrow> uf_same u x y \<or> (uf_same u x a \<and> uf_same u b y) \<or> (uf_same u x b \<and> uf_same u a y))"
proof -
  obtain u1 where u1: "uf_find a u = Some (the (uf_root u a), u1)" "uf_good u1" "uf_size u1 = uf_size u"
      "\<And>z. z < uf_size u \<Longrightarrow> uf_root u1 z = uf_root u z"
    using uf_find_ok[OF assms(1,2)] by blast
  obtain u2 where u2: "uf_find b u1 = Some (the (uf_root u b), u2)" "uf_good u2" "uf_size u2 = uf_size u"
      "\<And>z. z < uf_size u \<Longrightarrow> uf_root u2 z = uf_root u z"
    using uf_find_ok[OF u1(2), of b] u1 assms(3) by auto
  obtain ra rb where r: "uf_root u a = Some ra" "uf_root u b = Some rb" "ra < uf_size u" "rb < uf_size u"
    using uf_root_ok[OF assms(1,2)] uf_root_ok[OF assms(1,3)] by auto
  have tops: "parent u2 ! ra = ra" "parent u2 ! rb = rb"
    using uf_root_ok[OF u2(2), of a] uf_root_ok[OF u2(2), of b] u2(3,4) assms r by auto
  have same2: "uf_same u2 x y = uf_same u x y" for x y
    using u2(3,4) by (auto simp: uf_same_def)
  show ?thesis
  proof (cases "ra = rb")
    case True
    then have ab: "uf_same u a b" using r assms by (simp add: uf_same_def)
    have "uf_union u a b = Some u2"
      using u1(1) u2(1) r True by (simp add: uf_union_def)
    moreover have "uf_same u x y \<longleftrightarrow>
        uf_same u x y \<or> (uf_same u x a \<and> uf_same u b y) \<or> (uf_same u x b \<and> uf_same u a y)" for x y
      using ab unfolding uf_same_def by metis
    ultimately show ?thesis
      using u2(2,3) u1(3) same2 by (intro exI[of _ u2]) simp
  next
    case False
    obtain hi where hi: "hi \<in> {ra, rb}" "uf_good (link ra rb u2)" "uf_size (link ra rb u2) = uf_size u"
        "\<And>z. z < uf_size u \<Longrightarrow> uf_root (link ra rb u2) z =
          (if uf_root u z \<in> {Some ra, Some rb} then Some hi else uf_root u z)"
      using link_ok[OF u2(2) _ _ tops False] u2(3,4) r by (metis (no_types, lifting))
    have "uf_union u a b = Some (link ra rb u2)"
      using u1(1) u2(1) r False by (simp add: uf_union_def)
    moreover have "uf_same (link ra rb u2) x y \<longleftrightarrow>
        uf_same u x y \<or> (uf_same u x a \<and> uf_same u b y) \<or> (uf_same u x b \<and> uf_same u a y)" for x y
    proof (cases "x < uf_size u \<and> y < uf_size u")
      case True
      then have "uf_root (link ra rb u2) x = uf_root (link ra rb u2) y \<longleftrightarrow>
          uf_root u x = uf_root u y \<or> (uf_root u x = Some ra \<and> uf_root u y = Some rb)
          \<or> (uf_root u x = Some rb \<and> uf_root u y = Some ra)"
        using hi(1) hi(4)[of x] hi(4)[of y] by auto
      then show ?thesis using True hi(3) r(1,2) assms(2,3) unfolding uf_same_def by auto
    qed (use hi(3) assms(2,3) in \<open>auto simp: uf_same_def\<close>)
    ultimately show ?thesis
      using hi(2,3) by (intro exI[of _ "link ra rb u2"]) simp
  qed
qed

interpretation union_find: disjoint_sets uf_good uf_size uf_same uf_union
  by unfold_locales (use uf_union_ok in \<open>auto simp: uf_same_def\<close>)

text \<open>\<open>components()\<close>: every root with its elements in increasing order.\<close>

lemma uf_components_ok:
  assumes "uf_good u"
  shows "\<exists>u'. uf_components u = Some (group_pairs (map (\<lambda>x. (the (uf_root u x), x)) [0 ..< uf_size u]), u')
    \<and> uf_good u' \<and> uf_size u' = uf_size u \<and> (\<forall>z < uf_size u. uf_root u' z = uf_root u z)"
proof -
  let ?I = "\<lambda>u'. uf_good u' \<and> uf_size u' = uf_size u \<and> (\<forall>z < uf_size u. uf_root u' z = uf_root u z)"
  have step: "\<exists>s'. uf_find x s = Some (the (uf_root u x), s') \<and> ?I s'" if "x \<in> set [0 ..< uf_size u]" "?I s" for x s
    using uf_find_ok[of s x] that by auto
  obtain t where "mapM uf_find [0 ..< uf_size u] u = Some (map (\<lambda>x. the (uf_root u x)) [0 ..< uf_size u], t)" "?I t"
    using mapM_pure[of ?I u "[0 ..< uf_size u]" uf_find "\<lambda>x. the (uf_root u x)"] step assms by auto
  then show ?thesis
    by (intro exI[of _ t]) (simp add: uf_components_def uf_size_def zip_map1 zip_same_conv_map comp_def)
qed

end
