(* ===== verification/Matching.thy ===== *)
theory Matching
  imports UnionFind PyFloat StandardizeRules
begin

text \<open>
  \<open>app.matching\<close>: blocking, pair comparison, canonical selection and the three stages of \<open>match\<close>.

  The state threaded through the stages is what the nested function \<open>record_decision\<close> and the
  loops share.  Every union and every find goes through the disjoint-set structure, whose loops
  are partial, so the stages return an option.  Scores and weights are binary64 values: each
  operation rounds with \<open>fl\<close>.  The reason texts of decisions are not carried.
\<close>

section \<open>Values\<close>

record rule_field =
  mf_column :: string
  mf_comparison :: string
  mf_weight :: rat

record rule_set =
  ms_duplicate_threshold :: rat
  ms_review_threshold :: rat
  ms_fields :: "rule_field list"

record match_limits =
  max_block_size :: nat
  max_persisted_decisions :: nat
  max_skipped_row_sample :: nat

datatype decision_label = Duplicate | Ambiguous

datatype match_rule = ExactRowMatch | NormalizedExactMatch | CompositeWeightedMatch

record field_comparison =
  fc_value_a :: string
  fc_value_b :: string
  fc_matched :: bool
  fc_weight :: rat
  fc_contribution :: rat

record decision =
  d_a :: nat
  d_b :: nat
  d_blocking_key :: "string option"
  d_rule :: match_rule
  d_fields :: "(string \<times> field_comparison) list"
  d_score :: rat
  d_threshold :: rat
  d_label :: decision_label
  d_confidence :: rat
  d_version :: string
  d_group :: "nat option"

record match_group =
  g_canonical :: nat
  g_members :: "nat list"
  g_confidence :: rat

definition g_record_count :: "match_group \<Rightarrow> nat" where
  "g_record_count g = length (g_members g)"

record skipped_block =
  sb_key :: string
  sb_size :: nat
  sb_sample :: "nat list"

record match_result =
  mr_groups :: "match_group list"
  mr_decisions :: "decision list"
  mr_skipped_blocks :: "skipped_block list"
  mr_row_count :: nat
  mr_comparisons :: nat
  mr_group_count :: nat
  mr_duplicate_pairs :: nat
  mr_ambiguous_pairs :: nat
  mr_skipped_count :: nat
  mr_by_rule :: "match_rule tally"
  mr_confidence :: rat

definition MATCH_ENGINE_VERSION :: string where
  "MATCH_ENGINE_VERSION = ''1.0''"

section \<open>Blocking\<close>

definition normalize_blocking_value :: "string \<Rightarrow> string" where
  "normalize_blocking_value value = casefold (fst (trim_whitespace value))"

text \<open>The earliest of the heaviest fields.\<close>

fun select_blocking_field :: "rule_field list \<Rightarrow> rule_field" where
  "select_blocking_field (f # fs) =
     fold (\<lambda>candidate best. if mf_weight candidate > mf_weight best then candidate else best) fs f"

definition column_index :: "string list \<Rightarrow> string \<Rightarrow> nat option" where
  "column_index hs name =
     map_option fst (find (\<lambda>(i, h). casefold (strip h) = casefold (strip name)) (enum hs))"

text \<open>A configured column's text in a row; the empty text when the file has no such column.\<close>

definition cell_text :: "string list \<Rightarrow> string \<Rightarrow> string list \<Rightarrow> string" where
  "cell_text hs name row = (case column_index hs name of None \<Rightarrow> [] | Some i \<Rightarrow> row ! i)"

definition block_key :: "string list \<Rightarrow> rule_field \<Rightarrow> string list \<Rightarrow> string" where
  "block_key hs f row = normalize_blocking_value (cell_text hs (mf_column f) row)"

definition build_blocks ::
  "nat list \<Rightarrow> string list list \<Rightarrow> string list \<Rightarrow> rule_field \<Rightarrow> (string, nat) groups"
where
  "build_blocks candidates rows hs f =
     group_pairs (filter (\<lambda>(key, i). key \<noteq> []) (map (\<lambda>i. (block_key hs f (rows ! i), i)) candidates))"

section \<open>Comparing a pair\<close>

definition compare_field :: "string \<Rightarrow> string \<Rightarrow> string \<Rightarrow> bool \<times> string \<times> string" where
  "compare_field a b comparison_type =
     (let (a', b') = (if comparison_type = ''normalized_exact''
                      then (normalize_blocking_value a, normalize_blocking_value b) else (a, b))
      in (a' = b', a', b'))"

definition field_comparison_of :: "string list \<Rightarrow> string list \<Rightarrow> string list \<Rightarrow> rule_field \<Rightarrow> field_comparison" where
  "field_comparison_of row_a row_b hs f =
     (let (matched, a, b) = compare_field (cell_text hs (mf_column f) row_a)
                              (cell_text hs (mf_column f) row_b) (mf_comparison f)
      in \<lparr>fc_value_a = a, fc_value_b = b, fc_matched = matched, fc_weight = mf_weight f,
          fc_contribution = (if matched then mf_weight f else 0)\<rparr>)"

text \<open>The loop over the configured fields, with its three accumulators.\<close>

fun compare_loop ::
  "string list \<Rightarrow> string list \<Rightarrow> string list \<Rightarrow> rule_field list \<Rightarrow>
     (string \<times> field_comparison) list \<times> rat \<times> rat \<Rightarrow> (string \<times> field_comparison) list \<times> rat \<times> rat"
where
  "compare_loop row_a row_b hs [] acc = acc"
| "compare_loop row_a row_b hs (f # fs) (comparisons, weights, matched) =
     (let c = field_comparison_of row_a row_b hs f
      in compare_loop row_a row_b hs fs
           (put (mf_column f) c comparisons, fl (weights + mf_weight f), fl (matched + fc_contribution c)))"

definition compare_pair ::
  "string list \<Rightarrow> string list \<Rightarrow> string list \<Rightarrow> rule_field list \<Rightarrow> (string \<times> field_comparison) list \<times> rat"
where
  "compare_pair row_a row_b hs fs =
     (let (comparisons, weights, matched) = compare_loop row_a row_b hs fs ([], 0, 0)
      in (comparisons, if 0 < weights then fl (matched / weights) else 0))"

definition select_canonical :: "nat list \<Rightarrow> nat" where
  "select_canonical members = Min (set members)"

section \<open>The shared state\<close>

record match_state =
  m_uf :: union_find
  m_decisions :: "decision list"
  m_by_rule :: "match_rule tally"
  m_duplicates :: nat
  m_ambiguous :: nat
  m_comparisons :: nat
  m_skipped :: "skipped_block list"
  m_edges :: "(nat \<times> nat \<times> rat) list"
  m_pending :: "nat list"

definition initial_state :: "nat \<Rightarrow> match_state" where
  "initial_state n =
     \<lparr>m_uf = new_union_find n, m_decisions = [], m_by_rule = [], m_duplicates = 0, m_ambiguous = 0,
      m_comparisons = 0, m_skipped = [], m_edges = [], m_pending = []\<rparr>"

definition record_decision :: "match_limits \<Rightarrow> decision \<Rightarrow> match_state \<Rightarrow> match_state" where
  "record_decision limits d st =
     (let st1 = st\<lparr>m_by_rule := bump (d_rule d) (m_by_rule st)\<rparr>;
          st2 = (if d_label d = Duplicate then st1\<lparr>m_duplicates := m_duplicates st1 + 1\<rparr>
                 else st1\<lparr>m_ambiguous := m_ambiguous st1 + 1\<rparr>)
      in if length (m_decisions st2) < max_persisted_decisions limits
         then (let st3 = st2\<lparr>m_decisions := m_decisions st2 @ [d]\<rparr>
               in if d_label d = Duplicate
                  then st3\<lparr>m_pending := m_pending st3 @ [length (m_decisions st3) - 1]\<rparr> else st3)
         else st2)"

text \<open>\<open>uf.union(a, b)\<close> with its entry in the list of duplicate edges.\<close>

definition add_edge :: "nat \<Rightarrow> nat \<Rightarrow> rat \<Rightarrow> match_state \<Rightarrow> match_state option" where
  "add_edge a b confidence st =
     map_option (\<lambda>u. st\<lparr>m_uf := u, m_edges := m_edges st @ [(a, b, confidence)]\<rparr>) (uf_union (m_uf st) a b)"

definition count_comparison :: "match_state \<Rightarrow> match_state" where
  "count_comparison st = st\<lparr>m_comparisons := m_comparisons st + 1\<rparr>"

section \<open>Stage 1: identical rows\<close>

definition exact_groups :: "string list list \<Rightarrow> (string list, nat) groups" where
  "exact_groups rows = group_pairs (map (\<lambda>(i, row). (row, i)) (enum rows))"

definition exact_comparisons ::
  "string list list \<Rightarrow> string list \<Rightarrow> nat \<Rightarrow> nat \<Rightarrow> (string \<times> field_comparison) list"
where
  "exact_comparisons rows hs a b =
     fold (\<lambda>(col, h). put h \<lparr>fc_value_a = rows ! a ! col, fc_value_b = rows ! b ! col, fc_matched = True,
             fc_weight = 1, fc_contribution = 1\<rparr>) (enum hs) []"

definition exact_decision :: "string list list \<Rightarrow> string list \<Rightarrow> nat \<Rightarrow> nat \<Rightarrow> decision" where
  "exact_decision rows hs a b =
     \<lparr>d_a = a, d_b = b, d_blocking_key = None, d_rule = ExactRowMatch,
      d_fields = exact_comparisons rows hs a b, d_score = 1, d_threshold = 1, d_label = Duplicate,
      d_confidence = 1, d_version = MATCH_ENGINE_VERSION, d_group = None\<rparr>"

definition link_exact ::
  "string list list \<Rightarrow> string list \<Rightarrow> match_limits \<Rightarrow> nat \<times> nat \<Rightarrow> match_state \<Rightarrow> match_state option"
where
  "link_exact rows hs limits p st =
     (let (a, b) = p
      in map_option (\<lambda>st'. record_decision limits (exact_decision rows hs a b) (count_comparison st'))
           (add_edge a b 1 st))"

text \<open>\<open>(indices[i], indices[i + 1])\<close> for every \<open>i\<close> below the last.\<close>

definition chain :: "nat list \<Rightarrow> (nat \<times> nat) list" where
  "chain xs = zip xs (tl xs)"

definition exact_stage ::
  "string list list \<Rightarrow> string list \<Rightarrow> match_limits \<Rightarrow> match_state \<Rightarrow> match_state option"
where
  "exact_stage rows hs limits =
     foldM (\<lambda>(row, indices) st.
         if length indices < 2 then Some st else foldM (link_exact rows hs limits) (chain (sort indices)) st)
       (exact_groups rows)"

definition stage1_representative_for :: "string list list \<Rightarrow> nat \<Rightarrow> nat option" where
  "stage1_representative_for rows =
     fold (\<lambda>(row, indices) m.
         if length indices < 2 then m
         else (let s = sort indices in fold (\<lambda>i m. m(i \<mapsto> hd s)) s m))
       (exact_groups rows) Map.empty"

section \<open>Stage 2: configured fields\<close>

fun candidate_indices :: "(nat \<Rightarrow> nat option) \<Rightarrow> nat set \<Rightarrow> nat list \<Rightarrow> nat list" where
  "candidate_indices rep_for seen [] = []"
| "candidate_indices rep_for seen (i # is) =
     (case rep_for i of
        None \<Rightarrow> i # candidate_indices rep_for seen is
      | Some rep \<Rightarrow>
          if rep \<notin> seen then rep # candidate_indices rep_for (insert rep seen) is
          else candidate_indices rep_for seen is)"

definition match_candidates :: "string list list \<Rightarrow> nat list" where
  "match_candidates rows =
     sort (candidate_indices (stage1_representative_for rows) {} [0 ..< length rows])"

text \<open>\<open>(members[i], members[j])\<close> for \<open>i < j\<close>, in the order of the two loops.\<close>

fun pairs_of :: "nat list \<Rightarrow> (nat \<times> nat) list" where
  "pairs_of [] = []"
| "pairs_of (x # xs) = map (Pair x) xs @ pairs_of xs"

definition rule_name_for :: "rule_set \<Rightarrow> match_rule" where
  "rule_name_for rs = (if length (ms_fields rs) = 1 then NormalizedExactMatch else CompositeWeightedMatch)"

definition scored_decision ::
  "rule_set \<Rightarrow> string \<Rightarrow> nat \<Rightarrow> nat \<Rightarrow> (string \<times> field_comparison) list \<Rightarrow> rat \<Rightarrow> decision_label \<Rightarrow> decision"
where
  "scored_decision rs key a b comparisons score label =
     \<lparr>d_a = a, d_b = b, d_blocking_key = Some key, d_rule = rule_name_for rs, d_fields = comparisons,
      d_score = score, d_threshold = ms_duplicate_threshold rs, d_label = label, d_confidence = score,
      d_version = MATCH_ENGINE_VERSION, d_group = None\<rparr>"

definition compare_step ::
  "string list list \<Rightarrow> string list \<Rightarrow> rule_set \<Rightarrow> match_limits \<Rightarrow> string \<Rightarrow> nat \<times> nat \<Rightarrow>
     match_state \<Rightarrow> match_state option"
where
  "compare_step rows hs rs limits key p st =
     (let (a, b) = p;
          (comparisons, score) = compare_pair (rows ! a) (rows ! b) hs (ms_fields rs);
          st' = count_comparison st
      in if ms_duplicate_threshold rs \<le> score
         then map_option (record_decision limits (scored_decision rs key a b comparisons score Duplicate))
                (add_edge a b score st')
         else if ms_review_threshold rs \<le> score
         then Some (record_decision limits (scored_decision rs key a b comparisons score Ambiguous) st')
         else Some st')"

definition block_step ::
  "string list list \<Rightarrow> string list \<Rightarrow> rule_set \<Rightarrow> match_limits \<Rightarrow> string \<times> nat list \<Rightarrow>
     match_state \<Rightarrow> match_state option"
where
  "block_step rows hs rs limits block st =
     (let (key, indices) = block; members = sort indices
      in if max_block_size limits < length members
         then Some (st\<lparr>m_skipped := m_skipped st @
                [\<lparr>sb_key = key, sb_size = length members,
                  sb_sample = take (max_skipped_row_sample limits) members\<rparr>]\<rparr>)
         else foldM (compare_step rows hs rs limits key) (pairs_of members) st)"

definition field_stage ::
  "string list list \<Rightarrow> string list \<Rightarrow> rule_set option \<Rightarrow> match_limits \<Rightarrow> match_state \<Rightarrow> match_state option"
where
  "field_stage rows hs rs limits st =
     (case rs of
        None \<Rightarrow> Some st
      | Some rs \<Rightarrow>
          if ms_fields rs = [] then Some st
          else foldM (block_step rows hs rs limits)
                 (sort_key fst (build_blocks (match_candidates rows) rows hs
                    (select_blocking_field (ms_fields rs)))) st)"

section \<open>Stage 3: groups\<close>

definition group_of_members :: "nat list \<Rightarrow> match_group" where
  "group_of_members members =
     \<lparr>g_canonical = select_canonical members, g_members = sort members, g_confidence = 1\<rparr>"

text \<open>The roots of the groups in output order, then the groups.\<close>

definition sorted_components :: "(nat, nat) groups \<Rightarrow> (nat, nat) groups" where
  "sorted_components comps =
     filter (\<lambda>(root, members). 2 \<le> length members) (sort_key (\<lambda>(root, members). Min (set members)) comps)"

definition root_confidences ::
  "(nat \<times> nat \<times> rat) list \<Rightarrow> union_find \<Rightarrow> ((nat, rat) groups \<times> union_find) option"
where
  "root_confidences edges u =
     map_option (\<lambda>(roots, u'). (group_pairs (zip roots (map (\<lambda>(a, b, c). c) edges)), u'))
       (mapM (\<lambda>(a, b, c). uf_find a) edges u)"

definition score_group ::
  "(nat, rat) groups \<Rightarrow> match_group \<Rightarrow> union_find \<Rightarrow> (match_group \<times> union_find) option"
where
  "score_group confidences g u =
     map_option (\<lambda>(root, u').
         (g\<lparr>g_confidence := Min (set (case map_of confidences root of None \<Rightarrow> [1] | Some cs \<Rightarrow> cs))\<rparr>, u'))
       (uf_find (g_canonical g) u)"

definition wire_decision ::
  "(nat \<times> nat) list \<Rightarrow> nat \<Rightarrow> decision list \<times> union_find \<Rightarrow> (decision list \<times> union_find) option"
where
  "wire_decision group_index pos s =
     (let (ds, u) = s
      in map_option (\<lambda>(root, u'). (ds[pos := (ds ! pos)\<lparr>d_group := map_of group_index root\<rparr>], u'))
           (uf_find (d_a (ds ! pos)) u))"

definition finish :: "nat \<Rightarrow> match_state \<Rightarrow> match_result option" where
  "finish n st =
     (case uf_components (m_uf st) of None \<Rightarrow> None
      | Some (comps, u1) \<Rightarrow>
     (let roots = sorted_components comps in
      case root_confidences (m_edges st) u1 of None \<Rightarrow> None
      | Some (confidences, u2) \<Rightarrow>
     (case mapM (score_group confidences) (map (\<lambda>(root, members). group_of_members members) roots) u2 of
        None \<Rightarrow> None
      | Some (groups, u3) \<Rightarrow>
     (case foldM (wire_decision (zip (map fst roots) [0 ..< length roots])) (m_pending st)
             (m_decisions st, u3) of
        None \<Rightarrow> None
      | Some (decisions, u4) \<Rightarrow>
          Some \<lparr>mr_groups = groups, mr_decisions = decisions, mr_skipped_blocks = m_skipped st,
                mr_row_count = n, mr_comparisons = m_comparisons st, mr_group_count = length groups,
                mr_duplicate_pairs = m_duplicates st, mr_ambiguous_pairs = m_ambiguous st,
                mr_skipped_count = length (m_skipped st), mr_by_rule = m_by_rule st,
                mr_confidence = min_default 1 (map g_confidence groups)\<rparr>))))"

definition match_rows ::
  "string list list \<Rightarrow> string list \<Rightarrow> rule_set option \<Rightarrow> match_limits \<Rightarrow> match_result option"
where
  "match_rows rows hs rs limits =
     (case exact_stage rows hs limits (initial_state (length rows)) of None \<Rightarrow> None
      | Some st1 \<Rightarrow>
     (case field_stage rows hs rs limits st1 of None \<Rightarrow> None
      | Some st2 \<Rightarrow> finish (length rows) st2))"

end
