(* ===== verification/Export.thy ===== *)
theory Export
  imports Cleaning Csv Matching
begin

text \<open>
  \<open>app.export\<close>: the reserved provenance columns and \<open>materialize\<close>; and from the export handler the
  reconstruction of group members from persisted groups and decisions (\<open>_load_groups\<close>).

  Identifiers are natural numbers in place of UUIDs.  The rows of \<open>match_groups\<close> and
  \<open>match_decisions\<close> are the columns that \<open>_load_groups\<close> selects.
\<close>

section \<open>Values\<close>

record export_limits =
  max_persisted_exclusions :: nat

record group_input =
  gi_id :: nat
  gi_canonical :: nat
  gi_record_count :: nat
  gi_members :: "nat list"

record row_exclusion =
  re_row :: nat
  re_group_id :: nat
  re_canonical :: nat
  re_reason :: string

record materialize_result =
  mt_headers :: "string list"
  mt_rows :: "string list list"
  mt_row_count :: nat
  mt_excluded :: nat
  mt_groups :: nat
  mt_exclusions :: "row_exclusion list"
  mt_columns :: nat

section \<open>Reserved columns\<close>

definition RESERVED_CANONICAL_RECORD_COLUMN :: string where
  "RESERVED_CANONICAL_RECORD_COLUMN = ''__aiops_canonical_record''"

definition RESERVED_SOURCE_ROW_INDEX_COLUMN :: string where
  "RESERVED_SOURCE_ROW_INDEX_COLUMN = ''__aiops_source_row_index''"

definition RESERVED_COLUMNS :: "string list" where
  "RESERVED_COLUMNS = [RESERVED_CANONICAL_RECORD_COLUMN, RESERVED_SOURCE_ROW_INDEX_COLUMN]"

definition find_reserved_column_collisions :: "string list \<Rightarrow> string list" where
  "find_reserved_column_collisions hs = filter (\<lambda>h. h \<in> set RESERVED_COLUMNS) hs"

section \<open>Materialization\<close>

text \<open>The group that excludes a row; a later group overrides an earlier one.\<close>

definition excluded_by_row :: "group_input list \<Rightarrow> nat \<Rightarrow> group_input option" where
  "excluded_by_row groups =
     fold (\<lambda>g m. fold (\<lambda>i m. if i \<noteq> gi_canonical g then m(i \<mapsto> g) else m) (gi_members g) m) groups Map.empty"

definition exclusion_reason :: "nat \<Rightarrow> group_input \<Rightarrow> string" where
  "exclusion_reason i g =
     ''row '' @ show_nat i @ '' excluded: member of duplicate group (canonical row_index=''
     @ show_nat (gi_canonical g) @ '', '' @ show_nat (gi_record_count g) @ '' members)''"

definition exclusion_of :: "nat \<Rightarrow> group_input \<Rightarrow> row_exclusion" where
  "exclusion_of i g =
     \<lparr>re_row = i, re_group_id = gi_id g, re_canonical = gi_canonical g, re_reason = exclusion_reason i g\<rparr>"

text \<open>The loop over the rows, with the output rows and the bounded list of exclusions.\<close>

fun materialize_loop ::
  "(nat \<Rightarrow> group_input option) \<Rightarrow> nat \<Rightarrow> (nat \<times> string list) list \<Rightarrow>
     string list list \<times> row_exclusion list \<Rightarrow> string list list \<times> row_exclusion list"
where
  "materialize_loop excluded limit [] acc = acc"
| "materialize_loop excluded limit ((i, row) # rest) (out, exclusions) =
     (case excluded i of
        Some g \<Rightarrow> materialize_loop excluded limit rest
          (out, if length exclusions < limit then exclusions @ [exclusion_of i g] else exclusions)
      | None \<Rightarrow> materialize_loop excluded limit rest (out @ [row @ [''True'', show_nat i]], exclusions))"

definition materialize ::
  "string list list \<Rightarrow> string list \<Rightarrow> group_input list \<Rightarrow> export_limits \<Rightarrow> materialize_result"
where
  "materialize rows hs groups limits =
     (let (out, exclusions) = materialize_loop (excluded_by_row groups) (max_persisted_exclusions limits) (enum rows) ([], []);
          headers = hs @ RESERVED_COLUMNS
      in \<lparr>mt_headers = headers, mt_rows = out, mt_row_count = length out,
          mt_excluded = length rows - length out, mt_groups = length groups,
          mt_exclusions = exclusions, mt_columns = length headers\<rparr>)"

section \<open>Members from decisions\<close>

record group_row =
  gr_id :: nat
  gr_canonical :: nat
  gr_record_count :: nat

record match_decision_row =
  dr_group :: "nat option"
  dr_a :: nat
  dr_b :: nat

text \<open>What the matching handler stores of a result; \<open>ids\<close> are the identifiers it draws for the groups.\<close>

definition persist_groups :: "nat list \<Rightarrow> match_result \<Rightarrow> group_row list" where
  "persist_groups ids r =
     map (\<lambda>(i, g). \<lparr>gr_id = i, gr_canonical = g_canonical g, gr_record_count = g_record_count g\<rparr>)
       (zip ids (mr_groups r))"

definition persist_decisions :: "nat list \<Rightarrow> match_result \<Rightarrow> match_decision_row list" where
  "persist_decisions ids r =
     map (\<lambda>d. \<lparr>dr_group = map_option (\<lambda>k. ids ! k) (d_group d), dr_a = d_a d, dr_b = d_b d\<rparr>) (mr_decisions r)"

definition member_set :: "match_decision_row list \<Rightarrow> group_row \<Rightarrow> nat list" where
  "member_set decisions g =
     remdups (gr_canonical g #
       concat (map (\<lambda>d. [dr_a d, dr_b d]) (filter (\<lambda>d. dr_group d = Some (gr_id g)) decisions)))"

text \<open>\<open>Inl\<close> is the permanent failure for the first group whose members cannot be reconstructed.\<close>

fun load_groups :: "match_decision_row list \<Rightarrow> group_row list \<Rightarrow> nat + group_input list" where
  "load_groups decisions [] = Inr []"
| "load_groups decisions (g # gs) =
     (let members = member_set decisions g in
      if length members \<noteq> gr_record_count g then Inl (gr_id g)
      else case load_groups decisions gs of
             Inl e \<Rightarrow> Inl e
           | Inr rest \<Rightarrow> Inr (\<lparr>gi_id = gr_id g, gi_canonical = gr_canonical g, gi_record_count = gr_record_count g,
                               gi_members = sort members\<rparr> # rest))"

end
