(* ===== verification/ReviewProps.thy ===== *)
theory ReviewProps
  imports Review
begin

text \<open>
  The approval state machines keep their runs consistent: a run is decided once, keeps who decided
  it and when, and no request reaches a run of another organization.

  What the four endpoints families share is a locale, interpreted on each of the four tables.
\<close>

section \<open>Advancing runs\<close>

fun may_become :: "review_status \<Rightarrow> review_status \<Rightarrow> bool" where
  "may_become PendingReview t = True"
| "may_become Approved t = (t = Approved \<or> t = RolledBack)"
| "may_become Rejected t = (t = Rejected)"
| "may_become RolledBack t = (t = RolledBack)"

lemma may_become_refl [simp]: "may_become x x"
  by (cases x) auto

lemma may_become_trans: "may_become x y \<Longrightarrow> may_become y z \<Longrightarrow> may_become x z"
  by (cases x; cases y) auto

definition keeps :: "'a option \<Rightarrow> 'a option \<Rightarrow> bool" where
  "keeps x y \<longleftrightarrow> x = None \<or> y = x"

lemma keeps_simps [simp]: "keeps x x" "keeps None y"
  by (simp_all add: keeps_def)

lemma keeps_trans: "keeps x y \<Longrightarrow> keeps y z \<Longrightarrow> keeps x z"
  by (auto simp: keeps_def)

definition advances :: "'a reviewed_run_scheme \<Rightarrow> 'a reviewed_run_scheme \<Rightarrow> bool" where
  "advances r r' \<longleftrightarrow>
     rv_id r' = rv_id r \<and> rv_org r' = rv_org r \<and> rv_task_run r' = rv_task_run r
     \<and> may_become (rv_status r) (rv_status r')
     \<and> keeps (rv_approved_by r) (rv_approved_by r') \<and> keeps (rv_approved_at r) (rv_approved_at r')
     \<and> keeps (rv_rejected_by r) (rv_rejected_by r') \<and> keeps (rv_rejected_at r) (rv_rejected_at r')
     \<and> keeps (rv_rolled_back_by r) (rv_rolled_back_by r') \<and> keeps (rv_rolled_back_at r) (rv_rolled_back_at r')"

lemma advances_refl [simp]: "advances r r"
  by (simp add: advances_def)

lemma advances_trans: "advances q r \<Longrightarrow> advances r s \<Longrightarrow> advances q s"
  by (auto simp: advances_def intro: may_become_trans keeps_trans)

lemma decide_advances:
  "review_ok r \<Longrightarrow> rv_status r = required_status tr \<Longrightarrow>
     advances r (decide_columns tr u now r) \<and> review_ok (decide_columns tr u now r)"
  by (cases tr) (auto simp: advances_def review_ok_def split: review_status.splits)

section \<open>What the endpoints share\<close>

definition runs_ok :: "'a reviewed_run_scheme table \<Rightarrow> bool" where
  "runs_ok runs \<longleftrightarrow> keyed rv_id runs \<and> list_all review_ok runs"

definition table_advances :: "'a reviewed_run_scheme table \<Rightarrow> 'a reviewed_run_scheme table \<Rightarrow> bool" where
  "table_advances T T' \<longleftrightarrow> length T \<le> length T' \<and> list_all2 advances T (take (length T) T')"

lemma table_advances_refl [simp]: "table_advances T T"
  by (simp add: table_advances_def list_all2_refl)

lemma table_advances_iff:
  "table_advances T T' \<longleftrightarrow> length T \<le> length T' \<and> (\<forall>i < length T. advances (T ! i) (T' ! i))"
  by (auto simp: table_advances_def list_all2_conv_all_nth)

lemma table_advances_trans: "table_advances T U \<Longrightarrow> table_advances U V \<Longrightarrow> table_advances T V"
  by (auto simp: table_advances_iff intro: advances_trans)

lemma found_Inr: "found q = Inr r \<longleftrightarrow> q = Inr (Some r)"
  by (auto simp: found_def split: sum.splits option.splits)

lemma get_reviewed_run_Inr:
  assumes "get_reviewed_run_or_404 d runs tid rid org = Inr r"
  shows "r \<in> set runs \<and> rv_org r = org \<and> rv_task_run r = rid \<and> rv_task r = tid"
proof -
  obtain run where run: "get_visible_run_or_404 d tid rid org = Inr run"
    "filter (\<lambda>r. rv_task_run r = rid \<and> rv_task r = tr_task_id run \<and> rv_org r = org) runs = [r]"
    using assms by (auto simp: get_reviewed_run_or_404_def found_Inr scalar_Inr_Some split: sum.splits)
  obtain t where t: "get_active_task_or_404 d tid org = Inr t"
    "filter (\<lambda>r. tr_id r = rid \<and> tr_task_id r = task_id t \<and> tr_org r = org) (task_runs d) = [run]"
    using run(1) by (auto simp: get_visible_run_or_404_def found_Inr scalar_Inr_Some split: sum.splits)
  have "filter (\<lambda>t. task_id t = tid \<and> task_org t = org \<and> is_active t) (tasks d) = [t]"
    using t(1) by (simp add: get_active_task_or_404_def found_Inr scalar_Inr_Some)
  from filter_single[OF this] filter_single[OF t(2)] filter_single[OF run(2)] show ?thesis by simp
qed

locale reviewed_table =
  fixes rows :: "store \<Rightarrow> 'a reviewed_run_scheme table"
    and decide :: "transition \<Rightarrow> nat \<Rightarrow> nat \<Rightarrow> user \<Rightarrow> time \<Rightarrow> store \<Rightarrow> http_error + store"
  assumes decide_commits:
    "decide tr tid rid u now s = Inr s' \<Longrightarrow>
       \<exists>r \<in> set (rows s). rv_status r = required_status tr \<and> rv_org r = us_org u \<and> rv_task_run r = rid
         \<and> rows s' = commit_transition tr u now (rv_id r) (rows s)"
begin

lemma decide_ok:
  assumes ok: "runs_ok (rows s)" and step: "decide tr tid rid u now s = Inr s'"
  shows "runs_ok (rows s') \<and> table_advances (rows s) (rows s')"
proof -
  obtain r where r: "r \<in> set (rows s)" "rv_status r = required_status tr"
    and c: "rows s' = commit_transition tr u now (rv_id r) (rows s)"
    using decide_commits[OF step] by blast
  have k: "keyed rv_id (rows s)" and rv: "list_all review_ok (rows s)" using ok by (auto simp: runs_ok_def)
  have same: "rv_id (decide_columns tr u now x) = rv_id x" for x :: "'a reviewed_run_scheme" by (cases tr) auto
  have step1: "advances x (if rv_id x = rv_id r then decide_columns tr u now x else x)"
    "review_ok (if rv_id x = rv_id r then decide_columns tr u now x else x)" if "x \<in> set (rows s)" for x
    using that r rv keyed_inj[OF k that r(1)] decide_advances[of x tr u now] by (auto simp: list_all_iff)
  have "keyed rv_id (rows s')"
    using k unfolding c commit_transition_def by (subst map_key_update_where) (auto simp: same)
  moreover have "list_all review_ok (rows s')"
    using step1(2) unfolding c commit_transition_def update_where_def list_all_iff set_map by blast
  moreover have "table_advances (rows s) (rows s')"
    using step1(1)[OF nth_mem] unfolding c commit_transition_def update_where_def table_advances_iff by simp
  ultimately show ?thesis by (simp add: runs_ok_def)
qed

lemma decide_own_org:
  assumes k: "keyed rv_id (rows s)" and step: "decide tr tid rid u now s = Inr s'"
    and i: "i < length (rows s)" and other: "rv_org (rows s ! i) \<noteq> us_org u"
  shows "rows s' ! i = rows s ! i"
proof -
  obtain r where r: "r \<in> set (rows s)" "rv_org r = us_org u"
    and c: "rows s' = commit_transition tr u now (rv_id r) (rows s)"
    using decide_commits[OF step] by blast
  have "rv_id (rows s ! i) \<noteq> rv_id r" using keyed_inj[OF k nth_mem[OF i] r(1)] r(2) other by auto
  then show ?thesis using i by (simp add: c commit_transition_def update_where_def)
qed

end

named_theorems decide_defs \<open>the four endpoint families\<close>

lemmas [decide_defs] = decide_cleaning_def decide_standardization_def decide_match_def decide_export_def
  get_cleaning_run_or_404_def get_standardization_run_or_404_def get_match_run_or_404_def
  get_export_run_or_404_def check_transition_def

interpretation cleaning_reviews: reviewed_table st_cleaning decide_cleaning
  by unfold_locales (auto simp: decide_defs split: sum.splits if_splits dest!: get_reviewed_run_Inr)

interpretation standardization_reviews: reviewed_table st_standardization decide_standardization
  by unfold_locales (auto simp: decide_defs split: sum.splits if_splits dest!: get_reviewed_run_Inr)

interpretation match_reviews: reviewed_table st_match decide_match
  by unfold_locales (auto simp: decide_defs split: sum.splits if_splits dest!: get_reviewed_run_Inr)

interpretation export_reviews: reviewed_table st_export decide_export
  by unfold_locales (auto simp: decide_defs split: sum.splits if_splits dest!: get_reviewed_run_Inr)

section \<open>Sequences of requests\<close>

text \<open>A request that succeeds, on any of the four tables, or a run that a handler adds.\<close>

inductive review_step :: "store \<Rightarrow> store \<Rightarrow> bool" where
  cleaning: "decide_cleaning tr tid rid u now s = Inr s' \<Longrightarrow> review_step s s'"
| standardization: "decide_standardization tr tid rid u now s = Inr s' \<Longrightarrow> review_step s s'"
| matching: "decide_match tr tid rid u now s = Inr s' \<Longrightarrow> review_step s s'"
| export: "decide_export tr tid rid u now s = Inr s' \<Longrightarrow> review_step s s'"
| new_cleaning: "rv_id r \<notin> rv_id ` set (st_cleaning s) \<Longrightarrow> rv_status r = PendingReview \<Longrightarrow> review_ok r \<Longrightarrow>
    review_step s (s\<lparr>st_cleaning := st_cleaning s @ [r]\<rparr>)"
| new_standardization: "rv_id r \<notin> rv_id ` set (st_standardization s) \<Longrightarrow> rv_status r = PendingReview \<Longrightarrow> review_ok r \<Longrightarrow>
    review_step s (s\<lparr>st_standardization := st_standardization s @ [r]\<rparr>)"
| new_match: "rv_id r \<notin> rv_id ` set (st_match s) \<Longrightarrow> rv_status r = PendingReview \<Longrightarrow> review_ok r \<Longrightarrow>
    review_step s (s\<lparr>st_match := st_match s @ [r]\<rparr>)"
| new_export: "rv_id r \<notin> rv_id ` set (st_export s) \<Longrightarrow> rv_status r = PendingReview \<Longrightarrow> review_ok r \<Longrightarrow>
    review_step s (s\<lparr>st_export := st_export s @ [r]\<rparr>)"

definition store_ok :: "store \<Rightarrow> bool" where
  "store_ok s \<longleftrightarrow> runs_ok (st_cleaning s) \<and> runs_ok (st_standardization s) \<and> runs_ok (st_match s) \<and> runs_ok (st_export s)"

definition store_advances :: "store \<Rightarrow> store \<Rightarrow> bool" where
  "store_advances s s' \<longleftrightarrow> table_advances (st_cleaning s) (st_cleaning s')
     \<and> table_advances (st_standardization s) (st_standardization s')
     \<and> table_advances (st_match s) (st_match s') \<and> table_advances (st_export s) (st_export s')"

lemma decide_others:
  "decide_cleaning tr tid rid u now s = Inr s' \<Longrightarrow>
     st_standardization s' = st_standardization s \<and> st_match s' = st_match s \<and> st_export s' = st_export s"
  "decide_standardization tr tid rid u now s = Inr s' \<Longrightarrow>
     st_cleaning s' = st_cleaning s \<and> st_match s' = st_match s \<and> st_export s' = st_export s"
  "decide_match tr tid rid u now s = Inr s' \<Longrightarrow>
     st_cleaning s' = st_cleaning s \<and> st_standardization s' = st_standardization s \<and> st_export s' = st_export s"
  "decide_export tr tid rid u now s = Inr s' \<Longrightarrow>
     st_cleaning s' = st_cleaning s \<and> st_standardization s' = st_standardization s \<and> st_match s' = st_match s"
  by (auto simp: decide_cleaning_def decide_standardization_def decide_match_def decide_export_def split: sum.splits)

lemma new_run_ok:
  "runs_ok T \<Longrightarrow> rv_id r \<notin> rv_id ` set T \<Longrightarrow> review_ok r \<Longrightarrow> runs_ok (T @ [r]) \<and> table_advances T (T @ [r])"
  by (auto simp: runs_ok_def table_advances_iff nth_append)

lemma review_step_ok: "review_step s s' \<Longrightarrow> store_ok s \<Longrightarrow> store_ok s' \<and> store_advances s s'"
proof (induction rule: review_step.induct)
  case (cleaning tr tid rid u now s s')
  then show ?case using cleaning_reviews.decide_ok decide_others(1) by (auto simp: store_ok_def store_advances_def)
next
  case (standardization tr tid rid u now s s')
  then show ?case using standardization_reviews.decide_ok decide_others(2) by (auto simp: store_ok_def store_advances_def)
next
  case (matching tr tid rid u now s s')
  then show ?case using match_reviews.decide_ok decide_others(3) by (auto simp: store_ok_def store_advances_def)
next
  case (export tr tid rid u now s s')
  then show ?case using export_reviews.decide_ok decide_others(4) by (auto simp: store_ok_def store_advances_def)
qed (simp_all add: store_ok_def store_advances_def new_run_ok)

lemma store_advances_trans: "store_advances s t \<Longrightarrow> store_advances t u \<Longrightarrow> store_advances s u"
  by (auto simp: store_advances_def intro: table_advances_trans)

text \<open>C13: Through any sequence of approvals, rejections, rollbacks and new runs, on all four kinds of
  runs, every run keeps a status that agrees with its time stamps, moves only along the state
  machine (pending to approved or rejected, approved to rolled back, nothing else), and never
  loses or changes who decided it and when.\<close>

theorem reviews_follow_the_machine:
  assumes steps: "review_step\<^sup>*\<^sup>* s s'" and ok: "store_ok s"
  shows "store_ok s' \<and> store_advances s s'"
  using steps
proof (induction rule: rtranclp_induct)
  case base
  then show ?case using ok by (simp add: store_advances_def)
next
  case (step t u)
  then show ?case using review_step_ok store_advances_trans by blast
qed

section \<open>Two requests at once\<close>

definition sample_user :: user where
  "sample_user = \<lparr>us_id = 5, us_org = 0, us_superuser = True, us_full_name = Some ''Ann'', us_email = ''ann@example.org''\<rparr>"

definition sample_cleaning_run :: cleaning_run where
  "sample_cleaning_run =
     \<lparr>rv_id = 20, rv_org = 0, rv_task_run = 2, rv_task = 1, rv_source = 3, rv_upstream = 4, rv_status = PendingReview,
      rv_approved_by = None, rv_approved_at = None, rv_rejected_by = None, rv_rejected_at = None,
      rv_rolled_back_by = None, rv_rolled_back_at = None, ar_path = ''/out/0/2.csv'', ar_sha256 = ''abc'',
      ar_deleted_at = None, cn_row_count = 3, cn_changes = 1, cn_duplicates = 0, cn_confidence = 1,
      cn_post_rows = 3, cn_post_missing = 0, cn_post_duplicates = 0\<rparr>"

definition review_db :: db where
  "review_db =
     \<lparr>tasks = [\<lparr>task_id = 1, task_org = 0, schedule_interval_seconds = None, next_run_at = None, max_attempts = None,
                timeout_seconds = None, is_active = True, task_name = ''clean'', task_type = TRANSFORM, task_source = Some 3\<rparr>],
      task_runs = [\<lparr>tr_id = 2, tr_org = 0, tr_task_id = 1, tr_status = SUCCESS, tr_triggered_by = None,
                    tr_started_at = Some 0, tr_finished_at = Some 9, tr_log_output = None, tr_error_message = None,
                    tr_created_at = 0, tr_idempotency_key = 3, tr_lease_token = None, tr_lease_expires_at = None,
                    tr_last_heartbeat_at = None, tr_attempt_count = 1, tr_next_retry_at = None,
                    tr_source_task_run_id = Some 4\<rparr>],
      events = [], uuid_supply = 10\<rparr>"

definition review_store :: store where
  "review_store =
     \<lparr>st_engine = review_db, st_sources = [], st_cleaning = [sample_cleaning_run], st_standardization = [],
      st_match = [], st_export = [], st_retention_events = [], st_download_events = []\<rparr>"

lemma reviews_follow_the_machine_witness:
  "store_advances review_store
     (review_store\<lparr>st_cleaning := [decide_columns RollBack sample_user 12 (decide_columns Approve sample_user 11 sample_cleaning_run)]\<rparr>)"
proof -
  let ?t = "review_store\<lparr>st_cleaning := [decide_columns Approve sample_user 11 sample_cleaning_run]\<rparr>"
  let ?u = "review_store\<lparr>st_cleaning := [decide_columns RollBack sample_user 12 (decide_columns Approve sample_user 11 sample_cleaning_run)]\<rparr>"
  have "decide_cleaning Approve 1 2 sample_user 11 review_store = Inr ?t" by code_simp
  then have a: "review_step review_store ?t" by (rule review_step.cleaning)
  have "decide_cleaning RollBack 1 2 sample_user 12 ?t = Inr ?u" by code_simp
  then have b: "review_step ?t ?u" by (rule review_step.cleaning)
  have "store_ok review_store"
    by (simp add: store_ok_def runs_ok_def review_ok_def review_store_def sample_cleaning_run_def)
  then show ?thesis using reviews_follow_the_machine[of review_store ?u] a b by (meson converse_rtranclp_into_rtranclp r_into_rtranclp)
qed

text \<open>The check and the write are separate statements, and nothing locks the row in between: of two
  requests that read the same pending run, one approving and one rejecting, both succeed.  The run
  ends rejected with its approval still recorded, a state the machine does not have, and the first
  requester has been told that the run is approved.\<close>

theorem approve_reject_race:
  "(case (check_transition Approve (get_cleaning_run_or_404 review_store 1 2 0),
          check_transition Reject (get_cleaning_run_or_404 review_store 1 2 0)) of
      (Inr a, Inr b) \<Rightarrow>
        (let runs = commit_transition Reject sample_user 12 (rv_id b)
                      (commit_transition Approve sample_user 11 (rv_id a) (st_cleaning review_store))
         in map (\<lambda>r. (rv_status r, rv_approved_at r, rv_rejected_at r, review_ok r)) runs
            = [(Rejected, Some 11, Some 12, False)])
    | _ \<Rightarrow> False)"
  by code_simp

end
