(* ===== verification/Retention.thy ===== *)
theory Retention
  imports ReviewProps
begin

text \<open>
  \<open>app.artifacts.storage\<close> and the retention pass of \<open>app.worker.retention\<close>.

  A disk says which resolved path is a regular file or a directory, and for which paths the
  operating system refuses every operation.  Whether the transaction of an artifact raises when it
  is committed (a database error) is a parameter: then the row and the event are rolled back and the
  deletion is not.  The clock is read once per pass; metrics and log lines are not modelled.
\<close>

section \<open>Artifact storage\<close>

datatype os_error = PermissionError | OtherOSError

datatype file_entry = RegularFile string | Directory

record disk =
  entries :: "path \<Rightarrow> file_entry option"
  faults :: "path \<Rightarrow> os_error option"

definition storage_exists :: "disk \<Rightarrow> path \<Rightarrow> os_error + bool" where
  "storage_exists d p =
     (case faults d p of Some e \<Rightarrow> Inl e
      | None \<Rightarrow> Inr (case entries d p of Some (RegularFile c) \<Rightarrow> True | _ \<Rightarrow> False))"

definition storage_delete :: "path \<Rightarrow> disk \<Rightarrow> (os_error + bool) \<times> disk" where
  "storage_delete p d =
     (case faults d p of
        Some e \<Rightarrow> (Inl e, d)
      | None \<Rightarrow>
          (case entries d p of
             None \<Rightarrow> (Inr False, d)
           | Some Directory \<Rightarrow> (Inl OtherOSError, d)
           | Some (RegularFile c) \<Rightarrow> (Inr True, d\<lparr>entries := (entries d)(p := None)\<rparr>)))"

definition best_effort_size :: "disk \<Rightarrow> path \<Rightarrow> nat option" where
  "best_effort_size d p =
     (if faults d p \<noteq> None then None
      else case entries d p of Some (RegularFile c) \<Rightarrow> Some (length c) | Some Directory \<Rightarrow> Some 0 | None \<Rightarrow> None)"

definition classify_os_error :: "os_error \<Rightarrow> retention_failure" where
  "classify_os_error e = (case e of PermissionError \<Rightarrow> PermissionDenied | OtherOSError \<Rightarrow> FilesystemError)"

section \<open>Eligibility\<close>

definition decision_timestamp :: "'a reviewed_run_scheme \<Rightarrow> time option" where
  "decision_timestamp r =
     (case rv_status r of
        PendingReview \<Rightarrow> None
      | Approved \<Rightarrow> rv_approved_at r
      | Rejected \<Rightarrow> rv_rejected_at r
      | RolledBack \<Rightarrow> rv_rolled_back_at r)"

definition eligible :: "time \<Rightarrow> 'a artifact_run_scheme \<Rightarrow> bool" where
  "eligible cutoff r \<longleftrightarrow> rv_status r \<noteq> PendingReview \<and> ar_deleted_at r = None
     \<and> (case decision_timestamp r of None \<Rightarrow> False | Some t \<Rightarrow> t \<le> cutoff)"

definition next_candidate :: "time \<Rightarrow> nat set \<Rightarrow> 'a artifact_run_scheme table \<Rightarrow> 'a artifact_run_scheme option" where
  "next_candidate cutoff excluded T =
     (case sort_key (\<lambda>r. (the (decision_timestamp r), rv_id r))
             (filter (\<lambda>r. eligible cutoff r \<and> rv_id r \<notin> excluded) T) of
        [] \<Rightarrow> None
      | r # rs \<Rightarrow> Some r)"

section \<open>One artifact\<close>

definition tenant_root :: "path \<Rightarrow> nat \<Rightarrow> path" where
  "tenant_root base org = base @ [show_nat org]"

definition evaluate_and_act ::
  "path \<Rightarrow> bool \<Rightarrow> 'a artifact_run_scheme \<Rightarrow> disk \<Rightarrow>
     (retention_outcome \<times> retention_failure option \<times> nat option \<times> bool) \<times> disk"
where
  "evaluate_and_act base dry_run r d =
     (case resolve_artifact_path (tenant_root base (rv_org r)) (ar_path r) of
        None \<Rightarrow> ((RetentionFailed, Some UnsafePath, None, False), d)
      | Some p \<Rightarrow>
          if dry_run
          then (case storage_exists d p of
                  Inl e \<Rightarrow> ((RetentionFailed, Some (classify_os_error e), None, False), d)
                | Inr present \<Rightarrow>
                    if \<not> present then ((AlreadyMissing, None, None, False), d)
                    else ((Completed, None, best_effort_size d p, False), d))
          else (let bytes = best_effort_size d p in
                case storage_delete p d of
                  (Inl e, d') \<Rightarrow> ((RetentionFailed, Some (classify_os_error e), None, False), d')
                | (Inr deleted, d') \<Rightarrow>
                    if deleted then ((Completed, None, bytes, True), d')
                    else ((AlreadyMissing, None, None, True), d')))"

definition retention_event_of ::
  "artifact_type \<Rightarrow> 'a reviewed_run_scheme \<Rightarrow> retention_outcome \<Rightarrow> retention_failure option \<Rightarrow> bool \<Rightarrow> int
     \<Rightarrow> nat option \<Rightarrow> time \<Rightarrow> retention_event"
where
  "retention_event_of ty r oc failure dry_run days bytes now =
     \<lparr>rt_org = rv_org r, rt_type = ty, rt_run = rv_id r, rt_outcome = oc, rt_failure = failure, rt_dry_run = dry_run,
      rt_window_days = days, rt_size = bytes, rt_completed_at = now\<rparr>"

section \<open>The loop over one table\<close>

record retention_counts =
  rc_purged :: nat
  rc_missing :: nat
  rc_failed :: nat
  rc_would_purge :: nat
  rc_bytes :: nat

definition zero_counts :: retention_counts where
  "zero_counts = \<lparr>rc_purged = 0, rc_missing = 0, rc_failed = 0, rc_would_purge = 0, rc_bytes = 0\<rparr>"

definition candidates_considered :: "retention_counts \<Rightarrow> nat" where
  "candidates_considered c = rc_purged c + rc_missing c + rc_failed c + rc_would_purge c"

definition add_outcome :: "bool \<Rightarrow> retention_outcome \<Rightarrow> nat option \<Rightarrow> retention_counts \<Rightarrow> retention_counts" where
  "add_outcome dry_run oc bytes c =
     (case oc of
        Completed \<Rightarrow>
          if \<not> dry_run
          then c\<lparr>rc_purged := rc_purged c + 1, rc_bytes := rc_bytes c + (case bytes of None \<Rightarrow> 0 | Some n \<Rightarrow> n)\<rparr>
          else c\<lparr>rc_would_purge := rc_would_purge c + 1\<rparr>
      | AlreadyMissing \<Rightarrow> c\<lparr>rc_missing := rc_missing c + 1\<rparr>
      | RetentionFailed \<Rightarrow> c\<lparr>rc_failed := rc_failed c + 1\<rparr>)"

record retention_config =
  rg_type :: artifact_type
  rg_root :: path

record retention_env =
  re_dry_run :: bool
  re_now :: time
  re_window_days :: int
  re_raises :: "artifact_type \<Rightarrow> nat \<Rightarrow> bool"

definition cutoff_of :: "retention_env \<Rightarrow> time" where
  "cutoff_of env = re_now env - re_window_days env * seconds 86400"

record 'r retention_state =
  rs_rows :: "'r table"
  rs_events :: "retention_event list"
  rs_disk :: disk
  rs_counts :: retention_counts

text \<open>The transaction of one candidate: the new state, and whether the candidate is excluded for the
  rest of the pass.\<close>

definition process_candidate ::
  "retention_env \<Rightarrow> retention_config \<Rightarrow> 'a artifact_run_scheme \<Rightarrow> 'a artifact_run_scheme retention_state \<Rightarrow>
     'a artifact_run_scheme retention_state \<times> bool"
where
  "process_candidate env cfg r s =
     (let ((oc, failure, bytes, set_deleted_at), d) = evaluate_and_act (rg_root cfg) (re_dry_run env) r (rs_disk s);
          guard = (\<lambda>x. rv_id x = rv_id r \<and> ar_deleted_at x = None)
      in if set_deleted_at \<and> rowcount guard (rs_rows s) \<noteq> 1 then (s\<lparr>rs_disk := d\<rparr>, True)
         else if re_raises env (rg_type cfg) (rv_id r) then (s\<lparr>rs_disk := d\<rparr>, True)
         else (s\<lparr>rs_disk := d,
                 rs_rows := (if set_deleted_at
                             then update_where guard (\<lambda>x. x\<lparr>ar_deleted_at := Some (re_now env)\<rparr>) (rs_rows s)
                             else rs_rows s),
                 rs_events := rs_events s @ [retention_event_of (rg_type cfg) r oc failure (re_dry_run env)
                                               (re_window_days env) bytes (re_now env)],
                 rs_counts := add_outcome (re_dry_run env) oc bytes (rs_counts s)\<rparr>,
               re_dry_run env \<or> oc = RetentionFailed))"

text \<open>\<open>while attempted < budget\<close>: the new state and the number of attempts.\<close>

fun retention_loop ::
  "retention_env \<Rightarrow> retention_config \<Rightarrow> nat \<Rightarrow> nat set \<Rightarrow> 'a artifact_run_scheme retention_state \<Rightarrow>
     'a artifact_run_scheme retention_state \<times> nat"
where
  "retention_loop env cfg 0 excluded s = (s, 0)"
| "retention_loop env cfg (Suc budget) excluded s =
     (case next_candidate (cutoff_of env) excluded (rs_rows s) of
        None \<Rightarrow> (s, 0)
      | Some r \<Rightarrow>
          (let (s', exclude) = process_candidate env cfg r s;
               (s'', attempted) = retention_loop env cfg budget (if exclude then insert (rv_id r) excluded else excluded) s'
           in (s'', Suc attempted)))"

section \<open>The pass\<close>

record retention_settings =
  output_retention_enabled :: bool
  output_retention_dry_run :: bool
  output_retention_window_days :: int
  retention_claim_batch_size :: nat
  csv_output_root :: path
  csv_standardized_root :: path
  csv_exported_root :: path

record world =
  w_store :: store
  w_disk :: disk

definition process_one_run_type ::
  "retention_env \<Rightarrow> retention_config \<Rightarrow> (store \<Rightarrow> 'a artifact_run_scheme table) \<Rightarrow>
     ('a artifact_run_scheme table \<Rightarrow> store \<Rightarrow> store) \<Rightarrow> nat \<Rightarrow> world \<times> retention_counts \<times> nat \<Rightarrow> world \<times> retention_counts \<times> nat"
where
  "process_one_run_type env cfg get_rows put_rows batch_size acc =
     (let (w, counts, attempted) = acc;
          (s, n) = retention_loop env cfg (batch_size - attempted) {}
                     \<lparr>rs_rows = get_rows (w_store w), rs_events = st_retention_events (w_store w),
                      rs_disk = w_disk w, rs_counts = counts\<rparr>
      in (w\<lparr>w_store := put_rows (rs_rows s) ((w_store w)\<lparr>st_retention_events := rs_events s\<rparr>), w_disk := rs_disk s\<rparr>,
          rs_counts s, attempted + n))"

definition purge_expired_artifacts ::
  "retention_settings \<Rightarrow> time \<Rightarrow> (artifact_type \<Rightarrow> nat \<Rightarrow> bool) \<Rightarrow> nat option \<Rightarrow> bool option \<Rightarrow> world \<Rightarrow>
     world \<times> retention_counts"
where
  "purge_expired_artifacts cfg now raises batch_size dry_run w =
     (if \<not> output_retention_enabled cfg then (w, zero_counts)
      else (let bytes = (case batch_size of None \<Rightarrow> retention_claim_batch_size cfg | Some n \<Rightarrow> n);
                env = \<lparr>re_dry_run = (case dry_run of None \<Rightarrow> output_retention_dry_run cfg | Some b \<Rightarrow> b), re_now = now,
                       re_window_days = output_retention_window_days cfg, re_raises = raises\<rparr>;
                acc1 = process_one_run_type env \<lparr>rg_type = CleaningArtifact, rg_root = csv_output_root cfg\<rparr>
                         st_cleaning (\<lambda>rows. st_cleaning_update (\<lambda>_. rows)) bytes (w, zero_counts, 0);
                acc2 = process_one_run_type env \<lparr>rg_type = StandardizationArtifact, rg_root = csv_standardized_root cfg\<rparr>
                         st_standardization (\<lambda>rows. st_standardization_update (\<lambda>_. rows)) bytes acc1;
                acc3 = process_one_run_type env \<lparr>rg_type = ExportArtifact, rg_root = csv_exported_root cfg\<rparr>
                         st_export (\<lambda>rows. st_export_update (\<lambda>_. rows)) bytes acc2
            in (fst acc3, fst (snd acc3))))"

text \<open>The backlog that the metrics show: how many artifacts are eligible, and the oldest decision.\<close>

definition backlog_of :: "time \<Rightarrow> 'a artifact_run_scheme table \<Rightarrow> time list" where
  "backlog_of cutoff T = map (\<lambda>r. the (decision_timestamp r)) (filter (eligible cutoff) T)"

definition compute_backlog_snapshot :: "store \<Rightarrow> time \<Rightarrow> time \<Rightarrow> nat \<times> time" where
  "compute_backlog_snapshot s cutoff now =
     (let ts = backlog_of cutoff (st_cleaning s) @ backlog_of cutoff (st_standardization s) @ backlog_of cutoff (st_export s)
      in (length ts, if ts = [] then 0 else max 0 (now - Min (set ts))))"

end
