(* ===== verification/Download.thy ===== *)
theory Download
  imports Retention
begin

text \<open>
  Downloading an artifact: \<open>app.artifacts.download\<close>, \<open>_download_artifact\<close> of \<open>app.api.tasks\<close> with its
  audit row, and the three endpoints.

  SHA-256 (\<open>hashlib\<close>) is a parameter.  The open descriptor is the content that it reads; the two reads
  of a download go through one descriptor, so they see one content.  The response is a generator that
  the server drives after the endpoint has returned; what the server does with it is a parameter:
  it exhausts it, or it takes a number of chunks and closes it.  A generator that is closed before its first step
  runs none of its body, its \<open>finally\<close> included.
\<close>

section \<open>Opening and streaming\<close>

datatype artifact_error = ArtifactMissing download_failure | ArtifactIntegrity

definition open_verified_artifact :: "(string \<Rightarrow> string) \<Rightarrow> disk \<Rightarrow> path \<Rightarrow> string \<Rightarrow> artifact_error + string" where
  "open_verified_artifact sha256 d p expected =
     (if faults d p \<noteq> None then Inl (ArtifactMissing IoError)
      else case entries d p of
             None \<Rightarrow> Inl (ArtifactMissing NoSuchFile)
           | Some Directory \<Rightarrow> Inl (ArtifactMissing NotARegularFile)
           | Some (RegularFile content) \<Rightarrow> if sha256 content \<noteq> expected then Inl ArtifactIntegrity else Inr content)"

definition ARTIFACT_DOWNLOAD_CHUNK_SIZE_BYTES :: nat where
  "ARTIFACT_DOWNLOAD_CHUNK_SIZE_BYTES = 65536"

text \<open>\<open>read\<close> until it returns nothing.\<close>

function chunks_of :: "nat \<Rightarrow> string \<Rightarrow> string list" where
  "chunks_of n s = (if n = 0 \<or> s = [] then [] else take n s # chunks_of n (drop n s))"
  by pat_completeness auto

termination chunks_of
  by (relation "measure (\<lambda>(n, s). length s)") auto

declare chunks_of.simps [simp del]

definition iter_artifact_chunks :: "string \<Rightarrow> string list" where
  "iter_artifact_chunks content = chunks_of ARTIFACT_DOWNLOAD_CHUNK_SIZE_BYTES content"

definition artifact_type_name :: "artifact_type \<Rightarrow> string" where
  "artifact_type_name ty =
     (case ty of CleaningArtifact \<Rightarrow> ''cleaning'' | StandardizationArtifact \<Rightarrow> ''standardization'' | ExportArtifact \<Rightarrow> ''export'')"

definition safe_download_filename :: "artifact_type \<Rightarrow> nat \<Rightarrow> string" where
  "safe_download_filename ty rid = artifact_type_name ty @ ''-'' @ show_nat rid @ ''.csv''"

section \<open>The audit row\<close>

definition finalize_download_event ::
  "nat \<Rightarrow> download_outcome \<Rightarrow> download_failure option \<Rightarrow> string option \<Rightarrow> nat option \<Rightarrow> time \<Rightarrow> store \<Rightarrow> store"
where
  "finalize_download_event eid oc failure sha bytes now s =
     s\<lparr>st_download_events := update_where (\<lambda>e. dn_id e = eid)
          (\<lambda>e. e\<lparr>dn_outcome := oc, dn_failure := failure,
                 dn_sha256 := (case sha of None \<Rightarrow> dn_sha256 e | Some h \<Rightarrow> Some h),
                 dn_bytes := (case bytes of None \<Rightarrow> dn_bytes e | Some n \<Rightarrow> n), dn_completed_at := Some now\<rparr>)
          (st_download_events s)\<rparr>"

definition started_event :: "nat \<Rightarrow> user \<Rightarrow> artifact_type \<Rightarrow> 'a reviewed_run_scheme \<Rightarrow> download_event" where
  "started_event eid u ty r =
     \<lparr>dn_id = eid, dn_org = us_org u, dn_type = ty, dn_run = rv_id r, dn_user = us_id u, dn_status = rv_status r,
      dn_outcome = DownloadStarted, dn_failure = None, dn_sha256 = None, dn_bytes = 0, dn_completed_at = None\<rparr>"

definition add_download_event :: "download_event \<Rightarrow> store \<Rightarrow> store" where
  "add_download_event e s = s\<lparr>st_download_events := st_download_events s @ [e]\<rparr>"

section \<open>The response\<close>

record download_response =
  rs_filename :: string
  rs_content_length :: nat
  rs_run_status :: review_status
  rs_event :: nat
  rs_body :: string

definition artifact_root :: "retention_settings \<Rightarrow> artifact_type \<Rightarrow> path" where
  "artifact_root cfg ty =
     (case ty of CleaningArtifact \<Rightarrow> csv_output_root cfg | StandardizationArtifact \<Rightarrow> csv_standardized_root cfg
      | ExportArtifact \<Rightarrow> csv_exported_root cfg)"

definition download_artifact ::
  "(string \<Rightarrow> string) \<Rightarrow> retention_settings \<Rightarrow> bool \<Rightarrow> nat \<Rightarrow> time \<Rightarrow> user \<Rightarrow> artifact_type \<Rightarrow> 'a artifact_run_scheme \<Rightarrow>
     disk \<Rightarrow> store \<Rightarrow> (http_error + download_response) \<times> store"
where
  "download_artifact sha256 cfg fstat_fails eid now u ty r d s =
     (if rv_status r \<noteq> Approved \<and> rv_status r \<noteq> RolledBack then (Inl Conflict, s)
      else if ar_deleted_at r \<noteq> None
      then (Inl Gone, add_download_event ((started_event eid u ty r)\<lparr>dn_outcome := Purged, dn_completed_at := Some now\<rparr>) s)
      else case resolve_artifact_path (tenant_root (artifact_root cfg ty) (us_org u)) (ar_path r) of
             None \<Rightarrow> (Inl NotFound, s)
           | Some p \<Rightarrow>
               (let s1 = add_download_event (started_event eid u ty r) s in
                case open_verified_artifact sha256 d p (ar_sha256 r) of
                  Inl (ArtifactMissing reason) \<Rightarrow>
                    (Inl NotFound, finalize_download_event eid FileMissing (Some reason) None None now s1)
                | Inl ArtifactIntegrity \<Rightarrow>
                    (Inl ServerError, finalize_download_event eid IntegrityFailed (Some HashMismatch) None None now s1)
                | Inr content \<Rightarrow>
                    (if fstat_fails
                     then (Inl ServerError,
                           finalize_download_event eid StreamFailed (Some IoError) (Some (ar_sha256 r)) (Some 0) now s1)
                     else (Inr \<lparr>rs_filename = safe_download_filename ty (rv_id r), rs_content_length = length content,
                                rs_run_status = rv_status r, rs_event = eid, rs_body = content\<rparr>, s1))))"

text \<open>\<open>_stream\<close>: how many chunks the server takes before it closes the generator, or \<open>None\<close> when it
  exhausts it.  The result is the bytes that left and the new store.\<close>

definition stream_body :: "nat option \<Rightarrow> string \<Rightarrow> time \<Rightarrow> download_response \<Rightarrow> store \<Rightarrow> string \<times> store" where
  "stream_body taken sha now resp s =
     (let chunks = iter_artifact_chunks (rs_body resp) in
      case taken of
        None \<Rightarrow> (concat chunks,
                 finalize_download_event (rs_event resp) DownloadCompleted None (Some sha) (Some (length (concat chunks))) now s)
      | Some k \<Rightarrow>
          if k = 0 then ([], s)
          else if length chunks < k
          then (concat chunks,
                finalize_download_event (rs_event resp) DownloadCompleted None (Some sha) (Some (length (concat chunks))) now s)
          else (concat (take k chunks),
                finalize_download_event (rs_event resp) StreamFailed (Some StreamInterrupted) (Some sha)
                  (Some (length (concat (take k chunks)))) now s))"

section \<open>Endpoints\<close>

definition download_task_run_cleaning ::
  "(string \<Rightarrow> string) \<Rightarrow> retention_settings \<Rightarrow> bool \<Rightarrow> nat \<Rightarrow> time \<Rightarrow> nat \<Rightarrow> nat \<Rightarrow> user \<Rightarrow> world \<Rightarrow>
     (http_error + download_response) \<times> store"
where
  "download_task_run_cleaning sha256 cfg fstat_fails eid now tid rid u w =
     (case get_cleaning_run_or_404 (w_store w) tid rid (us_org u) of
        Inl e \<Rightarrow> (Inl e, w_store w)
      | Inr r \<Rightarrow> download_artifact sha256 cfg fstat_fails eid now u CleaningArtifact r (w_disk w) (w_store w))"

definition download_task_run_standardization ::
  "(string \<Rightarrow> string) \<Rightarrow> retention_settings \<Rightarrow> bool \<Rightarrow> nat \<Rightarrow> time \<Rightarrow> nat \<Rightarrow> nat \<Rightarrow> user \<Rightarrow> world \<Rightarrow>
     (http_error + download_response) \<times> store"
where
  "download_task_run_standardization sha256 cfg fstat_fails eid now tid rid u w =
     (case get_standardization_run_or_404 (w_store w) tid rid (us_org u) of
        Inl e \<Rightarrow> (Inl e, w_store w)
      | Inr r \<Rightarrow> download_artifact sha256 cfg fstat_fails eid now u StandardizationArtifact r (w_disk w) (w_store w))"

definition download_task_run_export ::
  "(string \<Rightarrow> string) \<Rightarrow> retention_settings \<Rightarrow> bool \<Rightarrow> nat \<Rightarrow> time \<Rightarrow> nat \<Rightarrow> nat \<Rightarrow> user \<Rightarrow> world \<Rightarrow>
     (http_error + download_response) \<times> store"
where
  "download_task_run_export sha256 cfg fstat_fails eid now tid rid u w =
     (case get_export_run_or_404 (w_store w) tid rid (us_org u) of
        Inl e \<Rightarrow> (Inl e, w_store w)
      | Inr r \<Rightarrow> download_artifact sha256 cfg fstat_fails eid now u ExportArtifact r (w_disk w) (w_store w))"

end
