(* ===== verification/Transform.thy ===== *)
theory Transform
  imports Pipeline Profiling Export Download
begin

text \<open>
  The output chain: the handlers \<open>CsvProfilingHandler\<close>, \<open>CleaningHandler\<close>, \<open>StandardizationHandler\<close>,
  \<open>MatchHandler\<close> and \<open>ExportHandler\<close> of \<open>app.worker.handlers\<close>, over the review store, the disk and the
  tables that only they use.

  A handler reads rows and files and computes (\<open>_prepare\<close>), writes its output file (\<open>write_output\<close>),
  and writes its rows in one transaction (\<open>_commit\<close>); \<open>_execute\<close> is the three on one state.  They are
  separate because other workers, reviewers and the retention pass run in between.  The database
  refuses a second run of one task run, and texts longer than their column (PostgreSQL's
  \<open>varchar(n)\<close>).  Answers are the id of the run row.  Rows come in the order of their insertion.
\<close>

section \<open>Tables\<close>

record data_profile = profile_row +
  pf_task :: nat
  pf_source :: nat
  pf_sha256 :: string
  pf_profile :: profile_result

record cleaning_change_row =
  cc_org :: nat
  cc_run :: nat
  cc_change :: cleaning_change

record standardization_change_row =
  sc_org :: nat
  sc_run :: nat
  sc_change :: change

record stored_group =
  sg_org :: nat
  sg_run :: nat
  sg_confidence :: rat
  sg_row :: group_row

record stored_decision =
  sd_org :: nat
  sd_run :: nat
  sd_decision :: decision
  sd_row :: match_decision_row

record stored_block =
  sk_org :: nat
  sk_run :: nat
  sk_block :: skipped_block

record stored_exclusion =
  xr_org :: nat
  xr_run :: nat
  xr_exclusion :: row_exclusion

record column_mapping =
  cm_org :: nat
  cm_source :: "nat option"
  cm_active :: bool
  cm_column :: string
  cm_field_type :: field_type

record lookup_entry =
  le_org :: nat
  le_field_type :: "field_type option"
  le_active :: bool
  le_key :: string
  le_value :: string

record match_rule_set =
  rs_set_id :: nat
  rs_org :: nat
  rs_source :: "nat option"
  rs_active :: bool
  rs_version :: nat
  rs_duplicate :: rat
  rs_review :: rat

record match_rule_field =
  rf_id :: nat
  rf_rule_set :: nat
  rf_created_at :: time
  rf_field :: rule_field

record workspace =
  wk_world :: world
  wk_supply :: nat
  wk_profiles :: "data_profile table"
  wk_cleaning_changes :: "cleaning_change_row list"
  wk_standardization_changes :: "standardization_change_row list"
  wk_groups :: "stored_group list"
  wk_decisions :: "stored_decision list"
  wk_skipped :: "stored_block list"
  wk_exclusions :: "stored_exclusion list"
  wk_mappings :: "column_mapping list"
  wk_lookups :: "lookup_entry list"
  wk_rule_sets :: "match_rule_set list"
  wk_rule_fields :: "match_rule_field list"

abbreviation wk_store :: "workspace \<Rightarrow> store" where
  "wk_store w \<equiv> w_store (wk_world w)"

abbreviation wk_disk :: "workspace \<Rightarrow> disk" where
  "wk_disk w \<equiv> w_disk (wk_world w)"

definition set_store :: "(store \<Rightarrow> store) \<Rightarrow> workspace \<Rightarrow> workspace" where
  "set_store f w = w\<lparr>wk_world := (wk_world w)\<lparr>w_store := f (wk_store w)\<rparr>\<rparr>"

record 'd output_env =
  oe_handler :: "'d handler_env"
  oe_roots :: retention_settings
  oe_max_cleaning :: nat
  oe_max_standardization :: nat
  oe_match_limits :: match_limits
  oe_export_limits :: export_limits

section \<open>Files\<close>

definition disk_file :: "disk \<Rightarrow> path \<Rightarrow> string option" where
  "disk_file d p = (case entries d p of Some (RegularFile c) \<Rightarrow> Some c | _ \<Rightarrow> None)"

definition input_env :: "'d output_env \<Rightarrow> disk \<Rightarrow> 'd handler_env" where
  "input_env env d = (oe_handler env)\<lparr>he_files := disk_file d\<rparr>"

text \<open>\<open>load_csv(Path(output_file_path))\<close>: no containment check, and the operating system's errors are not caught.\<close>

definition load_output :: "'d output_env \<Rightarrow> disk \<Rightarrow> string \<Rightarrow> handler_error + loaded_csv" where
  "load_output env d text =
     (let p = resolve_from [] (path_parts text) in
      if faults d p \<noteq> None then Inl FileSystemError
      else case entries d p of
             None \<Rightarrow> Inl FileSystemError
           | Some Directory \<Rightarrow> Inl FileSystemError
           | Some (RegularFile c) \<Rightarrow>
               (case load_csv (he_sniff (oe_handler env)) (he_limits (oe_handler env)) c of
                  Inl e \<Rightarrow> permanent (SourceNotLoadable (BadCsv e))
                | Inr l \<Rightarrow> Inr l))"

text \<open>\<open>output_dir / f"{task_run.id}.csv"\<close>, created with its parents.\<close>

definition output_path :: "path \<Rightarrow> nat \<Rightarrow> nat \<Rightarrow> path" where
  "output_path base org rid = tenant_root base org @ [show_nat rid @ ''.csv'']"

definition write_output :: "path \<Rightarrow> string \<Rightarrow> workspace \<Rightarrow> handler_error + workspace" where
  "write_output p content w =
     (if faults (wk_disk w) p \<noteq> None \<or> entries (wk_disk w) p = Some Directory then Inl FileSystemError
      else Inr (w\<lparr>wk_world := (wk_world w)\<lparr>w_disk := (wk_disk w)\<lparr>entries := (entries (wk_disk w))(p \<mapsto> RegularFile content)\<rparr>\<rparr>\<rparr>))"

text \<open>What a handler that writes a file does with the result of its first half.\<close>

definition write_and_commit ::
  "(workspace \<Rightarrow> handler_error + (nat + 'p)) \<Rightarrow> ('p \<Rightarrow> path) \<Rightarrow> ('p \<Rightarrow> string) \<Rightarrow>
     ('p \<Rightarrow> workspace \<Rightarrow> (handler_error + nat) \<times> workspace) \<Rightarrow> workspace \<Rightarrow> (handler_error + nat) \<times> workspace"
where
  "write_and_commit prepare target content commit w =
     (case prepare w of
        Inl e \<Rightarrow> (Inl e, w)
      | Inr (Inl rid) \<Rightarrow> (Inr rid, w)
      | Inr (Inr p) \<Rightarrow> (case write_output (target p) (content p) w of Inl e \<Rightarrow> (Inl e, w) | Inr w' \<Rightarrow> commit p w'))"

section \<open>Rows\<close>

text \<open>The columns that every new run of the chain has.\<close>

definition new_run :: "exec_context \<Rightarrow> nat \<Rightarrow> nat \<Rightarrow> reviewed_run" where
  "new_run cx source upstream =
     \<lparr>rv_id = 0, rv_org = tr_org (cx_run cx), rv_task_run = tr_id (cx_run cx), rv_task = task_id (cx_task cx),
      rv_source = source, rv_upstream = upstream, rv_status = PendingReview, rv_approved_by = None, rv_approved_at = None,
      rv_rejected_by = None, rv_rejected_at = None, rv_rolled_back_by = None, rv_rolled_back_at = None\<rparr>"

definition new_artifact :: "exec_context \<Rightarrow> nat \<Rightarrow> nat \<Rightarrow> path \<Rightarrow> string \<Rightarrow> artifact_run" where
  "new_artifact cx source upstream p sha =
     reviewed_run.extend (new_run cx source upstream)
       (artifact_run.fields (path_text p) sha None)"

text \<open>A text in a \<open>varchar(n)\<close> column.\<close>

definition fits :: "nat \<Rightarrow> string \<Rightarrow> bool" where
  "fits n s \<longleftrightarrow> py_len s \<le> n"

text \<open>The answer to \<open>UNIQUE(task_run_id)\<close>: the run that is there, by the second query of the handler.\<close>

definition refetch :: "'a reviewed_run_scheme table \<Rightarrow> nat \<Rightarrow> handler_error + nat" where
  "refetch runs rid =
     and_then (one_or_none (filter (\<lambda>r. rv_task_run r = rid) runs))
       (\<lambda>x. case x of None \<Rightarrow> Inl IntegrityError | Some r \<Rightarrow> Inr (rv_id r))"

definition csv_source :: "exec_context \<Rightarrow> handler_error + data_source" where
  "csv_source cx =
     and_then (required NoDataSource (cx_source cx))
       (\<lambda>src. if so_type src \<noteq> CSV_UPLOAD then permanent UnsupportedSourceType else Inr src)"

text \<open>The upstream run, of the same organization and approved.\<close>

definition approved_upstream :: "nat \<Rightarrow> nat \<Rightarrow> 'a reviewed_run_scheme table \<Rightarrow> handler_error + 'a reviewed_run_scheme" where
  "approved_upstream upstream org runs =
     and_then (one_row NoUpstreamRun (filter (\<lambda>r. rv_task_run r = upstream \<and> rv_org r = org) runs))
       (\<lambda>r. if rv_status r \<noteq> Approved then permanent UpstreamNotApproved else Inr r)"

definition existing_run :: "nat \<Rightarrow> 'a reviewed_run_scheme table \<Rightarrow> handler_error + 'a reviewed_run_scheme option" where
  "existing_run rid runs = one_or_none (filter (\<lambda>r. rv_task_run r = rid) runs)"

end
