(* ===== verification/OutputHandlers.thy ===== *)
theory OutputHandlers
  imports Transform
begin

text \<open>
  The five handlers of the output chain.
\<close>

section \<open>Profiling\<close>

definition profile_prepare :: "'d output_env \<Rightarrow> exec_context \<Rightarrow> workspace \<Rightarrow> handler_error + (nat + data_profile)" where
  "profile_prepare env cx w =
     and_then (csv_source cx) (\<lambda>src.
     and_then (read_source (input_env env (wk_disk w)) (so_org src) src) (\<lambda>(l, digest).
     and_then (one_or_none (filter (\<lambda>r. pf_task_run r = tr_id (cx_run cx)) (wk_profiles w))) (\<lambda>existing.
     case existing of
       Some r \<Rightarrow> Inr (Inl (pf_id r))
     | None \<Rightarrow>
         (let p = profile_csv (he_oracles (oe_handler env)) (he_limits (oe_handler env)) (ld_headers l) (ld_rows l) (ld_issues l)
          in Inr (Inr \<lparr>pf_id = 0, pf_org = tr_org (cx_run cx), pf_task_run = tr_id (cx_run cx), pf_rows = pr_row_count p,
                      pf_columns = pr_column_count p, pf_duplicates = pr_duplicates p, pf_missing = pr_missing p,
                      pf_task = task_id (cx_task cx), pf_source = so_id src, pf_sha256 = digest, pf_profile = p\<rparr>)))))"

definition profile_commit :: "data_profile \<Rightarrow> workspace \<Rightarrow> (handler_error + nat) \<times> workspace" where
  "profile_commit p w =
     (case filter (\<lambda>r. pf_task_run r = pf_task_run p) (wk_profiles w) of
        [] \<Rightarrow> (Inr (wk_supply w), w\<lparr>wk_supply := Suc (wk_supply w), wk_profiles := wk_profiles w @ [p\<lparr>pf_id := wk_supply w\<rparr>]\<rparr>)
      | [r] \<Rightarrow> (Inr (pf_id r), w)
      | _ \<Rightarrow> (Inl MultipleRows, w))"

definition profile_execute :: "'d output_env \<Rightarrow> exec_context \<Rightarrow> workspace \<Rightarrow> (handler_error + nat) \<times> workspace" where
  "profile_execute env cx w =
     (case profile_prepare env cx w of
        Inl e \<Rightarrow> (Inl e, w)
      | Inr (Inl rid) \<Rightarrow> (Inr rid, w)
      | Inr (Inr p) \<Rightarrow> profile_commit p w)"

section \<open>Cleaning\<close>

record ('r, 'c) output_job =
  jb_run :: 'r
  jb_children :: 'c
  jb_path :: path
  jb_content :: string

definition cleaning_prepare ::
  "'d output_env \<Rightarrow> exec_context \<Rightarrow> workspace \<Rightarrow> handler_error + (nat + (cleaning_run, cleaning_change list) output_job)"
where
  "cleaning_prepare env cx w =
     and_then (csv_source cx) (\<lambda>src.
     and_then (required NoSourceTaskRunId (tr_source_task_run_id (cx_run cx))) (\<lambda>upstream.
     and_then (required NoFilePath (so_file_path src)) (\<lambda>text.
     and_then (one_row NoUpstreamRun
         (filter (\<lambda>r. pf_task_run r = upstream \<and> pf_org r = tr_org (cx_run cx)) (wk_profiles w))) (\<lambda>profile.
     and_then (existing_run (tr_id (cx_run cx)) (st_cleaning (wk_store w))) (\<lambda>existing.
     case existing of
       Some r \<Rightarrow> Inr (Inl (rv_id r))
     | None \<Rightarrow>
         (case load_source (input_env env (wk_disk w)) (so_org src) text of
            Inl e \<Rightarrow> permanent (SourceNotLoadable e)
          | Inr (l, digest) \<Rightarrow>
              let columns = pr_columns (pf_profile profile); oracles = he_oracles (oe_handler env) in
              if length columns \<noteq> length (ld_headers l) then permanent ColumnsChanged
              else (case clean oracles (ld_rows l) (ld_headers l) (map cp_inferred_type columns) (oe_max_cleaning env) of
                      None \<Rightarrow> Inl EngineError
                    | Some r \<Rightarrow>
                        let content = serialize_csv (ld_headers l) (cleaned_rows r);
                            p = output_path (csv_output_root (oe_roots env)) (so_org src) (tr_id (cx_run cx));
                            post = profile_csv oracles (he_limits (oe_handler env)) (ld_headers l) (cleaned_rows r) []
                        in Inr (Inr \<lparr>jb_run = artifact_run.extend
                                        (new_artifact cx (so_id src) upstream p (he_sha256 (oe_handler env) content))
                                        (cleaning_run.fields (length (cleaned_rows r)) (cl_total_changes r)
                                          (cl_duplicate_rows r) (cl_confidence_score r) (pr_row_count post)
                                          (pr_missing post) (pr_duplicates post)),
                                    jb_children = cl_changes r, jb_path = p, jb_content = content\<rparr>))))))))"

definition cleaning_commit ::
  "(cleaning_run, cleaning_change list) output_job \<Rightarrow> workspace \<Rightarrow> (handler_error + nat) \<times> workspace"
where
  "cleaning_commit job w =
     (let run = jb_run job; rid = wk_supply w in
      if filter (\<lambda>r. rv_task_run r = rv_task_run run) (st_cleaning (wk_store w)) \<noteq> []
      then (refetch (st_cleaning (wk_store w)) (rv_task_run run), w)
      else if list_ex (\<lambda>c. \<not> fits 255 (cl_column c)) (jb_children job) then (Inl DataError, w)
      else (Inr rid,
            (set_store (\<lambda>s. s\<lparr>st_cleaning := st_cleaning s @ [run\<lparr>rv_id := rid\<rparr>]\<rparr>) w)
              \<lparr>wk_supply := Suc rid,
               wk_cleaning_changes := wk_cleaning_changes w
                 @ map (\<lambda>c. \<lparr>cc_org = rv_org run, cc_run = rid, cc_change = c\<rparr>) (jb_children job)\<rparr>))"

definition cleaning_execute :: "'d output_env \<Rightarrow> exec_context \<Rightarrow> workspace \<Rightarrow> (handler_error + nat) \<times> workspace" where
  "cleaning_execute env cx = write_and_commit (cleaning_prepare env cx) jb_path jb_content cleaning_commit"

section \<open>Standardization\<close>

text \<open>Organization-wide mappings first, the first of a key winning; then those of the source, the last winning.\<close>

definition load_column_overrides :: "workspace \<Rightarrow> nat \<Rightarrow> nat \<Rightarrow> string \<Rightarrow> field_type option" where
  "load_column_overrides w org source =
     (let active = filter (\<lambda>m. cm_org m = org \<and> cm_active m) (wk_mappings w);
          entry = (\<lambda>m. (lower (strip (cm_column m)), cm_field_type m))
      in map_of (map entry (filter (\<lambda>m. cm_source m = None) active))
         ++ map_of (rev (map entry (filter (\<lambda>m. cm_source m = Some source) active))))"

definition load_lookup_tables :: "workspace \<Rightarrow> nat \<Rightarrow> lookup_tables" where
  "load_lookup_tables w org =
     (let active = filter (\<lambda>e. le_org e = org \<and> le_active e) (wk_lookups w);
          entries_of = (\<lambda>ft. map_of (rev (map (\<lambda>e. (lower (strip (le_key e)), le_value e))
                          (filter (\<lambda>e. le_field_type e = ft) active))))
      in \<lparr>scoped = (\<lambda>ft. entries_of (Some ft)), global_lookup = entries_of None\<rparr>)"

definition default_std_config :: std_config where
  "default_std_config =
     \<lparr>default_country = None, default_currency = None, date_output_format = None, boolean_output_form = None,
      numeric_locale = None\<rparr>"

definition standardization_prepare ::
  "'d output_env \<Rightarrow> exec_context \<Rightarrow> workspace \<Rightarrow> handler_error + (nat + (standardization_run, change list) output_job)"
where
  "standardization_prepare env cx w =
     and_then (csv_source cx) (\<lambda>src.
     and_then (required NoSourceTaskRunId (tr_source_task_run_id (cx_run cx))) (\<lambda>upstream.
     and_then (approved_upstream upstream (tr_org (cx_run cx)) (st_cleaning (wk_store w))) (\<lambda>cleaning.
     and_then (existing_run (tr_id (cx_run cx)) (st_standardization (wk_store w))) (\<lambda>existing.
     case existing of
       Some r \<Rightarrow> Inr (Inl (rv_id r))
     | None \<Rightarrow>
         and_then (load_output env (wk_disk w) (ar_path cleaning)) (\<lambda>l.
           let org = tr_org (cx_run cx);
               types = classify_columns (load_column_overrides w org (so_id src)) (ld_headers l);
               r = standardize (he_oracles (oe_handler env)) (ld_rows l) (ld_headers l) types (load_lookup_tables w org)
                     default_std_config (oe_max_standardization env);
               content = serialize_csv (ld_headers l) (standardized_rows r);
               p = output_path (csv_standardized_root (oe_roots env)) (so_org src) (tr_id (cx_run cx))
           in Inr (Inr \<lparr>jb_run = artifact_run.extend
                           (new_artifact cx (so_id src) upstream p (he_sha256 (oe_handler env) content))
                           (standardization_run.fields (length (standardized_rows r)) (std_total_changes r) (std_confidence r)),
                       jb_children = std_changes r, jb_path = p, jb_content = content\<rparr>))))))"

definition standardization_commit ::
  "(standardization_run, change list) output_job \<Rightarrow> workspace \<Rightarrow> (handler_error + nat) \<times> workspace"
where
  "standardization_commit job w =
     (let run = jb_run job; rid = wk_supply w in
      if filter (\<lambda>r. rv_task_run r = rv_task_run run) (st_standardization (wk_store w)) \<noteq> []
      then (refetch (st_standardization (wk_store w)) (rv_task_run run), w)
      else if list_ex (\<lambda>c. \<not> fits 255 (ch_column c)) (jb_children job) then (Inl DataError, w)
      else (Inr rid,
            (set_store (\<lambda>s. s\<lparr>st_standardization := st_standardization s @ [run\<lparr>rv_id := rid\<rparr>]\<rparr>) w)
              \<lparr>wk_supply := Suc rid,
               wk_standardization_changes := wk_standardization_changes w
                 @ map (\<lambda>c. \<lparr>sc_org = rv_org run, sc_run = rid, sc_change = c\<rparr>) (jb_children job)\<rparr>))"

definition standardization_execute :: "'d output_env \<Rightarrow> exec_context \<Rightarrow> workspace \<Rightarrow> (handler_error + nat) \<times> workspace" where
  "standardization_execute env cx =
     write_and_commit (standardization_prepare env cx) jb_path jb_content standardization_commit"

section \<open>Matching\<close>

text \<open>\<open>next(r for r in rows if \<dots>)\<close> of the source, else of the organization.\<close>

definition load_rule_set :: "workspace \<Rightarrow> nat \<Rightarrow> nat \<Rightarrow> match_rule_set option \<times> rule_set option" where
  "load_rule_set w org source =
     (let active = filter (\<lambda>r. rs_org r = org \<and> rs_active r) (wk_rule_sets w);
          row = (case filter (\<lambda>r. rs_source r = Some source) active of
                   r # _ \<Rightarrow> Some r
                 | [] \<Rightarrow> (case filter (\<lambda>r. rs_source r = None) active of r # _ \<Rightarrow> Some r | [] \<Rightarrow> None))
      in case row of
           None \<Rightarrow> (None, None)
         | Some r \<Rightarrow>
             (let fields = sort_key (\<lambda>f. (rf_created_at f, rf_id f)) (filter (\<lambda>f. rf_rule_set f = rs_set_id r) (wk_rule_fields w))
              in if fields = [] then (Some r, None)
                 else (Some r, Some \<lparr>ms_duplicate_threshold = rs_duplicate r, ms_review_threshold = rs_review r,
                                     ms_fields = map rf_field fields\<rparr>)))"

definition match_prepare ::
  "'d output_env \<Rightarrow> exec_context \<Rightarrow> workspace \<Rightarrow> handler_error + (nat + match_run \<times> match_result)"
where
  "match_prepare env cx w =
     and_then (csv_source cx) (\<lambda>src.
     and_then (required NoSourceTaskRunId (tr_source_task_run_id (cx_run cx))) (\<lambda>upstream.
     and_then (approved_upstream upstream (tr_org (cx_run cx)) (st_standardization (wk_store w))) (\<lambda>standardization.
     and_then (existing_run (tr_id (cx_run cx)) (st_match (wk_store w))) (\<lambda>existing.
     case existing of
       Some r \<Rightarrow> Inr (Inl (rv_id r))
     | None \<Rightarrow>
         and_then (load_output env (wk_disk w) (ar_path standardization)) (\<lambda>l.
           case load_rule_set w (tr_org (cx_run cx)) (so_id src) of (row, config) \<Rightarrow>
             (case match_rows (ld_rows l) (ld_headers l) config (oe_match_limits env) of
                None \<Rightarrow> Inl EngineError
              | Some r \<Rightarrow>
                  Inr (Inr (reviewed_run.extend (new_run cx (so_id src) upstream)
                              (match_run.fields (map_option rs_set_id row) (mr_row_count r) (mr_group_count r)
                                (mr_confidence r)), r))))))))"

definition match_commit :: "match_run \<times> match_result \<Rightarrow> workspace \<Rightarrow> (handler_error + nat) \<times> workspace" where
  "match_commit p w =
     (let (run, r) = p; rid = wk_supply w; ids = [Suc rid ..< Suc rid + length (mr_groups r)]; org = rv_org run in
      if filter (\<lambda>x. rv_task_run x = rv_task_run run) (st_match (wk_store w)) \<noteq> []
      then (refetch (st_match (wk_store w)) (rv_task_run run), w)
      else if list_ex (\<lambda>d. case d_blocking_key d of None \<Rightarrow> False | Some k \<Rightarrow> \<not> fits 500 k) (mr_decisions r)
              \<or> list_ex (\<lambda>b. \<not> fits 500 (sb_key b)) (mr_skipped_blocks r) then (Inl DataError, w)
      else (Inr rid,
            (set_store (\<lambda>s. s\<lparr>st_match := st_match s @ [run\<lparr>rv_id := rid\<rparr>]\<rparr>) w)
              \<lparr>wk_supply := Suc rid + length (mr_groups r),
               wk_groups := wk_groups w
                 @ map (\<lambda>(g, x). \<lparr>sg_org = org, sg_run = rid, sg_confidence = g_confidence g, sg_row = x\<rparr>)
                     (zip (mr_groups r) (persist_groups ids r)),
               wk_decisions := wk_decisions w
                 @ map (\<lambda>(d, x). \<lparr>sd_org = org, sd_run = rid, sd_decision = d, sd_row = x\<rparr>)
                     (zip (mr_decisions r) (persist_decisions ids r)),
               wk_skipped := wk_skipped w
                 @ map (\<lambda>b. \<lparr>sk_org = org, sk_run = rid, sk_block = b\<rparr>) (mr_skipped_blocks r)\<rparr>))"

definition match_execute :: "'d output_env \<Rightarrow> exec_context \<Rightarrow> workspace \<Rightarrow> (handler_error + nat) \<times> workspace" where
  "match_execute env cx w =
     (case match_prepare env cx w of
        Inl e \<Rightarrow> (Inl e, w)
      | Inr (Inl rid) \<Rightarrow> (Inr rid, w)
      | Inr (Inr p) \<Rightarrow> match_commit p w)"

section \<open>Export\<close>

text \<open>The groups of a match run, with the members that its stored decisions name.\<close>

definition stored_groups :: "workspace \<Rightarrow> nat \<Rightarrow> nat \<Rightarrow> nat + group_input list" where
  "stored_groups w org match_run_id =
     load_groups (map sd_row (filter (\<lambda>d. sd_org d = org) (wk_decisions w)))
       (map sg_row (filter (\<lambda>g. sg_run g = match_run_id \<and> sg_org g = org) (wk_groups w)))"

definition export_prepare ::
  "'d output_env \<Rightarrow> exec_context \<Rightarrow> workspace \<Rightarrow> handler_error + (nat + (export_run, row_exclusion list) output_job)"
where
  "export_prepare env cx w =
     and_then (csv_source cx) (\<lambda>src.
     and_then (required NoSourceTaskRunId (tr_source_task_run_id (cx_run cx))) (\<lambda>upstream.
     and_then (approved_upstream upstream (tr_org (cx_run cx)) (st_match (wk_store w))) (\<lambda>match.
     and_then (existing_run (tr_id (cx_run cx)) (st_export (wk_store w))) (\<lambda>existing.
     case existing of
       Some r \<Rightarrow> Inr (Inl (rv_id r))
     | None \<Rightarrow>
         and_then (one_row NoUpstreamRun (filter (\<lambda>r. rv_task_run r = rv_upstream match \<and> rv_org r = tr_org (cx_run cx))
             (st_standardization (wk_store w)))) (\<lambda>standardization.
         and_then (load_output env (wk_disk w) (ar_path standardization)) (\<lambda>l.
         if length (ld_rows l) \<noteq> mn_row_count match then permanent RowsChanged
         else if find_reserved_column_collisions (ld_headers l) \<noteq> [] then permanent ReservedColumns
         else (case stored_groups w (tr_org (cx_run cx)) (rv_id match) of
                 Inl gid \<Rightarrow> permanent (MembersLost gid)
               | Inr groups \<Rightarrow>
                   let r = materialize (ld_rows l) (ld_headers l) groups (oe_export_limits env);
                       content = serialize_csv (mt_headers r) (mt_rows r);
                       p = output_path (csv_exported_root (oe_roots env)) (so_org src) (tr_id (cx_run cx))
                   in Inr (Inr \<lparr>jb_run = artifact_run.extend
                                   (new_artifact cx (so_id src) upstream p (he_sha256 (oe_handler env) content))
                                   (export_run.fields (rv_id match) (length (ld_rows l)) (mt_row_count r) (mt_excluded r)),
                               jb_children = mt_exclusions r, jb_path = p, jb_content = content\<rparr>))))))))"

definition export_commit ::
  "(export_run, row_exclusion list) output_job \<Rightarrow> workspace \<Rightarrow> (handler_error + nat) \<times> workspace"
where
  "export_commit job w =
     (let run = jb_run job; rid = wk_supply w in
      if filter (\<lambda>r. rv_task_run r = rv_task_run run) (st_export (wk_store w)) \<noteq> []
      then (refetch (st_export (wk_store w)) (rv_task_run run), w)
      else (Inr rid,
            (set_store (\<lambda>s. s\<lparr>st_export := st_export s @ [run\<lparr>rv_id := rid\<rparr>]\<rparr>) w)
              \<lparr>wk_supply := Suc rid,
               wk_exclusions := wk_exclusions w
                 @ map (\<lambda>x. \<lparr>xr_org = rv_org run, xr_run = rid, xr_exclusion = x\<rparr>) (jb_children job)\<rparr>))"

definition export_execute :: "'d output_env \<Rightarrow> exec_context \<Rightarrow> workspace \<Rightarrow> (handler_error + nat) \<times> workspace" where
  "export_execute env cx = write_and_commit (export_prepare env cx) jb_path jb_content export_commit"

end
