(* ===== verification/Decisions.thy ===== *)
theory Decisions
  imports Pipeline
begin

text \<open>
  The approval queue of \<open>app.api.tasks\<close>: a decision per proposed change, singly or for a whole
  remediation run, and the status that the API shows.

  As with the approvals of runs, a request first checks and then inserts, and nothing is locked in
  between; an endpoint is the two on the same state.  \<open>ORDER BY decision_timestamp DESC\<close> leaves rows with
  one time stamp in the order of the table.
\<close>

section \<open>The chain of 404 checks\<close>

definition get_remediation_run_or_404 :: "pipeline \<Rightarrow> nat \<Rightarrow> nat \<Rightarrow> nat \<Rightarrow> http_error + remediation_run \<times> task_run" where
  "get_remediation_run_or_404 s tid rid org =
     and_then (get_visible_run_or_404 (pl_engine s) tid rid org) (\<lambda>run.
     and_then (found (scalar_one_or_none
         (filter (\<lambda>r. mr_task_run r = rid \<and> mr_task r = tr_task_id run \<and> mr_org r = org) (pl_remediations s))))
       (\<lambda>r. Inr (r, run)))"

definition get_remediation_change_or_404 ::
  "pipeline \<Rightarrow> nat \<Rightarrow> nat \<Rightarrow> nat \<Rightarrow> nat \<Rightarrow> http_error + change_row \<times> remediation_run"
where
  "get_remediation_change_or_404 s tid rid cid org =
     and_then (get_remediation_run_or_404 s tid rid org) (\<lambda>(run, _).
     and_then (found (scalar_one_or_none
         (filter (\<lambda>c. cg_id c = cid \<and> cg_run c = mr_id run \<and> cg_org c = org) (pl_changes s))))
       (\<lambda>c. Inr (c, run)))"

section \<open>Decisions\<close>

definition decisions_of :: "nat \<Rightarrow> nat \<Rightarrow> decision_row list \<Rightarrow> decision_row list" where
  "decisions_of cid org ds = filter (\<lambda>d. dc_change d = cid \<and> dc_org d = org) ds"

definition get_existing_decision :: "pipeline \<Rightarrow> nat \<Rightarrow> nat \<Rightarrow> decision_row option" where
  "get_existing_decision s cid org =
     (case sort_key (\<lambda>d. - dc_at d) (decisions_of cid org (pl_decisions s)) of [] \<Rightarrow> None | d # _ \<Rightarrow> Some d)"

definition get_decision_status_map :: "pipeline \<Rightarrow> nat list \<Rightarrow> nat \<Rightarrow> nat \<Rightarrow> change_decision option" where
  "get_decision_status_map s ids org =
     map_of (map (\<lambda>d. (dc_change d, dc_decision d))
       (sort_key (\<lambda>d. - dc_at d) (filter (\<lambda>d. dc_change d \<in> set ids \<and> dc_org d = org) (pl_decisions s))))"

definition reviewer_name :: "user \<Rightarrow> string" where
  "reviewer_name u = (if truthy (us_full_name u) then the (us_full_name u) else us_email u)"

definition new_decision ::
  "nat \<Rightarrow> nat \<Rightarrow> nat \<Rightarrow> nat \<Rightarrow> change_decision \<Rightarrow> user \<Rightarrow> string option \<Rightarrow> time \<Rightarrow> decision_row"
where
  "new_decision i org run cid v u comment now =
     \<lparr>dc_id = i, dc_org = org, dc_run = run, dc_change = cid, dc_decision = v, dc_reviewer = us_id u,
      dc_reviewer_name = reviewer_name u, dc_at = now, dc_comment = comment\<rparr>"

definition create_decision ::
  "change_row \<Rightarrow> change_decision \<Rightarrow> user \<Rightarrow> string option \<Rightarrow> time \<Rightarrow> pipeline \<Rightarrow> pipeline"
where
  "create_decision c v u comment now s =
     s\<lparr>pl_supply := Suc (pl_supply s),
       pl_decisions := pl_decisions s @ [new_decision (pl_supply s) (cg_org c) (cg_run c) (cg_id c) v u comment now]\<rparr>"

text \<open>What an endpoint checks before it inserts.\<close>

definition check_decision :: "nat \<Rightarrow> nat \<Rightarrow> nat \<Rightarrow> user \<Rightarrow> pipeline \<Rightarrow> http_error + change_row" where
  "check_decision tid rid cid u s =
     (if \<not> us_superuser u then Inl Forbidden
      else and_then (get_remediation_change_or_404 s tid rid cid (us_org u)) (\<lambda>(c, run).
        if get_existing_decision s (cg_id c) (us_org u) \<noteq> None then Inl Conflict else Inr c))"

definition decide_change ::
  "change_decision \<Rightarrow> nat \<Rightarrow> nat \<Rightarrow> nat \<Rightarrow> user \<Rightarrow> string option \<Rightarrow> time \<Rightarrow> pipeline \<Rightarrow> http_error + pipeline"
where
  "decide_change v tid rid cid u comment now s =
     and_then (check_decision tid rid cid u s) (\<lambda>c. Inr (create_decision c v u comment now s))"

definition approve_remediation_change ::
  "nat \<Rightarrow> nat \<Rightarrow> nat \<Rightarrow> user \<Rightarrow> string option \<Rightarrow> time \<Rightarrow> pipeline \<Rightarrow> http_error + pipeline"
where
  "approve_remediation_change = decide_change ChangeApproved"

definition reject_remediation_change ::
  "nat \<Rightarrow> nat \<Rightarrow> nat \<Rightarrow> user \<Rightarrow> string option \<Rightarrow> time \<Rightarrow> pipeline \<Rightarrow> http_error + pipeline"
where
  "reject_remediation_change = decide_change ChangeRejected"

definition get_remediation_change_decision :: "nat \<Rightarrow> nat \<Rightarrow> nat \<Rightarrow> user \<Rightarrow> pipeline \<Rightarrow> http_error + decision_row" where
  "get_remediation_change_decision tid rid cid u s =
     and_then (get_remediation_change_or_404 s tid rid cid (us_org u)) (\<lambda>(c, run).
       case get_existing_decision s (cg_id c) (us_org u) of None \<Rightarrow> Inl NotFound | Some d \<Rightarrow> Inr d)"

section \<open>Whole runs\<close>

record bulk_response =
  bk_total :: nat
  bk_approved :: nat
  bk_rejected :: nat
  bk_skipped :: nat

definition bulk_decide ::
  "remediation_run \<Rightarrow> change_decision \<Rightarrow> user \<Rightarrow> string option \<Rightarrow> time \<Rightarrow> pipeline \<Rightarrow> bulk_response \<times> pipeline"
where
  "bulk_decide run v u comment now s =
     (let org = mr_org run;
          ids = map cg_id (sort_key (\<lambda>c. (cg_row c, cg_id c)) (filter (\<lambda>c. cg_run c = mr_id run \<and> cg_org c = org) (pl_changes s)));
          decided = remdups (map dc_change (filter (\<lambda>d. dc_change d \<in> set ids \<and> dc_org d = org) (pl_decisions s)));
          pending = filter (\<lambda>c. c \<notin> set decided) ids;
          n = length pending
      in if ids = [] then (\<lparr>bk_total = 0, bk_approved = 0, bk_rejected = 0, bk_skipped = 0\<rparr>, s)
         else (\<lparr>bk_total = length ids, bk_approved = (if v = ChangeApproved then n else 0),
                bk_rejected = (if v = ChangeRejected then n else 0), bk_skipped = length decided\<rparr>,
               s\<lparr>pl_supply := pl_supply s + n,
                 pl_decisions := pl_decisions s
                   @ map (\<lambda>(i, c). new_decision i org (mr_id run) c v u comment now) (enum_from (pl_supply s) pending)\<rparr>))"

definition decide_all ::
  "change_decision \<Rightarrow> nat \<Rightarrow> nat \<Rightarrow> user \<Rightarrow> string option \<Rightarrow> time \<Rightarrow> pipeline \<Rightarrow> http_error + bulk_response \<times> pipeline"
where
  "decide_all v tid rid u comment now s =
     (if \<not> us_superuser u then Inl Forbidden
      else and_then (get_remediation_run_or_404 s tid rid (us_org u)) (\<lambda>(run, _).
        Inr (bulk_decide run v u comment now s)))"

definition approve_all_remediation_changes ::
  "nat \<Rightarrow> nat \<Rightarrow> user \<Rightarrow> string option \<Rightarrow> time \<Rightarrow> pipeline \<Rightarrow> http_error + bulk_response \<times> pipeline"
where
  "approve_all_remediation_changes = decide_all ChangeApproved"

definition reject_all_remediation_changes ::
  "nat \<Rightarrow> nat \<Rightarrow> user \<Rightarrow> string option \<Rightarrow> time \<Rightarrow> pipeline \<Rightarrow> http_error + bulk_response \<times> pipeline"
where
  "reject_all_remediation_changes = decide_all ChangeRejected"

end
