(* ===== verification/Release.thy ===== *)
theory Release
  imports Decisions
begin

text \<open>
  The last two handlers of the audit chain: \<open>ValidationHandler\<close>, which validates the changes whose
  latest decision is an approval, and \<open>QualityControlHandler\<close>, which follows the chain of runs back to
  the profile, computes the effective statistics, resolves the thresholds, calls the engine and
  records one release decision.

  Both are a reading half and a writing half, as the others.  The JSON columns
  \<open>post_remediation_stats\<close> and \<open>execution_snapshot\<close>, which repeat the columns and inputs, are not
  carried.  A row's id stands for the text of its UUID where rows are sorted by it.
\<close>

section \<open>Validation\<close>

text \<open>The loop that keeps the latest decision of every change.\<close>

definition later_decision :: "decision_row \<Rightarrow> decision_row \<Rightarrow> bool" where
  "later_decision d prev \<longleftrightarrow> dc_at prev < dc_at d \<or> (dc_at d = dc_at prev \<and> dc_id prev < dc_id d)"

definition keep_latest :: "decision_row \<Rightarrow> (nat \<Rightarrow> decision_row option) \<Rightarrow> nat \<Rightarrow> decision_row option" where
  "keep_latest d m =
     (case m (dc_change d) of
        None \<Rightarrow> m(dc_change d \<mapsto> d)
      | Some prev \<Rightarrow> if later_decision d prev then m(dc_change d \<mapsto> d) else m)"

definition latest_decisions :: "decision_row list \<Rightarrow> nat \<Rightarrow> decision_row option" where
  "latest_decisions ds = fold keep_latest ds Map.empty"

definition approved_changes :: "pipeline \<Rightarrow> nat \<Rightarrow> nat \<Rightarrow> change_row list" where
  "approved_changes s org run =
     (let changes = filter (\<lambda>c. cg_run c = run \<and> cg_org c = org) (pl_changes s);
          latest = latest_decisions (filter (\<lambda>d. dc_change d \<in> set (map cg_id changes) \<and> dc_org d = org) (pl_decisions s))
      in filter (\<lambda>c. case latest (cg_id c) of None \<Rightarrow> False | Some d \<Rightarrow> dc_decision d = ChangeApproved) changes)"

definition validation_input :: "change_row \<Rightarrow> validation_change" where
  "validation_input c =
     \<lparr>vc_id = cg_id c, vc_issue_id = cg_issue c, vc_row = cg_row c, vc_column = cg_column c,
      vc_action = Inl (cg_action c), vc_original = cg_original c, vc_proposed = cg_proposed c\<rparr>"

fun column_names :: "change_row list \<Rightarrow> string list" where
  "column_names [] = []"
| "column_names (c # cs) = (case cg_column c of None \<Rightarrow> column_names cs | Some n \<Rightarrow> n # column_names cs)"

definition validation_prepare ::
  "'d handler_env \<Rightarrow> exec_context \<Rightarrow> pipeline \<Rightarrow> handler_error + (nat + validation_run \<times> validation_item list)"
where
  "validation_prepare env cx s =
     (let org = tr_org (cx_run cx) in
     and_then (required NoDataSource (cx_source cx)) (\<lambda>src.
     and_then (required NoSourceTaskRunId (tr_source_task_run_id (cx_run cx))) (\<lambda>upstream.
     and_then (one_row NoUpstreamRun (filter (\<lambda>r. mr_task_run r = upstream \<and> mr_org r = org) (pl_remediations s))) (\<lambda>remediation.
     and_then (one_or_none (filter (\<lambda>r. va_task_run r = tr_id (cx_run cx)) (pl_validations s))) (\<lambda>existing.
     case existing of
       Some r \<Rightarrow> Inr (Inl (va_id r))
     | None \<Rightarrow>
         (let approved = approved_changes s org (mr_id remediation);
              config = load_column_config s org (so_id src) (column_names approved);
              result = validate (he_oracles env) (map validation_input approved) config (he_max_results env)
          in Inr (Inr (\<lparr>va_id = 0, va_org = org, va_task_run = tr_id (cx_run cx), va_task = task_id (cx_task cx),
                        va_source = so_id src, va_remediation = mr_id remediation, va_considered = vr_considered result,
                        va_passed = vr_passed result, va_failed = vr_failed result, va_skipped = vr_skipped result,
                        va_by_rule = vr_by_rule result\<rparr>, vr_results result))))))))"

definition validation_rule_name :: "remediation_action option \<Rightarrow> string" where
  "validation_rule_name r = (case r of None \<Rightarrow> [] | Some a \<Rightarrow> ''validate_'' @ action_value a)"

definition result_of :: "nat \<Rightarrow> validation_run \<Rightarrow> nat \<Rightarrow> validation_item \<Rightarrow> validation_row" where
  "result_of i run rid item =
     \<lparr>vw_id = i, vw_org = va_org run, vw_run = rid, vw_remediation = va_remediation run, vw_change = vi_change_id item,
      vw_issue = vi_issue_id item, vw_rule = validation_rule_name (vi_rule item), vw_outcome = vi_outcome item,
      vw_reason = vi_reason item, vw_original = vi_original item, vw_proposed = vi_proposed item\<rparr>"

definition validation_commit :: "validation_run \<times> validation_item list \<Rightarrow> pipeline \<Rightarrow> (handler_error + nat) \<times> pipeline" where
  "validation_commit p s =
     (let (run, items) = p; rid = pl_supply s in
      case filter (\<lambda>r. va_task_run r = va_task_run run) (pl_validations s) of
        [] \<Rightarrow> (Inr rid,
               s\<lparr>pl_supply := rid + 1 + length items, pl_validations := pl_validations s @ [run\<lparr>va_id := rid\<rparr>],
                 pl_results := pl_results s @ map (\<lambda>(i, x). result_of i run rid x) (enum_from (Suc rid) items)\<rparr>)
      | [r] \<Rightarrow> (Inr (va_id r), s)
      | _ \<Rightarrow> (Inl MultipleRows, s))"

definition validation_execute :: "'d handler_env \<Rightarrow> exec_context \<Rightarrow> pipeline \<Rightarrow> (handler_error + nat) \<times> pipeline" where
  "validation_execute env cx s =
     (case validation_prepare env cx s of
        Inl e \<Rightarrow> (Inl e, s)
      | Inr (Inl rid) \<Rightarrow> (Inr rid, s)
      | Inr (Inr p) \<Rightarrow> validation_commit p s)"

section \<open>Thresholds\<close>

definition row_to_config :: "threshold_row \<Rightarrow> threshold_config" where
  "row_to_config r =
     (tw_config r)\<lparr>th_weights := (case th_weights (tw_config r) of None \<Rightarrow> None | Some ws \<Rightarrow> if ws = [] then None else Some ws)\<rparr>"

definition resolve_threshold :: "pipeline \<Rightarrow> nat \<Rightarrow> nat \<Rightarrow> handler_error + threshold_config" where
  "resolve_threshold s org source =
     and_then (one_or_none (filter (\<lambda>t. tw_org t = org \<and> tw_source t = Some source \<and> tw_active t) (pl_thresholds s)))
       (\<lambda>specific. case specific of
          Some t \<Rightarrow> Inr (row_to_config t)
        | None \<Rightarrow> and_then (one_row NoThreshold (filter (\<lambda>t. tw_org t = org \<and> tw_source t = None \<and> tw_active t) (pl_thresholds s)))
                    (\<lambda>t. Inr (row_to_config t)))"

definition threshold_valid :: "threshold_config \<Rightarrow> bool" where
  "threshold_valid cfg \<longleftrightarrow>
     0 \<le> th_fail cfg \<and> th_fail cfg \<le> 100 \<and> 0 \<le> th_pass cfg \<and> th_pass cfg \<le> 100 \<and> th_fail cfg < th_pass cfg
     \<and> 0 \<le> th_failure_rate cfg \<and> th_failure_rate cfg \<le> 1 \<and> 0 \<le> th_skip_rate cfg \<and> th_skip_rate cfg \<le> 1
     \<and> 0 \<le> th_high cfg \<and> 0 \<le> th_critical cfg \<and> 0 \<le> th_warnings cfg
     \<and> (case th_weights cfg of None \<Rightarrow> True
        | Some ws \<Rightarrow> list_all (\<lambda>(k, w). k \<in> set QUALITY_CATEGORIES \<and> num_positive w) ws)"

definition validate_threshold_config :: "threshold_config \<Rightarrow> handler_error + unit" where
  "validate_threshold_config cfg = (if threshold_valid cfg then Inr () else permanent InvalidThreshold)"

section \<open>Effective statistics\<close>

definition MISSING_VALUE_ISSUE_TYPES :: "issue_type list" where
  "MISSING_VALUE_ISSUE_TYPES = [MISSING_VALUE, EMPTY_STRING, NULL_VALUE]"

definition DUPLICATE_REMOVAL_ACTIONS :: "remediation_action list" where
  "DUPLICATE_REMOVAL_ACTIONS = [REMOVE_DUPLICATE_ROW, REMOVE_DUPLICATE_PRIMARY_KEY]"

definition compute_effective_stats ::
  "profile_row \<Rightarrow> validation_row list \<Rightarrow> change_row list \<Rightarrow> issue_row list \<Rightarrow> effective_stats"
where
  "compute_effective_stats profile results changes issues =
     (let passed = filter (\<lambda>r. vw_outcome r = Passed) results;
          removals = length (filter (\<lambda>r. case get_row cg_id (vw_change r) changes of None \<Rightarrow> False
                                          | Some c \<Rightarrow> cg_action c \<in> set DUPLICATE_REMOVAL_ACTIONS) passed);
          filled = length (filter (\<lambda>r. case get_row iw_id (vw_issue r) issues of None \<Rightarrow> False
                                        | Some i \<Rightarrow> iw_type i \<in> set MISSING_VALUE_ISSUE_TYPES) passed);
          addressed = remdups (map vw_issue passed);
          unresolved = filter (\<lambda>i. iw_id i \<notin> set addressed) issues
      in \<lparr>es_rows = max 0 (int (pf_rows profile) - int removals),
          es_duplicates = max 0 (int (pf_duplicates profile) - int removals),
          es_missing = max 0 (int (pf_missing profile) - int filled),
          es_high = int (length (filter (\<lambda>i. iw_severity i = HIGH) unresolved)),
          es_critical = int (length (filter (\<lambda>i. iw_severity i = CRITICAL) unresolved)),
          es_addressed = int (length addressed)\<rparr>)"

definition build_engine_input ::
  "validation_run \<Rightarrow> validation_row list \<Rightarrow> detection_run \<Rightarrow> profile_row \<Rightarrow> effective_stats \<Rightarrow> issue_row list \<Rightarrow>
     threshold_config \<Rightarrow> nat \<Rightarrow> quality_input"
where
  "build_engine_input run results detection profile stats issues cfg limit =
     \<lparr>qi_run = \<lparr>rs_id = va_id run, rs_considered = int (va_considered run), rs_passed = int (va_passed run),
                rs_failed = int (va_failed run), rs_skipped = int (va_skipped run),
                rs_by_rule = map (\<lambda>(a, n). (validation_rule_name (Some a), int n)) (va_by_rule run)\<rparr>,
      qi_results = map (\<lambda>r. \<lparr>vs_id = vw_id r, vs_outcome = vw_outcome r, vs_rule_name = vw_rule r, vs_column = None,
                              vs_issue_id = Some (vw_issue r), vs_change_id = Some (vw_change r)\<rparr>) (sort_key vw_id results),
      qi_detection = \<lparr>ds_id = dr_id detection, ds_total_issues = int (dr_total detection)\<rparr>,
      qi_profile = \<lparr>ps_id = pf_id profile, ps_rows = int (pf_rows profile), ps_columns = int (pf_columns profile),
                    ps_duplicates = int (pf_duplicates profile), ps_missing = int (pf_missing profile)\<rparr>,
      qi_stats = stats,
      qi_issues = map (\<lambda>i. \<lparr>is_id = iw_id i, is_severity = iw_severity i, is_type = iw_type i\<rparr>) (sort_key iw_id issues),
      qi_thresholds = cfg, qi_max_persisted = limit\<rparr>"

section \<open>Quality control\<close>

text \<open>Steps 4a to 4f: from the validation run back to the profile.\<close>

definition task_run_of_org :: "pipeline \<Rightarrow> nat \<Rightarrow> nat \<Rightarrow> handler_error + task_run" where
  "task_run_of_org s org rid = one_row BrokenChain (filter (\<lambda>r. tr_id r = rid \<and> tr_org r = org) (task_runs (pl_engine s)))"

definition resolve_chain ::
  "pipeline \<Rightarrow> nat \<Rightarrow> validation_run \<Rightarrow> handler_error + remediation_run \<times> detection_run \<times> profile_row"
where
  "resolve_chain s org validation =
     and_then (one_row BrokenChain (filter (\<lambda>r. mr_id r = va_remediation validation \<and> mr_org r = org) (pl_remediations s))) (\<lambda>remediation.
     and_then (task_run_of_org s org (mr_task_run remediation)) (\<lambda>remediate_run.
     and_then (required BrokenChain (tr_source_task_run_id remediate_run)) (\<lambda>detect_id.
     and_then (task_run_of_org s org detect_id) (\<lambda>detect_run.
     and_then (one_row BrokenChain (filter (\<lambda>r. dr_task_run r = tr_id detect_run \<and> dr_org r = org) (pl_detections s))) (\<lambda>detection.
     and_then (required BrokenChain (tr_source_task_run_id detect_run)) (\<lambda>sync_id.
     and_then (task_run_of_org s org sync_id) (\<lambda>sync_run.
     and_then (one_row NoProfile (filter (\<lambda>r. pf_task_run r = tr_id sync_run \<and> pf_org r = org) (pl_profiles s))) (\<lambda>profile.
       Inr (remediation, detection, profile)))))))))"

definition quality_prepare ::
  "'d handler_env \<Rightarrow> exec_context \<Rightarrow> pipeline \<Rightarrow> handler_error + (nat + quality_run \<times> quality_finding list)"
where
  "quality_prepare env cx s =
     (let org = tr_org (cx_run cx) in
     and_then (required NoDataSource (cx_source cx)) (\<lambda>src.
     and_then (required NoSourceTaskRunId (tr_source_task_run_id (cx_run cx))) (\<lambda>upstream.
     and_then (one_row NoUpstreamRun (filter (\<lambda>r. va_task_run r = upstream \<and> va_org r = org) (pl_validations s))) (\<lambda>validation.
     and_then (one_or_none (filter (\<lambda>r. qn_task_run r = tr_id (cx_run cx)) (pl_quality s))) (\<lambda>existing.
     case existing of
       Some r \<Rightarrow> Inr (Inl (qn_id r))
     | None \<Rightarrow>
         and_then (resolve_threshold s org (so_id src)) (\<lambda>cfg.
         and_then (validate_threshold_config cfg) (\<lambda>_.
         and_then (resolve_chain s org validation) (\<lambda>(remediation, detection, profile).
         (let results = filter (\<lambda>r. vw_run r = va_id validation \<and> vw_org r = org) (pl_results s);
              changes = filter (\<lambda>c. cg_run c = mr_id remediation \<and> cg_org c = org) (pl_changes s);
              issues = filter (\<lambda>i. iw_run i = dr_id detection \<and> iw_org i = org) (pl_issues s);
              stats = compute_effective_stats profile results changes issues
          in case quality_control (build_engine_input validation results detection profile stats issues cfg (he_max_findings env)) of
               None \<Rightarrow> Inl EngineError
             | Some result \<Rightarrow>
                 Inr (Inr (\<lparr>qn_id = 0, qn_org = org, qn_task_run = tr_id (cx_run cx), qn_task = task_id (cx_task cx),
                            qn_source = so_id src, qn_validation = va_id validation, qn_remediation = mr_id remediation,
                            qn_detection = dr_id detection, qn_profile = pf_id profile, qn_score = qr_score result,
                            qn_recommendation = qr_recommendation result, qn_total = qr_total result,
                            qn_blocking = qr_blocking result, qn_warning = qr_warning result, qn_info = qr_info result\<rparr>,
                           filter (\<lambda>f. qf_category f \<in> set QUALITY_CATEGORIES) (take (he_max_findings env) (qr_findings result)))))))))))))"

text \<open>\<open>ck_quality_control_runs_score_range\<close> and the two unique constraints.\<close>

definition score_in_range :: "quality_run \<Rightarrow> bool" where
  "score_in_range r \<longleftrightarrow> (case qn_score r of None \<Rightarrow> True | Some x \<Rightarrow> 0 \<le> x \<and> x \<le> 100)"

definition quality_commit :: "quality_run \<times> quality_finding list \<Rightarrow> pipeline \<Rightarrow> (handler_error + nat) \<times> pipeline" where
  "quality_commit p s =
     (let (run, fs) = p; rid = pl_supply s;
          same_task = filter (\<lambda>r. qn_task_run r = qn_task_run run) (pl_quality s);
          same_validation = filter (\<lambda>r. qn_validation r = qn_validation run) (pl_quality s)
      in if same_task = [] \<and> same_validation = [] \<and> score_in_range run
         then (Inr rid,
               s\<lparr>pl_supply := Suc rid, pl_quality := pl_quality s @ [run\<lparr>qn_id := rid\<rparr>],
                 pl_findings := pl_findings s @ map (\<lambda>f. \<lparr>fw_org = qn_org run, fw_run = rid, fw_finding = f\<rparr>) fs\<rparr>)
         else (case and_then (one_or_none same_task) (\<lambda>x.
                 case x of Some r \<Rightarrow> Inr r
                 | None \<Rightarrow> and_then (one_or_none same_validation) (\<lambda>y. case y of Some r \<Rightarrow> Inr r | None \<Rightarrow> Inl IntegrityError)) of
                 Inl e \<Rightarrow> (Inl e, s)
               | Inr r \<Rightarrow> (Inr (qn_id r), s)))"

definition quality_execute :: "'d handler_env \<Rightarrow> exec_context \<Rightarrow> pipeline \<Rightarrow> (handler_error + nat) \<times> pipeline" where
  "quality_execute env cx s =
     (case quality_prepare env cx s of
        Inl e \<Rightarrow> (Inl e, s)
      | Inr (Inl rid) \<Rightarrow> (Inr rid, s)
      | Inr (Inr p) \<Rightarrow> quality_commit p s)"

end
