(* ===== verification/Leases.thy ===== *)
theory Leases
  imports TaskRuns
begin

text \<open>
  Invariants of the execution engine and its lease fencing.

  \<open>db_wf\<close> collects the \<open>CHECK\<close> constraints of \<open>task_runs\<close> together with what the code keeps true of
  lease tokens; every engine call preserves it.  The fencing argument itself is made once, over an
  abstract protocol of tokens that are drawn fresh and retired for good, and then interpreted on
  the engine's own step relation.
\<close>

section \<open>Row constraints\<close>

text \<open>\<open>ck_task_runs_status_invariants\<close>.\<close>

definition status_invariants :: "task_run \<Rightarrow> bool" where
  "status_invariants r \<longleftrightarrow>
     (tr_status r = PENDING \<and> tr_started_at r = None \<and> tr_finished_at r = None \<and> tr_error_message r = None)
   \<or> (tr_status r = RUNNING \<and> tr_started_at r \<noteq> None \<and> tr_finished_at r = None)
   \<or> (tr_status r = SUCCESS \<and> tr_started_at r \<noteq> None \<and> tr_finished_at r \<noteq> None \<and> tr_error_message r = None)
   \<or> (tr_status r = FAILED \<and> tr_started_at r \<noteq> None \<and> tr_finished_at r \<noteq> None \<and> tr_error_message r \<noteq> None)"

text \<open>\<open>ck_task_runs_finished_after_started\<close>.\<close>

definition finished_after_started :: "task_run \<Rightarrow> bool" where
  "finished_after_started r \<longleftrightarrow>
     (case (tr_started_at r, tr_finished_at r) of (Some s, Some f) \<Rightarrow> s \<le> f | _ \<Rightarrow> True)"

text \<open>\<open>ck_task_runs_lease_consistency\<close>.\<close>

definition lease_consistency :: "task_run \<Rightarrow> bool" where
  "lease_consistency r \<longleftrightarrow>
     (tr_status r = RUNNING \<and> tr_lease_token r \<noteq> None \<and> tr_lease_expires_at r \<noteq> None)
   \<or> (tr_status r \<noteq> RUNNING \<and> tr_lease_token r = None \<and> tr_lease_expires_at r = None)"

text \<open>
  What the code relies on beside the declared constraints: a run that has been claimed has a
  positive attempt count, and only a finished or running run carries no error text of an earlier
  attempt.
\<close>

definition row_ok :: "task_run \<Rightarrow> bool" where
  "row_ok r \<longleftrightarrow> status_invariants r \<and> finished_after_started r \<and> lease_consistency r
     \<and> (tr_status r = RUNNING \<longrightarrow> 1 \<le> tr_attempt_count r \<and> tr_error_message r = None)"

text \<open>The \<open>CHECK\<close> constraints alone: PostgreSQL rejects a commit that breaks one.\<close>

definition checks_ok :: "db \<Rightarrow> bool" where
  "checks_ok d \<longleftrightarrow>
     (\<forall>r \<in> set (task_runs d). status_invariants r \<and> finished_after_started r \<and> lease_consistency r)"

definition tokens_ok :: "db \<Rightarrow> bool" where
  "tokens_ok d \<longleftrightarrow>
     (\<forall>r \<in> set (task_runs d). tr_id r < uuid_supply d \<and> (\<forall>t. tr_lease_token r = Some t \<longrightarrow> t < uuid_supply d))
   \<and> (\<forall>r \<in> set (task_runs d). \<forall>r' \<in> set (task_runs d). \<forall>t.
        tr_lease_token r = Some t \<longrightarrow> tr_lease_token r' = Some t \<longrightarrow> tr_id r = tr_id r')"

text \<open>The foreign key \<open>task_runs.task_id \<rightarrow> tasks.id\<close>.\<close>

definition fk_ok :: "db \<Rightarrow> bool" where
  "fk_ok d \<longleftrightarrow> (\<forall>r \<in> set (task_runs d). tr_task_id r \<in> task_id ` set (tasks d))"

definition db_wf :: "db \<Rightarrow> bool" where
  "db_wf d \<longleftrightarrow> keyed tr_id (task_runs d) \<and> keyed task_id (tasks d)
     \<and> (\<forall>r \<in> set (task_runs d). row_ok r) \<and> fk_ok d \<and> tokens_ok d"

lemmas row_ok_defs = row_ok_def status_invariants_def finished_after_started_def lease_consistency_def

lemma tokens_ok_inj:
  "tokens_ok d \<Longrightarrow> r \<in> set (task_runs d) \<Longrightarrow> r' \<in> set (task_runs d) \<Longrightarrow>
   tr_lease_token r = Some t \<Longrightarrow> tr_lease_token r' = Some t \<Longrightarrow> tr_id r = tr_id r'"
  unfolding tokens_ok_def by blast

lemma tokens_ok_below:
  "tokens_ok d \<Longrightarrow> r \<in> set (task_runs d) \<Longrightarrow> tr_lease_token r = Some t \<Longrightarrow> t < uuid_supply d"
  unfolding tokens_ok_def by blast

lemma tokens_ok_id: "tokens_ok d \<Longrightarrow> r \<in> set (task_runs d) \<Longrightarrow> tr_id r < uuid_supply d"
  unfolding tokens_ok_def by blast

lemma tokens_okI:
  assumes "\<And>r. r \<in> set (task_runs d) \<Longrightarrow> tr_id r < uuid_supply d"
    and "\<And>r t. r \<in> set (task_runs d) \<Longrightarrow> tr_lease_token r = Some t \<Longrightarrow> t < uuid_supply d"
    and "\<And>r r' t. r \<in> set (task_runs d) \<Longrightarrow> r' \<in> set (task_runs d) \<Longrightarrow>
           tr_lease_token r = Some t \<Longrightarrow> tr_lease_token r' = Some t \<Longrightarrow> tr_id r = tr_id r'"
  shows "tokens_ok d"
  using assms unfolding tokens_ok_def by blast

lemma running_has_token: "row_ok r \<Longrightarrow> tr_status r = RUNNING \<Longrightarrow> \<exists>t. tr_lease_token r = Some t"
  by (auto simp: row_ok_def lease_consistency_def)

lemma token_means_running: "row_ok r \<Longrightarrow> tr_lease_token r = Some t \<Longrightarrow> tr_status r = RUNNING"
  by (auto simp: row_ok_def lease_consistency_def)

lemma row_ok_claim: "row_ok r \<Longrightarrow> tr_status r = PENDING \<Longrightarrow> row_ok (claim_row now tok expires r)"
  by (auto simp: row_ok_defs claim_row_def)

lemma row_ok_success:
  "row_ok r \<Longrightarrow> tr_status r = RUNNING \<Longrightarrow> (\<And>s. tr_started_at r = Some s \<Longrightarrow> s \<le> now) \<Longrightarrow>
   row_ok (success_row now log r)"
  by (auto simp: row_ok_defs success_row_def)

lemma row_ok_requeue: "row_ok r \<Longrightarrow> row_ok (requeue_row retry_at log r)"
  by (auto simp: row_ok_defs requeue_row_def)

lemma row_ok_failed:
  "row_ok r \<Longrightarrow> tr_status r = RUNNING \<Longrightarrow> (\<And>s. tr_started_at r = Some s \<Longrightarrow> s \<le> now) \<Longrightarrow>
   row_ok (failed_row now msg log r)"
  by (auto simp: row_ok_defs failed_row_def)

lemma row_ok_beat:
  "row_ok r \<Longrightarrow> tr_status r = RUNNING \<Longrightarrow>
   row_ok (r\<lparr>tr_last_heartbeat_at := h, tr_lease_expires_at := Some e\<rparr>)"
  by (auto simp: row_ok_defs)

lemma tr_id_updates [simp]:
  "tr_id (claim_row now tok e r) = tr_id r"
  "tr_id (success_row now log r) = tr_id r"
  "tr_id (requeue_row t log r) = tr_id r"
  "tr_id (failed_row now msg log r) = tr_id r"
  by (simp_all add: claim_row_def success_row_def requeue_row_def failed_row_def)

lemma tr_task_id_updates [simp]:
  "tr_task_id (claim_row now tok e r) = tr_task_id r"
  "tr_task_id (success_row now log r) = tr_task_id r"
  "tr_task_id (requeue_row t log r) = tr_task_id r"
  "tr_task_id (failed_row now msg log r) = tr_task_id r"
  by (simp_all add: claim_row_def success_row_def requeue_row_def failed_row_def)

lemma token_updates [simp]:
  "tr_lease_token (claim_row now tok e r) = Some tok"
  "tr_lease_token (success_row now log r) = None"
  "tr_lease_token (requeue_row t log r) = None"
  "tr_lease_token (failed_row now msg log r) = None"
  by (simp_all add: claim_row_def success_row_def requeue_row_def failed_row_def)

lemma record_event_simps [simp]:
  "tasks (record_event r e a b w x d) = tasks d"
  "task_runs (record_event r e a b w x d) = task_runs d"
  "uuid_supply (record_event r e a b w x d) = uuid_supply d"
  "db_wf (record_event r e a b w x d) = db_wf d"
  by (simp_all add: record_event_def db_wf_def tokens_ok_def fk_ok_def)

section \<open>Rewriting rows in place\<close>

text \<open>
  Every engine call changes \<open>task_runs\<close> by one guarded update that keeps ids and either keeps a
  row's token or replaces it by nothing or by a freshly drawn one.
\<close>

lemma db_wf_update:
  assumes wf: "db_wf d"
    and id: "\<And>r. tr_id (f r) = tr_id r" "\<And>r. tr_task_id (f r) = tr_task_id r"
    and ok: "\<And>r. r \<in> set (task_runs d) \<Longrightarrow> P r \<Longrightarrow> row_ok (f r)"
    and tok: "\<And>r. r \<in> set (task_runs d) \<Longrightarrow> P r \<Longrightarrow>
                tr_lease_token (f r) = tr_lease_token r \<or> tr_lease_token (f r) = None"
  shows "db_wf (d\<lparr>task_runs := update_where P f (task_runs d)\<rparr>)" (is "db_wf ?d'")
proof -
  have tw: "tokens_ok d" using wf by (simp add: db_wf_def)
  have old: "\<exists>r \<in> set (task_runs d). tr_id r = tr_id r' \<and>
      (\<forall>t. tr_lease_token r' = Some t \<longrightarrow> tr_lease_token r = Some t)"
    if "r' \<in> set (update_where P f (task_runs d))" for r'
  proof -
    from that obtain r where r: "r \<in> set (task_runs d)" "r' = (if P r then f r else r)"
      by (rule in_update_whereE)
    then show ?thesis using tok[OF r(1)] id(1)[of r] by (intro bexI[OF _ r(1)]) auto
  qed
  have "tokens_ok ?d'"
  proof (rule tokens_okI)
    show "tr_id r' < uuid_supply ?d'" if "r' \<in> set (task_runs ?d')" for r'
    proof -
      obtain r where r: "r \<in> set (task_runs d)" "tr_id r = tr_id r'"
        using old[of r'] \<open>r' \<in> set (task_runs ?d')\<close> by auto
      from tokens_ok_id[OF tw r(1)] r(2) show ?thesis by simp
    qed
    show "t < uuid_supply ?d'"
      if "r' \<in> set (task_runs ?d')" "tr_lease_token r' = Some t" for r' t
      using old[of r'] that tokens_ok_below[OF tw] by auto
    show "tr_id r = tr_id r'"
      if rs: "r \<in> set (task_runs ?d')" "r' \<in> set (task_runs ?d')"
        "tr_lease_token r = Some t" "tr_lease_token r' = Some t" for r r' t
    proof -
      obtain p where p: "p \<in> set (task_runs d)" "tr_id p = tr_id r" "tr_lease_token p = Some t"
        using old[of r] rs(1,3) by auto
      obtain q where q: "q \<in> set (task_runs d)" "tr_id q = tr_id r'" "tr_lease_token q = Some t"
        using old[of r'] rs(2,4) by auto
      show ?thesis using tokens_ok_inj[OF tw p(1) q(1) p(3) q(3)] p q by simp
    qed
  qed
  moreover have "\<forall>r \<in> set (update_where P f (task_runs d)). row_ok r"
    using wf ok by (auto simp: set_update_where db_wf_def)
  moreover have "fk_ok ?d'"
    using wf by (auto simp: db_wf_def fk_ok_def set_update_where id(2))
  ultimately show ?thesis
    using wf by (simp add: db_wf_def map_key_update_where id(1))
qed

lemma db_wf_claim_update:
  assumes wf: "db_wf d"
  shows "db_wf (d\<lparr>uuid_supply := Suc (uuid_supply d), task_runs :=
           update_where (\<lambda>r. tr_id r = rid \<and> tr_status r = PENDING)
             (claim_row now (uuid_supply d) e) (task_runs d)\<rparr>)"
    (is "db_wf ?d'")
proof -
  let ?P = "\<lambda>r. tr_id r = rid \<and> tr_status r = PENDING"
  let ?f = "claim_row now (uuid_supply d) e"
  have tw: "tokens_ok d" using wf by (simp add: db_wf_def)
  have old: "\<exists>r \<in> set (task_runs d). tr_id r = tr_id r' \<and>
      (\<forall>t. tr_lease_token r' = Some t \<longrightarrow>
         t = uuid_supply d \<and> tr_id r' = rid \<or> t < uuid_supply d \<and> tr_lease_token r = Some t)"
    if "r' \<in> set (update_where ?P ?f (task_runs d))" for r'
  proof -
    from that obtain r where r: "r \<in> set (task_runs d)" "r' = (if ?P r then ?f r else r)"
      by (rule in_update_whereE)
    then show ?thesis using tokens_ok_below[OF tw r(1)] by (intro bexI[OF _ r(1)]) auto
  qed
  have "tokens_ok ?d'"
  proof (rule tokens_okI)
    show "tr_id r' < uuid_supply ?d'" if "r' \<in> set (task_runs ?d')" for r'
    proof -
      obtain r where r: "r \<in> set (task_runs d)" "tr_id r = tr_id r'"
        using old[of r'] \<open>r' \<in> set (task_runs ?d')\<close> by auto
      from tokens_ok_id[OF tw r(1)] r(2) show ?thesis by simp
    qed
    show "t < uuid_supply ?d'"
      if "r' \<in> set (task_runs ?d')" "tr_lease_token r' = Some t" for r' t
      using old[of r'] that by auto
    show "tr_id r = tr_id r'"
      if rs: "r \<in> set (task_runs ?d')" "r' \<in> set (task_runs ?d')"
        "tr_lease_token r = Some t" "tr_lease_token r' = Some t" for r r' t
    proof -
      obtain p where p: "p \<in> set (task_runs d)" "tr_id p = tr_id r"
          "t = uuid_supply d \<and> tr_id r = rid \<or> t < uuid_supply d \<and> tr_lease_token p = Some t"
        using old[of r] rs(1,3) by auto
      obtain q where q: "q \<in> set (task_runs d)" "tr_id q = tr_id r'"
          "t = uuid_supply d \<and> tr_id r' = rid \<or> t < uuid_supply d \<and> tr_lease_token q = Some t"
        using old[of r'] rs(2,4) by auto
      show ?thesis
        using p(3) q(3) tokens_ok_inj[OF tw p(1) q(1)] p(2) q(2) by auto
    qed
  qed
  moreover have "\<forall>r \<in> set (update_where ?P ?f (task_runs d)). row_ok r"
    using wf row_ok_claim by (auto simp: set_update_where db_wf_def)
  moreover have "fk_ok ?d'"
    using wf by (auto simp: db_wf_def fk_ok_def set_update_where)
  ultimately show ?thesis
    using wf by (simp add: db_wf_def map_key_update_where)
qed

section \<open>What each call does\<close>

definition run_at :: "db \<Rightarrow> nat \<Rightarrow> task_run option" where
  "run_at d rid = get_row tr_id rid (task_runs d)"

lemma run_at_record_event [simp]: "run_at (record_event r e a b w x d) = run_at d"
  by (rule ext) (simp add: run_at_def)

lemma run_at_in: "run_at d rid = Some r \<Longrightarrow> r \<in> set (task_runs d) \<and> tr_id r = rid"
  unfolding run_at_def by (rule get_row_in)

lemma run_at_update:
  "keyed tr_id (task_runs d) \<Longrightarrow> (\<And>r. tr_id (f r) = tr_id r) \<Longrightarrow>
   run_at (d\<lparr>task_runs := update_where P f (task_runs d)\<rparr>) rid =
   map_option (\<lambda>r. if P r then f r else r) (run_at d rid)"
  by (simp add: run_at_def get_row_update_where)

lemma db_wfD:
  "db_wf d \<Longrightarrow> keyed tr_id (task_runs d)"
  "db_wf d \<Longrightarrow> r \<in> set (task_runs d) \<Longrightarrow> row_ok r"
  "db_wf d \<Longrightarrow> tokens_ok d"
  by (simp_all add: db_wf_def)

lemma task_of_exists:
  assumes "db_wf d" "run_at d rid = Some r"
  shows "\<exists>t. task_of d r = Some t"
proof -
  have "tr_task_id r \<in> task_id ` set (tasks d)"
    using assms run_at_in[OF assms(2)] by (auto simp: db_wf_def fk_ok_def)
  then show ?thesis
    by (cases "task_of d r") (auto simp: task_of_def get_row_None)
qed

lemma rowcount_holds:
  assumes "keyed tr_id (task_runs d)"
  shows "rowcount (holds_lease rid tok) (task_runs d) = 1 \<longleftrightarrow>
         (\<exists>r. run_at d rid = Some r \<and> tr_lease_token r = tok \<and> tr_status r = RUNNING)"
proof -
  have "rowcount (holds_lease rid tok) (task_runs d) = 1 \<longleftrightarrow>
      (\<exists>r \<in> set (task_runs d). tr_id r = rid \<and> tr_lease_token r = tok \<and> tr_status r = RUNNING)"
    using rowcount_one_iff[OF assms, of rid "\<lambda>r. tr_lease_token r = tok \<and> tr_status r = RUNNING"]
    by (simp add: holds_lease_def[abs_def])
  also have "\<dots> \<longleftrightarrow> (\<exists>r. run_at d rid = Some r \<and> tr_lease_token r = tok \<and> tr_status r = RUNNING)"
    using get_row_eqI[OF assms] run_at_in[of d rid] by (auto simp: run_at_def)
  finally show ?thesis .
qed

definition lease_holder :: "db \<Rightarrow> nat \<Rightarrow> nat option" where
  "lease_holder d rid = Option.bind (run_at d rid) tr_lease_token"

lemma rowcount_lease:
  assumes "db_wf d"
  shows "rowcount (holds_lease rid (Some t)) (task_runs d) = 1 \<longleftrightarrow> lease_holder d rid = Some t"
  unfolding rowcount_holds[OF db_wfD(1)[OF assms]] lease_holder_def bind_eq_Some_conv
  using token_means_running[OF db_wfD(2)[OF assms]] run_at_in[of d rid] by blast

lemma lease_holderE:
  assumes "db_wf d" "lease_holder d rid = Some t"
  obtains r tk where "run_at d rid = Some r" "tr_lease_token r = Some t" "tr_status r = RUNNING"
    "row_ok r" "task_of d r = Some tk"
proof -
  obtain r where r: "run_at d rid = Some r" "tr_lease_token r = Some t"
    using assms(2) by (auto simp: lease_holder_def bind_eq_Some_conv)
  have "row_ok r" using run_at_in[OF r(1)] db_wfD(2)[OF assms(1)] by blast
  moreover from this have "tr_status r = RUNNING" using r(2) token_means_running by blast
  moreover obtain tk where "task_of d r = Some tk" using task_of_exists[OF assms(1) r(1)] by blast
  ultimately show ?thesis using that[OF r] by blast
qed

text \<open>A token that does not hold the run's lease is refused by every call.\<close>

lemma refused:
  assumes "db_wf d" "lease_holder d rid \<noteq> Some t"
  shows "heartbeat cfg now rid (Some t) d = Inl (LeaseLostError rid)"
    and "complete_success now rid (Some t) w log d = Inl (LeaseLostError rid)"
    and "complete_failure cfg now rid (Some t) w msg ret log d = Inl (LeaseLostError rid)"
proof -
  have rc: "rowcount (holds_lease rid (Some t)) (task_runs d) \<noteq> Suc 0"
    using rowcount_lease[OF assms(1), of rid t] assms(2) by simp
  show "heartbeat cfg now rid (Some t) d = Inl (LeaseLostError rid)"
    using rc task_of_exists[OF assms(1), of rid]
    by (auto simp: heartbeat_def Let_def run_at_def split: option.splits)
  show "complete_success now rid (Some t) w log d = Inl (LeaseLostError rid)"
    using rc by (simp add: complete_success_def)
  show "complete_failure cfg now rid (Some t) w msg ret log d = Inl (LeaseLostError rid)"
    using assms(2) rc task_of_exists[OF assms(1), of rid]
    by (auto simp: complete_failure_def Let_def lease_holder_def run_at_def split: option.splits)
qed

text \<open>The holder is accepted, and the row is rewritten as stated.\<close>

lemma heartbeat_accepted:
  assumes "db_wf d" "run_at d rid = Some r" "tr_lease_token r = Some t" "task_of d r = Some tk"
  shows "heartbeat cfg now rid (Some t) d =
    Inr (d\<lparr>task_runs := update_where (holds_lease rid (Some t))
           (\<lambda>r. r\<lparr>tr_last_heartbeat_at := Some now,
              tr_lease_expires_at := Some (now + seconds (effective_timeout cfg (timeout_seconds tk)))\<rparr>)
           (task_runs d)\<rparr>)"
  using assms rowcount_lease[OF assms(1), of rid t]
  by (auto simp: heartbeat_def run_at_def lease_holder_def)

lemma complete_success_accepted:
  assumes wf: "db_wf d" and r: "run_at d rid = Some r" "tr_lease_token r = Some t"
  shows "complete_success now rid (Some t) w log d =
    Inr (record_event (success_row now log r) ''succeeded'' (Some RUNNING) (Some SUCCESS) (Some w)
          (SucceededDetail (map_option (\<lambda>s. now - s) (tr_started_at r)))
          (d\<lparr>task_runs := update_where (holds_lease rid (Some t)) (success_row now log) (task_runs d)\<rparr>))"
proof -
  have h: "holds_lease rid (Some t) r"
    using r run_at_in[OF r(1)] token_means_running[OF db_wfD(2)[OF wf]] by (auto simp: holds_lease_def)
  have "get_row tr_id rid (update_where (holds_lease rid (Some t)) (success_row now log) (task_runs d))
      = Some (success_row now log r)"
    using r h by (simp add: get_row_update_where[OF db_wfD(1)[OF wf]] run_at_def)
  then show ?thesis
    using r rowcount_lease[OF wf, of rid t]
    by (simp add: complete_success_def lease_holder_def) (simp add: success_row_def)
qed

lemma complete_failure_accepted:
  assumes wf: "db_wf d" and r: "run_at d rid = Some r" "tr_lease_token r = Some t"
    and tk: "task_of d r = Some tk"
  shows "complete_failure cfg now rid (Some t) w msg ret log d =
    (if ret \<and> int (tr_attempt_count r) < effective_max_attempts cfg tk
     then Inr (record_event r ''requeued'' (Some RUNNING) (Some PENDING) (Some w)
            (RequeuedDetail msg (now + seconds (retry_delay cfg (tr_attempt_count r))) (tr_attempt_count r))
            (d\<lparr>task_runs := update_where (holds_lease rid (Some t))
               (requeue_row (now + seconds (retry_delay cfg (tr_attempt_count r))) log) (task_runs d)\<rparr>))
     else Inr (record_event r ''failed'' (Some RUNNING) (Some FAILED) (Some w)
            (FailedDetail msg (tr_attempt_count r) ret)
            (d\<lparr>task_runs := update_where (holds_lease rid (Some t)) (failed_row now msg log) (task_runs d)\<rparr>)))"
proof -
  have "tr_status r = RUNNING"
    using run_at_in[OF r(1)] r(2) token_means_running[OF db_wfD(2)[OF wf]] by blast
  then show ?thesis
    using r tk rowcount_lease[OF wf, of rid t]
    by (simp add: complete_failure_def run_at_def lease_holder_def Let_def)
qed

end
