(* ===== verification/Scheduler.thy ===== *)
theory Scheduler
  imports Leases
begin

text \<open>
  \<open>app.worker.scheduler.run_due_schedules\<close>: one pass turns due scheduled tasks into pending runs.

  The pass reads the clock once.  Whether the transaction of one task raises (a database error in
  its \<open>try\<close> block) is the parameter \<open>fails\<close>, and the database's own clock, which stamps the rows it
  creates, is the parameter \<open>stamp\<close>; both are given per task id.
\<close>

section \<open>The pass\<close>

definition sched_due :: "time \<Rightarrow> nat set \<Rightarrow> task \<Rightarrow> bool" where
  "sched_due now excluded t \<longleftrightarrow>
     schedule_interval_seconds t \<noteq> None \<and> is_active t
     \<and> (case next_run_at t of None \<Rightarrow> False | Some due_at \<Rightarrow> due_at \<le> now)
     \<and> task_id t \<notin> excluded"

text \<open>\<open>ORDER BY next_run_at ASC, id ASC\<close>; \<open>LIMIT 1\<close> is the head.\<close>

definition due_list :: "time \<Rightarrow> nat set \<Rightarrow> task table \<Rightarrow> task list" where
  "due_list now excluded T =
     sort_key (\<lambda>t. (the (next_run_at t), task_id t)) (filter (sched_due now excluded) T)"

text \<open>The guard of the \<open>UPDATE\<close>, which re-checks what the \<open>SELECT\<close> saw.\<close>

definition still_due :: "task \<Rightarrow> task \<Rightarrow> bool" where
  "still_due t x \<longleftrightarrow> task_id x = task_id t \<and> next_run_at x = next_run_at t \<and> is_active x
     \<and> schedule_interval_seconds x \<noteq> None"

definition advance_task :: "time \<Rightarrow> task \<Rightarrow> task \<Rightarrow> task" where
  "advance_task now t x = x\<lparr>next_run_at := Some (now + seconds (the (schedule_interval_seconds t)))\<rparr>"

text \<open>The committed effect of one task's transaction.\<close>

definition schedule_task :: "(nat \<Rightarrow> time) \<Rightarrow> time \<Rightarrow> task \<Rightarrow> db \<Rightarrow> db" where
  "schedule_task stamp now t d =
     fst (create_task_run_record (stamp (task_id t)) (task_org t) (task_id t) None None
            (d\<lparr>tasks := update_where (still_due t) (advance_task now t) (tasks d)\<rparr>))"

text \<open>The \<open>while attempted < batch_size\<close> loop; the first argument is \<open>batch_size - attempted\<close>.\<close>

fun schedule_loop ::
  "nat \<Rightarrow> (nat \<Rightarrow> time) \<Rightarrow> (nat \<Rightarrow> bool) \<Rightarrow> time \<Rightarrow> nat set \<Rightarrow> nat \<Rightarrow> db \<Rightarrow> db \<times> nat"
where
  "schedule_loop 0 stamp fails now excluded created d = (d, created)"
| "schedule_loop (Suc n) stamp fails now excluded created d =
     (case due_list now excluded (tasks d) of
        [] \<Rightarrow> (d, created)
      | t # _ \<Rightarrow>
          if fails (task_id t) \<or> rowcount (still_due t) (tasks d) \<noteq> 1
          then schedule_loop n stamp fails now (insert (task_id t) excluded) created d
          else schedule_loop n stamp fails now excluded (Suc created) (schedule_task stamp now t d))"

definition run_due_schedules ::
  "settings \<Rightarrow> (nat \<Rightarrow> time) \<Rightarrow> (nat \<Rightarrow> bool) \<Rightarrow> time \<Rightarrow> nat option \<Rightarrow> db \<Rightarrow> db \<times> nat"
where
  "run_due_schedules cfg stamp fails now batch_size d =
     (let n = (case batch_size of None \<Rightarrow> scheduler_claim_batch_size cfg | Some k \<Rightarrow> k)
      in schedule_loop n stamp fails now {} 0 d)"

section \<open>The due list shrinks by its head\<close>

lemma due_list_exclude:
  "due_list now (insert i excluded) T = filter (\<lambda>t. task_id t \<noteq> i) (due_list now excluded T)"
proof -
  have "sched_due now (insert i excluded) = (\<lambda>t. sched_due now excluded t \<and> task_id t \<noteq> i)"
    by (rule ext) (auto simp: sched_due_def)
  then show ?thesis by (simp add: due_list_def filter_sort conj_commute)
qed

lemma due_list_mem: "t \<in> set (due_list now excluded T) \<longleftrightarrow> t \<in> set T \<and> sched_due now excluded t"
  by (auto simp: due_list_def)

lemma distinct_due_list: "keyed task_id T \<Longrightarrow> distinct (map task_id (due_list now excluded T))"
  by (simp add: due_list_def distinct_map distinct_sort inj_on_subset[of task_id "set T"])

lemma due_list_tail:
  "keyed task_id T \<Longrightarrow> due_list now excluded T = t # ts \<Longrightarrow>
   filter (\<lambda>x. task_id x \<noteq> task_id t) (due_list now excluded T) = ts"
  using distinct_due_list[of T now excluded] by (auto simp: filter_id_conv image_iff)

text \<open>\<open>ck_tasks_schedule_interval_hard_floor\<close>.\<close>

definition interval_floor :: "task table \<Rightarrow> bool" where
  "interval_floor T \<longleftrightarrow> (\<forall>t \<in> set T. \<forall>s. schedule_interval_seconds t = Some s \<longrightarrow> 30 \<le> s)"

lemma due_list_advance:
  assumes "keyed task_id T" and fl: "interval_floor T" and t: "t \<in> set T" "sched_due now excluded t"
  shows "due_list now excluded (update_where (still_due t) (advance_task now t) T) =
         filter (\<lambda>x. task_id x \<noteq> task_id t) (due_list now excluded T)"
proof -
  obtain s where s: "schedule_interval_seconds t = Some s" "30 \<le> s"
    using fl t by (auto simp: interval_floor_def sched_due_def)
  have nd: "\<not> sched_due now excluded (advance_task now t x)" for x
    using s by (auto simp: sched_due_def advance_task_def)
  have is_t: "still_due t x \<longleftrightarrow> task_id x = task_id t" if "x \<in> set T" for x
  proof
    assume "task_id x = task_id t"
    then have "x = t" using keyed_inj[OF assms(1) that t(1)] by simp
    then show "still_due t x" using t(2) by (auto simp: still_due_def sched_due_def)
  qed (simp add: still_due_def)
  have "filter (sched_due now excluded) (update_where (still_due t) (advance_task now t) X) =
        filter (\<lambda>x. task_id x \<noteq> task_id t) (filter (sched_due now excluded) X)"
    if "set X \<subseteq> set T" for X
    using that by (induction X) (auto simp: update_where_Cons nd is_t)
  from this[of T] show ?thesis
    by (simp add: due_list_def filter_sort)
qed

lemma schedule_task_tasks:
  "tasks (schedule_task stamp now t d) = update_where (still_due t) (advance_task now t) (tasks d)"
  by (simp add: schedule_task_def create_task_run_record_def Let_def)

lemma advance_task_simps [simp]:
  "task_id (advance_task now t x) = task_id x"
  "schedule_interval_seconds (advance_task now t x) = schedule_interval_seconds x"
  "max_attempts (advance_task now t x) = max_attempts x"
  "timeout_seconds (advance_task now t x) = timeout_seconds x"
  by (simp_all add: advance_task_def)

lemma interval_floor_schedule: "interval_floor (tasks d) \<Longrightarrow> interval_floor (tasks (schedule_task stamp now t d))"
  by (auto simp: interval_floor_def schedule_task_tasks set_update_where)

lemma keyed_schedule: "keyed task_id (tasks (schedule_task stamp now t d)) = keyed task_id (tasks d)"
  by (simp add: schedule_task_tasks map_key_update_where)

lemma still_due_once:
  assumes "keyed task_id T" "t \<in> set T" "sched_due now excluded t"
  shows "rowcount (still_due t) T = 1"
  using rowcount_one_iff[OF assms(1), of "task_id t"
      "\<lambda>x. next_run_at x = next_run_at t \<and> is_active x \<and> schedule_interval_seconds x \<noteq> None"]
    assms(2,3) by (auto simp: still_due_def[abs_def] sched_due_def)

text \<open>The loop is a fold over the first \<open>n\<close> due tasks, the failing ones left out.\<close>

lemma schedule_loop_eq:
  assumes "keyed task_id (tasks d)" "interval_floor (tasks d)"
  shows "schedule_loop n stamp fails now excluded created d =
    (let picked = filter (\<lambda>t. \<not> fails (task_id t)) (take n (due_list now excluded (tasks d)))
     in (fold (schedule_task stamp now) picked d, created + length picked))"
  using assms
proof (induction n arbitrary: d created excluded)
  case 0
  then show ?case by simp
next
  case (Suc n)
  show ?case
  proof (cases "due_list now excluded (tasks d)")
    case Nil
    then show ?thesis by simp
  next
    case (Cons t ts)
    then have t: "t \<in> set (tasks d)" "sched_due now excluded t"
      using due_list_mem[of t now excluded "tasks d"] by auto
    note tail = due_list_tail[OF Suc.prems(1) Cons]
    show ?thesis
    proof (cases "fails (task_id t)")
      case True
      have "due_list now (insert (task_id t) excluded) (tasks d) = ts"
        using tail by (simp add: due_list_exclude)
      then show ?thesis using Cons True Suc.IH[OF Suc.prems] by (simp add: Let_def)
    next
      case False
      have "due_list now excluded (tasks (schedule_task stamp now t d)) = ts"
        using tail due_list_advance[OF Suc.prems t] by (simp add: schedule_task_tasks)
      moreover have "keyed task_id (tasks (schedule_task stamp now t d))"
        using Suc.prems(1) by (simp only: keyed_schedule)
      ultimately show ?thesis
        using Cons False still_due_once[OF Suc.prems(1) t]
          Suc.IH[of "schedule_task stamp now t d"] interval_floor_schedule[OF Suc.prems(2)]
        by (simp add: Let_def)
    qed
  qed
qed

section \<open>What a pass leaves behind\<close>

lemma schedule_task_runs:
  "task_runs (schedule_task stamp now t d) = task_runs d @
     [\<lparr>tr_id = uuid_supply d, tr_org = task_org t, tr_task_id = task_id t, tr_status = PENDING,
       tr_triggered_by = None, tr_started_at = None, tr_finished_at = None, tr_log_output = None,
       tr_error_message = None, tr_created_at = stamp (task_id t),
       tr_idempotency_key = uuid_supply d + 1, tr_lease_token = None, tr_lease_expires_at = None,
       tr_last_heartbeat_at = None, tr_attempt_count = 0, tr_next_retry_at = None,
       tr_source_task_run_id = None\<rparr>]"
  by (simp add: schedule_task_def create_task_run_record_def Let_def)

lemma uuid_supply_schedule_task [simp]:
  "uuid_supply (schedule_task stamp now t d) = uuid_supply d + 2"
  by (simp add: schedule_task_def create_task_run_record_def Let_def)

text \<open>What every freshly scheduled run looks like.\<close>

definition fresh_run :: "task_run \<Rightarrow> bool" where
  "fresh_run r \<longleftrightarrow> tr_status r = PENDING \<and> tr_triggered_by r = None \<and> tr_attempt_count r = 0
     \<and> tr_lease_token r = None \<and> tr_next_retry_at r = None \<and> tr_source_task_run_id r = None"

lemma fold_schedule_runs:
  "\<exists>new. task_runs (fold (schedule_task stamp now) ts d) = task_runs d @ new
     \<and> map tr_task_id new = map task_id ts \<and> (\<forall>r \<in> set new. fresh_run r)"
proof (induction ts arbitrary: d)
  case Nil
  then show ?case by simp
next
  case (Cons t ts)
  obtain new where new: "task_runs (fold (schedule_task stamp now) ts (schedule_task stamp now t d))
      = task_runs (schedule_task stamp now t d) @ new"
      "map tr_task_id new = map task_id ts" "\<forall>r \<in> set new. fresh_run r"
    using Cons.IH by blast
  then show ?case
    by (auto simp: schedule_task_runs fresh_run_def)
qed

text \<open>The tasks already handled are no longer due at the pass's own instant.\<close>

lemma due_list_fold:
  assumes "keyed task_id (tasks d)" "interval_floor (tasks d)" "distinct (map task_id ts)"
    and "set ts \<subseteq> set (due_list now excluded (tasks d))"
  shows "due_list now excluded (tasks (fold (schedule_task stamp now) ts d)) =
         filter (\<lambda>x. task_id x \<notin> task_id ` set ts) (due_list now excluded (tasks d))"
  using assms
proof (induction ts arbitrary: d)
  case Nil
  then show ?case by simp
next
  case (Cons t ts)
  let ?d = "schedule_task stamp now t d"
  have t: "t \<in> set (tasks d)" "sched_due now excluded t"
    using Cons.prems(4) due_list_mem[of t now excluded "tasks d"] by auto
  have rest: "due_list now excluded (tasks ?d) =
      filter (\<lambda>x. task_id x \<noteq> task_id t) (due_list now excluded (tasks d))"
    using due_list_advance[OF Cons.prems(1,2) t] by (simp add: schedule_task_tasks)
  have sub: "set ts \<subseteq> set (due_list now excluded (tasks ?d))"
  proof
    fix x assume x: "x \<in> set ts"
    have "task_id x \<noteq> task_id t"
    proof
      assume "task_id x = task_id t"
      then have "task_id t \<in> task_id ` set ts" using x by (metis imageI)
      then show False using Cons.prems(3) by simp
    qed
    then show "x \<in> set (due_list now excluded (tasks ?d))"
      using x Cons.prems(3,4) by (auto simp: rest)
  qed
  have k: "keyed task_id (tasks ?d)" using Cons.prems(1) by (simp only: keyed_schedule)
  show ?case
    using Cons.IH[OF k interval_floor_schedule[OF Cons.prems(2)] _ sub] Cons.prems(3)
    by (simp add: rest conj_commute)
qed

lemma db_wf_create:
  assumes wf: "db_wf d" and tid: "tid \<in> task_id ` set (tasks d)"
  shows "db_wf (fst (create_task_run_record now org tid by src d))" (is "db_wf ?d'")
proof -
  have ids: "\<forall>r \<in> set (task_runs d). tr_id r < uuid_supply d"
    using tokens_ok_id[OF db_wfD(3)[OF wf]] by blast
  have "tokens_ok ?d'"
  proof (rule tokens_okI)
    show "tr_id r < uuid_supply ?d'" if "r \<in> set (task_runs ?d')" for r
      using that ids by (auto simp: create_task_run_record_def Let_def)
    show "t < uuid_supply ?d'" if "r \<in> set (task_runs ?d')" "tr_lease_token r = Some t" for r t
      using that tokens_ok_below[OF db_wfD(3)[OF wf], of r t] by (auto simp: create_task_run_record_def Let_def)
    show "tr_id r = tr_id r'"
      if "r \<in> set (task_runs ?d')" "r' \<in> set (task_runs ?d')"
        "tr_lease_token r = Some t" "tr_lease_token r' = Some t" for r r' t
      using that tokens_ok_inj[OF db_wfD(3)[OF wf], of r r' t] by (auto simp: create_task_run_record_def Let_def)
  qed
  then show ?thesis
    using wf tid ids
    by (auto simp: db_wf_def create_task_run_record_def Let_def fk_ok_def row_ok_defs image_iff)
qed

lemma db_wf_tasks_update:
  assumes "db_wf d" "map task_id T = map task_id (tasks d)"
  shows "db_wf (d\<lparr>tasks := T\<rparr>)"
proof -
  have "task_id ` set T = task_id ` set (tasks d)"
    using arg_cong[OF assms(2), of set] by simp
  moreover have "keyed task_id T"
    unfolding assms(2) using assms(1) by (simp add: db_wf_def)
  moreover have "tokens_ok (d\<lparr>tasks := T\<rparr>) = tokens_ok d" by (simp add: tokens_ok_def)
  ultimately show ?thesis using assms(1) by (simp add: db_wf_def fk_ok_def)
qed

lemma db_wf_schedule_task:
  assumes "db_wf d" "t \<in> set (tasks d)"
  shows "db_wf (schedule_task stamp now t d)"
proof -
  let ?T = "update_where (still_due t) (advance_task now t) (tasks d)"
  have ids: "map task_id ?T = map task_id (tasks d)" by (simp add: map_key_update_where)
  have "task_id t \<in> task_id ` set ?T" using arg_cong[OF ids, of set] assms(2) by simp
  then show ?thesis
    unfolding schedule_task_def using db_wf_create[OF db_wf_tasks_update[OF assms(1) ids]] by simp
qed

text \<open>What other components may assume of a task row across a pass.\<close>

definition task_profile :: "db \<Rightarrow> (nat \<times> int option \<times> int option) list" where
  "task_profile d = map (\<lambda>t. (task_id t, max_attempts t, timeout_seconds t)) (tasks d)"

lemma task_profile_schedule: "task_profile (schedule_task stamp now t d) = task_profile d"
  by (simp add: task_profile_def schedule_task_tasks update_where_def)

lemma fold_schedule_frame:
  assumes "db_wf d" "set ts \<subseteq> set (tasks d)" "distinct (map task_id ts)"
  shows "db_wf (fold (schedule_task stamp now) ts d)
    \<and> task_profile (fold (schedule_task stamp now) ts d) = task_profile d
    \<and> uuid_supply d \<le> uuid_supply (fold (schedule_task stamp now) ts d)"
  using assms
proof (induction ts arbitrary: d)
  case Nil
  then show ?case by simp
next
  case (Cons t ts)
  let ?d = "schedule_task stamp now t d"
  have "set ts \<subseteq> set (tasks ?d)"
    using Cons.prems(2,3) by (force simp: schedule_task_tasks set_update_where still_due_def image_iff)
  then have "db_wf (fold (schedule_task stamp now) ts ?d)
    \<and> task_profile (fold (schedule_task stamp now) ts ?d) = task_profile ?d
    \<and> uuid_supply ?d \<le> uuid_supply (fold (schedule_task stamp now) ts ?d)"
    using Cons.IH[OF db_wf_schedule_task] Cons.prems by simp
  then show ?case by (simp add: task_profile_schedule)
qed

end
