(* ===== verification/TasksApi.thy ===== *)
theory TasksApi
  imports Review Scheduler
begin

text \<open>
  Tasks and their runs in \<open>app.api.tasks\<close>, with the validation of the payloads in
  \<open>app.schemas.task\<close>: create, update and delete a task, create a run.

  A request reads and checks, then writes and commits; the two halves are separate definitions, since other
  sessions commit in between.  The commit of an update writes the columns whose values the request
  changed, over the row as it is then, as the session does; the unique index on active names is
  checked at the commit.  Columns without effect (description, the free-text schedule,
  time stamps) are not carried.
\<close>

section \<open>Payloads\<close>

record schedule_limits =
  minimum_schedule_interval_seconds :: int
  maximum_schedule_interval_seconds :: int

record task_create =
  pc_name :: string
  pc_source :: "nat option"
  pc_type :: task_type
  pc_interval :: "int option"
  pc_max_attempts :: "int option"
  pc_timeout :: "int option"

text \<open>An omitted field is \<open>None\<close>; an explicit \<open>null\<close> is \<open>Some None\<close> where the request may send one.\<close>

record task_update =
  pu_name :: "string option"
  pu_source :: "nat option option"
  pu_type :: "task_type option"
  pu_interval :: "int option option"
  pu_max_attempts :: "int option option"
  pu_timeout :: "int option option"

definition normalize_name :: "string \<Rightarrow> string" where
  "normalize_name s = strip s"

definition name_valid :: "string \<Rightarrow> bool" where
  "name_valid s \<longleftrightarrow> 1 \<le> py_len s \<and> py_len s \<le> 255 \<and> normalize_name s \<noteq> []"

definition in_bounds :: "int \<Rightarrow> int \<Rightarrow> int option \<Rightarrow> bool" where
  "in_bounds lo hi x \<longleftrightarrow> (case x of None \<Rightarrow> True | Some v \<Rightarrow> lo \<le> v \<and> v \<le> hi)"

definition interval_valid :: "schedule_limits \<Rightarrow> int option \<Rightarrow> bool" where
  "interval_valid lims = in_bounds (minimum_schedule_interval_seconds lims) (maximum_schedule_interval_seconds lims)"

definition task_create_valid :: "schedule_limits \<Rightarrow> task_create \<Rightarrow> bool" where
  "task_create_valid lims p \<longleftrightarrow> name_valid (pc_name p) \<and> interval_valid lims (pc_interval p)
     \<and> in_bounds 1 20 (pc_max_attempts p) \<and> in_bounds 1 86400 (pc_timeout p)"

definition or_null :: "'a option option \<Rightarrow> 'a option" where
  "or_null x = (case x of None \<Rightarrow> None | Some y \<Rightarrow> y)"

definition task_update_valid :: "schedule_limits \<Rightarrow> task_update \<Rightarrow> bool" where
  "task_update_valid lims p \<longleftrightarrow> (case pu_name p of None \<Rightarrow> True | Some n \<Rightarrow> name_valid n)
     \<and> interval_valid lims (or_null (pu_interval p))
     \<and> in_bounds 1 20 (or_null (pu_max_attempts p)) \<and> in_bounds 1 86400 (or_null (pu_timeout p))"

section \<open>Checks\<close>

text \<open>\<open>lower(trim(name))\<close>: SQL's \<open>trim\<close> removes spaces only.\<close>

definition sql_trim :: "string \<Rightarrow> string" where
  "sql_trim s = rev (dropWhile (\<lambda>c. c = CHR '' '') (rev (dropWhile (\<lambda>c. c = CHR '' '') s)))"

definition sql_key :: "string \<Rightarrow> string" where
  "sql_key s = lower (sql_trim s)"

definition name_taken :: "db \<Rightarrow> nat \<Rightarrow> string \<Rightarrow> nat option \<Rightarrow> query_error + bool" where
  "name_taken d org name exclude =
     (case scalar_one_or_none (filter (\<lambda>t. task_org t = org \<and> sql_key (task_name t) = lower (strip name) \<and> is_active t
             \<and> Some (task_id t) \<noteq> exclude) (tasks d)) of
        Inl e \<Rightarrow> Inl e | Inr x \<Rightarrow> Inr (x \<noteq> None))"

definition check_name :: "db \<Rightarrow> nat \<Rightarrow> string \<Rightarrow> nat option \<Rightarrow> http_error + unit" where
  "check_name d org name exclude =
     (case name_taken d org name exclude of Inl _ \<Rightarrow> Inl ServerError | Inr True \<Rightarrow> Inl Conflict | Inr False \<Rightarrow> Inr ())"

definition validate_data_source_ref :: "store \<Rightarrow> nat option \<Rightarrow> nat \<Rightarrow> http_error + unit" where
  "validate_data_source_ref s source org =
     (case source of None \<Rightarrow> Inr ()
      | Some i \<Rightarrow> (case found (scalar_one_or_none (filter (\<lambda>x. so_id x = i \<and> so_org x = org \<and> so_active x) (st_sources s))) of
                    Inl e \<Rightarrow> Inl e | Inr _ \<Rightarrow> Inr ()))"

definition validate_schedule_interval_task_type :: "task_type \<Rightarrow> int option \<Rightarrow> http_error + unit" where
  "validate_schedule_interval_task_type ty interval =
     (if interval \<noteq> None \<and> ty \<noteq> SYNC then Inl BadRequest else Inr ())"

definition compute_next_run_at :: "time \<Rightarrow> int \<Rightarrow> time" where
  "compute_next_run_at now interval = now + seconds interval"

definition next_run_of :: "time \<Rightarrow> int option \<Rightarrow> time option" where
  "next_run_of now interval = map_option (compute_next_run_at now) interval"

text \<open>\<open>ix_tasks_org_name_active\<close>.\<close>

definition name_key :: "task \<Rightarrow> nat \<times> string" where
  "name_key t = (task_org t, sql_key (task_name t))"

definition names_unique :: "task table \<Rightarrow> bool" where
  "names_unique T \<longleftrightarrow> distinct (map name_key (filter is_active T))"

definition set_tasks :: "task table \<Rightarrow> store \<Rightarrow> store" where
  "set_tasks T s = s\<lparr>st_engine := (st_engine s)\<lparr>tasks := T\<rparr>\<rparr>"

definition commit_tasks :: "task table \<Rightarrow> store \<Rightarrow> http_error + store" where
  "commit_tasks T s = (if names_unique T then Inr (set_tasks T s) else Inl Conflict)"

section \<open>Create\<close>

definition create_task_check :: "schedule_limits \<Rightarrow> task_create \<Rightarrow> user \<Rightarrow> time \<Rightarrow> store \<Rightarrow> http_error + task" where
  "create_task_check lims p u now s =
     (if \<not> task_create_valid lims p then Inl Unprocessable
      else let name = normalize_name (pc_name p) in
        case validate_data_source_ref s (pc_source p) (us_org u) of Inl e \<Rightarrow> Inl e | Inr _ \<Rightarrow>
        (case check_name (st_engine s) (us_org u) name None of Inl e \<Rightarrow> Inl e | Inr _ \<Rightarrow>
        (case validate_schedule_interval_task_type (pc_type p) (pc_interval p) of Inl e \<Rightarrow> Inl e | Inr _ \<Rightarrow>
           Inr \<lparr>task_id = 0, task_org = us_org u, schedule_interval_seconds = pc_interval p,
                next_run_at = next_run_of now (pc_interval p), max_attempts = pc_max_attempts p,
                timeout_seconds = pc_timeout p, is_active = True, task_name = name, task_type = pc_type p,
                task_source = pc_source p\<rparr>)))"

definition create_task_commit :: "task \<Rightarrow> store \<Rightarrow> http_error + store" where
  "create_task_commit t s =
     (let i = uuid_supply (st_engine s);
          s' = s\<lparr>st_engine := (st_engine s)\<lparr>uuid_supply := Suc i\<rparr>\<rparr>
      in commit_tasks (tasks (st_engine s) @ [t\<lparr>task_id := i\<rparr>]) s')"

definition create_task :: "schedule_limits \<Rightarrow> task_create \<Rightarrow> user \<Rightarrow> time \<Rightarrow> store \<Rightarrow> http_error + store" where
  "create_task lims p u now s =
     (case create_task_check lims p u now s of Inl e \<Rightarrow> Inl e | Inr t \<Rightarrow> create_task_commit t s)"

section \<open>Update\<close>

definition rename :: "db \<Rightarrow> nat \<Rightarrow> string option \<Rightarrow> task \<Rightarrow> http_error + task" where
  "rename d org name t =
     (case name of None \<Rightarrow> Inr t
      | Some n \<Rightarrow>
          if lower n = lower (strip (task_name t)) then Inr t
          else (case check_name d org n (Some (task_id t)) of Inl e \<Rightarrow> Inl e | Inr _ \<Rightarrow> Inr (t\<lparr>task_name := n\<rparr>)))"

definition reassign :: "store \<Rightarrow> nat \<Rightarrow> nat option option \<Rightarrow> task \<Rightarrow> http_error + task" where
  "reassign s org source t =
     (case source of None \<Rightarrow> Inr t
      | Some x \<Rightarrow> (case validate_data_source_ref s x org of Inl e \<Rightarrow> Inl e | Inr _ \<Rightarrow> Inr (t\<lparr>task_source := x\<rparr>)))"

definition retype :: "task_type option \<Rightarrow> task \<Rightarrow> task" where
  "retype ty t = (case ty of None \<Rightarrow> t | Some x \<Rightarrow> t\<lparr>task_type := x\<rparr>)"

definition reschedule :: "time \<Rightarrow> int option option \<Rightarrow> task \<Rightarrow> task" where
  "reschedule now interval t =
     (case interval of None \<Rightarrow> t
      | Some x \<Rightarrow> t\<lparr>schedule_interval_seconds := x, next_run_at := next_run_of now x\<rparr>)"

definition limit_attempts :: "int option option \<Rightarrow> int option option \<Rightarrow> task \<Rightarrow> task" where
  "limit_attempts attempts timeout t =
     t\<lparr>max_attempts := (case attempts of None \<Rightarrow> max_attempts t | Some x \<Rightarrow> x),
       timeout_seconds := (case timeout of None \<Rightarrow> timeout_seconds t | Some x \<Rightarrow> x)\<rparr>"

text \<open>The task as it was read, and the task with the changes of the request.\<close>

definition update_task_check ::
  "schedule_limits \<Rightarrow> nat \<Rightarrow> task_update \<Rightarrow> user \<Rightarrow> time \<Rightarrow> store \<Rightarrow> http_error + task \<times> task"
where
  "update_task_check lims tid p u now s =
     (if \<not> task_update_valid lims p then Inl Unprocessable
      else case get_active_task_or_404 (st_engine s) tid (us_org u) of Inl e \<Rightarrow> Inl e | Inr t \<Rightarrow>
        (case rename (st_engine s) (us_org u) (map_option normalize_name (pu_name p)) t of Inl e \<Rightarrow> Inl e | Inr t1 \<Rightarrow>
        (case reassign s (us_org u) (pu_source p) t1 of Inl e \<Rightarrow> Inl e | Inr t2 \<Rightarrow>
        (let t3 = reschedule now (pu_interval p) (retype (pu_type p) t2) in
         case validate_schedule_interval_task_type (task_type t3) (schedule_interval_seconds t3) of Inl e \<Rightarrow> Inl e | Inr _ \<Rightarrow>
           Inr (t, limit_attempts (pu_max_attempts p) (pu_timeout p) t3)))))"

definition changed :: "(task \<Rightarrow> 'a) \<Rightarrow> task \<Rightarrow> task \<Rightarrow> task \<Rightarrow> 'a" where
  "changed f old new cur = (if f new = f old then f cur else f new)"

definition merge_columns :: "task \<Rightarrow> task \<Rightarrow> task \<Rightarrow> task" where
  "merge_columns old new cur =
     cur\<lparr>task_name := changed task_name old new cur, task_source := changed task_source old new cur,
         task_type := changed task_type old new cur,
         schedule_interval_seconds := changed schedule_interval_seconds old new cur,
         next_run_at := changed next_run_at old new cur, max_attempts := changed max_attempts old new cur,
         timeout_seconds := changed timeout_seconds old new cur\<rparr>"

definition update_task_commit :: "task \<times> task \<Rightarrow> store \<Rightarrow> http_error + store" where
  "update_task_commit p s =
     (let (old, new) = p in
      commit_tasks (update_where (\<lambda>t. task_id t = task_id old) (merge_columns old new) (tasks (st_engine s))) s)"

definition update_task :: "schedule_limits \<Rightarrow> nat \<Rightarrow> task_update \<Rightarrow> user \<Rightarrow> time \<Rightarrow> store \<Rightarrow> http_error + store" where
  "update_task lims tid p u now s =
     (case update_task_check lims tid p u now s of Inl e \<Rightarrow> Inl e | Inr p \<Rightarrow> update_task_commit p s)"

section \<open>Delete\<close>

definition delete_task :: "nat \<Rightarrow> user \<Rightarrow> store \<Rightarrow> http_error + store" where
  "delete_task tid u s =
     (case get_active_task_or_404 (st_engine s) tid (us_org u) of Inl e \<Rightarrow> Inl e
      | Inr t \<Rightarrow> Inr (set_tasks (update_where (\<lambda>x. task_id x = task_id t) (\<lambda>x. x\<lparr>is_active := False\<rparr>) (tasks (st_engine s))) s))"

section \<open>Runs\<close>

definition chained_type :: "task_type \<Rightarrow> bool" where
  "chained_type ty \<longleftrightarrow> ty \<in> {TRANSFORM, STANDARDIZE, MATCH, EXPORT, REMEDIATE, VALIDATE}"

definition check_source_task_run :: "db \<Rightarrow> task_type \<Rightarrow> nat option \<Rightarrow> nat \<Rightarrow> http_error + unit" where
  "check_source_task_run d ty source org =
     (if chained_type ty
      then (case source of None \<Rightarrow> Inl BadRequest
            | Some i \<Rightarrow> (case found (scalar_one_or_none (filter (\<lambda>r. tr_id r = i \<and> tr_org r = org) (task_runs d))) of
                          Inl e \<Rightarrow> Inl e | Inr _ \<Rightarrow> Inr ()))
      else if source \<noteq> None then Inl BadRequest else Inr ())"

definition create_task_run :: "nat \<Rightarrow> nat option \<Rightarrow> user \<Rightarrow> time \<Rightarrow> store \<Rightarrow> http_error + store \<times> nat" where
  "create_task_run tid source u now s =
     (case get_active_task_or_404 (st_engine s) tid (us_org u) of Inl e \<Rightarrow> Inl e | Inr t \<Rightarrow>
        (case check_source_task_run (st_engine s) (task_type t) source (us_org u) of Inl e \<Rightarrow> Inl e | Inr _ \<Rightarrow>
        (let (d, rid) = create_task_run_record now (us_org u) (task_id t) (Some (us_id u)) source (st_engine s)
         in Inr (s\<lparr>st_engine := d\<rparr>, rid))))"

end
