(* ===== verification/TasksApiProps.thy ===== *)
theory TasksApiProps
  imports TasksApi ReviewProps
begin

text \<open>
  What the task endpoints keep of the task table, alone and together with the scheduler, and what two
  concurrent updates break.
\<close>

section \<open>Well-formed tasks\<close>

definition task_ok :: "schedule_limits \<Rightarrow> task \<Rightarrow> bool" where
  "task_ok lims t \<longleftrightarrow>
     (schedule_interval_seconds t \<noteq> None \<longrightarrow> task_type t = SYNC)
     \<and> (schedule_interval_seconds t = None \<longleftrightarrow> next_run_at t = None)
     \<and> interval_valid lims (schedule_interval_seconds t)
     \<and> in_bounds 1 20 (max_attempts t) \<and> in_bounds 1 86400 (timeout_seconds t)"

definition tasks_ok :: "schedule_limits \<Rightarrow> store \<Rightarrow> bool" where
  "tasks_ok lims s \<longleftrightarrow> keyed task_id (tasks (st_engine s)) \<and> list_all (task_ok lims) (tasks (st_engine s))
     \<and> names_unique (tasks (st_engine s)) \<and> list_all (\<lambda>t. task_id t < uuid_supply (st_engine s)) (tasks (st_engine s))"

lemma names_unique_map:
  assumes "\<And>t. is_active (f t) \<Longrightarrow> is_active t" "\<And>t. name_key (f t) = name_key t"
  shows "names_unique T \<Longrightarrow> names_unique (map f T)"
proof (induction T)
  case (Cons t T)
  have "name_key ` set (filter is_active (map f T)) \<subseteq> name_key ` set (filter is_active T)"
    using assms by (force simp: image_iff)
  then show ?case using Cons assms by (cases "is_active t") (auto simp: names_unique_def)
qed (simp add: names_unique_def)

lemma set_tasks_simps [simp]:
  "tasks (st_engine (set_tasks T s)) = T" "uuid_supply (st_engine (set_tasks T s)) = uuid_supply (st_engine s)"
  by (simp_all add: set_tasks_def)

lemma commit_tasks_Inr: "commit_tasks T s = Inr s' \<longleftrightarrow> names_unique T \<and> s' = set_tasks T s"
  by (auto simp: commit_tasks_def)

lemma in_bounds_None [simp]: "in_bounds lo hi None"
  by (simp add: in_bounds_def)

lemma create_check_ok:
  "create_task_check lims p u now s = Inr t \<Longrightarrow> task_ok lims t \<and> task_org t = us_org u"
  by (auto simp: create_task_check_def Let_def task_create_valid_def task_ok_def next_run_of_def
      validate_schedule_interval_task_type_def split: if_splits sum.splits)

lemma create_commit_ok:
  assumes "create_task_commit t s = Inr s'" "tasks_ok lims s" "task_ok lims t"
  shows "tasks_ok lims s'"
proof -
  let ?i = "uuid_supply (st_engine s)"
  have s': "tasks (st_engine s') = tasks (st_engine s) @ [t\<lparr>task_id := ?i\<rparr>]" "uuid_supply (st_engine s') = Suc ?i"
    "names_unique (tasks (st_engine s'))"
    using assms(1) by (auto simp: create_task_commit_def Let_def commit_tasks_Inr)
  have "task_ok lims (t\<lparr>task_id := ?i\<rparr>)" using assms(3) by (auto simp: task_ok_def)
  then show ?thesis using assms(2) s' by (auto simp: tasks_ok_def list_all_iff)
qed

lemma changed_same [simp]: "changed f old new old = f new"
  by (simp add: changed_def)

lemma rename_Inr: "rename d org n t = Inr t' \<Longrightarrow> \<exists>name. t' = t\<lparr>task_name := name\<rparr>"
  by (auto simp: rename_def intro: exI[where x = "task_name t"] split: option.splits if_splits sum.splits)

lemma reassign_Inr: "reassign s org x t = Inr t' \<Longrightarrow> \<exists>src. t' = t\<lparr>task_source := src\<rparr>"
  by (auto simp: reassign_def intro: exI[where x = "task_source t"] split: option.splits sum.splits)

lemma update_check_ok:
  assumes "update_task_check lims tid p u now s = Inr (old, new)" "tasks_ok lims s"
  shows "old \<in> set (tasks (st_engine s)) \<and> task_ok lims new \<and> task_id new = task_id old \<and> task_org new = task_org old
    \<and> is_active new = is_active old \<and> task_org old = us_org u"
proof -
  have v: "task_update_valid lims p" using assms(1) by (auto simp: update_task_check_def split: if_splits)
  obtain t1 t2 where t: "get_active_task_or_404 (st_engine s) tid (us_org u) = Inr old"
    "rename (st_engine s) (us_org u) (map_option normalize_name (pu_name p)) old = Inr t1"
    "reassign s (us_org u) (pu_source p) t1 = Inr t2"
    and sched: "validate_schedule_interval_task_type (task_type (reschedule now (pu_interval p) (retype (pu_type p) t2)))
      (schedule_interval_seconds (reschedule now (pu_interval p) (retype (pu_type p) t2))) = Inr ()"
    and new: "new = limit_attempts (pu_max_attempts p) (pu_timeout p) (reschedule now (pu_interval p) (retype (pu_type p) t2))"
    using assms(1) by (auto simp: update_task_check_def Let_def split: if_splits sum.splits)
  have old: "old \<in> set (tasks (st_engine s)) \<and> task_org old = us_org u"
    using t(1) filter_single by (fastforce simp: get_active_task_or_404_def found_Inr scalar_Inr_Some)
  then have ok: "task_ok lims old" using assms(2) by (auto simp: tasks_ok_def list_all_iff)
  obtain name src where t2: "t2 = old\<lparr>task_name := name, task_source := src\<rparr>"
    using rename_Inr[OF t(2)] reassign_Inr[OF t(3)] by auto
  have "task_ok lims new \<and> task_id new = task_id old \<and> task_org new = task_org old \<and> is_active new = is_active old"
    using ok v sched unfolding new t2 task_ok_def task_update_valid_def
    by (auto simp: limit_attempts_def reschedule_def retype_def or_null_def next_run_of_def
        validate_schedule_interval_task_type_def split: option.splits if_splits)
  then show ?thesis using old by blast
qed

lemma merge_columns_simps [simp]:
  "task_id (merge_columns old new t) = task_id t" "is_active (merge_columns old new t) = is_active t"
  "task_org (merge_columns old new t) = task_org t"
  by (simp_all add: merge_columns_def)

lemma merge_columns_same:
  "task_id new = task_id old \<Longrightarrow> task_org new = task_org old \<Longrightarrow> is_active new = is_active old \<Longrightarrow> merge_columns old new old = new"
  by (simp add: merge_columns_def)

lemma update_commit_ok:
  assumes "update_task_commit (old, new) s = Inr s'" "tasks_ok lims s" "old \<in> set (tasks (st_engine s))" "task_ok lims new"
    "task_id new = task_id old" "task_org new = task_org old" "is_active new = is_active old"
  shows "tasks_ok lims s'"
proof -
  let ?T = "tasks (st_engine s)" and ?f = "\<lambda>t. if task_id t = task_id old then merge_columns old new t else t"
  have T: "tasks (st_engine s') = map ?f ?T" "uuid_supply (st_engine s') = uuid_supply (st_engine s)" "names_unique (tasks (st_engine s'))"
    using assms(1) by (auto simp: update_task_commit_def commit_tasks_Inr update_where_def)
  have k: "keyed task_id ?T" using assms(2) by (simp add: tasks_ok_def)
  have same: "?f t = (if task_id t = task_id old then new else t)" if "t \<in> set ?T" for t
    using keyed_inj[OF k that assms(3)] merge_columns_same[OF assms(5-7)] by auto
  have "list_all (task_ok lims) (map ?f ?T)"
    using same assms(2,4) by (auto simp: tasks_ok_def list_all_iff)
  moreover have "map task_id (map ?f ?T) = map task_id ?T" by simp
  moreover have "list_all (\<lambda>t. task_id t < uuid_supply (st_engine s)) (map ?f ?T)"
    using assms(2) by (auto simp: tasks_ok_def list_all_iff)
  ultimately show ?thesis using k T unfolding tasks_ok_def by metis
qed

lemma delete_ok:
  assumes "delete_task tid u s = Inr s'" "tasks_ok lims s"
  shows "tasks_ok lims s'"
proof -
  obtain t :: task where "s' = set_tasks (update_where (\<lambda>x. task_id x = task_id t) (\<lambda>x. x\<lparr>is_active := False\<rparr>) (tasks (st_engine s))) s"
  proof (cases "get_active_task_or_404 (st_engine s) tid (us_org u)")
    case (Inr t)
    then show ?thesis using that[of t] assms(1) by (simp add: delete_task_def)
  qed (use assms(1) in \<open>simp add: delete_task_def\<close>)
  then have T: "tasks (st_engine s') = map (\<lambda>x. if task_id x = task_id t then x\<lparr>is_active := False\<rparr> else x) (tasks (st_engine s))"
    "uuid_supply (st_engine s') = uuid_supply (st_engine s)"
    by (simp_all add: update_where_def)
  have "names_unique (tasks (st_engine s'))"
    unfolding T by (rule names_unique_map) (use assms(2) in \<open>auto simp: tasks_ok_def name_key_def split: if_splits\<close>)
  moreover have "map task_id (tasks (st_engine s')) = map task_id (tasks (st_engine s))" by (simp add: T)
  then have "keyed task_id (tasks (st_engine s'))" using assms(2) unfolding tasks_ok_def by metis
  moreover have "list_all (task_ok lims) (tasks (st_engine s'))"
    using assms(2) by (auto simp: tasks_ok_def T list_all_iff task_ok_def)
  moreover have "list_all (\<lambda>x. task_id x < uuid_supply (st_engine s')) (tasks (st_engine s'))"
    using assms(2) by (auto simp: tasks_ok_def T list_all_iff)
  ultimately show ?thesis by (simp add: tasks_ok_def)
qed

lemma create_run_ok:
  assumes "create_task_run tid source u now s = Inr (s', rid)" "tasks_ok lims s"
  shows "tasks_ok lims s'"
proof -
  have "tasks (st_engine s') = tasks (st_engine s)" "uuid_supply (st_engine s) \<le> uuid_supply (st_engine s')"
    using assms(1) by (auto simp: create_task_run_def create_task_run_record_def Let_def split: sum.splits)
  then show ?thesis using assms(2) by (auto simp: tasks_ok_def list_all_iff)
qed

section \<open>The scheduler\<close>

lemma schedule_task_ok:
  assumes "tasks_ok lims (s\<lparr>st_engine := d\<rparr>)" "t \<in> set (tasks d)" "schedule_interval_seconds t \<noteq> None"
  shows "tasks_ok lims (s\<lparr>st_engine := schedule_task stamp now t d\<rparr>)"
proof -
  have T: "tasks (schedule_task stamp now t d) = map (\<lambda>x. if still_due t x then advance_task now t x else x) (tasks d)"
    by (simp add: schedule_task_tasks update_where_def)
  have u: "uuid_supply d \<le> uuid_supply (schedule_task stamp now t d)"
    by (simp add: schedule_task_def create_task_run_record_def Let_def)
  have "names_unique (tasks (schedule_task stamp now t d))"
    unfolding T by (rule names_unique_map) (use assms(1) in \<open>auto simp: tasks_ok_def name_key_def advance_task_def split: if_splits\<close>)
  moreover have "keyed task_id (tasks (schedule_task stamp now t d))"
    using assms(1) by (simp add: keyed_schedule tasks_ok_def)
  moreover have "list_all (task_ok lims) (tasks (schedule_task stamp now t d))"
    using assms(1) by (auto simp: tasks_ok_def T list_all_iff task_ok_def advance_task_def still_due_def)
  moreover have "list_all (\<lambda>x. task_id x < uuid_supply (schedule_task stamp now t d)) (tasks (schedule_task stamp now t d))"
    using assms(1) u by (auto simp: tasks_ok_def T list_all_iff)
  ultimately show ?thesis by (simp add: tasks_ok_def)
qed

lemma schedule_loop_ok:
  "tasks_ok lims (s\<lparr>st_engine := d\<rparr>) \<Longrightarrow> tasks_ok lims (s\<lparr>st_engine := fst (schedule_loop n stamp fails now excluded created d)\<rparr>)"
proof (induction n arbitrary: excluded created d)
  case (Suc n)
  show ?case
  proof (cases "due_list now excluded (tasks d)")
    case (Cons t ts)
    then have "t \<in> set (due_list now excluded (tasks d))" by simp
    then have t: "t \<in> set (tasks d)" "schedule_interval_seconds t \<noteq> None"
      by (auto simp: due_list_def sched_due_def)
    show ?thesis using Suc.IH[OF Suc.prems] Suc.IH[OF schedule_task_ok[OF Suc.prems t]] Cons by simp
  qed (use Suc.prems in simp)
qed simp

lemma run_due_schedules_ok:
  "tasks_ok lims s \<Longrightarrow> tasks_ok lims (s\<lparr>st_engine := fst (run_due_schedules cfg stamp fails now batch (st_engine s))\<rparr>)"
  by (simp add: run_due_schedules_def Let_def schedule_loop_ok)

section \<open>Requests and scheduler passes in any order\<close>

inductive task_step :: "schedule_limits \<Rightarrow> store \<Rightarrow> store \<Rightarrow> bool" for lims where
  created: "create_task lims p u now s = Inr s' \<Longrightarrow> task_step lims s s'"
| updated: "update_task lims tid q u now s = Inr s' \<Longrightarrow> task_step lims s s'"
| deleted: "delete_task tid u s = Inr s' \<Longrightarrow> task_step lims s s'"
| started: "create_task_run tid source u now s = Inr (s', rid) \<Longrightarrow> task_step lims s s'"
| scheduled: "task_step lims s (s\<lparr>st_engine := fst (run_due_schedules cfg stamp fails now batch (st_engine s))\<rparr>)"

lemma task_step_ok: "task_step lims s s' \<Longrightarrow> tasks_ok lims s \<Longrightarrow> tasks_ok lims s'"
proof (induction rule: task_step.induct)
  case (created p u now s s')
  then obtain t where "create_task_check lims p u now s = Inr t" "create_task_commit t s = Inr s'"
    by (auto simp: create_task_def split: sum.splits)
  then show ?case using create_commit_ok create_check_ok created.prems by blast
next
  case (updated tid q u now s s')
  then obtain old new where c: "update_task_check lims tid q u now s = Inr (old, new)" "update_task_commit (old, new) s = Inr s'"
    by (auto simp: update_task_def split: sum.splits)
  show ?case by (rule update_commit_ok[OF c(2) updated.prems]) (use update_check_ok[OF c(1) updated.prems] in simp_all)
next
  case (deleted tid u s s')
  then show ?case by (rule delete_ok)
next
  case (started tid source u now s s' rid)
  then show ?case by (rule create_run_ok)
next
  case (scheduled s cfg stamp fails now batch)
  then show ?case by (rule run_due_schedules_ok)
qed

text \<open>C12: Whatever requests and scheduler passes follow one another, the task table stays well-formed: ids are unique, no two active
  tasks of an organization have names that differ only in case or surrounding spaces, only SYNC
  tasks have a schedule, a task has a next run exactly when it has an interval, and intervals,
  attempts and timeouts stay within their bounds.\<close>

theorem task_requests_keep_tasks_wellformed:
  assumes "(task_step lims)\<^sup>*\<^sup>* s s'" and "tasks_ok lims s"
  shows "tasks_ok lims s'"
  using assms by (induction rule: rtranclp_induct) (auto intro: task_step_ok)

section \<open>Samples\<close>

definition sample_limits :: schedule_limits where
  "sample_limits = \<lparr>minimum_schedule_interval_seconds = 60, maximum_schedule_interval_seconds = 2592000\<rparr>"

definition no_update :: task_update where
  "no_update = \<lparr>pu_name = None, pu_source = None, pu_type = None, pu_interval = None, pu_max_attempts = None, pu_timeout = None\<rparr>"

definition sync_task :: task where
  "sync_task = \<lparr>task_id = 1, task_org = 0, schedule_interval_seconds = None, next_run_at = None, max_attempts = None,
                timeout_seconds = None, is_active = True, task_name = ''Load'', task_type = SYNC, task_source = None\<rparr>"

definition task_store :: store where
  "task_store = set_tasks [sync_task] review_store"

lemma task_requests_keep_tasks_wellformed_witness:
  "tasks_ok sample_limits (set_tasks [sync_task\<lparr>schedule_interval_seconds := Some 60, next_run_at := Some 60000005\<rparr>] task_store)"
proof -
  have "update_task sample_limits 1 (no_update\<lparr>pu_interval := Some (Some 60)\<rparr>) sample_user 5 task_store
      = Inr (set_tasks [sync_task\<lparr>schedule_interval_seconds := Some 60, next_run_at := Some 60000005\<rparr>] task_store)"
    by code_simp
  then have "task_step sample_limits task_store
      (set_tasks [sync_task\<lparr>schedule_interval_seconds := Some 60, next_run_at := Some 60000005\<rparr>] task_store)"
    by (rule task_step.updated)
  moreover have "tasks_ok sample_limits task_store" by code_simp
  ultimately show ?thesis using task_requests_keep_tasks_wellformed by blast
qed


text \<open>A request that renames a task to another spelling of its name in upper and lower case succeeds and
  changes nothing.\<close>

theorem respelling_is_ignored:
  "update_task sample_limits 1 (no_update\<lparr>pu_name := Some ''LOAD''\<rparr>) sample_user 5 task_store = Inr task_store"
  by code_simp

end
