(* ===== verification/QualityProps.thy ===== *)
theory QualityProps
  imports Quality
begin

text \<open>
  The quality engine as a function of its categories, and what a release decision means.
\<close>

section \<open>Numbers\<close>

lemma fl_int_pos:
  assumes n: "0 < n" "n < 2 ^ 53"
  shows "fl (of_int n) = of_int n"
proof (rule fl_eqI)
  let ?x = "of_int n :: rat" and ?e = "exponent (of_int n)"
  have x: "0 < ?x" using n by simp
  have "pow2 ?e < pow2 53"
  proof -
    have "?x < 2 ^ 53" using n(2) by (metis of_int_less_iff of_int_numeral of_int_power)
    also have "\<dots> = pow2 53" by (simp add: pow2_def)
    finally show ?thesis using exponent_bounds(1)[OF x] by linarith
  qed
  then have e: "?e \<le> 52" unfolding pow2_less_iff by simp
  have "pow2 0 < pow2 (?e + 1)" using exponent_bounds(2)[OF x] n by (simp add: order_le_less_trans[of 1 ?x])
  then have "0 \<le> ?e" unfolding pow2_less_iff by linarith
  then have u: "ulp_exp ?x = ?e - 52" using n by (simp add: ulp_exp_def)
  have "pow2 (52 - ?e) = of_int (2 ^ nat (52 - ?e))" using e by (simp add: pow2_def)
  moreover have "pow2 (52 - ?e) * pow2 (?e - 52) = 1" by (simp flip: pow2_add)
  ultimately show "?x = of_int (n * 2 ^ nat (52 - ?e)) * pow2 (ulp_exp ?x)"
    unfolding u by (simp add: mult.assoc)
qed

lemma fl_int: "\<bar>n\<bar> < 2 ^ 53 \<Longrightarrow> fl (of_int n) = of_int n"
  using fl_int_pos[of n] fl_int_pos[of "- n"] fl_minus[of "of_int n"] by (cases "n = 0"; cases "0 < n") auto

lemma fl_100 [simp]: "fl 100 = 100"
  using fl_int[of 100] by simp

lemma clamp_bounds [simp]: "0 \<le> clamp_score x" "clamp_score x \<le> 100"
  by (auto simp: clamp_score_def)

lemma clamp_mono: "x \<le> y \<Longrightarrow> clamp_score x \<le> clamp_score y"
  by (auto simp: clamp_score_def)

lemma score_of_rate_bounds [simp]: "0 \<le> score_of_rate r" "score_of_rate r \<le> 100"
  by (simp_all add: score_of_rate_def)

lemma score_of_rate_antimono: "r \<le> r' \<Longrightarrow> score_of_rate r' \<le> score_of_rate r"
  unfolding score_of_rate_def by (intro clamp_mono fl_mono mult_left_mono) auto

lemma int_quotient_mono: "a \<le> b \<Longrightarrow> 0 < d \<Longrightarrow> int_quotient a d \<le> int_quotient b d"
  unfolding int_quotient_def by (intro fl_mono divide_right_mono) auto

lemma int_quotient_0 [simp]: "int_quotient 0 d = 0"
  by (simp add: int_quotient_def)

text \<open>Underflow aside, a positive quotient stays positive.\<close>

lemma fl_pos: "pow2 (- 1022) \<le> x \<Longrightarrow> 0 < fl x"
proof -
  assume x: "pow2 (- 1022) \<le> x"
  then have pos: "0 < x" using pow2_pos[of "- 1022"] by linarith
  have "pow2 (- 1022) < pow2 (exponent x + 1)" using x exponent_bounds(2)[OF pos] by linarith
  then have "- 1022 \<le> exponent x" unfolding pow2_less_iff by linarith
  then show ?thesis using fl_bounds(2)[OF pos] pow2_pos[of "exponent x"] by linarith
qed

lemma int_quotient_pos:
  assumes "0 < a" "0 < b" "b < 2 ^ 31"
  shows "0 < int_quotient a b"
  unfolding int_quotient_def
proof (rule fl_pos)
  have "(of_int b :: rat) < 2 ^ 31" using assms(3) by (metis of_int_less_iff of_int_numeral of_int_power)
  also have "\<dots> = pow2 31" by (simp add: pow2_def)
  finally have b: "of_int b < pow2 31" .
  have "pow2 (- 1022) * of_int b \<le> pow2 (- 1022) * pow2 31" using b by (intro mult_left_mono) auto
  also have "\<dots> = pow2 (- 991)" by (simp flip: pow2_add)
  also have "\<dots> \<le> pow2 0" by (rule pow2_mono) simp
  also have "\<dots> \<le> of_int a" using assms(1) by simp
  finally show "pow2 (- 1022) \<le> of_int a / of_int b" using assms(2) by (simp add: field_simps)
qed

section \<open>The loop over the categories\<close>

lemma put_fresh: "k \<notin> fst ` set d \<Longrightarrow> put k v d = d @ [(k, v)]"
  by (induction d) auto

definition active :: "quality_input \<Rightarrow> quality_category list \<Rightarrow> quality_category list" where
  "active inp = filter (\<lambda>c. qc_applicable c inp)"

definition outcome :: "quality_input \<Rightarrow> quality_category \<Rightarrow> category_result" where
  "outcome inp c = the (qc_evaluate c inp)"

definition weight_of :: "quality_input \<Rightarrow> quality_category \<Rightarrow> py_number" where
  "weight_of inp c = effective_weight (qc_name c) (qc_weight c) (th_weights (qi_thresholds inp))"

definition status_of :: "quality_input \<Rightarrow> quality_category \<Rightarrow> category_status" where
  "status_of inp c =
     (if qc_applicable c inp then category_status_of (cr_score (outcome inp c)) (cr_findings (outcome inp c))
      else StatusSkipped)"

definition weighted :: "quality_input \<Rightarrow> quality_category list \<Rightarrow> rat \<Rightarrow> rat" where
  "weighted inp = fold (\<lambda>c s. fl (s + fl (cr_score (outcome inp c) * as_float (weight_of inp c))))"

definition weights_added :: "quality_input \<Rightarrow> quality_category list \<Rightarrow> py_number \<Rightarrow> py_number" where
  "weights_added inp = fold (\<lambda>c s. num_add s (weight_of inp c))"

definition extend_acc :: "quality_input \<Rightarrow> quality_category list \<Rightarrow> quality_acc \<Rightarrow> quality_acc" where
  "extend_acc inp cs acc =
     \<lparr>qa_findings = qa_findings acc @ concat (map (\<lambda>c. cr_findings (outcome inp c)) (active inp cs)),
      qa_scores = qa_scores acc @ map (\<lambda>c. (qc_name c, cr_score (outcome inp c))) (active inp cs),
      qa_statuses = qa_statuses acc @ map (\<lambda>c. (qc_name c, status_of inp c)) cs,
      qa_weights = qa_weights acc @ map (\<lambda>c. (qc_name c, as_float (weight_of inp c))) (active inp cs),
      qa_weighted = weighted inp (active inp cs) (qa_weighted acc),
      qa_weight_sum = weights_added inp (active inp cs) (qa_weight_sum acc)\<rparr>"

lemma quality_loop:
  assumes "list_all (\<lambda>c. qc_applicable c inp \<longrightarrow> qc_evaluate c inp \<noteq> None) cs"
    and "distinct (map fst (qa_statuses acc) @ map qc_name cs)"
    and "fst ` set (qa_scores acc) \<subseteq> fst ` set (qa_statuses acc)"
    and "fst ` set (qa_weights acc) \<subseteq> fst ` set (qa_statuses acc)"
  shows "foldM (quality_step inp) cs acc = Some (extend_acc inp cs acc)"
  using assms
proof (induction cs arbitrary: acc)
  case Nil
  then show ?case by (simp add: extend_acc_def active_def weighted_def weights_added_def)
next
  case (Cons c cs)
  have fresh: "qc_name c \<notin> fst ` set (qa_statuses acc)" using Cons.prems(2) by auto
  then have fresh': "qc_name c \<notin> fst ` set (qa_scores acc)" "qc_name c \<notin> fst ` set (qa_weights acc)"
    using Cons.prems(3,4) by auto
  have step: "quality_step inp c acc = Some (extend_acc inp [c] acc)"
    using Cons.prems(1) fresh fresh'
    by (auto simp: quality_step_def extend_acc_def active_def outcome_def status_of_def weight_of_def
        weighted_def weights_added_def put_fresh Let_def)
  have rest: "foldM (quality_step inp) cs (extend_acc inp [c] acc) = Some (extend_acc inp cs (extend_acc inp [c] acc))"
    using Cons.prems by (intro Cons.IH) (auto simp: extend_acc_def active_def)
  have "extend_acc inp cs (extend_acc inp [c] acc) = extend_acc inp (c # cs) acc"
    by (simp add: extend_acc_def active_def weighted_def weights_added_def)
  then show ?case using step rest by simp
qed

lemma category_cases:
  assumes "c \<in> set QUALITY_RULES"
  obtains "c = completeness_category" | "c = uniqueness_category" | "c = validity_category"
    | "c = consistency_category" | "c = referential_integrity_category" | "c = business_rule_category"
    | "c = unresolved_risk_category" | "c = validation_coverage_category"
  using assms by (auto simp: QUALITY_RULES_def)

named_theorems category_defs \<open>the categories and their evaluations\<close>

lemmas [category_defs] =
  completeness_category_def uniqueness_category_def validity_category_def consistency_category_def
  referential_integrity_category_def business_rule_category_def unresolved_risk_category_def
  validation_coverage_category_def

lemmas evaluate_defs =
  completeness_evaluate_def uniqueness_evaluate_def validity_evaluate_def consistency_evaluate_def
  unresolved_risk_evaluate_def validation_coverage_evaluate_def

text \<open>An applicable category returns a score between 0 and 100 and findings of its own.\<close>

definition result_ok :: "quality_category \<Rightarrow> category_result \<Rightarrow> bool" where
  "result_ok c r \<longleftrightarrow> 0 \<le> cr_score r \<and> cr_score r \<le> 100
     \<and> list_all (\<lambda>f. qf_category f = qc_name c \<and> qf_rule_version f = qc_version c \<and> qf_outcome f = Failed) (cr_findings r)"

lemma evaluate_ok:
  assumes "c \<in> set QUALITY_RULES" "qc_applicable c inp"
  shows "\<exists>r. qc_evaluate c inp = Some r \<and> result_ok c r"
  using assms(1)
  by (rule category_cases)
    (use assms(2) in \<open>auto simp: category_defs evaluate_defs result_ok_def failed_finding_def banded_def Let_def
      list_all_iff split: prod.splits if_splits\<close>)

lemma outcome_ok:
  "c \<in> set QUALITY_RULES \<Longrightarrow> qc_applicable c inp \<Longrightarrow> qc_evaluate c inp = Some (outcome inp c) \<and> result_ok c (outcome inp c)"
  using evaluate_ok[of c inp] by (auto simp: outcome_def)

lemma category_names: "map qc_name QUALITY_RULES = QUALITY_CATEGORIES"
  by (simp add: QUALITY_RULES_def QUALITY_CATEGORIES_def category_defs)

lemma distinct_categories: "distinct QUALITY_CATEGORIES"
  by (simp add: QUALITY_CATEGORIES_def)

lemma quality_control_eq:
  "quality_control inp = quality_finish inp (extend_acc inp QUALITY_RULES empty_acc)"
proof -
  have "foldM (quality_step inp) QUALITY_RULES empty_acc = Some (extend_acc inp QUALITY_RULES empty_acc)"
    using evaluate_ok[of _ inp] distinct_categories
    by (intro quality_loop) (auto simp: list_all_iff empty_acc_def category_names)
  then show ?thesis by (simp add: quality_control_def)
qed

lemma severity_count_total:
  "severity_count Blocking fs + severity_count Warning fs + severity_count Info fs = length fs"
  unfolding severity_count_def
proof (induction fs)
  case (Cons f fs)
  then show ?case by (cases "qf_severity f") auto
qed simp

text \<open>The findings that are counted, and the whole result.\<close>

definition counted :: "quality_input \<Rightarrow> quality_finding list" where
  "counted inp = concat (map (\<lambda>c. cr_findings (outcome inp c)) (active inp QUALITY_RULES))"

definition weight_total :: "quality_input \<Rightarrow> py_number" where
  "weight_total inp = weights_added inp (active inp QUALITY_RULES) (IntNum 0)"

definition mean_score :: "quality_input \<Rightarrow> rat" where
  "mean_score inp = fl (weighted inp (active inp QUALITY_RULES) 0 / as_float (weight_total inp))"

lemma active_head: "\<exists>cs. active inp QUALITY_RULES = completeness_category # cs \<and> set cs \<subseteq> set QUALITY_RULES"
  by (auto simp: active_def QUALITY_RULES_def category_defs)

section \<open>Well-formed results\<close>

lemma quality_finish_some:
  "\<exists>r. quality_finish inp acc = Some r
     \<and> qr_statuses r = qa_statuses acc \<and> qr_scores r = qa_scores acc \<and> qr_weights r = qa_weights acc
     \<and> qr_blocking r + qr_warning r + qr_info r = qr_total r
     \<and> length (qr_findings r) = min (qi_max_persisted inp) (qr_total r)
     \<and> sorted (map quality_sort_key (qr_findings r))"
proof -
  have tk: "sorted (map quality_sort_key (take n (sort_key quality_sort_key fs)))" for n fs
    by (simp add: take_map[symmetric])
  have tk1: "sorted (map quality_sort_key (take n [f]))" for n f by (cases n) auto
  show ?thesis
    by (auto simp: quality_finish_def severity_count_total Let_def tk tk1 min_def split: prod.split)
qed


section \<open>The overall score\<close>

definition weights_small :: "threshold_config \<Rightarrow> bool" where
  "weights_small th = (case th_weights th of None \<Rightarrow> True
     | Some ws \<Rightarrow> list_all (\<lambda>(n, w). case w of IntNum k \<Rightarrow> 0 < k \<and> k \<le> 10 ^ 9 | FloatNum x \<Rightarrow> False) ws)"

definition int_weight :: "quality_input \<Rightarrow> quality_category \<Rightarrow> int" where
  "int_weight inp c = (case weight_of inp c of IntNum n \<Rightarrow> n | FloatNum x \<Rightarrow> 0)"

lemma weight_small:
  assumes "weights_small (qi_thresholds inp)" "c \<in> set QUALITY_RULES"
  shows "weight_of inp c = IntNum (int_weight inp c) \<and> 0 < int_weight inp c \<and> int_weight inp c \<le> 10 ^ 9"
proof -
  have d: "0 < qc_weight c \<and> qc_weight c \<le> 10 ^ 9"
    using assms(2) by (rule category_cases) (simp_all add: category_defs)
  have "weight_of inp c = IntNum (qc_weight c) \<or>
      (\<exists>ws w. th_weights (qi_thresholds inp) = Some ws \<and> map_of ws (qc_name c) = Some w \<and> weight_of inp c = w)"
    by (auto simp: weight_of_def effective_weight_def split: option.splits)
  then consider "weight_of inp c = IntNum (qc_weight c)"
    | ws w where "th_weights (qi_thresholds inp) = Some ws" "map_of ws (qc_name c) = Some w" "weight_of inp c = w"
    by blast
  then show ?thesis
  proof cases
    case 1
    then show ?thesis using d by (simp add: int_weight_def)
  next
    case 2
    then have mem: "(qc_name c, w) \<in> set ws" by (simp add: map_of_SomeD)
    have "list_all (\<lambda>(n, w). case w of IntNum k \<Rightarrow> 0 < k \<and> k \<le> 10 ^ 9 | FloatNum x \<Rightarrow> False) ws"
      using assms(1) unfolding weights_small_def 2(1) option.case .
    from bspec[OF this[unfolded list_all_iff] mem]
    have "case w of IntNum k \<Rightarrow> 0 < k \<and> k \<le> 10 ^ 9 | FloatNum x \<Rightarrow> False" by (cases w) simp_all
    then show ?thesis using 2(3) by (auto simp: int_weight_def split: py_number.splits)
  qed
qed

lemma weights_added_int:
  assumes "list_all (\<lambda>c. weight_of inp c = IntNum (int_weight inp c)) cs"
  shows "weights_added inp cs (IntNum a) = IntNum (a + sum_list (map (int_weight inp) cs))"
  using assms
proof (induction cs arbitrary: a)
  case (Cons c cs)
  have "weights_added inp (c # cs) (IntNum a) = weights_added inp cs (IntNum (a + int_weight inp c))"
    using Cons.prems by (simp add: weights_added_def)
  then show ?case using Cons by simp
qed (simp add: weights_added_def)

lemma weighted_between:
  assumes "list_all (\<lambda>c. weight_of inp c = IntNum (int_weight inp c) \<and> 0 < int_weight inp c
        \<and> of_int lo \<le> cr_score (outcome inp c) \<and> cr_score (outcome inp c) \<le> of_int hi) cs"
    and "0 \<le> lo" "lo \<le> hi" "hi \<le> 100" "0 \<le> a" "100 * (a + sum_list (map (int_weight inp) cs)) < 2 ^ 53"
    and "of_int (lo * a) \<le> s" "s \<le> of_int (hi * a)"
  shows "of_int (lo * (a + sum_list (map (int_weight inp) cs))) \<le> weighted inp cs s
    \<and> weighted inp cs s \<le> of_int (hi * (a + sum_list (map (int_weight inp) cs)))"
  using assms
proof (induction cs arbitrary: a s)
  case (Cons c cs)
  let ?n = "int_weight inp c" and ?sc = "cr_score (outcome inp c)"
  let ?s = "fl (s + fl (?sc * as_float (weight_of inp c)))"
  have n: "weight_of inp c = IntNum ?n" "0 < ?n" "of_int lo \<le> ?sc" "?sc \<le> of_int hi"
    using Cons.prems(1) by auto
  have pos: "0 \<le> sum_list (map (int_weight inp) cs)"
    using Cons.prems(1) by (intro sum_list_nonneg) (auto simp: list_all_iff less_imp_le)
  have small: "\<bar>k * m\<bar> < 2 ^ 53" if "0 \<le> k" "k \<le> 100" "0 \<le> m" "m \<le> a + ?n" for k m
  proof -
    have "k * m \<le> 100 * (a + ?n)" using that by (intro mult_mono) auto
    also have "\<dots> < 2 ^ 53" using Cons.prems(6) pos by simp
    finally show ?thesis using that by simp
  qed
  have w: "as_float (weight_of inp c) = of_int ?n"
    using fl_int[of ?n] small[of 1 ?n] n(1,2) Cons.prems(5) by (metis abs_of_nonneg add_increasing as_float.simps(1) less_imp_le mult_1 numeral_One one_le_numeral order_refl zero_le_one)
  have ints: "fl (of_int (lo * ?n)) = of_int (lo * ?n)" "fl (of_int (hi * ?n)) = of_int (hi * ?n)"
    "fl (of_int (lo * (a + ?n))) = of_int (lo * (a + ?n))" "fl (of_int (hi * (a + ?n))) = of_int (hi * (a + ?n))"
    using Cons.prems(2-5) n(2) by (intro fl_int small; simp)+
  have "fl (of_int (lo * ?n)) \<le> fl (?sc * of_int ?n)" "fl (?sc * of_int ?n) \<le> fl (of_int (hi * ?n))"
    using n(2-4) by (intro fl_mono; simp add: mult_right_mono)+
  then have "of_int (lo * (a + ?n)) \<le> s + fl (?sc * of_int ?n)" "s + fl (?sc * of_int ?n) \<le> of_int (hi * (a + ?n))"
    using Cons.prems(7,8) unfolding ints by (simp_all add: distrib_left)
  note this[THEN fl_mono]
  then have "fl (of_int (lo * (a + ?n))) \<le> ?s" "?s \<le> fl (of_int (hi * (a + ?n)))"
    unfolding w .
  then have s: "of_int (lo * (a + ?n)) \<le> ?s" "?s \<le> of_int (hi * (a + ?n))" unfolding ints .
  have "weighted inp (c # cs) s = weighted inp cs ?s" by (simp add: weighted_def)
  moreover have "of_int (lo * (a + ?n + sum_list (map (int_weight inp) cs))) \<le> weighted inp cs ?s
      \<and> weighted inp cs ?s \<le> of_int (hi * (a + ?n + sum_list (map (int_weight inp) cs)))"
    using Cons.prems(1-6) n(2) s by (intro Cons.IH) (auto simp: add.assoc)
  ultimately show ?case by (simp add: add.assoc)
qed (simp add: weighted_def)

text \<open>With integer weights the rounded mean lies between integer bounds of the category scores.\<close>

lemma mean_between:
  assumes small: "weights_small (qi_thresholds inp)"
    and scores: "\<And>c. c \<in> set (active inp QUALITY_RULES) \<Longrightarrow>
        of_int lo \<le> cr_score (outcome inp c) \<and> cr_score (outcome inp c) \<le> of_int hi"
    and lh: "0 \<le> lo" "lo \<le> hi" "hi \<le> 100"
  shows "\<not> num_zero (weight_total inp) \<and> of_int lo \<le> mean_score inp \<and> mean_score inp \<le> of_int hi"
proof -
  let ?on = "active inp QUALITY_RULES" and ?sum = "sum_list (map (int_weight inp) (active inp QUALITY_RULES))"
  have w: "weight_of inp c = IntNum (int_weight inp c)" "0 < int_weight inp c" "int_weight inp c \<le> 10 ^ 9"
    if "c \<in> set ?on" for c
    using weight_small[OF small, of c] that by (simp_all add: active_def)
  have "?sum \<le> sum_list (map (\<lambda>c. 10 ^ 9) ?on)" using w(3) by (intro sum_list_mono) blast
  also have "\<dots> = 10 ^ 9 * int (length ?on)" by (simp add: sum_list_triv)
  also have "\<dots> \<le> 10 ^ 9 * 8"
    using length_filter_le[of "\<lambda>c. qc_applicable c inp" QUALITY_RULES] by (simp add: active_def QUALITY_RULES_def)
  finally have le: "?sum \<le> 10 ^ 9 * 8" .
  obtain cs where cs: "?on = completeness_category # cs" using active_head[of inp] by blast
  then have "int_weight inp completeness_category \<le> ?sum"
    using w(2) sum_list_nonneg[of "map (int_weight inp) cs"] by (fastforce simp: less_imp_le)
  then have pos: "0 < ?sum" using w(2)[of completeness_category] cs by simp
  have total: "weight_total inp = IntNum ?sum"
    using weights_added_int[of inp ?on 0] w(1) by (simp add: weight_total_def list_all_iff)
  have sf: "as_float (weight_total inp) = of_int ?sum"
    using fl_int[of ?sum] le pos by (simp add: total)
  have "of_int (lo * ?sum) \<le> weighted inp ?on 0 \<and> weighted inp ?on 0 \<le> of_int (hi * ?sum)"
    using weighted_between[of inp lo hi ?on 0 0] w scores lh le by (simp add: list_all_iff)
  then have "of_int lo \<le> weighted inp ?on 0 / of_int ?sum" "weighted inp ?on 0 / of_int ?sum \<le> of_int hi"
    using pos by (simp_all add: field_simps)
  note this[THEN fl_mono]
  then have "fl (of_int lo) \<le> mean_score inp" "mean_score inp \<le> fl (of_int hi)"
    unfolding mean_score_def sf .
  then show ?thesis using lh pos fl_int[of lo] fl_int[of hi] by (simp add: total)
qed

lemma quality_finish_score:
  "quality_finish inp acc = Some r \<Longrightarrow> \<not> num_zero (qa_weight_sum acc) \<Longrightarrow>
     qr_score r = Some (fl (qa_weighted acc / as_float (qa_weight_sum acc)))
     \<and> qr_blocking r = severity_count Blocking (qa_findings acc)
     \<and> qr_warning r = severity_count Warning (qa_findings acc)
     \<and> qr_recommendation r = compute_recommendation (qr_score r) (qr_blocking r) (qr_warning r) inp"
  by (auto simp: quality_finish_def Let_def severity_count_total)

lemma quality_control_small:
  assumes "weights_small (qi_thresholds inp)"
  shows "\<exists>r. quality_control inp = Some r \<and> qr_score r = Some (mean_score inp)
     \<and> qr_blocking r = severity_count Blocking (counted inp) \<and> qr_warning r = severity_count Warning (counted inp)
     \<and> qr_recommendation r = compute_recommendation (qr_score r) (qr_blocking r) (qr_warning r) inp"
proof -
  let ?acc = "extend_acc inp QUALITY_RULES empty_acc"
  obtain r where r: "quality_finish inp ?acc = Some r" using quality_finish_some by blast
  have a: "qa_weight_sum ?acc = weight_total inp" "qa_findings ?acc = counted inp"
    "fl (qa_weighted ?acc / as_float (weight_total inp)) = mean_score inp"
    by (simp_all add: extend_acc_def empty_acc_def weight_total_def counted_def mean_score_def)
  have "\<not> num_zero (qa_weight_sum ?acc)"
    using mean_between[OF assms, of 0 100] outcome_ok[of _ inp] by (auto simp: a active_def result_ok_def)
  then show ?thesis using quality_finish_score[OF r] r unfolding quality_control_eq a by auto
qed


definition sample_stats :: effective_stats where
  "sample_stats = \<lparr>es_rows = 10, es_duplicates = 0, es_missing = 0, es_high = 0, es_critical = 0, es_addressed = 1\<rparr>"

definition sample_input :: "threshold_config \<Rightarrow> effective_stats \<Rightarrow> quality_input" where
  "sample_input th stats =
     \<lparr>qi_run = \<lparr>rs_id = 1, rs_considered = 0, rs_passed = 0, rs_failed = 0, rs_skipped = 0, rs_by_rule = []\<rparr>,
      qi_results = [], qi_detection = \<lparr>ds_id = 2, ds_total_issues = 1\<rparr>,
      qi_profile = \<lparr>ps_id = 3, ps_rows = 10, ps_columns = 4, ps_duplicates = 0, ps_missing = 0\<rparr>,
      qi_stats = stats, qi_issues = [], qi_thresholds = th, qi_max_persisted = 100\<rparr>"


text \<open>A weight that is no integer breaks the bound.  With the weight \<open>0.7\<close> for the three categories
  that apply, a dataset that is perfect in each of them scores \<open>100 + 2^-46\<close>, which the CHECK
  constraint of the run's table rejects: the handler cannot store the result.\<close>

theorem perfect_score_exceeds_hundred:
  "(let w = FloatNum (fl (7/10));
        th = default_thresholds\<lparr>th_weights := Some [(''completeness'', w), (''uniqueness'', w), (''unresolved_risk'', w)]\<rparr>
    in map_option (\<lambda>r. (qr_score r, qr_scores r)) (quality_control (sample_input th sample_stats)))
   = Some (Some (100 + 1 / 2 ^ 46), [(''completeness'', 100), (''uniqueness'', 100), (''unresolved_risk'', 100)])"
  by code_simp

end
