(* ===== verification/QualityHandlerProps.thy ===== *)
theory QualityHandlerProps
  imports Release TasksApiProps QualityProps
begin

text \<open>
  The quality control handler: one decision per validation run, what its inputs hide from the engine,
  and why no run that the API creates reaches it.
\<close>

section \<open>One release decision\<close>

definition quality_ok :: "pipeline \<Rightarrow> bool" where
  "quality_ok s \<longleftrightarrow> distinct (map qn_task_run (pl_quality s)) \<and> distinct (map qn_validation (pl_quality s))
     \<and> list_all score_in_range (pl_quality s)"

lemma one_or_none_simps [simp]:
  "one_or_none [] = Inr None" "one_or_none [r] = Inr (Some r)"
  by (simp_all add: one_or_none_def)

lemma one_or_none_Inr: "one_or_none rs = Inr (Some r) \<Longrightarrow> r \<in> set rs"
  by (auto simp: one_or_none_def scalar_one_or_none_def split: list.splits sum.splits)

lemma filter_distinct_key: "distinct (map f xs) \<Longrightarrow> filter (\<lambda>x. f x = k) xs = [] \<or> (\<exists>r \<in> set xs. f r = k \<and> filter (\<lambda>x. f x = k) xs = [r])"
proof (induction xs)
  case (Cons x xs)
  show ?case
  proof (cases "f x = k")
    case True
    then have "filter (\<lambda>x. f x = k) xs = []" using Cons.prems by (auto simp: filter_empty_conv image_iff)
    then show ?thesis using True by simp
  next
    case False
    then show ?thesis using Cons by auto
  qed
qed simp

lemma quality_commit_ok:
  assumes "quality_ok s" "quality_commit (run, fs) s = (res, s')"
  shows "quality_ok s'" "\<exists>new. pl_quality s' = pl_quality s @ new"
    "case res of Inl e \<Rightarrow> s' = s \<and> e = IntegrityError \<and> \<not> score_in_range run
      | Inr i \<Rightarrow> \<exists>r \<in> set (pl_quality s'). qn_id r = i \<and> (qn_task_run r = qn_task_run run \<or> qn_validation r = qn_validation run)"
proof -
  let ?t = "filter (\<lambda>r. qn_task_run r = qn_task_run run) (pl_quality s)"
  let ?v = "filter (\<lambda>r. qn_validation r = qn_validation run) (pl_quality s)"
  have d: "distinct (map qn_task_run (pl_quality s))" "distinct (map qn_validation (pl_quality s))"
    using assms(1) by (simp_all add: quality_ok_def)
  note t = filter_distinct_key[OF d(1), of "qn_task_run run"] and v = filter_distinct_key[OF d(2), of "qn_validation run"]
  have "quality_ok s' \<and> (\<exists>new. pl_quality s' = pl_quality s @ new)
    \<and> (case res of Inl e \<Rightarrow> s' = s \<and> e = IntegrityError \<and> \<not> score_in_range run
      | Inr i \<Rightarrow> \<exists>r \<in> set (pl_quality s'). qn_id r = i \<and> (qn_task_run r = qn_task_run run \<or> qn_validation r = qn_validation run))"
  proof (cases "?t = [] \<and> ?v = [] \<and> score_in_range run")
    case True
    then have "qn_task_run run \<notin> qn_task_run ` set (pl_quality s)" "qn_validation run \<notin> qn_validation ` set (pl_quality s)"
      by (auto simp: filter_empty_conv)
    then show ?thesis using assms True by (auto simp: quality_commit_def Let_def quality_ok_def score_in_range_def)
  next
    case False
    show ?thesis
    proof (cases "?t = []")
      case empty: True
      show ?thesis
      proof (cases "?v = []")
        case True
        then show ?thesis using assms False empty by (auto simp: quality_commit_def Let_def)
      next
        case False
        then obtain r where "r \<in> set (pl_quality s)" "qn_validation r = qn_validation run" "?v = [r]" using v by blast
        then show ?thesis using assms empty by (auto simp: quality_commit_def Let_def)
      qed
    next
      case False
      then obtain r where "r \<in> set (pl_quality s)" "qn_task_run r = qn_task_run run" "?t = [r]" using t by blast
      then show ?thesis using assms by (auto simp: quality_commit_def Let_def)
    qed
  qed
  then show "quality_ok s'" "\<exists>new. pl_quality s' = pl_quality s @ new"
    "case res of Inl e \<Rightarrow> s' = s \<and> e = IntegrityError \<and> \<not> score_in_range run
      | Inr i \<Rightarrow> \<exists>r \<in> set (pl_quality s'). qn_id r = i \<and> (qn_task_run r = qn_task_run run \<or> qn_validation r = qn_validation run)"
    by blast+
qed

text \<open>Workers that prepared their rows at any earlier time commit them one after the other.\<close>

definition commit_all :: "(quality_run \<times> quality_finding list) list \<Rightarrow> pipeline \<Rightarrow> pipeline" where
  "commit_all ps s = fold (\<lambda>p s. snd (quality_commit p s)) ps s"


section \<open>What the engine does not see\<close>

text \<open>The consistency category never finds anything: the handler fills every result's column with
  nothing, the category groups results by rule and column and skips those without a column, so for
  every input the handler can build it gives 100 points and no finding.\<close>

theorem consistency_is_blind:
  "consistency_evaluate (build_engine_input run results detection profile stats issues cfg limit) = Some \<lparr>cr_score = 100, cr_findings = []\<rparr>"
proof -
  have "pair_outcomes (qi_results (build_engine_input run results detection profile stats issues cfg limit)) = []"
    by (simp add: pair_outcomes_def build_engine_input_def filter_empty_conv group_pairs_def)
  then show ?thesis by (simp add: consistency_evaluate_def)
qed

section \<open>Runs that the API creates\<close>

lemma created_run:
  assumes "create_task_run tid source u now s = Inr (s', rid)"
  obtains t where "get_active_task_or_404 (st_engine s) tid (us_org u) = Inr t"
    "check_source_task_run (st_engine s) (task_type t) source (us_org u) = Inr ()"
    "\<exists>r. task_runs (st_engine s') = task_runs (st_engine s) @ [r] \<and> tr_id r = rid \<and> tr_source_task_run_id r = source"
  using assms by (auto simp: create_task_run_def create_task_run_record_def Let_def split: sum.splits)

definition permanent_failure :: "(handler_error + nat) \<times> pipeline \<Rightarrow> pipeline \<Rightarrow> bool" where
  "permanent_failure res s \<longleftrightarrow>
     snd res = s \<and> (case fst res of Inl (PermanentExecutionError _) \<Rightarrow> True | _ \<Rightarrow> False)"

lemma quality_needs_source:
  "tr_source_task_run_id (cx_run cx) = None \<Longrightarrow> permanent_failure (quality_execute env cx s) s"
  by (cases "cx_source cx")
    (simp_all add: quality_execute_def quality_prepare_def required_def permanent_def permanent_failure_def Let_def)

text \<open>No quality control run that the API creates can succeed.  For a task of that type the endpoint
  refuses a source task run and creates the run without one, and the handler requires one: the run fails
  permanently, whatever the database holds.\<close>

theorem created_quality_runs_fail:
  assumes "create_task_run tid source u now s = Inr (s', rid)"
    and "get_active_task_or_404 (st_engine s) tid (us_org u) = Inr t" and "task_type t = QUALITY_CTRL"
    and "r \<in> set (drop (length (task_runs (st_engine s))) (task_runs (st_engine s')))" and "cx_run cx = r"
  shows "tr_id r = rid \<and> permanent_failure (quality_execute env cx p) p"
proof -
  obtain r' where r': "task_runs (st_engine s') = task_runs (st_engine s) @ [r']" "tr_id r' = rid" "tr_source_task_run_id r' = source"
    "check_source_task_run (st_engine s) (task_type t) source (us_org u) = Inr ()"
    using created_run[OF assms(1)] assms(2) by (metis Inr_inject)
  then have "r = r'" using assms(4) by simp
  moreover have "source = None" using r'(4) assms(3) by (auto simp: check_source_task_run_def chained_type_def split: if_splits)
  ultimately show ?thesis using r'(2,3) quality_needs_source assms(5) by blast
qed

definition sample_env :: "unit handler_env" where
  "sample_env =
     \<lparr>he_oracles = no_oracles, he_sniff = (\<lambda>_. None),
      he_limits = \<lparr>max_file_size_bytes = 1000, max_rows = 10, max_columns = 5, max_cell_length = 50,
                   max_distinct_values = 10, max_sample_values = 5\<rparr>,
      he_sha256 = rev, he_input_root = [''in''], he_files = (\<lambda>_. None), he_default_zscore = 3, he_max_issues = 100,
      he_max_changes = 100, he_max_results = 100, he_max_findings = 100\<rparr>"

definition quality_task :: task where
  "quality_task = sync_task\<lparr>task_type := QUALITY_CTRL\<rparr>"

definition empty_pipeline :: "db \<Rightarrow> pipeline" where
  "empty_pipeline d =
     \<lparr>pl_engine = d, pl_supply = 100, pl_detection_rules = [], pl_remediation_rules = [], pl_dataset_configs = [], pl_thresholds = [],
      pl_profiles = [], pl_detections = [], pl_issues = [], pl_remediations = [], pl_changes = [], pl_decisions = [],
      pl_validations = [], pl_results = [], pl_quality = [], pl_findings = []\<rparr>"


lemma created_quality_runs_fail_witness:
  "case create_task_run 1 None sample_user 7 (set_tasks [quality_task] review_store) of
     Inl e \<Rightarrow> False
   | Inr (s', rid) \<Rightarrow>
       (case drop 1 (task_runs (st_engine s')) of
          [r] \<Rightarrow> permanent_failure (quality_execute sample_env \<lparr>cx_run = r, cx_task = quality_task, cx_source = None\<rparr> (empty_pipeline review_db))
                 (empty_pipeline review_db)
        | _ \<Rightarrow> False)"
proof -
  let ?s = "set_tasks [quality_task] review_store"
  obtain s' rid where c: "create_task_run 1 None sample_user 7 ?s = Inr (s', rid)" and
    n: "length (drop 1 (task_runs (st_engine s'))) = 1"
  proof -
    have "case create_task_run 1 None sample_user 7 ?s of Inl e \<Rightarrow> False | Inr (s', rid) \<Rightarrow> length (drop 1 (task_runs (st_engine s'))) = 1"
      by code_simp
    then show ?thesis using that by (auto split: sum.splits prod.splits)
  qed
  then obtain r where r: "drop 1 (task_runs (st_engine s')) = [r]" by (metis One_nat_def length_0_conv length_Suc_conv)
  have t: "get_active_task_or_404 (st_engine ?s) 1 (us_org sample_user) = Inr quality_task" "task_type quality_task = QUALITY_CTRL"
    "length (task_runs (st_engine ?s)) = 1" by code_simp+
  show ?thesis
    using created_quality_runs_fail[OF c t(1,2), of r "\<lparr>cx_run = r, cx_task = quality_task, cx_source = None\<rparr>" sample_env "empty_pipeline review_db"] t(3) r
    by (simp add: c del: One_nat_def)
qed

end
