(* ===== verification/RetentionProps.thy ===== *)
theory RetentionProps
  imports Retention
begin

text \<open>
  What a retention pass may remove, what it records, how much it achieves, and how a few artifacts
  that cannot be removed stop it.
\<close>

section \<open>Candidates\<close>

definition due_artifacts :: "time \<Rightarrow> 'a artifact_run_scheme table \<Rightarrow> 'a artifact_run_scheme list" where
  "due_artifacts c T = sort_key (\<lambda>r. (the (decision_timestamp r), rv_id r)) (filter (eligible c) T)"

lemma find_filter: "find P xs = (case filter P xs of [] \<Rightarrow> None | x # _ \<Rightarrow> Some x)"
  by (induction xs) auto

lemma find_append_case: "find P (xs @ ys) = (case find P xs of None \<Rightarrow> find P ys | Some x \<Rightarrow> Some x)"
  by (induction xs) auto

lemma next_candidate_find: "next_candidate c X T = find (\<lambda>r. rv_id r \<notin> X) (due_artifacts c T)"
proof -
  have "filter (\<lambda>r. eligible c r \<and> rv_id r \<notin> X) T = filter (\<lambda>r. rv_id r \<notin> X) (filter (eligible c) T)"
    by (simp add: conj_commute)
  then show ?thesis
    by (simp only: next_candidate_def due_artifacts_def find_filter filter_sort)
qed

lemma next_candidateD:
  "next_candidate c X T = Some r \<Longrightarrow> r \<in> set T \<and> eligible c r \<and> rv_id r \<notin> X"
proof -
  assume "next_candidate c X T = Some r"
  then have "r \<in> set (due_artifacts c T) \<and> rv_id r \<notin> X"
    by (auto simp: next_candidate_find find_Some_iff)
  then show ?thesis by (simp add: due_artifacts_def)
qed

lemma next_candidate_None: "next_candidate c {} T = None \<longleftrightarrow> filter (eligible c) T = []"
  by (auto simp: next_candidate_find find_None_iff due_artifacts_def filter_empty_conv)

section \<open>An invariant of the loop\<close>

lemma retention_loop_inv:
  assumes step: "\<And>s X r. I s \<Longrightarrow> next_candidate (cutoff_of env) X (rs_rows s) = Some r
      \<Longrightarrow> I (fst (process_candidate env cfg r s))"
  shows "I s \<Longrightarrow> I (fst (retention_loop env cfg budget X s))"
proof (induction budget arbitrary: X s)
  case (Suc budget)
  show ?case
  proof (cases "next_candidate (cutoff_of env) X (rs_rows s)")
    case (Some r)
    have "I (fst (process_candidate env cfg r s))" using step[OF Suc.prems Some] .
    then show ?thesis using Suc.IH Some by (simp add: split_beta Let_def)
  qed (use Suc.prems in simp)
qed simp

lemma retention_loop_attempts: "snd (retention_loop env cfg budget X s) \<le> budget"
  by (induction budget arbitrary: X s) (auto simp: split_beta Let_def split: option.splits)

section \<open>What one artifact's transaction does\<close>

definition marked :: "time \<Rightarrow> time \<Rightarrow> 'a artifact_run_scheme \<Rightarrow> 'a artifact_run_scheme \<Rightarrow> bool" where
  "marked c now a b \<longleftrightarrow> b = a \<or> (eligible c a \<and> b = a\<lparr>ar_deleted_at := Some now\<rparr>)"

definition rows_marked :: "time \<Rightarrow> time \<Rightarrow> 'a artifact_run_scheme table \<Rightarrow> 'a artifact_run_scheme table \<Rightarrow> bool" where
  "rows_marked c now = list_all2 (marked c now)"

definition purgeable :: "time \<Rightarrow> path \<Rightarrow> 'a artifact_run_scheme \<Rightarrow> path \<Rightarrow> bool" where
  "purgeable c base r p \<longleftrightarrow> eligible c r \<and> relative_to p (tenant_root base (rv_org r))
     \<and> resolve_artifact_path (tenant_root base (rv_org r)) (ar_path r) = Some p"

definition files_removed :: "(path \<Rightarrow> bool) \<Rightarrow> disk \<Rightarrow> disk \<Rightarrow> bool" where
  "files_removed P d d' \<longleftrightarrow> faults d' = faults d \<and>
     (\<forall>p. entries d' p = entries d p \<or> (entries d' p = None \<and> (\<exists>c. entries d p = Some (RegularFile c)) \<and> P p))"

lemma resolve_artifact_path_relative: "resolve_artifact_path base s = Some p \<Longrightarrow> relative_to p base"
  by (auto simp: resolve_artifact_path_def Let_def split: if_splits)

lemma evaluate_dry: "snd (evaluate_and_act base True r d) = d \<and> \<not> snd (snd (snd (fst (evaluate_and_act base True r d))))"
  by (simp add: evaluate_and_act_def storage_exists_def split: option.splits file_entry.splits sum.splits)

lemma evaluate_removes:
  assumes "entries (snd (evaluate_and_act base dry r d)) p \<noteq> entries d p"
  shows "\<not> dry \<and> entries (snd (evaluate_and_act base dry r d)) p = None \<and> (\<exists>c. entries d p = Some (RegularFile c))
    \<and> resolve_artifact_path (tenant_root base (rv_org r)) (ar_path r) = Some p"
  using assms
  by (auto simp: evaluate_and_act_def storage_exists_def storage_delete_def Let_def
      split: option.splits file_entry.splits sum.splits if_splits)

lemma evaluate_faults [simp]: "faults (snd (evaluate_and_act base dry r d)) = faults d"
  by (auto simp: evaluate_and_act_def storage_exists_def storage_delete_def Let_def
      split: option.splits file_entry.splits sum.splits if_splits)

lemma files_removed_refl [simp]: "files_removed P d d"
  by (simp add: files_removed_def)

lemma files_removed_trans:
  assumes "files_removed P d e" "files_removed Q e f" "\<And>p. P p \<Longrightarrow> R p" "\<And>p. Q p \<Longrightarrow> R p"
  shows "files_removed R d f"
  unfolding files_removed_def
proof (intro conjI allI)
  show "faults f = faults d" using assms(1,2) by (simp add: files_removed_def)
  fix p
  have 1: "entries e p = entries d p \<or> (entries e p = None \<and> (\<exists>c. entries d p = Some (RegularFile c)) \<and> P p)"
    using assms(1) unfolding files_removed_def by blast
  have 2: "entries f p = entries e p \<or> (entries f p = None \<and> (\<exists>c. entries e p = Some (RegularFile c)) \<and> Q p)"
    using assms(2) unfolding files_removed_def by blast
  show "entries f p = entries d p \<or> (entries f p = None \<and> (\<exists>c. entries d p = Some (RegularFile c)) \<and> R p)"
    using 1 2 assms(3)[of p] assms(4)[of p] by metis
qed

lemma rows_marked_refl [simp]: "rows_marked c now T T"
  by (simp add: rows_marked_def marked_def list_all2_refl)

lemma rows_marked_in:
  assumes "rows_marked c now T T'" "r \<in> set T'" "eligible c r"
  shows "r \<in> set T"
proof -
  obtain i where i: "i < length T" "marked c now (T ! i) r"
    using assms(1,2) by (auto simp: rows_marked_def list_all2_conv_all_nth in_set_conv_nth)
  then have "r = T ! i" using assms(3) by (auto simp: marked_def eligible_def)
  then show ?thesis using i by simp
qed

lemma rows_marked_ids: "rows_marked c now T T' \<Longrightarrow> map rv_id T' = map rv_id T"
  unfolding rows_marked_def
  by (rule nth_equalityI) (auto simp: list_all2_conv_all_nth marked_def)

lemma rows_marked_step:
  assumes "rows_marked c now T T'" "keyed rv_id T" "r \<in> set T'" "eligible c r"
  shows "rows_marked c now T (update_where (\<lambda>x. rv_id x = rv_id r \<and> ar_deleted_at x = None) (\<lambda>x. x\<lparr>ar_deleted_at := Some now\<rparr>) T')"
  unfolding rows_marked_def list_all2_conv_all_nth
proof (intro conjI allI impI)
  show "length T = length (update_where (\<lambda>x. rv_id x = rv_id r \<and> ar_deleted_at x = None) (\<lambda>x. x\<lparr>ar_deleted_at := Some now\<rparr>) T')"
    using assms(1) by (simp add: rows_marked_def list_all2_lengthD)
  fix i assume i: "i < length T"
  have i': "i < length T'" using assms(1) i by (simp add: rows_marked_def list_all2_lengthD)
  have m: "marked c now (T ! i) (T' ! i)" using assms(1) i by (simp add: rows_marked_def list_all2_nthD)
  have "T' ! i = r" if "rv_id (T' ! i) = rv_id r"
    using keyed_inj[of rv_id T' "T' ! i" r] that i' assms by (simp add: rows_marked_ids)
  then show "marked c now (T ! i)
      (update_where (\<lambda>x. rv_id x = rv_id r \<and> ar_deleted_at x = None) (\<lambda>x. x\<lparr>ar_deleted_at := Some now\<rparr>) T' ! i)"
  proof (cases "rv_id (T' ! i) = rv_id r \<and> ar_deleted_at (T' ! i) = None")
    case True
    then have "T' ! i = r" using \<open>rv_id (T' ! i) = rv_id r \<Longrightarrow> T' ! i = r\<close> by blast
    then have "T ! i = r" using m assms(4) unfolding marked_def eligible_def by auto
    then show ?thesis using True i' assms(4) \<open>T' ! i = r\<close> by (simp add: update_where_def marked_def)
  next
    case False
    then show ?thesis using m i' unfolding update_where_def by (simp only: nth_map if_False)
  qed
qed

text \<open>The effect of a loop on its table, the disk, the events and the counts.\<close>

definition loop_effect ::
  "retention_env \<Rightarrow> retention_config \<Rightarrow> 'a artifact_run_scheme retention_state \<Rightarrow> 'a artifact_run_scheme retention_state \<Rightarrow> bool"
where
  "loop_effect env cfg s s' \<longleftrightarrow>
     rows_marked (cutoff_of env) (re_now env) (rs_rows s) (rs_rows s')
     \<and> files_removed (\<lambda>p. \<exists>r \<in> set (rs_rows s). purgeable (cutoff_of env) (rg_root cfg) r p) (rs_disk s) (rs_disk s')
     \<and> (re_dry_run env \<longrightarrow> rs_rows s' = rs_rows s \<and> rs_disk s' = rs_disk s)"

lemma process_candidate_effect:
  assumes "loop_effect env cfg s0 s" "keyed rv_id (rs_rows s0)"
    "next_candidate (cutoff_of env) X (rs_rows s) = Some r"
  shows "loop_effect env cfg s0 (fst (process_candidate env cfg r s))"
proof -
  let ?t = "fst (process_candidate env cfg r s)" and ?E = "evaluate_and_act (rg_root cfg) (re_dry_run env) r (rs_disk s)"
  note r = next_candidateD[OF assms(3)]
  have eff: "rows_marked (cutoff_of env) (re_now env) (rs_rows s0) (rs_rows s)"
    and disk: "files_removed (\<lambda>p. \<exists>r \<in> set (rs_rows s0). purgeable (cutoff_of env) (rg_root cfg) r p) (rs_disk s0) (rs_disk s)"
    and dry: "re_dry_run env \<Longrightarrow> rs_rows s = rs_rows s0 \<and> rs_disk s = rs_disk s0"
    using assms(1) unfolding loop_effect_def by blast+
  have r0: "r \<in> set (rs_rows s0)" using rows_marked_in[OF eff] r by blast
  have d: "rs_disk ?t = snd ?E" by (simp add: process_candidate_def Let_def split_beta)
  have rows: "rs_rows ?t = rs_rows s \<or> (snd (snd (snd (fst ?E))) \<and> rs_rows ?t = update_where (\<lambda>x. rv_id x = rv_id r \<and> ar_deleted_at x = None)
      (\<lambda>x. x\<lparr>ar_deleted_at := Some (re_now env)\<rparr>) (rs_rows s))"
    by (simp add: process_candidate_def Let_def split_beta)
  have "rows_marked (cutoff_of env) (re_now env) (rs_rows s0) (rs_rows ?t)"
    using rows eff rows_marked_step[OF eff assms(2)] r by auto
  moreover have "files_removed (\<lambda>p. purgeable (cutoff_of env) (rg_root cfg) r p) (rs_disk s) (rs_disk ?t)"
    unfolding files_removed_def
  proof (intro conjI allI)
    show "faults (rs_disk ?t) = faults (rs_disk s)" unfolding d by (rule evaluate_faults)
    fix p
    show "entries (rs_disk ?t) p = entries (rs_disk s) p
        \<or> (entries (rs_disk ?t) p = None \<and> (\<exists>c. entries (rs_disk s) p = Some (RegularFile c)) \<and> purgeable (cutoff_of env) (rg_root cfg) r p)"
      using evaluate_removes[of "rg_root cfg" "re_dry_run env" r "rs_disk s" p] r resolve_artifact_path_relative
      unfolding d purgeable_def by blast
  qed
  then have "files_removed (\<lambda>p. \<exists>r \<in> set (rs_rows s0). purgeable (cutoff_of env) (rg_root cfg) r p) (rs_disk s0) (rs_disk ?t)"
    by (rule files_removed_trans[OF disk]) (use r0 in auto)
  moreover have "rs_rows ?t = rs_rows s0 \<and> rs_disk ?t = rs_disk s0" if "re_dry_run env"
    using rows d dry[OF that] that evaluate_dry[of "rg_root cfg" r "rs_disk s"] by auto
  ultimately show ?thesis unfolding loop_effect_def by blast
qed

lemma retention_loop_effect:
  assumes "keyed rv_id (rs_rows s)"
  shows "loop_effect env cfg s (fst (retention_loop env cfg budget X s))"
proof (rule retention_loop_inv[where I = "loop_effect env cfg s"])
  show "loop_effect env cfg s s" by (simp add: loop_effect_def)
qed (rule process_candidate_effect[OF _ assms])

section \<open>Artifacts that can be removed, and artifacts that cannot\<close>

definition stuck :: "path \<Rightarrow> disk \<Rightarrow> 'a artifact_run_scheme \<Rightarrow> bool" where
  "stuck base d r \<longleftrightarrow>
     (case resolve_artifact_path (tenant_root base (rv_org r)) (ar_path r) of
        None \<Rightarrow> True
      | Some p \<Rightarrow> faults d p \<noteq> None \<or> entries d p = Some Directory)"

lemma stuck_files_removed: "files_removed P d d' \<Longrightarrow> \<not> stuck base d r \<Longrightarrow> \<not> stuck base d' r"
proof (cases "resolve_artifact_path (tenant_root base (rv_org r)) (ar_path r)")
  case (Some p)
  assume f: "files_removed P d d'" and n: "\<not> stuck base d r"
  have "faults d' = faults d" using f by (simp add: files_removed_def)
  have "entries d' p = entries d p \<or> (entries d' p = None \<and> (\<exists>c. entries d p = Some (RegularFile c)) \<and> P p)"
    using f unfolding files_removed_def by (elim conjE) (erule spec)
  then have "entries d' p = entries d p \<or> entries d' p = None" by (rule disj_forward) simp_all
  then show ?thesis
  proof (elim disjE)
    assume "entries d' p = entries d p" then show ?thesis using n Some \<open>faults d' = faults d\<close> by (simp add: stuck_def)
  next
    assume "entries d' p = None" then show ?thesis using n Some \<open>faults d' = faults d\<close> by (simp add: stuck_def)
  qed
qed (simp add: stuck_def)

lemma evaluate_stuck:
  "stuck base d r \<Longrightarrow> \<exists>f b. evaluate_and_act base False r d = ((RetentionFailed, f, b, False), d)"
  by (auto simp: stuck_def evaluate_and_act_def storage_delete_def Let_def split: option.splits)

lemma evaluate_not_stuck:
  "\<not> stuck base d r \<Longrightarrow> \<exists>oc f b d'. evaluate_and_act base False r d = ((oc, f, b, True), d') \<and> oc \<noteq> RetentionFailed"
  by (auto simp: stuck_def evaluate_and_act_def storage_delete_def Let_def split: option.splits file_entry.splits)

lemma process_stuck:
  assumes "stuck (rg_root cfg) (rs_disk s) r" "\<not> re_dry_run env"
  shows "rs_rows (fst (process_candidate env cfg r s)) = rs_rows s" "rs_disk (fst (process_candidate env cfg r s)) = rs_disk s"
    "snd (process_candidate env cfg r s)"
  using evaluate_stuck[OF assms(1)] assms(2) by (auto simp: process_candidate_def Let_def)

lemma eligible_rowcount:
  assumes "keyed rv_id T" "r \<in> set T" "eligible c r"
  shows "rowcount (\<lambda>x. rv_id x = rv_id r \<and> ar_deleted_at x = None) T = 1"
  using rowcount_one_iff[OF assms(1), of "rv_id r" "\<lambda>x. ar_deleted_at x = None"] assms by (auto simp: eligible_def)

lemma process_not_stuck:
  assumes "\<not> stuck (rg_root cfg) (rs_disk s) r" "\<not> re_dry_run env" "re_raises env = (\<lambda>_ _. False)"
    "keyed rv_id (rs_rows s)" "r \<in> set (rs_rows s)" "eligible c r"
  shows "rs_rows (fst (process_candidate env cfg r s))
      = update_where (\<lambda>x. rv_id x = rv_id r \<and> ar_deleted_at x = None) (\<lambda>x. x\<lparr>ar_deleted_at := Some (re_now env)\<rparr>) (rs_rows s)"
    "\<not> snd (process_candidate env cfg r s)"
  using evaluate_not_stuck[OF assms(1)] assms(2,3) eligible_rowcount[OF assms(4-6)]
  by (auto simp: process_candidate_def Let_def)

section \<open>Draining the backlog\<close>

definition waiting :: "time \<Rightarrow> 'a artifact_run_scheme table \<Rightarrow> nat" where
  "waiting c T = length (filter (eligible c) T)"

lemma waiting_mark:
  assumes "keyed rv_id T" "r \<in> set T" "eligible c r"
  shows "waiting c (update_where (\<lambda>x. rv_id x = rv_id r \<and> ar_deleted_at x = None) (\<lambda>x. x\<lparr>ar_deleted_at := Some now\<rparr>) T)
    = waiting c T - 1"
proof -
  let ?g = "\<lambda>x. rv_id x = rv_id r \<and> ar_deleted_at x = None"
  have out: "waiting c (update_where ?g (\<lambda>x. x\<lparr>ar_deleted_at := Some now\<rparr>) S) = length (filter (\<lambda>x. eligible c x \<and> \<not> ?g x) S)" for S
    by (induction S) (auto simp: waiting_def update_where_Cons eligible_def)
  have both: "length (filter (eligible c) S) = length (filter (\<lambda>x. eligible c x \<and> \<not> ?g x) S) + length (filter (\<lambda>x. eligible c x \<and> ?g x) S)" for S
    by (induction S) auto
  have "filter (\<lambda>x. eligible c x \<and> ?g x) T = filter ?g T"
    using keyed_inj[OF assms(1) _ assms(2)] assms(3) by (auto intro!: filter_cong)
  then have "waiting c T = length (filter (\<lambda>x. eligible c x \<and> \<not> ?g x) T) + rowcount ?g T"
    unfolding waiting_def rowcount_def both by (simp only:)
  then show ?thesis unfolding out eligible_rowcount[OF assms] by linarith
qed

lemma process_candidate_files: "\<exists>P. files_removed P (rs_disk s) (rs_disk (fst (process_candidate env cfg r s)))"
proof -
  have "rs_disk (fst (process_candidate env cfg r s)) = snd (evaluate_and_act (rg_root cfg) (re_dry_run env) r (rs_disk s))"
    by (simp add: process_candidate_def Let_def split_beta)
  then have "files_removed (\<lambda>_. True) (rs_disk s) (rs_disk (fst (process_candidate env cfg r s)))"
    using evaluate_removes[of "rg_root cfg" "re_dry_run env" r "rs_disk s"] unfolding files_removed_def by (metis evaluate_faults)
  then show ?thesis by (rule exI[where x = "\<lambda>_. True"])
qed

lemma eligible_marked_not_stuck:
  assumes "\<And>x. x \<in> set T \<Longrightarrow> eligible c x \<Longrightarrow> \<not> stuck base d x" "files_removed P d d'"
    "x \<in> set (update_where g (\<lambda>x. x\<lparr>ar_deleted_at := Some now\<rparr>) T)" "eligible c x"
  shows "\<not> stuck base d' x"
proof -
  have "x \<in> set T" using assms(3,4) by (auto simp: set_update_where eligible_def split: if_splits)
  then show ?thesis using assms(1,4) stuck_files_removed[OF assms(2)] by blast
qed

lemma retention_loop_drains:
  assumes "\<not> re_dry_run env" "re_raises env = (\<lambda>_ _. False)"
  shows "keyed rv_id (rs_rows s) \<Longrightarrow>
     (\<And>x. x \<in> set (rs_rows s) \<Longrightarrow> eligible (cutoff_of env) x \<Longrightarrow> \<not> stuck (rg_root cfg) (rs_disk s) x) \<Longrightarrow>
     waiting (cutoff_of env) (rs_rows (fst (retention_loop env cfg budget {} s))) = waiting (cutoff_of env) (rs_rows s) - budget
     \<and> snd (retention_loop env cfg budget {} s) = min budget (waiting (cutoff_of env) (rs_rows s))"
proof (induction budget arbitrary: s)
  case (Suc budget)
  let ?c = "cutoff_of env"
  show ?case
  proof (cases "next_candidate ?c {} (rs_rows s)")
    case None
    then have "waiting ?c (rs_rows s) = 0" by (simp add: next_candidate_None waiting_def)
    then show ?thesis using None by simp
  next
    case (Some r)
    let ?t = "fst (process_candidate env cfg r s)"
    note r = next_candidateD[OF Some]
    have "\<not> stuck (rg_root cfg) (rs_disk s) r" using Suc.prems(2) r by blast
    note p = process_not_stuck[OF this assms Suc.prems(1), of ?c]
    have rows: "rs_rows ?t = update_where (\<lambda>x. rv_id x = rv_id r \<and> ar_deleted_at x = None) (\<lambda>x. x\<lparr>ar_deleted_at := Some (re_now env)\<rparr>) (rs_rows s)"
      using p(1) r by blast
    have keyed: "keyed rv_id (rs_rows ?t)" using Suc.prems(1) by (simp add: rows map_key_update_where)
    obtain P where f: "files_removed P (rs_disk s) (rs_disk ?t)" using process_candidate_files by blast
    have "\<not> stuck (rg_root cfg) (rs_disk ?t) x" if "x \<in> set (rs_rows ?t)" "eligible ?c x" for x
      using eligible_marked_not_stuck[OF Suc.prems(2) f] that unfolding rows by blast
    note ih = Suc.IH[OF keyed this]
    have w: "waiting ?c (rs_rows ?t) = waiting ?c (rs_rows s) - 1" "0 < waiting ?c (rs_rows s)"
    proof -
      show "waiting ?c (rs_rows ?t) = waiting ?c (rs_rows s) - 1"
        unfolding rows by (rule waiting_mark[OF Suc.prems(1)]) (use r in blast)+
      have "r \<in> set (filter (eligible ?c) (rs_rows s))" using r by simp
      then show "0 < waiting ?c (rs_rows s)" unfolding waiting_def by (rule length_pos_if_in_set)
    qed
    have "\<not> snd (process_candidate env cfg r s)" using p(2) r by blast
    then have l: "retention_loop env cfg (Suc budget) {} s = (fst (retention_loop env cfg budget {} ?t), Suc (snd (retention_loop env cfg budget {} ?t)))"
      using Some by (simp add: split_beta Let_def)
    have "waiting ?c (rs_rows (fst (retention_loop env cfg budget {} ?t))) = waiting ?c (rs_rows s) - Suc budget"
      using ih w(1) by simp
    moreover have "Suc (snd (retention_loop env cfg budget {} ?t)) = min (Suc budget) (waiting ?c (rs_rows s))"
      using ih w by linarith
    ultimately show ?thesis unfolding l by simp
  qed
qed simp

section \<open>Artifacts that stay\<close>

lemma keyed_due_artifacts: "keyed rv_id T \<Longrightarrow> distinct (map rv_id (due_artifacts c T))"
proof -
  assume "keyed rv_id T"
  then have "distinct T" "inj_on rv_id (set T)" by (simp_all add: distinct_map)
  then have "distinct (due_artifacts c T)" "inj_on rv_id (set (due_artifacts c T))"
    by (simp_all add: due_artifacts_def inj_on_subset[of rv_id "set T"] Collect_conj_eq)
  then show ?thesis by (simp add: distinct_map)
qed

lemma next_candidate_nth:
  assumes "keyed rv_id T" "k < length (due_artifacts c T)" "X = set (map rv_id (take k (due_artifacts c T)))"
  shows "next_candidate c X T = Some (due_artifacts c T ! k)"
proof -
  let ?L = "due_artifacts c T"
  have d: "distinct (map rv_id ?L)" using keyed_due_artifacts[OF assms(1)] .
  have n: "rv_id (?L ! k) \<notin> X"
  proof
    assume "rv_id (?L ! k) \<in> X"
    then obtain j where "j < k" "rv_id (?L ! j) = rv_id (?L ! k)"
      using assms(2,3) by (auto simp: in_set_conv_nth)
    then show False using d assms(2) nth_eq_iff_index_eq[OF d, of j k] by simp
  qed
  have t: "find (\<lambda>r. rv_id r \<notin> X) (take k ?L) = None"
    using assms(3) by (auto simp: find_None_iff)
  have "find (\<lambda>r. rv_id r \<notin> X) ?L = find (\<lambda>r. rv_id r \<notin> X) (take k ?L @ ?L ! k # drop (Suc k) ?L)"
    by (rule arg_cong[OF id_take_nth_drop[OF assms(2)]])
  also have "\<dots> = Some (?L ! k)" unfolding find_append_case t using n by simp
  finally show ?thesis unfolding next_candidate_find .
qed

lemma retention_loop_stuck:
  assumes "\<not> re_dry_run env" and L: "L = due_artifacts (cutoff_of env) (rs_rows s0)" and "keyed rv_id (rs_rows s0)"
  shows "rs_rows s = rs_rows s0 \<Longrightarrow> rs_disk s = rs_disk s0 \<Longrightarrow> k + budget \<le> length L \<Longrightarrow>
     list_all (stuck (rg_root cfg) (rs_disk s0)) (take budget (drop k L)) \<Longrightarrow> X = set (map rv_id (take k L)) \<Longrightarrow>
     rs_rows (fst (retention_loop env cfg budget X s)) = rs_rows s0 \<and> rs_disk (fst (retention_loop env cfg budget X s)) = rs_disk s0
     \<and> snd (retention_loop env cfg budget X s) = budget"
proof (induction budget arbitrary: s k X)
  case (Suc budget)
  let ?t = "fst (process_candidate env cfg (L ! k) s)"
  have k: "k < length L" using Suc.prems(3) by simp
  have n: "next_candidate (cutoff_of env) X (rs_rows s) = Some (L ! k)"
    using next_candidate_nth[of "rs_rows s0" k "cutoff_of env" X] assms(3) k Suc.prems(1,5) by (simp add: L)
  have dk: "drop k L = L ! k # drop (Suc k) L" using k by (simp add: Cons_nth_drop_Suc)
  have st: "stuck (rg_root cfg) (rs_disk s) (L ! k)" and rest: "list_all (stuck (rg_root cfg) (rs_disk s0)) (take budget (drop (Suc k) L))"
    using Suc.prems(2,4) by (simp_all add: dk)
  note p = process_stuck[OF st assms(1)]
  have X: "insert (rv_id (L ! k)) X = set (map rv_id (take (Suc k) L))"
    using Suc.prems(5) k by (simp add: take_Suc_conv_app_nth)
  have ih: "rs_rows (fst (retention_loop env cfg budget (insert (rv_id (L ! k)) X) ?t)) = rs_rows s0
      \<and> rs_disk (fst (retention_loop env cfg budget (insert (rv_id (L ! k)) X) ?t)) = rs_disk s0
      \<and> snd (retention_loop env cfg budget (insert (rv_id (L ! k)) X) ?t) = budget"
    by (rule Suc.IH[where k = "Suc k"]) (use p Suc.prems rest X in simp_all)
  have "retention_loop env cfg (Suc budget) X s = (fst (retention_loop env cfg budget (insert (rv_id (L ! k)) X) ?t),
      Suc (snd (retention_loop env cfg budget (insert (rv_id (L ! k)) X) ?t)))"
    using n p(3) by (simp add: split_beta Let_def)
  then show ?case using ih by simp
qed simp

lemma filter_prefix:
  assumes "sorted (map f xs)" "\<And>x y. f x \<le> f y \<Longrightarrow> P y \<Longrightarrow> P x"
  shows "\<exists>zs. xs = filter P xs @ zs"
  using assms(1)
proof (induction xs)
  case (Cons x xs)
  show ?case
  proof (cases "P x")
    case True
    then show ?thesis using Cons by auto
  next
    case False
    then have "filter P (x # xs) = []" using Cons.prems assms(2) by (auto simp: filter_empty_conv)
    then show ?thesis by simp
  qed
qed simp

lemma due_artifacts_later:
  assumes "c \<le> c'"
  shows "\<exists>zs. due_artifacts c' T = due_artifacts c T @ zs"
proof -
  let ?f = "\<lambda>r. (the (decision_timestamp r), rv_id r)" and ?P = "\<lambda>r. the (decision_timestamp r) \<le> c"
  have "filter (eligible c) T = filter ?P (filter (eligible c') T)"
    using assms by (auto simp: eligible_def split: option.splits intro!: filter_cong)
  then have "due_artifacts c T = filter ?P (due_artifacts c' T)"
    by (simp only: due_artifacts_def filter_sort)
  moreover have "\<exists>zs. due_artifacts c' T = filter ?P (due_artifacts c' T) @ zs"
    by (rule filter_prefix[where f = ?f]) (auto simp: due_artifacts_def less_eq_prod_def)
  ultimately show ?thesis by simp
qed

section \<open>Events and counts\<close>

definition counts_of :: "retention_event list \<Rightarrow> retention_counts \<Rightarrow> retention_counts" where
  "counts_of es c = fold (\<lambda>e. add_outcome (rt_dry_run e) (rt_outcome e) (rt_size e)) es c"

lemma candidates_counts_of: "candidates_considered (counts_of es c) = candidates_considered c + length es"
  by (induction es arbitrary: c)
    (auto simp: counts_of_def candidates_considered_def add_outcome_def split: retention_outcome.splits)

definition pass_event :: "retention_env \<Rightarrow> retention_event \<Rightarrow> bool" where
  "pass_event env e \<longleftrightarrow> rt_dry_run e = re_dry_run env \<and> rt_completed_at e = re_now env \<and> rt_window_days e = re_window_days env"

definition accounted ::
  "retention_env \<Rightarrow> nat \<Rightarrow> 'a artifact_run_scheme retention_state \<Rightarrow> 'a artifact_run_scheme retention_state \<Rightarrow> bool"
where
  "accounted env n s s' \<longleftrightarrow>
     (\<exists>es. rs_events s' = rs_events s @ es \<and> rs_counts s' = counts_of es (rs_counts s) \<and> length es \<le> n \<and> list_all (pass_event env) es)"

lemma process_candidate_accounted: "accounted env 1 s (fst (process_candidate env cfg r s))"
  unfolding accounted_def process_candidate_def Let_def split_beta
  by (auto simp: counts_of_def pass_event_def retention_event_of_def)

lemma accounted_trans: "accounted env m s t \<Longrightarrow> accounted env n t u \<Longrightarrow> accounted env (m + n) s u"
  unfolding accounted_def
proof (elim exE conjE)
  fix es fs
  assume a: "rs_events t = rs_events s @ es" "rs_counts t = counts_of es (rs_counts s)" "length es \<le> m" "list_all (pass_event env) es"
    "rs_events u = rs_events t @ fs" "rs_counts u = counts_of fs (rs_counts t)" "length fs \<le> n" "list_all (pass_event env) fs"
  show "\<exists>es. rs_events u = rs_events s @ es \<and> rs_counts u = counts_of es (rs_counts s) \<and> length es \<le> m + n \<and> list_all (pass_event env) es"
    by (rule exI[of _ "es @ fs"]) (use a in \<open>simp add: counts_of_def\<close>)
qed

lemma retention_loop_accounted:
  "accounted env (snd (retention_loop env cfg budget X s)) s (fst (retention_loop env cfg budget X s))"
proof (induction budget arbitrary: X s)
  case 0
  then show ?case by (simp add: accounted_def counts_of_def)
next
  case (Suc budget)
  show ?case
  proof (cases "next_candidate (cutoff_of env) X (rs_rows s)")
    case None
    then show ?thesis by (simp add: accounted_def counts_of_def)
  next
    case (Some r)
    let ?Y = "if snd (process_candidate env cfg r s) then insert (rv_id r) X else X"
    let ?t = "fst (process_candidate env cfg r s)"
    have "accounted env (1 + snd (retention_loop env cfg budget ?Y ?t)) s (fst (retention_loop env cfg budget ?Y ?t))"
      by (rule accounted_trans[OF process_candidate_accounted Suc.IH])
    then show ?thesis using Some by (simp only: retention_loop.simps option.case split_beta Let_def fst_conv snd_conv plus_1_eq_Suc)
  qed
qed

end
