(* ===== verification/RetentionTheorems.thy ===== *)
theory RetentionTheorems
  imports RetentionProps
begin

text \<open>
  The whole pass over the three tables with its shared budget: what it removes, what it records, how
  fast it drains the backlog, and how it starves.
\<close>

section \<open>The pass as three loops\<close>

definition pass_env :: "retention_settings \<Rightarrow> time \<Rightarrow> (artifact_type \<Rightarrow> nat \<Rightarrow> bool) \<Rightarrow> bool option \<Rightarrow> retention_env" where
  "pass_env cfg now raises dry_run =
     \<lparr>re_dry_run = (case dry_run of None \<Rightarrow> output_retention_dry_run cfg | Some b \<Rightarrow> b), re_now = now,
      re_window_days = output_retention_window_days cfg, re_raises = raises\<rparr>"

definition pass_budget :: "retention_settings \<Rightarrow> nat option \<Rightarrow> nat" where
  "pass_budget cfg batch_size = (case batch_size of None \<Rightarrow> retention_claim_batch_size cfg | Some n \<Rightarrow> n)"

abbreviation "cleaning_config cfg \<equiv> \<lparr>rg_type = CleaningArtifact, rg_root = csv_output_root cfg\<rparr>"
abbreviation "standardization_config cfg \<equiv> \<lparr>rg_type = StandardizationArtifact, rg_root = csv_standardized_root cfg\<rparr>"
abbreviation "export_config cfg \<equiv> \<lparr>rg_type = ExportArtifact, rg_root = csv_exported_root cfg\<rparr>"

abbreviation start_loop :: "'r table \<Rightarrow> retention_event list \<Rightarrow> disk \<Rightarrow> retention_counts \<Rightarrow> 'r retention_state" where
  "start_loop rows es d c \<equiv> \<lparr>rs_rows = rows, rs_events = es, rs_disk = d, rs_counts = c\<rparr>"

lemma purge_as_loops:
  assumes "output_retention_enabled cfg"
  obtains s1 n1 s2 n2 s3 n3 where
    "retention_loop (pass_env cfg now raises dry_run) (cleaning_config cfg) (pass_budget cfg batch_size) {}
       (start_loop (st_cleaning (w_store w)) (st_retention_events (w_store w)) (w_disk w) zero_counts) = (s1, n1)"
    "retention_loop (pass_env cfg now raises dry_run) (standardization_config cfg) (pass_budget cfg batch_size - n1) {}
       (start_loop (st_standardization (w_store w)) (rs_events s1) (rs_disk s1) (rs_counts s1)) = (s2, n2)"
    "retention_loop (pass_env cfg now raises dry_run) (export_config cfg) (pass_budget cfg batch_size - (n1 + n2)) {}
       (start_loop (st_export (w_store w)) (rs_events s2) (rs_disk s2) (rs_counts s2)) = (s3, n3)"
    "purge_expired_artifacts cfg now raises batch_size dry_run w =
       (w\<lparr>w_store := (w_store w)\<lparr>st_cleaning := rs_rows s1, st_standardization := rs_rows s2, st_export := rs_rows s3,
                                 st_retention_events := rs_events s3\<rparr>,
          w_disk := rs_disk s3\<rparr>, rs_counts s3)"
proof -
  let ?E = "pass_env cfg now raises dry_run" and ?N = "pass_budget cfg batch_size" and ?S = "w_store w"
  obtain s1 n1 where 1: "retention_loop ?E (cleaning_config cfg) ?N {}
      (start_loop (st_cleaning ?S) (st_retention_events ?S) (w_disk w) zero_counts) = (s1, n1)" by fastforce
  obtain s2 n2 where 2: "retention_loop ?E (standardization_config cfg) (?N - n1) {}
      (start_loop (st_standardization ?S) (rs_events s1) (rs_disk s1) (rs_counts s1)) = (s2, n2)" by fastforce
  obtain s3 n3 where 3: "retention_loop ?E (export_config cfg) (?N - (n1 + n2)) {}
      (start_loop (st_export ?S) (rs_events s2) (rs_disk s2) (rs_counts s2)) = (s3, n3)" by fastforce
  note folds = pass_env_def[of cfg now raises dry_run, symmetric] pass_budget_def[of cfg batch_size, symmetric]
  have "purge_expired_artifacts cfg now raises batch_size dry_run w =
       (w\<lparr>w_store := ?S\<lparr>st_cleaning := rs_rows s1, st_standardization := rs_rows s2, st_export := rs_rows s3,
                                 st_retention_events := rs_events s3\<rparr>,
          w_disk := rs_disk s3\<rparr>, rs_counts s3)"
    using assms 1 2 3 by (simp add: purge_expired_artifacts_def process_one_run_type_def Let_def folds)
  then show ?thesis using that[OF 1 2 3] by blast
qed

lemma pass_env_simps [simp]:
  "re_now (pass_env cfg now raises dry_run) = now"
  "re_raises (pass_env cfg now raises dry_run) = raises"
  "re_dry_run (pass_env cfg now raises (Some b)) = b"
  by (simp_all add: pass_env_def)

definition artifacts_keyed :: "store \<Rightarrow> bool" where
  "artifacts_keyed s \<longleftrightarrow> keyed rv_id (st_cleaning s) \<and> keyed rv_id (st_standardization s) \<and> keyed rv_id (st_export s)"

definition retention_cutoff :: "retention_settings \<Rightarrow> time \<Rightarrow> time" where
  "retention_cutoff cfg now = now - output_retention_window_days cfg * seconds 86400"

lemma cutoff_pass_env [simp]: "cutoff_of (pass_env cfg now raises dry_run) = retention_cutoff cfg now"
  by (simp add: cutoff_of_def retention_cutoff_def pass_env_def)

lemma purge_disabled: "\<not> output_retention_enabled cfg \<Longrightarrow> purge_expired_artifacts cfg now raises batch_size dry_run w = (w, zero_counts)"
  by (simp add: purge_expired_artifacts_def)

section \<open>What a pass removes\<close>

definition may_be_purged :: "retention_settings \<Rightarrow> time \<Rightarrow> store \<Rightarrow> path \<Rightarrow> bool" where
  "may_be_purged cfg now s p \<longleftrightarrow>
     (\<exists>r \<in> set (st_cleaning s). purgeable (retention_cutoff cfg now) (csv_output_root cfg) r p)
     \<or> (\<exists>r \<in> set (st_standardization s). purgeable (retention_cutoff cfg now) (csv_standardized_root cfg) r p)
     \<or> (\<exists>r \<in> set (st_export s). purgeable (retention_cutoff cfg now) (csv_exported_root cfg) r p)"

lemma purge_effect:
  assumes "artifacts_keyed (w_store w)"
  shows "files_removed (may_be_purged cfg now (w_store w)) (w_disk w) (w_disk (fst (purge_expired_artifacts cfg now raises batch_size dry_run w)))
    \<and> (re_dry_run (pass_env cfg now raises dry_run) \<or> \<not> output_retention_enabled cfg \<longrightarrow>
        w_disk (fst (purge_expired_artifacts cfg now raises batch_size dry_run w)) = w_disk w)"
proof (cases "output_retention_enabled cfg")
  case True
  show ?thesis
  proof (rule purge_as_loops[OF True, of now raises dry_run batch_size w])
    fix s1 :: "cleaning_run retention_state" and n1 and s2 :: "standardization_run retention_state" and n2 and s3 :: "export_run retention_state" and n3
    let ?E = "pass_env cfg now raises dry_run" and ?N = "pass_budget cfg batch_size" and ?S = "w_store w"
    assume l: "retention_loop ?E (cleaning_config cfg) ?N {} (start_loop (st_cleaning ?S) (st_retention_events ?S) (w_disk w) zero_counts) = (s1, n1)"
      "retention_loop ?E (standardization_config cfg) (?N - n1) {} (start_loop (st_standardization ?S) (rs_events s1) (rs_disk s1) (rs_counts s1)) = (s2, n2)"
      "retention_loop ?E (export_config cfg) (?N - (n1 + n2)) {} (start_loop (st_export ?S) (rs_events s2) (rs_disk s2) (rs_counts s2)) = (s3, n3)"
      and w: "purge_expired_artifacts cfg now raises batch_size dry_run w =
        (w\<lparr>w_store := ?S\<lparr>st_cleaning := rs_rows s1, st_standardization := rs_rows s2, st_export := rs_rows s3,
             st_retention_events := rs_events s3\<rparr>, w_disk := rs_disk s3\<rparr>, rs_counts s3)"
    note e = retention_loop_effect[where env = ?E and cfg = "cleaning_config cfg" and budget = ?N and X = "{}"
        and s = "start_loop (st_cleaning ?S) (st_retention_events ?S) (w_disk w) zero_counts", unfolded l(1)]
      retention_loop_effect[where env = ?E and cfg = "standardization_config cfg" and budget = "?N - n1" and X = "{}"
        and s = "start_loop (st_standardization ?S) (rs_events s1) (rs_disk s1) (rs_counts s1)", unfolded l(2)]
      retention_loop_effect[where env = ?E and cfg = "export_config cfg" and budget = "?N - (n1 + n2)" and X = "{}"
        and s = "start_loop (st_export ?S) (rs_events s2) (rs_disk s2) (rs_counts s2)", unfolded l(3)]
    have k: "keyed rv_id (st_cleaning ?S)" "keyed rv_id (st_standardization ?S)" "keyed rv_id (st_export ?S)"
      using assms by (simp_all add: artifacts_keyed_def)
    have d1: "files_removed (\<lambda>p. \<exists>r \<in> set (st_cleaning ?S). purgeable (retention_cutoff cfg now) (csv_output_root cfg) r p) (w_disk w) (rs_disk s1)"
      using e(1) k(1) by (simp add: loop_effect_def)
    have d2: "files_removed (\<lambda>p. \<exists>r \<in> set (st_standardization ?S). purgeable (retention_cutoff cfg now) (csv_standardized_root cfg) r p) (rs_disk s1) (rs_disk s2)"
      using e(2) k(2) by (simp add: loop_effect_def)
    have d3: "files_removed (\<lambda>p. \<exists>r \<in> set (st_export ?S). purgeable (retention_cutoff cfg now) (csv_exported_root cfg) r p) (rs_disk s2) (rs_disk s3)"
      using e(3) k(3) by (simp add: loop_effect_def)
    have "files_removed (may_be_purged cfg now ?S) (w_disk w) (rs_disk s2)"
      by (rule files_removed_trans[OF d1 d2]) (simp_all add: may_be_purged_def)
    then have "files_removed (may_be_purged cfg now ?S) (w_disk w) (rs_disk s3)"
      by (rule files_removed_trans[OF _ d3]) (simp_all add: may_be_purged_def)
    moreover have "rs_disk s3 = w_disk w" if "re_dry_run ?E"
      using e k that by (simp add: loop_effect_def)
    ultimately show ?thesis using True by (simp add: w)
  qed
qed (simp add: purge_disabled)

text \<open>C7: A retention pass removes only files that it may remove.  If a path has another content after a pass, then
  retention was enabled, the pass was not a dry run, the path held a regular file and now holds
  nothing, and some run of the three artifact tables, decided by a person (never pending review) with
  the decision that matches its current status at least the retention window ago and its output
  not yet marked deleted, has this path as its recorded output inside the directory of its own
  organization.\<close>

theorem retention_removes_only_expired:
  assumes "artifacts_keyed (w_store w)"
    and "entries (w_disk (fst (purge_expired_artifacts cfg now raises batch_size (Some dry_run) w))) p \<noteq> entries (w_disk w) p"
  shows "output_retention_enabled cfg \<and> \<not> dry_run \<and> may_be_purged cfg now (w_store w) p
    \<and> entries (w_disk (fst (purge_expired_artifacts cfg now raises batch_size (Some dry_run) w))) p = None
    \<and> (\<exists>c. entries (w_disk w) p = Some (RegularFile c))"
proof -
  note e = purge_effect[OF assms(1), of cfg now raises batch_size "Some dry_run"]
  have "entries (w_disk (fst (purge_expired_artifacts cfg now raises batch_size (Some dry_run) w))) p = entries (w_disk w) p \<or>
     entries (w_disk (fst (purge_expired_artifacts cfg now raises batch_size (Some dry_run) w))) p = None
     \<and> (\<exists>c. entries (w_disk w) p = Some (RegularFile c)) \<and> may_be_purged cfg now (w_store w) p"
    using e unfolding files_removed_def by blast
  then show ?thesis using e assms(2) by auto
qed

section \<open>What a pass records\<close>

lemma purge_accounted:
  obtains es where
    "st_retention_events (w_store (fst (purge_expired_artifacts cfg now raises batch_size dry_run w))) = st_retention_events (w_store w) @ es"
    "snd (purge_expired_artifacts cfg now raises batch_size dry_run w) = counts_of es zero_counts"
    "length es \<le> pass_budget cfg batch_size" "list_all (pass_event (pass_env cfg now raises dry_run)) es"
proof (cases "output_retention_enabled cfg")
  case True
  show ?thesis
  proof (rule purge_as_loops[OF True, of now raises dry_run batch_size w])
    fix s1 :: "cleaning_run retention_state" and n1 and s2 :: "standardization_run retention_state" and n2 and s3 :: "export_run retention_state" and n3
    let ?E = "pass_env cfg now raises dry_run" and ?N = "pass_budget cfg batch_size" and ?S = "w_store w"
    let ?s0 = "start_loop (st_cleaning ?S) (st_retention_events ?S) (w_disk w) zero_counts"
    assume l: "retention_loop ?E (cleaning_config cfg) ?N {} ?s0 = (s1, n1)"
      "retention_loop ?E (standardization_config cfg) (?N - n1) {} (start_loop (st_standardization ?S) (rs_events s1) (rs_disk s1) (rs_counts s1)) = (s2, n2)"
      "retention_loop ?E (export_config cfg) (?N - (n1 + n2)) {} (start_loop (st_export ?S) (rs_events s2) (rs_disk s2) (rs_counts s2)) = (s3, n3)"
      and w: "purge_expired_artifacts cfg now raises batch_size dry_run w =
        (w\<lparr>w_store := ?S\<lparr>st_cleaning := rs_rows s1, st_standardization := rs_rows s2, st_export := rs_rows s3,
             st_retention_events := rs_events s3\<rparr>, w_disk := rs_disk s3\<rparr>, rs_counts s3)"
    note a = retention_loop_accounted[where env = ?E and cfg = "cleaning_config cfg" and budget = ?N and X = "{}" and s = ?s0, unfolded l(1)]
      retention_loop_accounted[where env = ?E and cfg = "standardization_config cfg" and budget = "?N - n1" and X = "{}"
        and s = "start_loop (st_standardization ?S) (rs_events s1) (rs_disk s1) (rs_counts s1)", unfolded l(2)]
      retention_loop_accounted[where env = ?E and cfg = "export_config cfg" and budget = "?N - (n1 + n2)" and X = "{}"
        and s = "start_loop (st_export ?S) (rs_events s2) (rs_disk s2) (rs_counts s2)", unfolded l(3)]
    have n: "n1 \<le> ?N" "n2 \<le> ?N - n1" "n3 \<le> ?N - (n1 + n2)"
      using retention_loop_attempts[of ?E "cleaning_config cfg" ?N "{}" ?s0, unfolded l(1)]
        retention_loop_attempts[of ?E "standardization_config cfg" "?N - n1" "{}" "start_loop (st_standardization ?S) (rs_events s1) (rs_disk s1) (rs_counts s1)", unfolded l(2)]
        retention_loop_attempts[of ?E "export_config cfg" "?N - (n1 + n2)" "{}" "start_loop (st_export ?S) (rs_events s2) (rs_disk s2) (rs_counts s2)", unfolded l(3)]
      by simp_all
    obtain e1 e2 e3 where es: "rs_events s1 = st_retention_events ?S @ e1" "rs_counts s1 = counts_of e1 zero_counts" "length e1 \<le> n1" "list_all (pass_event ?E) e1"
      "rs_events s2 = rs_events s1 @ e2" "rs_counts s2 = counts_of e2 (rs_counts s1)" "length e2 \<le> n2" "list_all (pass_event ?E) e2"
      "rs_events s3 = rs_events s2 @ e3" "rs_counts s3 = counts_of e3 (rs_counts s2)" "length e3 \<le> n3" "list_all (pass_event ?E) e3"
      using a unfolding accounted_def by auto
    show ?thesis
    proof (rule that[of "e1 @ e2 @ e3"])
      show "length (e1 @ e2 @ e3) \<le> ?N" using es n by simp
    qed (use es in \<open>simp_all add: w counts_of_def\<close>)
  qed
next
  case False
  then show ?thesis using that[of "[]"] by (simp add: purge_disabled counts_of_def)
qed

text \<open>The audit trail and the result of a pass agree.  A pass appends events and changes no earlier one; the
  counts that it returns are those of the appended events, so that the number of artifacts
  considered is their number and the bytes reclaimed are the sum of their recorded sizes; all of them
  carry the pass's mode, window and time, and there are at most as many as the shared batch size of the
  three tables together.\<close>

theorem retention_accounts_for_every_event:
  "(let before = st_retention_events (w_store w);
        (w', c) = purge_expired_artifacts cfg now raises batch_size dry_run w;
        after = st_retention_events (w_store w'); es = drop (length before) after
    in take (length before) after = before \<and> c = counts_of es zero_counts
       \<and> candidates_considered c = length es
       \<and> rc_bytes c = sum_list (map (\<lambda>e. case rt_size e of None \<Rightarrow> 0 | Some n \<Rightarrow> n)
                          (filter (\<lambda>e. rt_outcome e = Completed \<and> \<not> rt_dry_run e) es))
       \<and> length es \<le> pass_budget cfg batch_size
       \<and> list_all (pass_event (pass_env cfg now raises dry_run)) es)"
proof -
  have bytes: "rc_bytes (counts_of es c) = rc_bytes c + sum_list (map (\<lambda>e. case rt_size e of None \<Rightarrow> 0 | Some n \<Rightarrow> n)
        (filter (\<lambda>e. rt_outcome e = Completed \<and> \<not> rt_dry_run e) es))" for es c
    by (induction es arbitrary: c) (auto simp: counts_of_def add_outcome_def split: retention_outcome.splits)
  have c0: "candidates_considered zero_counts = 0" "rc_bytes zero_counts = 0"
    by (simp_all add: zero_counts_def candidates_considered_def)
  show ?thesis
  proof (rule purge_accounted[of cfg now raises batch_size dry_run w])
    fix es
    assume "st_retention_events (w_store (fst (purge_expired_artifacts cfg now raises batch_size dry_run w))) = st_retention_events (w_store w) @ es"
      "snd (purge_expired_artifacts cfg now raises batch_size dry_run w) = counts_of es zero_counts"
      "length es \<le> pass_budget cfg batch_size" "list_all (pass_event (pass_env cfg now raises dry_run)) es"
    then show ?thesis
      by (simp add: Let_def split_beta bytes candidates_counts_of c0)
  qed
qed

section \<open>Draining the backlog\<close>

definition nothing_stuck :: "retention_settings \<Rightarrow> time \<Rightarrow> world \<Rightarrow> bool" where
  "nothing_stuck cfg now w \<longleftrightarrow>
     list_all (\<lambda>r. eligible (retention_cutoff cfg now) r \<longrightarrow> \<not> stuck (csv_output_root cfg) (w_disk w) r) (st_cleaning (w_store w))
     \<and> list_all (\<lambda>r. eligible (retention_cutoff cfg now) r \<longrightarrow> \<not> stuck (csv_standardized_root cfg) (w_disk w) r) (st_standardization (w_store w))
     \<and> list_all (\<lambda>r. eligible (retention_cutoff cfg now) r \<longrightarrow> \<not> stuck (csv_exported_root cfg) (w_disk w) r) (st_export (w_store w))"

definition backlog :: "retention_settings \<Rightarrow> time \<Rightarrow> store \<Rightarrow> nat" where
  "backlog cfg now s = fst (compute_backlog_snapshot s (retention_cutoff cfg now) now)"

lemma backlog_waiting:
  "backlog cfg now s = waiting (retention_cutoff cfg now) (st_cleaning s) + waiting (retention_cutoff cfg now) (st_standardization s)
     + waiting (retention_cutoff cfg now) (st_export s)"
  by (simp add: backlog_def compute_backlog_snapshot_def Let_def backlog_of_def waiting_def)

lemma list_all_impD: "list_all (\<lambda>r. P r \<longrightarrow> Q r) xs \<Longrightarrow> x \<in> set xs \<Longrightarrow> P x \<Longrightarrow> Q x"
  by (simp add: list_all_iff)

lemma purge_drains:
  assumes "output_retention_enabled cfg" "artifacts_keyed (w_store w)" "nothing_stuck cfg now w"
  shows "backlog cfg now (w_store (fst (purge_expired_artifacts cfg now (\<lambda>_ _. False) batch_size (Some False) w)))
    = backlog cfg now (w_store w) - pass_budget cfg batch_size"
proof (rule purge_as_loops[OF assms(1), of now "\<lambda>_ _. False" "Some False" batch_size w])
  fix s1 :: "cleaning_run retention_state" and n1 and s2 :: "standardization_run retention_state" and n2 and s3 :: "export_run retention_state" and n3
  let ?E = "pass_env cfg now (\<lambda>_ _. False) (Some False)" and ?N = "pass_budget cfg batch_size" and ?S = "w_store w"
    and ?c = "retention_cutoff cfg now"
  let ?s0 = "start_loop (st_cleaning ?S) (st_retention_events ?S) (w_disk w) zero_counts"
    and ?s1 = "start_loop (st_standardization ?S) (rs_events s1) (rs_disk s1) (rs_counts s1)"
    and ?s2 = "start_loop (st_export ?S) (rs_events s2) (rs_disk s2) (rs_counts s2)"
  assume l: "retention_loop ?E (cleaning_config cfg) ?N {} ?s0 = (s1, n1)"
    "retention_loop ?E (standardization_config cfg) (?N - n1) {} ?s1 = (s2, n2)"
    "retention_loop ?E (export_config cfg) (?N - (n1 + n2)) {} ?s2 = (s3, n3)"
    and w: "purge_expired_artifacts cfg now (\<lambda>_ _. False) batch_size (Some False) w =
      (w\<lparr>w_store := ?S\<lparr>st_cleaning := rs_rows s1, st_standardization := rs_rows s2, st_export := rs_rows s3,
           st_retention_events := rs_events s3\<rparr>, w_disk := rs_disk s3\<rparr>, rs_counts s3)"
  have k: "keyed rv_id (st_cleaning ?S)" "keyed rv_id (st_standardization ?S)" "keyed rv_id (st_export ?S)"
    using assms(2) by (simp_all add: artifacts_keyed_def)
  have st: "r \<in> set (st_cleaning ?S) \<Longrightarrow> eligible ?c r \<Longrightarrow> \<not> stuck (csv_output_root cfg) (w_disk w) r"
    "q \<in> set (st_standardization ?S) \<Longrightarrow> eligible ?c q \<Longrightarrow> \<not> stuck (csv_standardized_root cfg) (w_disk w) q"
    "x \<in> set (st_export ?S) \<Longrightarrow> eligible ?c x \<Longrightarrow> \<not> stuck (csv_exported_root cfg) (w_disk w) x" for r q x
    using assms(3) by (auto simp: nothing_stuck_def list_all_iff)
  obtain P where d1: "files_removed P (w_disk w) (rs_disk s1)"
    using retention_loop_effect[of ?s0 ?E "cleaning_config cfg" ?N "{}", unfolded l(1)] k(1) by (auto simp: loop_effect_def)
  obtain Q where "files_removed Q (rs_disk s1) (rs_disk s2)"
    using retention_loop_effect[of ?s1 ?E "standardization_config cfg" "?N - n1" "{}", unfolded l(2)] k(2) by (auto simp: loop_effect_def)
  then have d2: "files_removed (\<lambda>_. True) (w_disk w) (rs_disk s2)" by (rule files_removed_trans[OF d1]) simp_all
  have e: "\<not> re_dry_run ?E" "re_raises ?E = (\<lambda>_ _. False)" by simp_all
  have 1: "waiting ?c (rs_rows s1) = waiting ?c (st_cleaning ?S) - ?N \<and> n1 = min ?N (waiting ?c (st_cleaning ?S))"
    using retention_loop_drains[OF e, of ?s0 "cleaning_config cfg" ?N, unfolded l(1)] k(1) st(1) by simp
  have 2: "waiting ?c (rs_rows s2) = waiting ?c (st_standardization ?S) - (?N - n1) \<and> n2 = min (?N - n1) (waiting ?c (st_standardization ?S))"
    using retention_loop_drains[OF e, of ?s1 "standardization_config cfg" "?N - n1", unfolded l(2)] k(2) stuck_files_removed[OF d1 st(2)] by simp
  have 3: "waiting ?c (rs_rows s3) = waiting ?c (st_export ?S) - (?N - (n1 + n2))"
    using retention_loop_drains[OF e, of ?s2 "export_config cfg" "?N - (n1 + n2)", unfolded l(3)] k(3) stuck_files_removed[OF d2 st(3)] by simp
  have b: "backlog cfg now (w_store (fst (purge_expired_artifacts cfg now (\<lambda>_ _. False) batch_size (Some False) w)))
      = waiting ?c (rs_rows s1) + waiting ?c (rs_rows s2) + waiting ?c (rs_rows s3)"
    by (simp add: w backlog_waiting)
  show ?thesis unfolding b backlog_waiting[of cfg now ?S] using 1 2 3 by linarith
qed

text \<open>C30: A pass makes the progress it can: when every eligible artifact of the three tables resolves to a path that the operating
  system lets it remove (or that is gone already) and no transaction fails, a real pass lowers the
  backlog by exactly the batch size, or to zero.\<close>

theorem retention_drains_backlog:
  assumes "output_retention_enabled cfg" and "artifacts_keyed (w_store w)" and "nothing_stuck cfg now w"
  shows "backlog cfg now (w_store (fst (purge_expired_artifacts cfg now (\<lambda>_ _. False) batch_size (Some False) w)))
    = backlog cfg now (w_store w) - pass_budget cfg batch_size"
  by (rule purge_drains[OF assms])

section \<open>Starvation\<close>

lemma purge_stuck:
  assumes "output_retention_enabled cfg" "artifacts_keyed (w_store w)" "then_now \<le> now"
    "pass_budget cfg batch_size \<le> length (due_artifacts (retention_cutoff cfg then_now) (st_cleaning (w_store w)))"
    "list_all (stuck (csv_output_root cfg) (w_disk w))
       (take (pass_budget cfg batch_size) (due_artifacts (retention_cutoff cfg then_now) (st_cleaning (w_store w))))"
  shows "w_disk (fst (purge_expired_artifacts cfg now raises batch_size (Some False) w)) = w_disk w
    \<and> (\<exists>es. w_store (fst (purge_expired_artifacts cfg now raises batch_size (Some False) w)) = (w_store w)\<lparr>st_retention_events := es\<rparr>)"
proof (rule purge_as_loops[OF assms(1), of now raises "Some False" batch_size w])
  fix s1 :: "cleaning_run retention_state" and n1 and s2 :: "standardization_run retention_state" and n2 and s3 :: "export_run retention_state" and n3
  let ?E = "pass_env cfg now raises (Some False)" and ?N = "pass_budget cfg batch_size" and ?S = "w_store w"
  let ?s0 = "start_loop (st_cleaning ?S) (st_retention_events ?S) (w_disk w) zero_counts"
  assume l: "retention_loop ?E (cleaning_config cfg) ?N {} ?s0 = (s1, n1)"
    "retention_loop ?E (standardization_config cfg) (?N - n1) {} (start_loop (st_standardization ?S) (rs_events s1) (rs_disk s1) (rs_counts s1)) = (s2, n2)"
    "retention_loop ?E (export_config cfg) (?N - (n1 + n2)) {} (start_loop (st_export ?S) (rs_events s2) (rs_disk s2) (rs_counts s2)) = (s3, n3)"
    and w: "purge_expired_artifacts cfg now raises batch_size (Some False) w =
      (w\<lparr>w_store := ?S\<lparr>st_cleaning := rs_rows s1, st_standardization := rs_rows s2, st_export := rs_rows s3,
           st_retention_events := rs_events s3\<rparr>, w_disk := rs_disk s3\<rparr>, rs_counts s3)"
  let ?L = "due_artifacts (retention_cutoff cfg now) (st_cleaning ?S)"
  have "retention_cutoff cfg then_now \<le> retention_cutoff cfg now" using assms(3) by (simp add: retention_cutoff_def)
  then obtain zs where L: "?L = due_artifacts (retention_cutoff cfg then_now) (st_cleaning ?S) @ zs"
    using due_artifacts_later by blast
  have "rs_rows s1 = st_cleaning ?S \<and> rs_disk s1 = w_disk w \<and> n1 = ?N"
    using retention_loop_stuck[of ?E ?L ?s0 ?s0 0 ?N "cleaning_config cfg" "{}", unfolded l(1)] assms(2,4,5) L
    by (simp add: artifacts_keyed_def)
  then have "rs_rows s1 = st_cleaning ?S" "rs_disk s1 = w_disk w" "?N - n1 = 0" "?N - (n1 + n2) = 0" by simp_all
  then show ?thesis using l(2,3) w by (auto simp: intro!: exI[of _ "rs_events s3"])
qed

text \<open>C35: Artifacts that cannot be removed starve the rest.  The order is oldest decision first, cleaning runs
  before the others, a failed artifact is excluded for the current pass only, and the failures
  count against the batch.  So once as many cleaning artifacts as the batch size are permanently
  stuck (a read-only directory, a directory in place of the file) and are the oldest due ones,
  every later real pass leaves every file and every row as it found them and only adds
  failure events, however many removable artifacts are due.\<close>

theorem stuck_artifacts_starve_retention:
  assumes "output_retention_enabled cfg" and "artifacts_keyed (w_store w)" and "then_now \<le> now"
    and "pass_budget cfg batch_size \<le> length (due_artifacts (retention_cutoff cfg then_now) (st_cleaning (w_store w)))"
    and "list_all (stuck (csv_output_root cfg) (w_disk w))
       (take (pass_budget cfg batch_size) (due_artifacts (retention_cutoff cfg then_now) (st_cleaning (w_store w))))"
  shows "w_disk (fst (purge_expired_artifacts cfg now raises batch_size (Some False) w)) = w_disk w
    \<and> (\<exists>es. w_store (fst (purge_expired_artifacts cfg now raises batch_size (Some False) w)) = (w_store w)\<lparr>st_retention_events := es\<rparr>)"
  by (rule purge_stuck[OF assms])

section \<open>A small world\<close>

definition sample_settings :: retention_settings where
  "sample_settings =
     \<lparr>output_retention_enabled = True, output_retention_dry_run = False, output_retention_window_days = 1,
      retention_claim_batch_size = 1, csv_output_root = [''out''], csv_standardized_root = [''std''], csv_exported_root = [''exp'']\<rparr>"

definition sample_world :: "(path \<Rightarrow> os_error option) \<Rightarrow> world" where
  "sample_world fs =
     \<lparr>w_store = review_store\<lparr>st_cleaning := [decide_columns Approve sample_user 11 sample_cleaning_run]\<rparr>,
      w_disk = \<lparr>entries = (\<lambda>_. None)([''out'', ''0'', ''2.csv''] := Some (RegularFile ''a,b'')), faults = fs\<rparr>\<rparr>"

abbreviation "later \<equiv> 12 + seconds 86400"

lemma retention_removes_only_expired_witness:
  "may_be_purged sample_settings later (w_store (sample_world (\<lambda>_. None))) [''out'', ''0'', ''2.csv'']"
proof -
  let ?w = "sample_world (\<lambda>_. None)"
  have "artifacts_keyed (w_store ?w)" by code_simp
  moreover have "entries (w_disk (fst (purge_expired_artifacts sample_settings later (\<lambda>_ _. False) None (Some False) ?w))) [''out'', ''0'', ''2.csv'']
      = None" by code_simp
  then have "entries (w_disk (fst (purge_expired_artifacts sample_settings later (\<lambda>_ _. False) None (Some False) ?w))) [''out'', ''0'', ''2.csv'']
      \<noteq> entries (w_disk ?w) [''out'', ''0'', ''2.csv'']" by (simp add: sample_world_def)
  ultimately show ?thesis using retention_removes_only_expired[of ?w sample_settings later "\<lambda>_ _. False" None False] by blast
qed

lemma retention_drains_backlog_witness:
  "backlog sample_settings later (w_store (sample_world (\<lambda>_. None))) = 1
   \<and> backlog sample_settings later (w_store (fst (purge_expired_artifacts sample_settings later (\<lambda>_ _. False) None (Some False)
       (sample_world (\<lambda>_. None))))) = 0"
proof -
  let ?w = "sample_world (\<lambda>_. None)"
  have h: "output_retention_enabled sample_settings" "artifacts_keyed (w_store ?w)" "nothing_stuck sample_settings later ?w" by code_simp+
  have b: "backlog sample_settings later (w_store ?w) = 1" "pass_budget sample_settings None = 1" by code_simp+
  show ?thesis using retention_drains_backlog[OF h, of None] by (simp add: b)
qed

lemma stuck_artifacts_starve_retention_witness:
  "w_disk (fst (purge_expired_artifacts sample_settings (later + 5) (\<lambda>_ _. False) None (Some False)
     (sample_world (\<lambda>_. Some PermissionError)))) = w_disk (sample_world (\<lambda>_. Some PermissionError))"
proof -
  let ?w = "sample_world (\<lambda>_. Some PermissionError)"
  have h: "output_retention_enabled sample_settings" "artifacts_keyed (w_store ?w)" "later \<le> later + 5"
    "pass_budget sample_settings None \<le> length (due_artifacts (retention_cutoff sample_settings later) (st_cleaning (w_store ?w)))"
    "list_all (stuck (csv_output_root sample_settings) (w_disk ?w))
       (take (pass_budget sample_settings None) (due_artifacts (retention_cutoff sample_settings later) (st_cleaning (w_store ?w))))"
    by code_simp+
  show ?thesis using stuck_artifacts_starve_retention[OF h, of "\<lambda>_ _. False"] by blast
qed

end
