(* ===== verification/ChainSample.thy ===== *)
theory ChainSample
  imports OutputHandlers QualityHandlerProps RetentionTheorems Download
begin

text \<open>
  A small workspace for the examples of the output chain.
\<close>

definition step_run :: "nat \<Rightarrow> nat option \<Rightarrow> task_run" where
  "step_run i source =
     \<lparr>tr_id = i, tr_org = 0, tr_task_id = 1, tr_status = RUNNING, tr_triggered_by = None, tr_started_at = Some 0,
      tr_finished_at = None, tr_log_output = None, tr_error_message = None, tr_created_at = 0, tr_idempotency_key = i,
      tr_lease_token = Some i, tr_lease_expires_at = Some 99, tr_last_heartbeat_at = None, tr_attempt_count = 1,
      tr_next_retry_at = None, tr_source_task_run_id = source\<rparr>"

definition chain_source :: data_source where
  "chain_source = \<lparr>so_id = 3, so_org = 0, so_type = CSV_UPLOAD, so_active = True, so_file_path = Some ''a.csv''\<rparr>"

definition chain_env :: "unit output_env" where
  "chain_env =
     \<lparr>oe_handler = sample_env, oe_roots = sample_settings, oe_max_cleaning = 50, oe_max_standardization = 50,
      oe_match_limits = \<lparr>max_block_size = 10, max_persisted_decisions = 10, max_skipped_row_sample = 2\<rparr>,
      oe_export_limits = \<lparr>max_persisted_exclusions = 10\<rparr>\<rparr>"

definition chain_context :: "nat \<Rightarrow> exec_context" where
  "chain_context i =
     \<lparr>cx_run = step_run i (if i = 11 then None else Some (i - 1)), cx_task = sync_task, cx_source = Some chain_source\<rparr>"

definition upload :: "string list list \<Rightarrow> workspace \<Rightarrow> workspace" where
  "upload lines w =
     w\<lparr>wk_world := (wk_world w)\<lparr>w_disk := (wk_disk w)\<lparr>entries := (entries (wk_disk w))
         ([''in'', ''0'', ''a.csv''] \<mapsto> RegularFile (concat (map csv_row lines)))\<rparr>\<rparr>\<rparr>"

definition empty_workspace :: workspace where
  "empty_workspace =
     \<lparr>wk_world = \<lparr>w_store = review_store\<lparr>st_engine := \<lparr>tasks = [sync_task], task_runs = map (\<lambda>i. step_run i None) [11, 12, 13, 14, 15],
                       events = [], uuid_supply = 50\<rparr>,
                     st_cleaning := [], st_standardization := [], st_match := [], st_export := []\<rparr>,
                   w_disk = \<lparr>entries = (\<lambda>_. None), faults = (\<lambda>_. None)\<rparr>\<rparr>,
      wk_supply = 100, wk_profiles = [], wk_cleaning_changes = [], wk_standardization_changes = [], wk_groups = [],
      wk_decisions = [], wk_skipped = [], wk_exclusions = [], wk_mappings = [], wk_lookups = [], wk_rule_sets = [],
      wk_rule_fields = []\<rparr>"

definition approve_cleaning :: "nat \<Rightarrow> workspace \<Rightarrow> workspace" where
  "approve_cleaning rid w =
     (case decide_cleaning Approve 1 rid sample_user 7 (wk_store w) of Inl e \<Rightarrow> w | Inr s \<Rightarrow> set_store (\<lambda>_. s) w)"

end
