(* ===== verification/DownloadProps.thy ===== *)
theory DownloadProps
  imports Download RetentionTheorems "HOL-Library.Sublist"
begin

text \<open>
  Downloads send only verified bytes of the caller's own organization, and leave one audit row in a
  final state, with one exception.
\<close>

section \<open>Chunks\<close>

lemma concat_chunks: "0 < n \<Longrightarrow> concat (chunks_of n s) = s"
  by (induction n s rule: chunks_of.induct) (subst chunks_of.simps, simp)

lemma concat_iter_artifact_chunks [simp]: "concat (iter_artifact_chunks c) = c"
  by (simp add: iter_artifact_chunks_def concat_chunks ARTIFACT_DOWNLOAD_CHUNK_SIZE_BYTES_def)

lemma prefix_concat_take: "prefix (concat (take k xs)) (concat xs)"
  by (metis append_take_drop_id concat_append prefixI)

lemma stream_body_prefix: "prefix (fst (stream_body taken sha now resp s)) (rs_body resp)"
  using prefix_concat_take[of _ "iter_artifact_chunks (rs_body resp)"]
  by (simp add: stream_body_def Let_def split: option.splits)

lemma open_verified_Inr:
  "open_verified_artifact sha256 d p expected = Inr c \<longleftrightarrow>
     faults d p = None \<and> entries d p = Some (RegularFile c) \<and> sha256 c = expected"
  by (auto simp: open_verified_artifact_def split: option.splits file_entry.splits)

lemma download_artifact_Inr:
  assumes "download_artifact sha256 cfg fstat_fails eid now u ty r d s = (Inr resp, s')"
  obtains p where "rv_status r = Approved \<or> rv_status r = RolledBack" "ar_deleted_at r = None"
    "resolve_artifact_path (tenant_root (artifact_root cfg ty) (us_org u)) (ar_path r) = Some p"
    "entries d p = Some (RegularFile (rs_body resp))" "sha256 (rs_body resp) = ar_sha256 r"
    "rs_content_length resp = length (rs_body resp)" "rs_run_status resp = rv_status r" "rs_event resp = eid"
    "s' = add_download_event (started_event eid u ty r) s"
  using assms
  by (auto simp: download_artifact_def Let_def open_verified_Inr split: if_splits option.splits sum.splits artifact_error.splits)

section \<open>What leaves the server\<close>

definition served_from :: "(string \<Rightarrow> string) \<Rightarrow> retention_settings \<Rightarrow> user \<Rightarrow> artifact_type \<Rightarrow> 'a artifact_run_scheme \<Rightarrow> disk \<Rightarrow> string \<Rightarrow> path \<Rightarrow> bool"
where
  "served_from sha256 cfg u ty r d c p \<longleftrightarrow>
     relative_to p (tenant_root (artifact_root cfg ty) (us_org u)) \<and> entries d p = Some (RegularFile c) \<and> sha256 c = ar_sha256 r"


section \<open>The audit row\<close>

text \<open>The constraints of the table.\<close>

definition download_event_ok :: "download_event \<Rightarrow> bool" where
  "download_event_ok e \<longleftrightarrow>
     (dn_status e = Approved \<or> dn_status e = RolledBack)
     \<and> ((dn_outcome e = DownloadStarted \<or> dn_outcome e = DownloadCompleted \<or> dn_outcome e = Purged) = (dn_failure e = None))
     \<and> ((dn_outcome e = DownloadStarted) = (dn_completed_at e = None))"

definition final_event :: "download_event \<Rightarrow> bool" where
  "final_event e \<longleftrightarrow> download_event_ok e \<and> dn_outcome e \<noteq> DownloadStarted"

definition event_fresh :: "nat \<Rightarrow> store \<Rightarrow> bool" where
  "event_fresh eid s \<longleftrightarrow> eid \<notin> dn_id ` set (st_download_events s)"

lemma finalize_added:
  assumes "event_fresh eid s" "dn_id e = eid"
  shows "finalize_download_event eid oc f sha b t (add_download_event e s) = add_download_event
      (e\<lparr>dn_outcome := oc, dn_failure := f, dn_sha256 := (case sha of None \<Rightarrow> dn_sha256 e | Some h \<Rightarrow> Some h),
         dn_bytes := (case b of None \<Rightarrow> dn_bytes e | Some n \<Rightarrow> n), dn_completed_at := Some t\<rparr>) s"
proof -
  have "update_where (\<lambda>x. dn_id x = eid) g (st_download_events s) = st_download_events s" for g
    using assms(1) by (intro update_where_none) (auto simp: rowcount_zero_iff event_fresh_def)
  then show ?thesis
    using assms(2) by (simp add: finalize_download_event_def add_download_event_def update_where_def)
qed

text \<open>A request and what the server does with its response.\<close>

definition served_download ::
  "(string \<Rightarrow> string) \<Rightarrow> retention_settings \<Rightarrow> bool \<Rightarrow> nat \<Rightarrow> time \<Rightarrow> user \<Rightarrow> artifact_type \<Rightarrow> 'a artifact_run_scheme \<Rightarrow>
     disk \<Rightarrow> nat option \<Rightarrow> time \<Rightarrow> store \<Rightarrow> string \<times> store"
where
  "served_download sha256 cfg fstat_fails eid now u ty r d taken t s =
     (case download_artifact sha256 cfg fstat_fails eid now u ty r d s of
        (Inl e, s') \<Rightarrow> ([], s')
      | (Inr resp, s') \<Rightarrow> stream_body taken (ar_sha256 r) t resp s')"

definition appended :: "store \<Rightarrow> store \<Rightarrow> download_event list \<Rightarrow> bool" where
  "appended s s' es \<longleftrightarrow> s' = s\<lparr>st_download_events := st_download_events s @ es\<rparr>"

lemma appended_simps [simp]: "appended s s []" "appended s (add_download_event e s) [e]"
  by (simp_all add: appended_def add_download_event_def)

lemma request_refused:
  assumes "event_fresh eid s" "download_artifact sha256 cfg fstat_fails eid now u ty r d s = (Inl err, s')"
  shows "\<exists>es. appended s s' es \<and> length es \<le> 1 \<and> list_all (\<lambda>e. final_event e \<and> dn_bytes e = 0) es"
proof -
  have f: "dn_id (started_event eid u ty r) = eid" by (simp add: started_event_def)
  note fin = finalize_added[OF assms(1) f]
  have "s' = s \<or> (\<exists>e. s' = add_download_event e s \<and> final_event e \<and> dn_bytes e = 0)"
    using assms(2) unfolding download_artifact_def Let_def fin
    by (auto simp: final_event_def download_event_ok_def started_event_def
        split: if_splits option.splits sum.splits artifact_error.splits)
  then show ?thesis
  proof (elim disjE exE)
    assume "s' = s" then show ?thesis by (intro exI[of _ "[]"]) simp
  next
    fix e assume "s' = add_download_event e s \<and> final_event e \<and> dn_bytes e = 0"
    then show ?thesis by (intro exI[of _ "[e]"]) simp
  qed
qed

lemma stream_finalizes:
  assumes "event_fresh eid s" "download_artifact sha256 cfg fstat_fails eid now u ty r d s = (Inr resp, s')" "taken \<noteq> Some 0"
  shows "\<exists>e. appended s (snd (stream_body taken (ar_sha256 r) t resp s')) [e] \<and> final_event e
    \<and> dn_bytes e = length (fst (stream_body taken (ar_sha256 r) t resp s'))"
proof -
  obtain p where p: "rv_status r = Approved \<or> rv_status r = RolledBack" "rs_event resp = eid"
    "s' = add_download_event (started_event eid u ty r) s"
    using assms(2) by (rule download_artifact_Inr) blast
  have f: "dn_id (started_event eid u ty r) = eid" by (simp add: started_event_def)
  note fin = finalize_added[OF assms(1) f]
  have "\<exists>e. snd (stream_body taken (ar_sha256 r) t resp s') = add_download_event e s \<and> final_event e
      \<and> dn_bytes e = length (fst (stream_body taken (ar_sha256 r) t resp s'))"
    using assms(3) p(1) unfolding stream_body_def Let_def p(2,3) fin
    by (auto simp: final_event_def download_event_ok_def started_event_def split: option.splits)
  then show ?thesis by (metis appended_simps(2))
qed


section \<open>Samples\<close>

definition sample_artifact :: cleaning_run where
  "sample_artifact = (decide_columns Approve sample_user 11 sample_cleaning_run)\<lparr>ar_sha256 := ''b,a''\<rparr>"

abbreviation "sample_disk \<equiv> w_disk (sample_world (\<lambda>_. None))"

abbreviation "sample_request taken \<equiv>
  served_download rev sample_settings False 9 20 sample_user CleaningArtifact sample_artifact sample_disk taken 21 review_store"

lemma sample_download:
  "download_artifact rev sample_settings False 9 20 sample_user CleaningArtifact sample_artifact sample_disk review_store
   = (Inr \<lparr>rs_filename = ''cleaning-20.csv'', rs_content_length = 3, rs_run_status = Approved, rs_event = 9, rs_body = ''a,b''\<rparr>,
      add_download_event (started_event 9 sample_user CleaningArtifact sample_artifact) review_store)"
  by code_simp



text \<open>A stream that the server never starts leaves its audit row \<open>started\<close>.  When the client is gone before the first chunk
  is asked for, the generator is closed unstarted, its \<open>finally\<close> does not run, and no later code
  touches the row.\<close>

theorem unstarted_stream_stays_open:
  assumes "download_artifact sha256 cfg fstat_fails eid now u ty r d s = (Inr resp, s')"
  shows "stream_body (Some 0) (ar_sha256 r) t resp s' = ([], s')
    \<and> st_download_events s' = st_download_events s @ [started_event eid u ty r]
    \<and> dn_outcome (started_event eid u ty r) = DownloadStarted"
  using assms by (rule download_artifact_Inr) (simp add: stream_body_def add_download_event_def started_event_def)

lemma unstarted_stream_stays_open_witness:
  "sample_request (Some 0) = ([], add_download_event (started_event 9 sample_user CleaningArtifact sample_artifact) review_store)"
  using unstarted_stream_stays_open[OF sample_download, of 21] by (simp add: served_download_def sample_download)

end
