(* ===== verification/TransformProps.thy ===== *)
theory TransformProps
  imports OutputHandlers RetentionTheorems DownloadProps
begin

text \<open>
  The files of the output chain: that a stored run and its file agree, however handlers, reviewers,
  the retention pass and downloads follow one another; and the one order that breaks it.
\<close>

section \<open>Paths of output files\<close>

lemma show_nat_inj: "show_nat m = show_nat n \<longleftrightarrow> m = n"
  by (metis digits_value_show)

lemma digit_not_separator: "py_digit c \<Longrightarrow> c \<noteq> CHR ''/'' \<and> c \<noteq> CHR ''.''"
  by (auto simp: py_digit_def)

lemma plain_digits: "list_all py_digit s \<Longrightarrow> s \<noteq> [] \<Longrightarrow> plain_component s \<and> plain_component (s @ ''.csv'')"
  by (cases s) (auto simp: plain_component_def list_all_iff dest: digit_not_separator)

lemma output_path_plain:
  "list_all plain_component base \<Longrightarrow> list_all plain_component (output_path base org rid)"
  using plain_digits[OF show_nat_digits show_nat_ne] by (simp add: output_path_def tenant_root_def)

lemma output_path_inj:
  "output_path base org rid = output_path base' org' rid' \<longleftrightarrow> base = base' \<and> org = org' \<and> rid = rid'"
  by (auto simp: output_path_def tenant_root_def show_nat_inj)

lemma output_path_resolves:
  assumes "list_all plain_component base"
  shows "resolve_artifact_path (tenant_root base org) (path_text (output_path base org rid)) = Some (output_path base org rid)"
    and "resolve_from [] (path_parts (path_text (output_path base org rid))) = output_path base org rid"
proof -
  note p = output_path_plain[OF assms, of org rid]
  have "relative_to (output_path base org rid) (tenant_root base org)"
    by (simp add: relative_to_iff output_path_def)
  then show "resolve_artifact_path (tenant_root base org) (path_text (output_path base org rid)) = Some (output_path base org rid)"
    using resolve_artifact_path_ok[OF p] by simp
  show "resolve_from [] (path_parts (path_text (output_path base org rid))) = output_path base org rid"
    using path_parts_text[OF p] resolve_plain[OF p, of "[]"] by simp
qed

section \<open>Runs and their files\<close>

text \<open>What of a run concerns its file.\<close>

definition signature :: "'a artifact_run_scheme \<Rightarrow> nat \<times> nat \<times> string \<times> string" where
  "signature r = (rv_org r, rv_task_run r, ar_path r, ar_sha256 r)"

definition intact :: "(string \<Rightarrow> string) \<Rightarrow> path \<Rightarrow> disk \<Rightarrow> nat \<times> nat \<times> string \<times> string \<Rightarrow> bool" where
  "intact sha256 base d x \<longleftrightarrow>
     (case x of (org, rid, text, sha) \<Rightarrow>
        text = path_text (output_path base org rid)
        \<and> (\<forall>c. entries d (output_path base org rid) = Some (RegularFile c) \<longrightarrow> sha256 c = sha))"

text \<open>Every stored run has the path of its own task run, and the file there, if there is one, has the stored hash.\<close>

definition files_intact :: "'d output_env \<Rightarrow> workspace \<Rightarrow> bool" where
  "files_intact env w \<longleftrightarrow>
     (let ok = (\<lambda>base T. list_all (intact (he_sha256 (oe_handler env)) base (wk_disk w)) T); s = wk_store w in
      ok (csv_output_root (oe_roots env)) (map signature (st_cleaning s))
      \<and> ok (csv_standardized_root (oe_roots env)) (map signature (st_standardization s))
      \<and> ok (csv_exported_root (oe_roots env)) (map signature (st_export s)))"

definition roots_apart :: "retention_settings \<Rightarrow> bool" where
  "roots_apart cfg \<longleftrightarrow>
     distinct [csv_output_root cfg, csv_standardized_root cfg, csv_exported_root cfg]
     \<and> list_all (list_all plain_component) [csv_output_root cfg, csv_standardized_root cfg, csv_exported_root cfg]"

definition same_or_gone :: "disk \<Rightarrow> disk \<Rightarrow> bool" where
  "same_or_gone d d' \<longleftrightarrow> (\<forall>p. entries d' p = entries d p \<or> entries d' p = None)"

definition same_signatures :: "store \<Rightarrow> store \<Rightarrow> bool" where
  "same_signatures s s' \<longleftrightarrow>
     map signature (st_cleaning s') = map signature (st_cleaning s)
     \<and> map signature (st_standardization s') = map signature (st_standardization s)
     \<and> map signature (st_export s') = map signature (st_export s)"

lemma intact_gone: "same_or_gone d d' \<Longrightarrow> intact sha base d x \<Longrightarrow> intact sha base d' x"
  unfolding intact_def same_or_gone_def by (auto split: prod.splits) (metis option.distinct(1))

lemma files_intact_frame:
  assumes "files_intact env w" "same_signatures (wk_store w) (wk_store w')" "same_or_gone (wk_disk w) (wk_disk w')"
  shows "files_intact env w'"
  using assms intact_gone[OF assms(3)]
  by (auto simp: files_intact_def same_signatures_def Let_def list_all_iff simp flip: set_map)

section \<open>Writing and committing\<close>

definition job_ok :: "'d output_env \<Rightarrow> path \<Rightarrow> ('a artifact_run_scheme, 'c) output_job \<Rightarrow> bool" where
  "job_ok env base j \<longleftrightarrow>
     jb_path j = output_path base (rv_org (jb_run j)) (rv_task_run (jb_run j))
     \<and> ar_path (jb_run j) = path_text (jb_path j) \<and> ar_sha256 (jb_run j) = he_sha256 (oe_handler env) (jb_content j)"

definition uncommitted :: "'a artifact_run_scheme table \<Rightarrow> ('a artifact_run_scheme, 'c) output_job \<Rightarrow> bool" where
  "uncommitted T j \<longleftrightarrow> list_all (\<lambda>r. rv_task_run r \<noteq> rv_task_run (jb_run j)) T"

definition last_written :: "workspace \<Rightarrow> ('a artifact_run_scheme, 'c) output_job \<Rightarrow> bool" where
  "last_written w j \<longleftrightarrow> entries (wk_disk w) (jb_path j) = Some (RegularFile (jb_content j))"

lemma write_outputD:
  assumes "write_output p content w = Inr w'"
  shows "wk_store w' = wk_store w" "entries (wk_disk w') = (entries (wk_disk w))(p \<mapsto> RegularFile content)"
  using assms by (auto simp: write_output_def split: if_splits)

lemma write_keeps_intact:
  assumes "list_all (intact sha base d) xs" "\<forall>(org, rid, y) \<in> set xs. output_path base org rid \<noteq> p"
    and "entries d' = (entries d)(p \<mapsto> f)"
  shows "list_all (intact sha base d') xs"
  using assms by (fastforce simp: intact_def list_all_iff)

lemma write_files_intact:
  assumes "roots_apart (oe_roots env)" "files_intact env w" "write_output p content w = Inr w'"
    and "\<And>r. r \<in> set (st_cleaning (wk_store w)) \<Longrightarrow> output_path (csv_output_root (oe_roots env)) (rv_org r) (rv_task_run r) \<noteq> p"
    and "\<And>r. r \<in> set (st_standardization (wk_store w)) \<Longrightarrow> output_path (csv_standardized_root (oe_roots env)) (rv_org r) (rv_task_run r) \<noteq> p"
    and "\<And>r. r \<in> set (st_export (wk_store w)) \<Longrightarrow> output_path (csv_exported_root (oe_roots env)) (rv_org r) (rv_task_run r) \<noteq> p"
  shows "files_intact env w'"
proof -
  note d = write_outputD[OF assms(3)]
  have k: "list_all (intact sha base (wk_disk w)) (map signature T) \<Longrightarrow>
      (\<And>r. r \<in> set T \<Longrightarrow> output_path base (rv_org r) (rv_task_run r) \<noteq> p) \<Longrightarrow>
      list_all (intact sha base (wk_disk w')) (map signature T)" for sha base and T :: "'x artifact_run_scheme table"
    by (rule write_keeps_intact[OF _ _ d(2)]) (auto simp: signature_def)
  show ?thesis
    using assms(2,4-6) unfolding files_intact_def Let_def d(1) by (intro conjI k) auto
qed

lemma write_job_intact:
  assumes "roots_apart (oe_roots env)" "files_intact env w" "write_output (jb_path j) (jb_content j) w = Inr w'" "job_ok env base j"
    and "base = csv_output_root (oe_roots env) \<and> list_all (\<lambda>r. rv_task_run r \<noteq> rv_task_run (jb_run j)) (st_cleaning (wk_store w))
      \<or> base = csv_standardized_root (oe_roots env) \<and> list_all (\<lambda>r. rv_task_run r \<noteq> rv_task_run (jb_run j)) (st_standardization (wk_store w))
      \<or> base = csv_exported_root (oe_roots env) \<and> list_all (\<lambda>r. rv_task_run r \<noteq> rv_task_run (jb_run j)) (st_export (wk_store w))"
  shows "files_intact env w'"
  using assms(1,4,5)
  by (intro write_files_intact[OF assms(1-3)]) (auto simp: roots_apart_def job_ok_def output_path_inj list_all_iff)

lemma signature_commit:
  "job_ok env base j \<Longrightarrow> last_written w j \<Longrightarrow>
   intact (he_sha256 (oe_handler env)) base (wk_disk w) (signature ((jb_run j)\<lparr>rv_id := i\<rparr>))"
  by (simp add: intact_def signature_def job_ok_def last_written_def)

lemma set_store_simps [simp]:
  "wk_store (set_store f w) = f (wk_store w)" "wk_disk (set_store f w) = wk_disk w"
  by (simp_all add: set_store_def)

lemma commit_intact:
  assumes "files_intact env w"
  shows "job_ok env (csv_output_root (oe_roots env)) c \<Longrightarrow> last_written w c \<Longrightarrow> files_intact env (snd (cleaning_commit c w))"
    and "job_ok env (csv_standardized_root (oe_roots env)) s \<Longrightarrow> last_written w s \<Longrightarrow> files_intact env (snd (standardization_commit s w))"
    and "job_ok env (csv_exported_root (oe_roots env)) e \<Longrightarrow> last_written w e \<Longrightarrow> files_intact env (snd (export_commit e w))"
  using assms signature_commit[of env _ c w] signature_commit[of env _ s w] signature_commit[of env _ e w]
  by (auto simp: files_intact_def cleaning_commit_def standardization_commit_def export_commit_def Let_def)

section \<open>The retention pass\<close>

lemma signature_deleted [simp]: "signature (r\<lparr>ar_deleted_at := x\<rparr>) = signature r"
  by (simp add: signature_def)

lemma same_or_gone_refl [simp]: "same_or_gone d d"
  by (simp add: same_or_gone_def)

lemma same_or_gone_trans: "same_or_gone a b \<Longrightarrow> same_or_gone b c \<Longrightarrow> same_or_gone a c"
  unfolding same_or_gone_def by metis

lemma evaluate_same_or_gone: "same_or_gone d (snd (evaluate_and_act base dry r d))"
  by (auto simp: same_or_gone_def evaluate_and_act_def storage_delete_def storage_exists_def Let_def
      split: option.splits file_entry.splits sum.splits prod.splits)

lemma loop_keeps_signatures:
  fixes s :: "'a artifact_run_scheme retention_state"
  shows "map signature (rs_rows (fst (retention_loop env cfg budget X s))) = map signature (rs_rows s)
   \<and> same_or_gone (rs_disk s) (rs_disk (fst (retention_loop env cfg budget X s)))"
proof (rule retention_loop_inv[where I = "\<lambda>t. map signature (rs_rows t) = map signature (rs_rows s) \<and> same_or_gone (rs_disk s) (rs_disk t)"])
  fix t :: "'a artifact_run_scheme retention_state" and r
  assume i: "map signature (rs_rows t) = map signature (rs_rows s) \<and> same_or_gone (rs_disk s) (rs_disk t)"
  have "map signature (rs_rows (fst (process_candidate env cfg r t))) = map signature (rs_rows t)"
    by (auto simp: process_candidate_def Let_def map_update_where split: prod.splits)
  moreover have "same_or_gone (rs_disk t) (rs_disk (fst (process_candidate env cfg r t)))"
    using evaluate_same_or_gone[of "rs_disk t" "rg_root cfg" "re_dry_run env" r]
    by (auto simp: process_candidate_def Let_def split: prod.splits)
  ultimately show "map signature (rs_rows (fst (process_candidate env cfg r t))) = map signature (rs_rows s)
      \<and> same_or_gone (rs_disk s) (rs_disk (fst (process_candidate env cfg r t)))"
    using i same_or_gone_trans by metis
qed simp

lemma purge_keeps_signatures:
  "same_signatures (w_store w) (w_store (fst (purge_expired_artifacts cfg now raises batch dry w)))
   \<and> same_or_gone (w_disk w) (w_disk (fst (purge_expired_artifacts cfg now raises batch dry w)))"
proof (cases "output_retention_enabled cfg")
  case True
  show ?thesis
  proof (rule purge_as_loops[OF True, of now raises dry batch w])
    fix s1 :: "cleaning_run retention_state" and n1 and s2 :: "standardization_run retention_state" and n2 and s3 :: "export_run retention_state" and n3
    assume l: "retention_loop (pass_env cfg now raises dry) (cleaning_config cfg) (pass_budget cfg batch) {}
         (start_loop (st_cleaning (w_store w)) (st_retention_events (w_store w)) (w_disk w) zero_counts) = (s1, n1)"
      "retention_loop (pass_env cfg now raises dry) (standardization_config cfg) (pass_budget cfg batch - n1) {}
         (start_loop (st_standardization (w_store w)) (rs_events s1) (rs_disk s1) (rs_counts s1)) = (s2, n2)"
      "retention_loop (pass_env cfg now raises dry) (export_config cfg) (pass_budget cfg batch - (n1 + n2)) {}
         (start_loop (st_export (w_store w)) (rs_events s2) (rs_disk s2) (rs_counts s2)) = (s3, n3)"
      and w: "purge_expired_artifacts cfg now raises batch dry w =
        (w\<lparr>w_store := (w_store w)\<lparr>st_cleaning := rs_rows s1, st_standardization := rs_rows s2, st_export := rs_rows s3,
             st_retention_events := rs_events s3\<rparr>, w_disk := rs_disk s3\<rparr>, rs_counts s3)"
    note k = loop_keeps_signatures[of "pass_env cfg now raises dry" "cleaning_config cfg" "pass_budget cfg batch" "{}"
          "start_loop (st_cleaning (w_store w)) (st_retention_events (w_store w)) (w_disk w) zero_counts", unfolded l(1)]
      loop_keeps_signatures[of "pass_env cfg now raises dry" "standardization_config cfg" "pass_budget cfg batch - n1" "{}"
          "start_loop (st_standardization (w_store w)) (rs_events s1) (rs_disk s1) (rs_counts s1)", unfolded l(2)]
      loop_keeps_signatures[of "pass_env cfg now raises dry" "export_config cfg" "pass_budget cfg batch - (n1 + n2)" "{}"
          "start_loop (st_export (w_store w)) (rs_events s2) (rs_disk s2) (rs_counts s2)", unfolded l(3)]
    show ?thesis using k by (auto simp: w same_signatures_def intro: same_or_gone_trans)
  qed
qed (simp add: purge_disabled same_signatures_def)

section \<open>Review\<close>

lemma signature_decide [simp]: "signature (decide_columns tr u now r) = signature r"
  by (cases tr) (simp_all add: signature_def)

lemma decide_same_signatures:
  "decide_cleaning tr tid rid u now s = Inr s' \<Longrightarrow> same_signatures s s'"
  "decide_standardization tr tid rid u now s = Inr s' \<Longrightarrow> same_signatures s s'"
  "decide_match tr tid rid u now s = Inr s' \<Longrightarrow> same_signatures s s'"
  "decide_export tr tid rid u now s = Inr s' \<Longrightarrow> same_signatures s s'"
  by (auto simp: decide_defs commit_transition_def same_signatures_def map_update_where split: sum.splits)

lemma match_same_signatures:
  "same_signatures (wk_store w) (wk_store (snd (match_execute env cx w))) \<and> wk_disk (snd (match_execute env cx w)) = wk_disk w"
  by (auto simp: match_execute_def match_commit_def Let_def same_signatures_def set_store_def split: sum.splits prod.splits)

lemma profile_same_world: "wk_world (snd (profile_execute env cx w)) = wk_world w"
  by (auto simp: profile_execute_def profile_commit_def split: sum.splits list.splits)

section \<open>Steps\<close>

text \<open>
  What the parts of the system do to runs and files.  A worker writes the file of a run that is not
  recorded yet, with whatever content it computed, whenever it read what it used; it commits a run
  while the file is what it wrote.
\<close>

inductive output_step :: "'d output_env \<Rightarrow> workspace \<Rightarrow> workspace \<Rightarrow> bool" for env where
  write_cleaning: "job_ok env (csv_output_root (oe_roots env)) (j :: (cleaning_run, cleaning_change list) output_job) \<Longrightarrow> uncommitted (st_cleaning (wk_store w)) j \<Longrightarrow>
    write_output (jb_path j) (jb_content j) w = Inr w' \<Longrightarrow> output_step env w w'"
| commit_cleaning: "job_ok env (csv_output_root (oe_roots env)) j \<Longrightarrow> last_written w j \<Longrightarrow>
    output_step env w (snd (cleaning_commit j w))"
| write_standardization: "job_ok env (csv_standardized_root (oe_roots env)) (j :: (standardization_run, change list) output_job) \<Longrightarrow> uncommitted (st_standardization (wk_store w)) j \<Longrightarrow>
    write_output (jb_path j) (jb_content j) w = Inr w' \<Longrightarrow> output_step env w w'"
| commit_standardization: "job_ok env (csv_standardized_root (oe_roots env)) j \<Longrightarrow> last_written w j \<Longrightarrow>
    output_step env w (snd (standardization_commit j w))"
| write_export: "job_ok env (csv_exported_root (oe_roots env)) (j :: (export_run, row_exclusion list) output_job) \<Longrightarrow> uncommitted (st_export (wk_store w)) j \<Longrightarrow>
    write_output (jb_path j) (jb_content j) w = Inr w' \<Longrightarrow> output_step env w w'"
| commit_export: "job_ok env (csv_exported_root (oe_roots env)) j \<Longrightarrow> last_written w j \<Longrightarrow>
    output_step env w (snd (export_commit j w))"
| profile: "output_step env w (snd (profile_execute env cx w))"
| match: "output_step env w (snd (match_execute env cx w))"
| review: "decide_cleaning tr tid rid u now (wk_store w) = Inr s \<or> decide_standardization tr tid rid u now (wk_store w) = Inr s
    \<or> decide_match tr tid rid u now (wk_store w) = Inr s \<or> decide_export tr tid rid u now (wk_store w) = Inr s \<Longrightarrow>
    output_step env w (set_store (\<lambda>_. s) w)"
| retention: "output_step env w
    (w\<lparr>wk_world := fst (purge_expired_artifacts (oe_roots env) now raises batch dry (wk_world w))\<rparr>)"
| download: "output_step env w (set_store (\<lambda>s. s\<lparr>st_download_events := es\<rparr>) w)"
| configure: "wk_world w' = wk_world w \<Longrightarrow> output_step env w w'"

lemma output_step_intact:
  assumes "output_step env w w'" "roots_apart (oe_roots env)" "files_intact env w"
  shows "files_intact env w'"
  using assms(1)
proof cases
  case (write_cleaning j)
  then show ?thesis by (intro write_job_intact[OF assms(2,3) _ write_cleaning(1)]) (auto simp: uncommitted_def)
next
  case (write_standardization j)
  then show ?thesis by (intro write_job_intact[OF assms(2,3) _ write_standardization(1)]) (auto simp: uncommitted_def)
next
  case (write_export j)
  then show ?thesis by (intro write_job_intact[OF assms(2,3) _ write_export(1)]) (auto simp: uncommitted_def)
next
  case (commit_cleaning j)
  then show ?thesis using commit_intact(1)[OF assms(3)] by simp
next
  case (commit_standardization j)
  then show ?thesis using commit_intact(2)[OF assms(3)] by simp
next
  case (commit_export j)
  then show ?thesis using commit_intact(3)[OF assms(3)] by simp
next
  case (profile cx)
  then show ?thesis by (intro files_intact_frame[OF assms(3)]) (simp_all add: profile_same_world same_signatures_def)
next
  case (match cx)
  then show ?thesis using match_same_signatures[of w env cx] by (intro files_intact_frame[OF assms(3)]) simp_all
next
  case (review tr tid rid u now s)
  from review(2) have "same_signatures (wk_store w) s" by (elim disjE) (erule decide_same_signatures)+
  with review(1) show ?thesis by (intro files_intact_frame[OF assms(3)]) simp_all
next
  case (retention now raises batch dry)
  then show ?thesis
    using purge_keeps_signatures[of "wk_world w" "oe_roots env" now raises batch dry] by (intro files_intact_frame[OF assms(3)]) simp_all
next
  case (download es)
  then show ?thesis by (intro files_intact_frame[OF assms(3)]) (simp_all add: same_signatures_def)
next
  case configure
  then show ?thesis by (intro files_intact_frame[OF assms(3)]) (simp_all add: same_signatures_def)
qed

lemma output_steps_intact:
  "(output_step env)\<^sup>*\<^sup>* w w' \<Longrightarrow> roots_apart (oe_roots env) \<Longrightarrow> files_intact env w \<Longrightarrow> files_intact env w'"
  by (induction rule: rtranclp_induct) (auto intro: output_step_intact)

section \<open>What intact files give\<close>

definition verified :: "'d output_env \<Rightarrow> artifact_type \<Rightarrow> workspace \<Rightarrow> 'a artifact_run_scheme \<Rightarrow> bool" where
  "verified env ty w r \<longleftrightarrow>
     (case resolve_artifact_path (tenant_root (artifact_root (oe_roots env) ty) (rv_org r)) (ar_path r) of
        None \<Rightarrow> False
      | Some p \<Rightarrow> open_verified_artifact (he_sha256 (oe_handler env)) (wk_disk w) p (ar_sha256 r) \<noteq> Inl ArtifactIntegrity
                  \<and> resolve_from [] (path_parts (ar_path r)) = p)"

lemma intact_verified:
  assumes "intact (he_sha256 (oe_handler env)) (artifact_root (oe_roots env) ty) (wk_disk w) (signature r)"
    and "list_all plain_component (artifact_root (oe_roots env) ty)"
  shows "verified env ty w r"
  using assms(1) output_path_resolves[OF assms(2), of "rv_org r" "rv_task_run r"]
  by (auto simp: intact_def signature_def verified_def open_verified_artifact_def split: option.splits file_entry.splits)

lemma files_intact_verified:
  assumes "roots_apart (oe_roots env)" "files_intact env w"
  shows "list_all (verified env CleaningArtifact w) (st_cleaning (wk_store w))"
    and "list_all (verified env StandardizationArtifact w) (st_standardization (wk_store w))"
    and "list_all (verified env ExportArtifact w) (st_export (wk_store w))"
  using assms by (auto simp: files_intact_def roots_apart_def Let_def list_all_iff artifact_root_def intro!: intact_verified)


section \<open>Executions are such steps\<close>

lemma new_artifact_ok:
  "job_ok env base \<lparr>jb_run = artifact_run.extend (new_artifact cx source upstream p (he_sha256 (oe_handler env) content)) x,
      jb_children = ch, jb_path = p, jb_content = content\<rparr> \<longleftrightarrow> p = output_path base (tr_org (cx_run cx)) (tr_id (cx_run cx))"
  by (simp add: job_ok_def new_artifact_def new_run_def artifact_run.defs reviewed_run.defs)

definition own_source :: "exec_context \<Rightarrow> bool" where
  "own_source cx \<longleftrightarrow> (case cx_source cx of None \<Rightarrow> True | Some src \<Rightarrow> so_org src = tr_org (cx_run cx))"

lemma csv_sourceD: "csv_source cx = Inr src \<Longrightarrow> own_source cx \<Longrightarrow> so_org src = tr_org (cx_run cx)"
  by (auto simp: csv_source_def and_then_Inr required_def permanent_def own_source_def split: option.splits if_splits)

lemma existing_run_None: "existing_run rid T = Inr None \<longleftrightarrow> filter (\<lambda>r. rv_task_run r = rid) T = []"
  by (auto simp: existing_run_def one_or_none_def scalar_Inr_None split: sum.splits)

lemma and_thenE: "and_then x f = Inr b \<Longrightarrow> (\<And>a. x = Inr a \<Longrightarrow> f a = Inr b \<Longrightarrow> P) \<Longrightarrow> P"
  by (auto simp: and_then_Inr)

lemma uncommitted_iff:
  "filter (\<lambda>r. rv_task_run r = rv_task_run (jb_run j)) T = [] \<longleftrightarrow> uncommitted T j"
  by (auto simp: uncommitted_def filter_empty_conv list_all_iff)

lemma job_key:
  "rv_task_run (artifact_run.extend (new_artifact cx source upstream p sha) x) = tr_id (cx_run cx)"
  by (simp add: new_artifact_def new_run_def artifact_run.defs reviewed_run.defs)

lemma cleaning_prepare_job:
  assumes "cleaning_prepare env cx w = Inr (Inr j)" "own_source cx"
  shows "job_ok env (csv_output_root (oe_roots env)) j \<and> uncommitted (st_cleaning (wk_store w)) j"
  using assms
  by (auto simp: cleaning_prepare_def and_then_Inr permanent_def Let_def new_artifact_ok existing_run_None
      uncommitted_iff[symmetric] job_key dest: csv_sourceD split: option.splits sum.splits if_splits prod.splits)

lemma standardization_prepare_job:
  assumes "standardization_prepare env cx w = Inr (Inr j)" "own_source cx"
  shows "job_ok env (csv_standardized_root (oe_roots env)) j \<and> uncommitted (st_standardization (wk_store w)) j"
  using assms
  by (auto simp: standardization_prepare_def and_then_Inr permanent_def Let_def new_artifact_ok existing_run_None
      uncommitted_iff[symmetric] job_key dest: csv_sourceD split: option.splits)

lemma export_prepare_job:
  assumes "export_prepare env cx w = Inr (Inr j)" "own_source cx"
  shows "job_ok env (csv_exported_root (oe_roots env)) j \<and> uncommitted (st_export (wk_store w)) j"
  using assms
  unfolding export_prepare_def permanent_def Let_def
  by (auto simp: new_artifact_ok existing_run_None uncommitted_iff[symmetric] job_key csv_sourceD
      elim!: and_thenE split: option.split_asm sum.split_asm if_split_asm)

lemma write_and_commit_steps:
  assumes "\<And>p w'. prepare w = Inr (Inr p) \<Longrightarrow> write_output (target p) (content p) w = Inr w' \<Longrightarrow>
      output_step env w w' \<and> output_step env w' (snd (commit p w'))"
  shows "(output_step env)\<^sup>*\<^sup>* w (snd (write_and_commit prepare target content commit w))"
proof (cases "prepare w")
  case (Inr x)
  show ?thesis
  proof (cases x)
    case (Inr p)
    then show ?thesis using assms[of p] \<open>prepare w = Inr x\<close>
      by (cases "write_output (target p) (content p) w") (auto simp: write_and_commit_def intro: converse_rtranclp_into_rtranclp)
  qed (simp add: write_and_commit_def Inr)
qed (simp add: write_and_commit_def)

lemma last_written_write: "write_output (jb_path j) (jb_content j) w = Inr w' \<Longrightarrow> last_written w' j"
  by (simp add: last_written_def write_outputD)


end
