(* ===== verification/OutputChain.thy ===== *)
theory OutputChain
  imports ChainSample TransformProps
begin

text \<open>
  The guarantees of the output chain, at work on the sample.
\<close>

section \<open>A sample chain\<close>

lemma files_intact_empty: "files_intact chain_env empty_workspace"
  by (simp add: files_intact_def empty_workspace_def)

lemma roots_apart_chain: "roots_apart (oe_roots chain_env)"
  by code_simp

lemma own_source_chain: "own_source (chain_context i)"
  by (simp add: own_source_def chain_context_def chain_source_def step_run_def)



end
