(* ===== verification/LateWriter.thy ===== *)
theory LateWriter
  imports ChainSample
begin

text \<open>
  What a worker that lost its lease does to a file that has been reviewed since.
\<close>

section \<open>A late writer\<close>

text \<open>Worker A prepares the cleaning of the first file and loses its lease; the file is uploaded anew, worker B
  executes the same task run on the second file, and a reviewer approves what B recorded.\<close>

definition first_profile :: data_profile where
  "first_profile =
     \<lparr>pf_id = 100, pf_org = 0, pf_task_run = 11, pf_rows = 1, pf_columns = 1, pf_duplicates = 0, pf_missing = 0, pf_task = 1,
      pf_source = 3, pf_sha256 = he_sha256 (oe_handler chain_env) (concat (map csv_row [[''qty''], [''1'']])),
      pf_profile =
        \<lparr>pr_row_count = 1, pr_column_count = 1, pr_duplicates = 0, pr_missing = 0,
         pr_columns = [\<lparr>cp_name = ''qty'', cp_position = 0, cp_inferred_type = ''integer'', cp_non_null = 1, cp_missing = 0,
           cp_missing_percentage = 0, cp_distinct = 1, cp_samples = [''1''], cp_retained = [''1''], cp_truncated = False,
           cp_inconsistent = 0, cp_type_counts = [(''integer'', 1)]\<rparr>],
         pr_issues = []\<rparr>\<rparr>"

definition profiled :: workspace where
  "profiled = (upload [[''qty''], [''1'']] empty_workspace)\<lparr>wk_supply := 101, wk_profiles := [first_profile]\<rparr>"

text \<open>This is what the profiling handler records of the first file.\<close>

lemma profiled_by_handler:
  "(let (r, w) = profile_execute chain_env (chain_context 11) (upload [[''qty''], [''1'']] empty_workspace)
    in r = Inr 100 \<and> wk_profiles w = wk_profiles profiled \<and> wk_supply w = wk_supply profiled)"
  by code_simp

definition reviewed :: workspace where
  "reviewed = approve_cleaning 12 (snd (cleaning_execute chain_env (chain_context 12) (upload [[''qty''], [''2'']] profiled)))"

definition late_write :: "(handler_error + nat) \<times> workspace" where
  "late_write =
     (case cleaning_prepare chain_env (chain_context 12) profiled of
        Inr (Inr j) \<Rightarrow> (case write_output (jb_path j) (jb_content j) reviewed of Inl e \<Rightarrow> (Inl e, reviewed) | Inr w \<Rightarrow> cleaning_commit j w)
      | _ \<Rightarrow> (Inl EngineError, reviewed))"


end
