(* ===== verification/Uuid.thy ===== *)
theory Uuid
  imports PyText
begin

text \<open>
  UUIDs as the numbers they are, with the two conversions the code uses: \<open>str(u)\<close> and \<open>uuid.UUID(s)\<close>,
  which takes more than the canonical text.  \<open>int(_, 16)\<close> is exact on ASCII.
\<close>

text \<open>\<open>int(s, 16)\<close> of unsigned text: an optional prefix, then digits with single underscores between them.\<close>

definition hex_value :: "char \<Rightarrow> nat option" where
  "hex_value c =
     (if py_digit c then Some (code c - 48)
      else let l = code (lower_char c) in if 97 \<le> l \<and> l \<le> 102 then Some (l - 87) else None)"

fun hex_digits :: "bool \<Rightarrow> nat \<Rightarrow> string \<Rightarrow> nat option" where
  "hex_digits after_digit acc [] = (if after_digit then Some acc else None)"
| "hex_digits after_digit acc (c # s) =
     (if c = CHR ''_'' then (if after_digit then hex_digits False acc s else None)
      else case hex_value c of None \<Rightarrow> None | Some v \<Rightarrow> hex_digits True (16 * acc + v) s)"

definition int_hex :: "string \<Rightarrow> nat option" where
  "int_hex s =
     (let t = strip s; u = (if starts_with ''+'' t then drop 1 t else t) in
      if starts_with ''0x'' (lower u) then hex_digits False 0 (drop (if starts_with ''_'' (drop 2 u) then 3 else 2) u)
      else hex_digits False 0 u)"

text \<open>\<open>uuid.UUID(s)\<close>\<close>

definition parse_uuid :: "string \<Rightarrow> nat option" where
  "parse_uuid s =
     (let brace = (\<lambda>c. c = CHR ''{'' \<or> c = CHR ''}'');
          bare = rev (dropWhile brace (rev (dropWhile brace (replace_str ''uuid:'' '''' (replace_str ''urn:'' '''' s)))));
          hex = replace_char (CHR ''-'') '''' bare
      in if py_len hex \<noteq> 32 then None else int_hex hex)"

text \<open>\<open>str(u)\<close>: lower case, with hyphens.\<close>

definition hex_char :: "nat \<Rightarrow> char" where
  "hex_char v = char_of (if v < 10 then 48 + v else 87 + v)"

fun hex_text :: "nat \<Rightarrow> nat \<Rightarrow> string" where
  "hex_text 0 n = []"
| "hex_text (Suc k) n = hex_text k (n div 16) @ [hex_char (n mod 16)]"

definition uuid_text :: "nat \<Rightarrow> string" where
  "uuid_text n =
     (let h = hex_text 32 n in
      take 8 h @ ''-'' @ take 4 (drop 8 h) @ ''-'' @ take 4 (drop 12 h) @ ''-'' @ take 4 (drop 16 h) @ ''-'' @ drop 20 h)"

section \<open>The round trip\<close>

definition hex_digit :: "char \<Rightarrow> bool" where
  "hex_digit c \<longleftrightarrow> c \<in> set ''0123456789abcdef''"

lemma hex_char_digit: "v < 16 \<Longrightarrow> hex_digit (hex_char v) \<and> hex_value (hex_char v) = Some v"
proof -
  assume "v < 16"
  then have "v \<in> set [0 ..< 16]" by simp
  moreover have "list_all (\<lambda>v. hex_digit (hex_char v) \<and> hex_value (hex_char v) = Some v) [0 ..< 16]" by code_simp
  ultimately show ?thesis unfolding list_all_iff by blast
qed

lemma hex_text_digits: "list_all hex_digit (hex_text k n)"
  by (induction k arbitrary: n) (simp_all add: hex_char_digit)

lemma length_hex_text [simp]: "length (hex_text k n) = k"
  by (induction k arbitrary: n) simp_all

lemma hex_digits_snoc:
  "hex_digits ok acc s = Some a \<Longrightarrow> v < 16 \<Longrightarrow> hex_digits ok acc (s @ [hex_char v]) = Some (16 * a + v)"
proof (induction ok acc s rule: hex_digits.induct)
  case (1 ok acc)
  then show ?case using hex_char_digit[of v] by (auto simp: hex_digit_def split: if_splits)
next
  case (2 ok acc c s)
  then show ?case by (auto split: if_splits option.splits)
qed

lemma hex_digits_text: "n < 16 ^ Suc k \<Longrightarrow> hex_digits False 0 (hex_text (Suc k) n) = Some n"
proof (induction k arbitrary: n)
  case 0
  then have "hex_value (hex_char n) = Some n" "hex_digit (hex_char n)" using hex_char_digit[of n] by auto
  then show ?case using 0 by (auto simp: hex_digit_def)
next
  case (Suc k)
  have "hex_digits False 0 (hex_text (Suc k) (n div 16)) = Some (n div 16)"
    by (rule Suc.IH) (use Suc.prems in \<open>simp add: less_mult_imp_div_less mult.commute\<close>)
  from hex_digits_snoc[OF this, of "n mod 16"] show ?case by simp
qed

lemma replace_str_absent: "old \<noteq> [] \<Longrightarrow> hd old \<notin> set s \<Longrightarrow> replace_str old new s = s"
proof (induction s)
  case Nil
  then show ?case by (simp add: replace_str.simps)
next
  case (Cons c s)
  then have "\<not> starts_with old (c # s)" by (cases old) (auto simp: starts_with_def)
  then show ?case using Cons by (subst replace_str.simps) simp
qed

lemma hex_digit_plain:
  assumes "hex_digit c"
  shows "\<not> py_cont c" "\<not> py_space c" "c \<noteq> CHR ''u''" "c \<noteq> CHR ''-''" "c \<noteq> CHR ''+''" "c \<noteq> CHR ''x''" "lower_char c = c"
    "c \<noteq> CHR ''{''" "c \<noteq> CHR ''}''"
proof -
  have "list_all (\<lambda>c. \<not> py_cont c \<and> \<not> py_space c \<and> c \<noteq> CHR ''u'' \<and> c \<noteq> CHR ''-'' \<and> c \<noteq> CHR ''+'' \<and> c \<noteq> CHR ''x''
      \<and> lower_char c = c \<and> c \<noteq> CHR ''{'' \<and> c \<noteq> CHR ''}'') ''0123456789abcdef''" by code_simp
  then show "\<not> py_cont c" "\<not> py_space c" "c \<noteq> CHR ''u''" "c \<noteq> CHR ''-''" "c \<noteq> CHR ''+''" "c \<noteq> CHR ''x''" "lower_char c = c"
    "c \<noteq> CHR ''{''" "c \<noteq> CHR ''}''"
    using assms unfolding hex_digit_def list_all_iff by blast+
qed

lemma uuid_text_chars: "c \<in> set (uuid_text n) \<Longrightarrow> hex_digit c \<or> c = CHR ''-''"
  using hex_text_digits[of 32 n] by (auto simp: uuid_text_def Let_def list_all_iff dest!: in_set_takeD in_set_dropD)

lemma uuid_text_no_dash: "replace_char (CHR ''-'') [] (uuid_text n) = hex_text 32 n"
proof -
  let ?h = "hex_text 32 n"
  have k: "filter (\<lambda>c. c \<noteq> CHR ''-'') s = s" if "set s \<subseteq> set ?h" for s
    using that hex_text_digits[of 32 n] hex_digit_plain(4) by (auto simp: list_all_iff intro!: filter_True)
  have "filter (\<lambda>c. c \<noteq> CHR ''-'') (uuid_text n) = take 8 ?h @ take 4 (drop 8 ?h) @ take 4 (drop 12 ?h) @ take 4 (drop 16 ?h) @ drop 20 ?h"
    by (simp add: uuid_text_def Let_def k set_take_subset set_drop_subset order_trans[OF set_take_subset set_drop_subset])
  also have "\<dots> = ?h"
    using append_take_drop_id[of 8 ?h] append_take_drop_id[of 4 "drop 8 ?h"] append_take_drop_id[of 4 "drop 12 ?h"]
      append_take_drop_id[of 4 "drop 16 ?h"] by simp
  finally show ?thesis by (simp add: replace_char_delete)
qed

lemma uuid_roundtrip:
  assumes "n < 2 ^ 128"
  shows "parse_uuid (uuid_text n) = Some n"
proof -
  let ?h = "hex_text 32 n"
  have d: "list_all hex_digit ?h" by (rule hex_text_digits)
  obtain a b t where h: "?h = a # b # t" using length_hex_text[of 32 n] by (cases ?h; cases "tl ?h") auto
  have u: "replace_str ''uuid:'' [] (replace_str ''urn:'' [] (uuid_text n)) = uuid_text n"
  proof -
    have "CHR ''u'' \<notin> set (uuid_text n)" using uuid_text_chars hex_digit_plain(3) by fastforce
    then show ?thesis by (simp add: replace_str_absent)
  qed
  have b: "\<not> (c = CHR ''{'' \<or> c = CHR ''}'')" if "c \<in> set (uuid_text n)" for c
    using uuid_text_chars[OF that] hex_digit_plain(8,9) by auto
  have drop_none: "dropWhile (\<lambda>c. c = CHR ''{'' \<or> c = CHR ''}'') s = s" if "set s \<subseteq> set (uuid_text n)" for s
    using that b by (cases s) auto
  have len: "py_len ?h = 32"
    using d hex_digit_plain(1) by (simp add: py_len_def py_cont_def list_all_iff filter_True)
  have "strip ?h = ?h" using d h hex_digit_plain(2) by (intro strip_fixed) (auto simp: list_all_iff)
  moreover have "lower ?h = ?h" using d hex_digit_plain(7) by (simp add: lower_def list_all_iff map_idI)
  moreover have "\<not> starts_with ''+'' ?h" "\<not> starts_with ''0x'' ?h"
    using d hex_digit_plain(5,6) unfolding h by (auto simp: starts_with_def)
  ultimately have "int_hex ?h = Some n"
    using hex_digits_text[of n 31] assms by (simp add: int_hex_def Let_def)
  then show ?thesis
    by (simp add: parse_uuid_def Let_def u drop_none uuid_text_no_dash len)
qed

end
