(* ===== verification/ReviewQueue.thy ===== *)
theory ReviewQueue
  imports Transform Uuid
begin

text \<open>
  The operational review queue: \<open>app.review_queue.query\<close> and \<open>app.api.review_queue\<close>, a read-only
  view of what waits for people in seven tables.

  A branch of the union is the list of its rows, in the order of its table; the answer does not depend
  on that order.  Identifiers are the numbers of the UUIDs.  The columns that only this view reads (creation times,
  the identifier and reason of a stored decision, names of data sources) stand beside the store.
  PostgreSQL's \<open>LIKE\<close> is modelled on UTF-8 text; \<open>lower\<close> is exact on ASCII.
\<close>

section \<open>The union\<close>

record queued_decision = stored_decision +
  qd_id :: nat
  qd_reason :: string
  qd_created_at :: time

record queue_tables =
  qt_store :: store
  qt_decisions :: "queued_decision table"
  qt_created_at :: "string \<Rightarrow> nat \<Rightarrow> time"
  qt_source_names :: "(nat \<times> string) table"

record queue_item =
  it_org :: nat
  it_reference :: nat
  it_task :: nat
  it_task_run :: nat
  it_data_source :: "nat option"
  it_category :: string
  it_type :: string
  it_source :: string
  it_label :: string
  it_confidence :: "rat option"
  it_reason :: "string option"
  it_created_at :: time

definition pending_review_branch ::
  "('a reviewed_run_scheme \<Rightarrow> rat option) \<Rightarrow> string \<Rightarrow> string \<Rightarrow> string \<Rightarrow> (nat \<Rightarrow> time) \<Rightarrow> nat \<Rightarrow>
     'a reviewed_run_scheme table \<Rightarrow> queue_item list"
where
  "pending_review_branch score_of category origin name created org runs =
     map (\<lambda>r. \<lparr>it_org = rv_org r, it_reference = rv_id r, it_task = rv_task r, it_task_run = rv_task_run r,
               it_data_source = Some (rv_source r), it_category = category, it_type = ''PENDING_REVIEW'', it_source = origin,
               it_label = name, it_confidence = score_of r, it_reason = None, it_created_at = created (rv_id r)\<rparr>)
       (filter (\<lambda>r. rv_org r = org \<and> rv_status r = PendingReview) runs)"

text \<open>Joins are by primary key, written as the rows of the other table that the key selects.\<close>

definition ambiguous_match_decision_branch :: "nat \<Rightarrow> match_run table \<Rightarrow> queued_decision table \<Rightarrow> queue_item list" where
  "ambiguous_match_decision_branch org runs decisions =
     concat (map (\<lambda>d. map (\<lambda>r.
         \<lparr>it_org = sd_org d, it_reference = qd_id d, it_task = rv_task r, it_task_run = rv_task_run r,
          it_data_source = Some (rv_source r), it_category = ''MATCHING'', it_type = ''AMBIGUOUS'', it_source = ''match_decision'',
          it_label = ''Ambiguous Match Decision'', it_confidence = Some (d_confidence (sd_decision d)),
          it_reason = Some (qd_reason d), it_created_at = qd_created_at d\<rparr>)
           (filter (\<lambda>r. rv_id r = sd_run d) runs))
       (filter (\<lambda>d. sd_org d = org \<and> d_label (sd_decision d) = Ambiguous) decisions))"

definition failed_task_run_branch :: "nat \<Rightarrow> db \<Rightarrow> queue_item list" where
  "failed_task_run_branch org d =
     concat (map (\<lambda>r. map (\<lambda>t.
         \<lparr>it_org = tr_org r, it_reference = tr_id r, it_task = tr_task_id r, it_task_run = tr_id r,
          it_data_source = task_source t, it_category = ''SYSTEM'', it_type = ''FAILED'', it_source = ''task_run'',
          it_label = ''Failed Processing Run'', it_confidence = None, it_reason = tr_error_message r,
          it_created_at = tr_created_at r\<rparr>)
           (filter (\<lambda>t. task_id t = tr_task_id r) (tasks d)))
       (filter (\<lambda>r. tr_org r = org \<and> tr_status r = FAILED) (task_runs d)))"

fun failure_code :: "download_failure \<Rightarrow> string" where
  "failure_code HashMismatch = ''hash_mismatch''"
| "failure_code NoSuchFile = ''file_not_found''"
| "failure_code NotARegularFile = ''not_a_regular_file''"
| "failure_code IoError = ''io_error''"
| "failure_code StreamInterrupted = ''stream_interrupted''"

definition artifact_download_failure_branch ::
  "artifact_type \<Rightarrow> (nat \<Rightarrow> time) \<Rightarrow> nat \<Rightarrow> 'a reviewed_run_scheme table \<Rightarrow> download_event list \<Rightarrow> queue_item list"
where
  "artifact_download_failure_branch ty created org runs evs =
     concat (map (\<lambda>e. map (\<lambda>r.
         \<lparr>it_org = dn_org e, it_reference = dn_id e, it_task = rv_task r, it_task_run = rv_task_run r,
          it_data_source = Some (rv_source r), it_category = ''DOWNLOAD'',
          it_type = (if dn_outcome e = IntegrityFailed then ''INTEGRITY_FAILURE'' else ''FAILED''),
          it_source = ''artifact_download_event'',
          it_label = (if dn_outcome e = IntegrityFailed then ''Artifact Integrity Verification Failed'' else ''Artifact Delivery Failed''),
          it_confidence = None, it_reason = map_option failure_code (dn_failure e), it_created_at = created (dn_id e)\<rparr>)
           (filter (\<lambda>r. rv_id r = dn_run e) runs))
       (filter (\<lambda>e. dn_org e = org \<and> dn_type e = ty \<and> dn_outcome e \<in> {IntegrityFailed, FileMissing, StreamFailed}) evs))"

definition build_union :: "queue_tables \<Rightarrow> nat \<Rightarrow> queue_item list" where
  "build_union t org =
     (let s = qt_store t; created = qt_created_at t; download = created ''artifact_download_event'' in
      pending_review_branch (\<lambda>r. Some (cn_confidence r)) ''PROCESSING'' ''cleaning_run'' ''Cleaning Run Awaiting Review''
        (created ''cleaning_run'') org (st_cleaning s)
      @ pending_review_branch (\<lambda>r. Some (sn_confidence r)) ''PROCESSING'' ''standardization_run''
          ''Standardization Run Awaiting Review'' (created ''standardization_run'') org (st_standardization s)
      @ pending_review_branch (\<lambda>r. Some (mn_confidence r)) ''MATCHING'' ''match_run'' ''Match Run Awaiting Review''
          (created ''match_run'') org (st_match s)
      @ pending_review_branch (\<lambda>_. None) ''EXPORT'' ''export_run'' ''Export Run Awaiting Review'' (created ''export_run'') org (st_export s)
      @ ambiguous_match_decision_branch org (st_match s) (qt_decisions t)
      @ failed_task_run_branch org (st_engine s)
      @ artifact_download_failure_branch CleaningArtifact download org (st_cleaning s) (st_download_events s)
      @ artifact_download_failure_branch StandardizationArtifact download org (st_standardization s) (st_download_events s)
      @ artifact_download_failure_branch ExportArtifact download org (st_export s) (st_download_events s))"

section \<open>Search\<close>

text \<open>\<open>LIKE\<close>: \<open>%\<close> is any text, \<open>_\<close> any character, a backslash takes the next character as it is.\<close>

fun like :: "string \<Rightarrow> string \<Rightarrow> bool" where
  "like [] s \<longleftrightarrow> s = []"
| "like (p # ps) [] \<longleftrightarrow> p = CHR ''%'' \<and> like ps []"
| "like (p # ps) (c # s) \<longleftrightarrow>
     (if p = CHR ''%'' then like ps (c # s) \<or> like (p # ps) s
      else if p = CHR ''_'' then like ps (dropWhile py_cont s)
      else if p = CHR 0x5C then (case ps of [] \<Rightarrow> False | q # qs \<Rightarrow> q = c \<and> like qs s)
      else p = c \<and> like ps s)"

definition sql_contains :: "string option \<Rightarrow> string \<Rightarrow> bool" where
  "sql_contains column term = (case column of None \<Rightarrow> False | Some s \<Rightarrow> like (''%'' @ term @ ''%'') (lower s))"

section \<open>Filters, order, page\<close>

record queue_filters =
  qf_category :: "string list option"
  qf_type :: "string list option"
  qf_source :: "string list option"
  qf_search :: "string option"

definition one_of :: "string list option \<Rightarrow> string \<Rightarrow> bool" where
  "one_of choice x = (case choice of None \<Rightarrow> True | Some [] \<Rightarrow> True | Some xs \<Rightarrow> x \<in> set xs)"

definition search_matches :: "queue_tables \<Rightarrow> string \<Rightarrow> queue_item \<Rightarrow> bool" where
  "search_matches t term it =
     (case parse_uuid term of
        Some u \<Rightarrow> it_task it = u \<or> it_reference it = u
      | None \<Rightarrow>
          (let like_term = ''%'' @ lower term @ ''%'' in
           sql_contains (map_option task_name (get_row task_id (it_task it) (tasks (st_engine (qt_store t))))) like_term
           \<or> sql_contains (case it_data_source it of None \<Rightarrow> None | Some d \<Rightarrow> map_option snd (get_row fst d (qt_source_names t)))
               like_term))"

definition apply_filters :: "queue_tables \<Rightarrow> queue_filters \<Rightarrow> queue_item list \<Rightarrow> queue_item list" where
  "apply_filters t f items =
     (let term = (case qf_search f of None \<Rightarrow> [] | Some s \<Rightarrow> strip s) in
      filter (\<lambda>it. one_of (qf_category f) (it_category it) \<and> one_of (qf_type f) (it_type it) \<and> one_of (qf_source f) (it_source it)
                  \<and> (term = [] \<or> search_matches t term it)) items)"

datatype sort_option = ByCreatedAt | ByConfidence

text \<open>Both orders in one type of keys.\<close>

fun order_key :: "sort_option \<Rightarrow> queue_item \<Rightarrow> nat \<times> rat \<times> int \<times> nat" where
  "order_key ByCreatedAt it = (0, 0, it_created_at it, it_reference it)"
| "order_key ByConfidence it =
     (case it_confidence it of None \<Rightarrow> (1, 0, 0, it_reference it) | Some x \<Rightarrow> (0, x, 0, it_reference it))"

record queue_summary =
  sm_total :: nat
  sm_pending :: nat
  sm_ambiguous :: nat
  sm_failed :: nat
  sm_download :: nat

fun count_group :: "(string \<times> string) \<times> nat \<Rightarrow> queue_summary \<Rightarrow> queue_summary" where
  "count_group ((category, ty), n) s =
     s\<lparr>sm_total := sm_total s + n,
       sm_pending := sm_pending s + (if ty = ''PENDING_REVIEW'' then n else 0),
       sm_ambiguous := sm_ambiguous s + (if ty = ''AMBIGUOUS'' then n else 0),
       sm_failed := sm_failed s + (if category = ''SYSTEM'' \<and> ty = ''FAILED'' then n else 0),
       sm_download := sm_download s + (if category = ''DOWNLOAD'' then n else 0)\<rparr>"

record queue_page =
  qp_items :: "queue_item list"
  qp_total :: nat
  qp_summary :: queue_summary

definition queue_page_of :: "queue_item list \<Rightarrow> sort_option \<Rightarrow> nat \<Rightarrow> nat \<Rightarrow> queue_page" where
  "queue_page_of items order limit offset =
     (let summary = fold count_group (tally (map (\<lambda>it. (it_category it, it_type it)) items))
            \<lparr>sm_total = 0, sm_pending = 0, sm_ambiguous = 0, sm_failed = 0, sm_download = 0\<rparr>
      in \<lparr>qp_items = take limit (drop offset (sort_key (order_key order) items)), qp_total = sm_total summary,
          qp_summary = summary\<rparr>)"

definition fetch_review_queue :: "queue_tables \<Rightarrow> nat \<Rightarrow> queue_filters \<Rightarrow> sort_option \<Rightarrow> nat \<Rightarrow> nat \<Rightarrow> queue_page" where
  "fetch_review_queue t org f order limit offset = queue_page_of (apply_filters t f (build_union t org)) order limit offset"

section \<open>The endpoint\<close>

definition REVIEW_CATEGORIES :: "string list" where
  "REVIEW_CATEGORIES = [''PROCESSING'', ''MATCHING'', ''EXPORT'', ''DOWNLOAD'', ''SYSTEM'']"

definition REVIEW_TYPES :: "string list" where
  "REVIEW_TYPES = [''PENDING_REVIEW'', ''FAILED'', ''AMBIGUOUS'', ''INTEGRITY_FAILURE'']"

record queue_request =
  rq_category :: "string list option"
  rq_type :: "string list option"
  rq_source :: "string list option"
  rq_search :: "string option"
  rq_sort :: string
  rq_limit :: int
  rq_offset :: int

definition pagination_ok :: "int \<Rightarrow> int \<Rightarrow> bool" where
  "pagination_ok limit offset \<longleftrightarrow> 1 \<le> limit \<and> limit \<le> 100 \<and> 0 \<le> offset"

definition all_known :: "string list \<Rightarrow> string list option \<Rightarrow> bool" where
  "all_known known choice = (case choice of None \<Rightarrow> True | Some xs \<Rightarrow> list_all (\<lambda>x. x \<in> set known) xs)"

definition nonempty :: "'a list option \<Rightarrow> 'a list option" where
  "nonempty x = (case x of Some (y # ys) \<Rightarrow> Some (y # ys) | _ \<Rightarrow> None)"

definition get_review_queue :: "user \<Rightarrow> queue_request \<Rightarrow> queue_tables \<Rightarrow> http_error + queue_page" where
  "get_review_queue u q t =
     (if \<not> pagination_ok (rq_limit q) (rq_offset q) then Inl Unprocessable
      else if \<not> all_known REVIEW_CATEGORIES (rq_category q) then Inl Unprocessable
      else if \<not> all_known REVIEW_TYPES (rq_type q) then Inl Unprocessable
      else if rq_sort q \<notin> {''created_at'', ''confidence_score''} then Inl Unprocessable
      else Inr (fetch_review_queue t (us_org u)
             \<lparr>qf_category = nonempty (rq_category q), qf_type = nonempty (rq_type q), qf_source = nonempty (rq_source q),
              qf_search = rq_search q\<rparr>
             (if rq_sort q = ''confidence_score'' then ByConfidence else ByCreatedAt)
             (nat (rq_limit q)) (nat (rq_offset q))))"

end
