(* ===== verification/ReviewQueueProps.thy ===== *)
theory ReviewQueueProps
  imports ReviewQueue ReviewProps "HOL-Library.Multiset" "HOL-Library.Product_Lexorder"
begin

text \<open>
  What the review queue promises: pages that fit together, a summary that adds up, a search for
  substrings, and that a decision takes exactly its run out of the queue.
\<close>

section \<open>Counting\<close>

lemma sum_bump_where:
  "sum_list (map snd (filter (\<lambda>x. P (fst x)) (bump k d)))
   = (if P k then 1 else 0) + sum_list (map snd (filter (\<lambda>x. P (fst x)) d))"
  by (induction k d rule: bump.induct) auto

definition counts_of :: "((string \<times> string) \<Rightarrow> bool) \<Rightarrow> ((string \<times> string) \<times> nat) list \<Rightarrow> nat" where
  "counts_of P d = sum_list (map snd (filter (\<lambda>x. P (fst x)) d))"

lemma counts_of_simps [simp]:
  "counts_of P [] = 0" "counts_of P ((k, n) # d) = (if P k then n else 0) + counts_of P d"
  by (simp_all add: counts_of_def)

lemma counts_of_tally: "counts_of P (tally ks) = length (filter P ks)"
  by (induction ks rule: rev_induct) (simp_all add: tally_snoc sum_bump_where counts_of_def)

lemma fold_count_group:
  "fold count_group d s =
     \<lparr>sm_total = sm_total s + counts_of (\<lambda>_. True) d,
      sm_pending = sm_pending s + counts_of (\<lambda>k. snd k = ''PENDING_REVIEW'') d,
      sm_ambiguous = sm_ambiguous s + counts_of (\<lambda>k. snd k = ''AMBIGUOUS'') d,
      sm_failed = sm_failed s + counts_of (\<lambda>k. fst k = ''SYSTEM'' \<and> snd k = ''FAILED'') d,
      sm_download = sm_download s + counts_of (\<lambda>k. fst k = ''DOWNLOAD'') d\<rparr>"
proof (induction d arbitrary: s)
  case (Cons x d)
  obtain c ty n where "x = ((c, ty), n)" by (metis prod.exhaust)
  then show ?case by (simp add: Cons.IH algebra_simps)
qed simp

definition summary_of :: "queue_item list \<Rightarrow> queue_summary" where
  "summary_of items =
     \<lparr>sm_total = length items, sm_pending = length (filter (\<lambda>it. it_type it = ''PENDING_REVIEW'') items),
      sm_ambiguous = length (filter (\<lambda>it. it_type it = ''AMBIGUOUS'') items),
      sm_failed = length (filter (\<lambda>it. it_category it = ''SYSTEM'' \<and> it_type it = ''FAILED'') items),
      sm_download = length (filter (\<lambda>it. it_category it = ''DOWNLOAD'') items)\<rparr>"

lemma queue_page_eq:
  "queue_page_of items order limit offset =
     \<lparr>qp_items = take limit (drop offset (sort_key (order_key order) items)), qp_total = length items, qp_summary = summary_of items\<rparr>"
  unfolding queue_page_of_def Let_def fold_count_group counts_of_tally summary_of_def
  by (simp add: filter_map o_def)

definition KINDS :: "(string \<times> string) list" where
  "KINDS = [(''PROCESSING'', ''PENDING_REVIEW''), (''MATCHING'', ''PENDING_REVIEW''), (''EXPORT'', ''PENDING_REVIEW''),
     (''MATCHING'', ''AMBIGUOUS''), (''SYSTEM'', ''FAILED''), (''DOWNLOAD'', ''INTEGRITY_FAILURE''), (''DOWNLOAD'', ''FAILED'')]"

definition shown :: "nat \<Rightarrow> queue_item \<Rightarrow> bool" where
  "shown org it \<longleftrightarrow> it_org it = org \<and> (it_category it, it_type it) \<in> set KINDS"

lemma shown_branches:
  "c \<in> {''PROCESSING'', ''MATCHING'', ''EXPORT''} \<Longrightarrow> list_all (shown org) (pending_review_branch score c o' n cr org runs)"
  "list_all (shown org) (ambiguous_match_decision_branch org mruns ds)"
  "list_all (shown org) (failed_task_run_branch org d)"
  "list_all (shown org) (artifact_download_failure_branch ty cr org runs evs)"
  by (auto simp: list_all_iff shown_def KINDS_def pending_review_branch_def ambiguous_match_decision_branch_def
      failed_task_run_branch_def artifact_download_failure_branch_def)

lemma in_union: "it \<in> set (build_union t org) \<Longrightarrow> it_org it = org \<and> (it_category it, it_type it) \<in> set KINDS"
proof -
  have "list_all (shown org) (build_union t org)"
    unfolding build_union_def Let_def list_all_append by (intro conjI shown_branches) simp_all
  then show "it \<in> set (build_union t org) \<Longrightarrow> it_org it = org \<and> (it_category it, it_type it) \<in> set KINDS"
    unfolding list_all_iff shown_def by blast
qed

lemma summary_partition:
  assumes "\<And>it. it \<in> set items \<Longrightarrow> (it_category it, it_type it) \<in>
       set KINDS"
  shows "sm_pending (summary_of items) + sm_ambiguous (summary_of items) + sm_failed (summary_of items) + sm_download (summary_of items)
     = sm_total (summary_of items)"
  using assms
proof (induction items)
  case (Cons it items)
  have "(it_category it, it_type it) \<in>
       set KINDS"
    using Cons.prems by simp
  moreover have "sm_pending (summary_of items) + sm_ambiguous (summary_of items) + sm_failed (summary_of items) + sm_download (summary_of items)
     = sm_total (summary_of items)" using Cons by simp
  ultimately show ?case by (auto simp: summary_of_def KINDS_def)
qed (simp add: summary_of_def)

lemma in_filtered: "it \<in> set (apply_filters t f items) \<Longrightarrow> it \<in> set items"
  by (auto simp: apply_filters_def Let_def)

text \<open>A page of the review queue shows only items of the caller's organization, and the summary
  counts what the filters select, on every page alike: the total is the number of selected items,
  and each item is a pending review, an ambiguous match, a failed run or a failed download, never two of them.\<close>
theorem queue_summary_adds_up:
  "list_all (\<lambda>it. it_org it = org) (qp_items (fetch_review_queue t org f order limit offset))
   \<and> qp_total (fetch_review_queue t org f order limit offset) = length (apply_filters t f (build_union t org))
   \<and> qp_summary (fetch_review_queue t org f order limit offset) = summary_of (apply_filters t f (build_union t org))
   \<and> (let m = qp_summary (fetch_review_queue t org f order limit offset)
      in sm_pending m + sm_ambiguous m + sm_failed m + sm_download m = qp_total (fetch_review_queue t org f order limit offset))"
proof -
  let ?items = "apply_filters t f (build_union t org)"
  have "sm_pending (summary_of ?items) + sm_ambiguous (summary_of ?items) + sm_failed (summary_of ?items)
      + sm_download (summary_of ?items) = sm_total (summary_of ?items)"
    by (rule summary_partition) (use in_union in_filtered in blast)
  moreover have "list_all (\<lambda>it. it_org it = org) (take limit (drop offset (sort_key (order_key order) ?items)))"
    unfolding list_all_iff using in_union in_filtered by (metis in_set_dropD in_set_takeD set_sort)
  ultimately show ?thesis by (simp add: fetch_review_queue_def queue_page_eq summary_of_def Let_def)
qed

section \<open>Pages\<close>

lemma order_key_reference: "order_key order a = order_key order b \<Longrightarrow> it_reference a = it_reference b"
  by (cases order) (auto split: option.splits)

lemma order_key_inj: "distinct (map it_reference xs) \<Longrightarrow> inj_on (order_key order) (set xs)"
  by (metis distinct_map inj_on_def order_key_reference)

lemma filter_key_single:
  assumes "inj_on f (set xs)" "distinct xs" "x \<in> set xs"
  shows "filter (\<lambda>y. f x = f y) xs = [x]"
proof -
  have "filter (\<lambda>y. f x = f y) xs = filter (\<lambda>y. y = x) xs"
    by (rule filter_cong) (use assms(1,3) in \<open>auto dest: inj_onD\<close>)
  also have "\<dots> = [x]"
    using assms(2,3) by (induction xs) (auto simp: filter_empty_conv)
  finally show ?thesis .
qed

lemma sort_key_mset:
  assumes "mset xs = mset ys" "inj_on f (set xs)" "distinct xs"
  shows "sort_key f xs = sort_key f ys"
proof (rule properties_for_sort_key)
  show "mset (sort_key f ys) = mset xs" using assms(1) by simp
  have s: "set ys = set xs" "distinct ys" using assms(1,3) mset_eq_setD mset_eq_imp_distinct_iff by metis+
  show "filter (\<lambda>x. f k = f x) (sort_key f ys) = filter (\<lambda>x. f k = f x) xs" if "k \<in> set (sort_key f ys)" for k
    using that s assms(2,3) filter_key_single[of f "sort_key f ys" k] filter_key_single[of f xs k] by simp
  show "sorted (map f (sort_key f ys))" by simp
qed

lemma concat_pages: "concat (map (\<lambda>k. take n (drop (k * n) xs)) [0..<m]) = take (m * n) xs"
proof (induction m)
  case (Suc m)
  have "take (Suc m * n) xs = take (m * n) xs @ take n (drop (m * n) xs)"
    by (simp only: mult_Suc add.commute[of n] take_add)
  with Suc show ?case by (simp del: mult_Suc)
qed simp

lemma summary_of_mset: "mset xs = mset ys \<Longrightarrow> summary_of xs = summary_of ys"
  unfolding summary_of_def by (simp flip: size_mset add: mset_filter)

text \<open>C26: The pages of a query fit together: in whatever order the database enumerates the selected items, the
  same request gets the same page, since ties are broken by the identifier; and the pages at offsets
  0, n, 2n, \<dots> are, one after the other, the selected items in the chosen order, each exactly once.\<close>
theorem queue_pages_fit_together:
  assumes "mset items = mset (apply_filters t f (build_union t org))" "distinct (map it_reference items)"
    and "qp_total (fetch_review_queue t org f order n 0) \<le> m * n"
  shows "queue_page_of items order n offset = fetch_review_queue t org f order n offset
    \<and> mset (concat (map (\<lambda>k. qp_items (fetch_review_queue t org f order n (k * n))) [0..<m])) = mset items
    \<and> sorted (map (order_key order) (concat (map (\<lambda>k. qp_items (fetch_review_queue t org f order n (k * n))) [0..<m])))"
proof -
  let ?sel = "apply_filters t f (build_union t org)"
  have p: "concat (map (\<lambda>k. qp_items (fetch_review_queue t org f order n (k * n))) [0..<m]) = sort_key (order_key order) ?sel"
    using assms(3) by (simp add: fetch_review_queue_def queue_page_eq concat_pages)
  have d: "distinct items" using assms(2) by (simp add: distinct_map)
  have "length items = length ?sel" using assms(1) by (metis size_mset)
  then show ?thesis
    using sort_key_mset[OF assms(1) order_key_inj[OF assms(2)] d] summary_of_mset[OF assms(1)] assms(1)
    unfolding p by (simp add: fetch_review_queue_def queue_page_eq)
qed

section \<open>Search\<close>

lemma like_percent: "like (CHR ''%'' # ps) s \<longleftrightarrow> (\<exists>u v. s = u @ v \<and> like ps v)"
proof (induction s)
  case (Cons c s)
  have "(\<exists>u v. c # s = u @ v \<and> like ps v) \<longleftrightarrow> like ps (c # s) \<or> (\<exists>u v. s = u @ v \<and> like ps v)"
    by (metis append_Cons append_Nil append_eq_Cons_conv)
  then show ?case using Cons.IH by simp
qed simp

definition wildcard :: "char \<Rightarrow> bool" where
  "wildcard c \<longleftrightarrow> c = CHR ''%'' \<or> c = CHR ''_'' \<or> c = CHR 0x5C"

lemma like_literal:
  "list_all (\<lambda>c. \<not> wildcard c) w \<Longrightarrow> like (w @ ps) s \<longleftrightarrow> (\<exists>v. s = w @ v \<and> like ps v)"
proof (induction w arbitrary: s)
  case (Cons p w)
  then show ?case by (cases s) (auto simp: wildcard_def)
qed simp

lemma like_end: "like ''%'' s"
  by (simp add: like_percent)

lemma like_ends: "like ''%%'' s"
  by (auto simp: like_percent intro: exI[of _ "[]"])

lemma sql_contains_literal:
  assumes "list_all (\<lambda>c. \<not> wildcard c) w"
  shows "sql_contains (Some s) (''%'' @ w @ ''%'') \<longleftrightarrow> (\<exists>u v. lower s = u @ w @ v)"
proof -
  have "like (CHR ''%'' # CHR ''%'' # w @ ''%%'') x \<longleftrightarrow> (\<exists>u v. x = u @ w @ v)" for x
    by (auto simp: like_percent like_literal[OF assms] like_ends) (metis append.assoc append_Nil)+
  then show ?thesis by (simp add: sql_contains_def)
qed

section \<open>Decisions\<close>

lemma pending_commit:
  assumes "keyed rv_id runs" "r \<in> set runs" "rv_status r = required_status tr"
  shows "mset (pending_review_branch score c o' n cr org runs) =
      mset (pending_review_branch score c o' n cr org (commit_transition tr u now (rv_id r) runs))
      + (if tr \<noteq> RollBack \<and> org = rv_org r then mset (pending_review_branch score c o' n cr org [r]) else {#})"
proof -
  obtain xs ys where e: "runs = xs @ r # ys" using split_list[OF assms(2)] by blast
  have n: "rv_id x \<noteq> rv_id r" if "x \<in> set (xs @ ys)" for x using assms(1) that by (auto simp: e) (metis image_eqI)+
  have same: "update_where (\<lambda>x. rv_id x = rv_id r) (decide_columns tr u now) zs = zs" if "set zs \<subseteq> set (xs @ ys)" for zs
    unfolding update_where_def by (rule map_idI) (use that n in auto)
  have c: "commit_transition tr u now (rv_id r) runs = xs @ decide_columns tr u now r # ys"
    using same[of xs] same[of ys] by (simp add: e commit_transition_def update_where_def)
  have "rv_status (decide_columns tr u now r) \<noteq> PendingReview" by (cases tr) simp_all
  moreover have "rv_status r = PendingReview \<longleftrightarrow> tr \<noteq> RollBack" using assms(3) by (cases tr) simp_all
  ultimately show ?thesis
    unfolding c unfolding e pending_review_branch_def by simp
qed

lemma commit_keeps_joins:
  "map (\<lambda>r. (rv_id r, rv_task r, rv_task_run r, rv_source r)) (commit_transition tr u now i runs)
   = map (\<lambda>r. (rv_id r, rv_task r, rv_task_run r, rv_source r)) runs"
  unfolding commit_transition_def by (rule map_update_where) (cases tr; simp)

text \<open>What the joined branches read of a run.\<close>

lemma join_same:
  fixes f :: "'a reviewed_run_scheme \<Rightarrow> 'b"
  defines "sig \<equiv> \<lambda>r :: 'a reviewed_run_scheme. (rv_id r, rv_task r, rv_task_run r, rv_source r)"
  assumes "map sig runs' = map sig runs" "\<And>x y. sig x = sig y \<Longrightarrow> f x = f y"
  shows "map f (filter (\<lambda>r. rv_id r = k) runs') = map f (filter (\<lambda>r. rv_id r = k) runs)"
  using assms(2)
proof (induction runs arbitrary: runs')
  case (Cons r runs)
  then obtain r' rs where "runs' = r' # rs" "sig r' = sig r" "map sig rs = map sig runs" by (cases runs') auto
  then show ?case using Cons.IH[of rs] assms(3)[of r' r] by (simp add: sig_def)
qed simp

lemma joined_branches_same [simp]:
  "artifact_download_failure_branch ty cr org (commit_transition tr u now i runs) evs = artifact_download_failure_branch ty cr org runs evs"
  "ambiguous_match_decision_branch org (commit_transition tr u now i mruns) ds = ambiguous_match_decision_branch org mruns ds"
  unfolding artifact_download_failure_branch_def ambiguous_match_decision_branch_def
  by (rule arg_cong[of _ _ concat], rule map_cong[OF refl], rule join_same[OF commit_keeps_joins], simp)+

section \<open>Decisions and the queue\<close>

abbreviation queue_of :: "queue_tables \<Rightarrow> store \<Rightarrow> nat \<Rightarrow> queue_item list" where
  "queue_of t s org \<equiv> build_union (t\<lparr>qt_store := s\<rparr>) org"

text \<open>What a decision on a task run takes out of a queue: the item of that run, if any.\<close>

definition takes_out :: "nat \<Rightarrow> bool \<Rightarrow> queue_item list \<Rightarrow> queue_item list \<Rightarrow> bool" where
  "takes_out rid gone old new \<longleftrightarrow>
     (\<exists>items. mset old = mset new + mset items \<and> length items = (if gone then 1 else 0)
        \<and> list_all (\<lambda>it. it_task_run it = rid \<and> it_type it = ''PENDING_REVIEW'') items)"

lemma takes_out_append:
  "takes_out rid gone xs ys \<Longrightarrow> takes_out rid gone (us @ xs) (us @ ys)"
  "takes_out rid gone xs ys \<Longrightarrow> takes_out rid gone (xs @ us) (ys @ us)"
  by (auto simp: takes_out_def ac_simps)

lemma pending_takes_out:
  assumes "keyed rv_id runs" "r \<in> set runs" "rv_status r = required_status tr"
  shows "takes_out (rv_task_run r) (tr \<noteq> RollBack \<and> org = rv_org r) (pending_review_branch score c o' n cr org runs)
    (pending_review_branch score c o' n cr org (commit_transition tr u now (rv_id r) runs))"
proof -
  define items where "items = (if tr \<noteq> RollBack \<and> org = rv_org r then pending_review_branch score c o' n cr org [r] else [])"
  have "length items = (if tr \<noteq> RollBack \<and> org = rv_org r then 1 else 0)"
    "list_all (\<lambda>it. it_task_run it = rv_task_run r \<and> it_type it = ''PENDING_REVIEW'') items"
    using assms(3) by (cases tr; simp add: items_def pending_review_branch_def)+
  moreover have "mset (pending_review_branch score c o' n cr org runs) =
      mset (pending_review_branch score c o' n cr org (commit_transition tr u now (rv_id r) runs)) + mset items"
    using pending_commit[OF assms, of score c o' n cr org u now] by (simp add: items_def split: if_splits)
  ultimately show ?thesis unfolding takes_out_def by blast
qed

lemma union_takes_out:
  "keyed rv_id (st_cleaning s) \<Longrightarrow> rcleaning \<in> set (st_cleaning s) \<Longrightarrow> rv_status rcleaning = required_status tr \<Longrightarrow>
      takes_out (rv_task_run rcleaning) (tr \<noteq> RollBack \<and> org = rv_org rcleaning) (queue_of t s org)
        (queue_of t (s\<lparr>st_cleaning := commit_transition tr u now (rv_id rcleaning) (st_cleaning s)\<rparr>) org)"
  "keyed rv_id (st_standardization s) \<Longrightarrow> rstandardization \<in> set (st_standardization s) \<Longrightarrow> rv_status rstandardization = required_status tr \<Longrightarrow>
      takes_out (rv_task_run rstandardization) (tr \<noteq> RollBack \<and> org = rv_org rstandardization) (queue_of t s org)
        (queue_of t (s\<lparr>st_standardization := commit_transition tr u now (rv_id rstandardization) (st_standardization s)\<rparr>) org)"
  "keyed rv_id (st_match s) \<Longrightarrow> rmatch \<in> set (st_match s) \<Longrightarrow> rv_status rmatch = required_status tr \<Longrightarrow>
      takes_out (rv_task_run rmatch) (tr \<noteq> RollBack \<and> org = rv_org rmatch) (queue_of t s org)
        (queue_of t (s\<lparr>st_match := commit_transition tr u now (rv_id rmatch) (st_match s)\<rparr>) org)"
  "keyed rv_id (st_export s) \<Longrightarrow> rexport \<in> set (st_export s) \<Longrightarrow> rv_status rexport = required_status tr \<Longrightarrow>
      takes_out (rv_task_run rexport) (tr \<noteq> RollBack \<and> org = rv_org rexport) (queue_of t s org)
        (queue_of t (s\<lparr>st_export := commit_transition tr u now (rv_id rexport) (st_export s)\<rparr>) org)"
  unfolding build_union_def Let_def by (simp_all add: takes_out_append pending_takes_out)

lemma decide_Inr:
  "decide_cleaning tr tid rid u now s = Inr s' \<Longrightarrow> \<exists>r \<in> set (st_cleaning s). rv_status r = required_status tr \<and> rv_org r = us_org u
     \<and> rv_task_run r = rid \<and> s' = s\<lparr>st_cleaning := commit_transition tr u now (rv_id r) (st_cleaning s)\<rparr>"
  "decide_standardization tr tid rid u now s = Inr s' \<Longrightarrow> \<exists>r \<in> set (st_standardization s). rv_status r = required_status tr
     \<and> rv_org r = us_org u \<and> rv_task_run r = rid
     \<and> s' = s\<lparr>st_standardization := commit_transition tr u now (rv_id r) (st_standardization s)\<rparr>"
  "decide_match tr tid rid u now s = Inr s' \<Longrightarrow> \<exists>r \<in> set (st_match s). rv_status r = required_status tr \<and> rv_org r = us_org u
     \<and> rv_task_run r = rid \<and> s' = s\<lparr>st_match := commit_transition tr u now (rv_id r) (st_match s)\<rparr>"
  "decide_export tr tid rid u now s = Inr s' \<Longrightarrow> \<exists>r \<in> set (st_export s). rv_status r = required_status tr \<and> rv_org r = us_org u
     \<and> rv_task_run r = rid \<and> s' = s\<lparr>st_export := commit_transition tr u now (rv_id r) (st_export s)\<rparr>"
  by (auto simp: decide_defs split: sum.splits if_splits dest!: get_reviewed_run_Inr)

text \<open>C15: A decision takes exactly its run out of the queue: after a request approves or rejects a run of any
  of the four kinds, the queue of that organization is what it was without the one pending item of that task run, and
  the queue of every other organization is unchanged; a roll back changes no queue.  In
  particular the ambiguous matches of a decided match run stay.\<close>
theorem decision_takes_run_out_of_queue:
  assumes "store_ok s"
    and "decide_cleaning tr tid rid u now s = Inr s' \<or> decide_standardization tr tid rid u now s = Inr s'
      \<or> decide_match tr tid rid u now s = Inr s' \<or> decide_export tr tid rid u now s = Inr s'"
  shows "takes_out rid (tr \<noteq> RollBack \<and> org = us_org u) (queue_of t s org) (queue_of t s' org)"
proof -
  have k: "keyed rv_id (st_cleaning s)" "keyed rv_id (st_standardization s)" "keyed rv_id (st_match s)" "keyed rv_id (st_export s)"
    using assms(1) by (simp_all add: store_ok_def runs_ok_def)
  show ?thesis
    using assms(2)
  proof (elim disjE)
    assume "decide_cleaning tr tid rid u now s = Inr s'"
    then show ?thesis using decide_Inr(1) union_takes_out(1)[OF k(1)] by metis
  next
    assume "decide_standardization tr tid rid u now s = Inr s'"
    then show ?thesis using decide_Inr(2) union_takes_out(2)[OF k(2)] by metis
  next
    assume "decide_match tr tid rid u now s = Inr s'"
    then show ?thesis using decide_Inr(3) union_takes_out(3)[OF k(3)] by metis
  next
    assume "decide_export tr tid rid u now s = Inr s'"
    then show ?thesis using decide_Inr(4) union_takes_out(4)[OF k(4)] by metis
  qed
qed

section \<open>A sample queue\<close>

definition sample_queue :: queue_tables where
  "sample_queue = \<lparr>qt_store = review_store, qt_decisions = [], qt_created_at = (\<lambda>_ _. 5), qt_source_names = [(3, ''Q1_2024''), (4, ''Q1-2024'')]\<rparr>"

definition no_filters :: queue_filters where
  "no_filters = \<lparr>qf_category = None, qf_type = None, qf_source = None, qf_search = None\<rparr>"

lemma store_ok_review: "store_ok review_store"
  by (simp add: store_ok_def runs_ok_def review_ok_def review_store_def sample_cleaning_run_def)

lemma sample_decision:
  "decide_cleaning Approve 1 2 sample_user 11 review_store
   = Inr (review_store\<lparr>st_cleaning := [decide_columns Approve sample_user 11 sample_cleaning_run]\<rparr>)"
  by code_simp

lemma decision_takes_run_out_of_queue_witness:
  "takes_out 2 True (queue_of sample_queue review_store (us_org sample_user))
     (queue_of sample_queue (review_store\<lparr>st_cleaning := [decide_columns Approve sample_user 11 sample_cleaning_run]\<rparr>) (us_org sample_user))"
  using decision_takes_run_out_of_queue[OF store_ok_review disjI1[OF sample_decision], of "us_org sample_user" sample_queue]
  by simp

lemma queue_pages_fit_together_witness:
  "mset (concat (map (\<lambda>k. qp_items (fetch_review_queue sample_queue 0 no_filters ByConfidence 1 (k * 1))) [0..<1]))
   = mset (build_union sample_queue 0)"
proof -
  have e: "apply_filters sample_queue no_filters (build_union sample_queue 0) = build_union sample_queue 0" by code_simp
  have d: "distinct (map it_reference (build_union sample_queue 0))" by code_simp
  have l: "qp_total (fetch_review_queue sample_queue 0 no_filters ByConfidence 1 0) \<le> 1 * 1" by code_simp
  show ?thesis
    using queue_pages_fit_together[of "build_union sample_queue 0" sample_queue no_filters 0 ByConfidence 1 1 0, unfolded e, OF refl d l]
    by blast
qed

text \<open>The search for names is a search for a substring, ignoring case, as long as the term has no percent sign, underscore
  or backslash and is no UUID: an item is selected exactly when the name of its task or of its data
  source contains the term.  With an underscore it is not: the search for \<open>Q1_2024\<close> also finds \<open>Q1-2024\<close>.\<close>
theorem search_finds_substrings:
  assumes "parse_uuid w = None" "list_all (\<lambda>c. \<not> wildcard c) (lower w)"
  shows "(search_matches t w it \<longleftrightarrow>
      (\<exists>task u v. get_row task_id (it_task it) (tasks (st_engine (qt_store t))) = Some task \<and> lower (task_name task) = u @ lower w @ v)
      \<or> (\<exists>d row u v. it_data_source it = Some d \<and> get_row fst d (qt_source_names t) = Some row \<and> lower (snd row) = u @ lower w @ v))
    \<and> sql_contains (Some ''Q1-2024'') (''%'' @ lower ''Q1_2024'' @ ''%'')"
proof
  have none: "sql_contains None x = False" for x by (simp add: sql_contains_def)
  show "search_matches t w it \<longleftrightarrow>
      (\<exists>task u v. get_row task_id (it_task it) (tasks (st_engine (qt_store t))) = Some task \<and> lower (task_name task) = u @ lower w @ v)
      \<or> (\<exists>d row u v. it_data_source it = Some d \<and> get_row fst d (qt_source_names t) = Some row \<and> lower (snd row) = u @ lower w @ v)"
    unfolding search_matches_def assms(1) Let_def option.case
    by (cases "get_row task_id (it_task it) (tasks (st_engine (qt_store t)))"; cases "it_data_source it";
        cases "get_row fst (the (it_data_source it)) (qt_source_names t)")
      (simp_all add: none sql_contains_literal[OF assms(2), simplified] del: split_paired_Ex)
  show "sql_contains (Some ''Q1-2024'') (''%'' @ lower ''Q1_2024'' @ ''%'')" by code_simp
qed

lemma search_finds_substrings_witness:
  "\<not> (\<exists>d row u v. it_data_source (hd (build_union sample_queue 0)) = Some d \<and> get_row fst d (qt_source_names sample_queue) = Some row
       \<and> lower (snd row) = u @ lower ''Zzz'' @ v)"
proof -
  have "parse_uuid ''Zzz'' = None" "list_all (\<lambda>c. \<not> wildcard c) (lower ''Zzz'')" by code_simp+
  note s = search_finds_substrings[OF this, of sample_queue "hd (build_union sample_queue 0)"]
  have "\<not> search_matches sample_queue ''Zzz'' (hd (build_union sample_queue 0))" by code_simp
  then show ?thesis using s by blast
qed

end
