(* ===== verification/ProfilingProps.thy ===== *)
theory ProfilingProps
  imports Profiling
begin

text \<open>
  What a profile says of its file: the type of a column is the type of four fifths of its values, and
  the numbers of a profile fit together and count what they are named after.
\<close>

section \<open>The type of a column\<close>

lemma count_two:
  "a \<noteq> b \<Longrightarrow> count_list ks a + count_list ks b \<le> length ks"
  by (induction ks) auto

lemma fl_half: "x \<le> 1 / 2 \<Longrightarrow> fl x < fl (8 / 10)"
proof -
  assume "x \<le> 1 / 2"
  then have "fl x \<le> fl (1 / 2)" by (rule fl_mono)
  moreover have "fl (1 / 2) < fl (8 / 10)" by code_simp
  ultimately show ?thesis by simp
qed

lemma share_small:
  assumes "2 * c \<le> n" "0 < n"
  shows "fl (of_nat c / of_nat n) < fl (8 / 10)"
proof (rule fl_half)
  have "of_nat (2 * c) \<le> (of_nat n :: rat)" using assms(1) by (rule of_nat_mono)
  then show "of_nat c / of_nat n \<le> (1 / 2 :: rat)" using assms(2) by (simp add: divide_le_eq)
qed

text \<open>The first of the ranking has the greatest count; the second, if it has the same, is another type.\<close>

lemma ranking_head:
  assumes "sort_key (\<lambda>(ty, n). (- int n, priority ty)) (tally ks) = (d, c) # rest"
  shows "c = count_list ks d" "d \<in> set ks" "\<And>t. count_list ks t \<le> c"
    "\<And>t n others. rest = (t, n) # others \<Longrightarrow> t \<noteq> d \<and> n = count_list ks t"
proof -
  let ?f = "\<lambda>(ty :: string, n). (- int n, priority ty)"
  have s: "set (tally ks) = set ((d, c) # rest)" using assms set_sort[of ?f "tally ks"] by simp
  have mem: "n = count_list ks t \<and> t \<in> set ks" if "(t, n) \<in> set (tally ks)" for t n
  proof -
    have "map_of (tally ks) t = Some n" using that by (simp add: distinct_tally)
    then have "tally_get t (tally ks) = n" by (simp add: tally_get_def)
    moreover have "t \<in> fst ` set (tally ks)" using that by force
    ultimately show ?thesis by (simp add: tally_get_tally keys_tally)
  qed
  show "c = count_list ks d" "d \<in> set ks" using mem[of d c] s by auto
  have sorted: "sorted (map ?f ((d, c) # rest))" using assms sorted_sort_key[of ?f "tally ks"] by simp
  have top: "n \<le> c" if "(t, n) \<in> set (tally ks)" for t n
  proof -
    have "(t, n) = (d, c) \<or> (t, n) \<in> set rest" using that s by auto
    then show ?thesis
    proof
      assume "(t, n) \<in> set rest"
      then have "?f (d, c) \<le> ?f (t, n)" using sorted by fastforce
      then show ?thesis by (auto simp: less_eq_prod_def)
    qed simp
  qed
  show "count_list ks t \<le> c" for t
  proof (cases "t \<in> set ks")
    case True
    then obtain n where n: "(t, n) \<in> set (tally ks)" using keys_tally[of ks] by force
    then show ?thesis using top[OF n] mem[OF n] by simp
  next
    case False
    then show ?thesis by (simp add: count_list_0_iff)
  qed
  have "distinct (map fst (sort_key ?f (tally ks)))"
    using distinct_tally[of ks] by (simp add: distinct_map inj_on_def) 
  then have "distinct (map fst ((d, c) # rest))" unfolding assms .
  then show "t \<noteq> d \<and> n = count_list ks t" if "rest = (t, n) # others" for t n others
    using that mem[of t n] s by auto
qed

lemma dominant_share:
  assumes "ks \<noteq> []" "ty \<noteq> ''mixed''" "ty \<noteq> ''null''"
  shows "fst (dominant_type (tally ks)) = ty \<longleftrightarrow> fl (8 / 10) \<le> fl (of_nat (count_list ks ty) / of_nat (length ks))"
proof -
  let ?l = "sort_key (\<lambda>(ty, n). (- int n, priority ty)) (tally ks)"
  have "fst ` set (tally ks) \<noteq> {}" unfolding keys_tally using assms(1) by simp
  then have "?l \<noteq> []" by (metis image_is_empty set_empty set_sort)
  then obtain d c rest where l: "?l = (d, c) # rest" by (metis list.exhaust prod.exhaust)
  note head = ranking_head[OF l]
  have n: "0 < length ks" using assms(1) by simp
  have ty: "?thesis" if big: "fl (of_nat c / of_nat (length ks)) < fl (8 / 10)"
  proof -
    have "of_nat (count_list ks ty) / of_nat (length ks) \<le> (of_nat c / of_nat (length ks) :: rat)"
      using head(3)[of ty] by (simp add: divide_right_mono)
    then have "fl (of_nat (count_list ks ty) / of_nat (length ks)) < fl (8 / 10)"
      using big fl_mono by (meson le_less_trans)
    moreover have "fst (dominant_type (tally ks)) = ''mixed''"
      using l big by (simp add: dominant_type_def Let_def sum_tally)
    ultimately show ?thesis using assms(2) by simp
  qed
  show ?thesis
  proof (cases "fl (of_nat c / of_nat (length ks)) < fl (8 / 10)")
    case True
    then show ?thesis by (rule ty)
  next
    case False
    have untied: "n \<noteq> c" if "rest = (t, n) # others" for t n others
    proof
      assume "n = c"
      then have "2 * c \<le> length ks" using head(1) head(4)[OF that] count_two[of t d ks] by simp
      then show False using share_small[OF _ n] False by blast
    qed
    have "fst (dominant_type (tally ks)) = d"
      using l False untied by (cases rest) (auto simp: dominant_type_def Let_def sum_tally)
    moreover have "fl (8 / 10) \<le> fl (of_nat (count_list ks ty) / of_nat (length ks)) \<longleftrightarrow> ty = d"
    proof
      assume share: "fl (8 / 10) \<le> fl (of_nat (count_list ks ty) / of_nat (length ks))"
      show "ty = d"
      proof (rule ccontr)
        assume "ty \<noteq> d"
        then have "2 * count_list ks ty \<le> length ks" using count_two[of ty d ks] head(1) head(3)[of ty] by simp
        then show False using share share_small[OF _ n] by (meson leD)
      qed
    qed (use False head(1) in simp)
    ultimately show ?thesis by auto
  qed
qed

lemma value_type_names: "strip v \<noteq> [] \<Longrightarrow> value_type env v \<in> set TYPE_PRIORITY"
  by (simp add: value_type_def TYPE_PRIORITY_def Let_def)

definition values_in :: "string list list \<Rightarrow> nat \<Rightarrow> string list" where
  "values_in rows j = filter (\<lambda>v. v \<noteq> []) (column_values rows j)"

text \<open>C18: The type a profile reports for a column with values is a type exactly when at least four fifths
  of its non-blank values have that type, up to the rounding of the quotient; otherwise the column
  is mixed.  No tie and no priority among types decides it.\<close>

theorem column_type_is_four_fifths:
  assumes "j < length hs" "values_in rows j \<noteq> []" "ty \<in> set TYPE_PRIORITY"
  shows "cp_inferred_type (pr_columns (profile_csv env limits hs rows issues) ! j) = ty \<longleftrightarrow>
     fl (8 / 10) \<le> fl (of_nat (length (filter (\<lambda>v. value_type env v = ty) (values_in rows j))) / of_nat (length (values_in rows j)))"
proof -
  have "count_list (map (value_type env) vs) ty = length (filter (\<lambda>v. value_type env v = ty) vs)" for vs
    by (induction vs) auto
  moreover have "ty \<noteq> ''mixed''" "ty \<noteq> ''null''" using assms(3) by (auto simp: TYPE_PRIORITY_def)
  ultimately show ?thesis
    using dominant_share[of "map (value_type env) (values_in rows j)" ty] assms(1,2)
    by (simp add: profile_csv_def Let_def profile_column_def values_in_def nth_enum)
qed

lemma column_type_is_four_fifths_witness:
  "cp_inferred_type (pr_columns (profile_csv no_oracles \<lparr>max_file_size_bytes = 9, max_rows = 9, max_columns = 9,
      max_cell_length = 9, max_distinct_values = 9, max_sample_values = 9\<rparr> [''a''] [[''1''], [''7'']] []) ! 0) = ''integer''"
proof -
  let ?rows = "[[''1''], [''7'']]" and ?limits = "\<lparr>max_file_size_bytes = 9, max_rows = 9, max_columns = 9,
      max_cell_length = 9, max_distinct_values = 9, max_sample_values = 9\<rparr>"
  have a: "0 < length [''a'']" "values_in ?rows 0 \<noteq> []" "''integer'' \<in> set TYPE_PRIORITY" by code_simp+
  have "fl (8 / 10) \<le> fl (of_nat (length (filter (\<lambda>v. value_type no_oracles v = ''integer'') (values_in ?rows 0)))
      / of_nat (length (values_in ?rows 0)))" by code_simp
  then show ?thesis using column_type_is_four_fifths[OF a, of no_oracles ?limits "[]"] by simp
qed

section \<open>Bounded lists\<close>

lemma bounded_unique_loop:
  assumes "distinct acc" "set acc \<subseteq> set us" 
  shows "distinct (bounded_unique_loop k acc vs) \<and> set acc \<subseteq> set (bounded_unique_loop k acc vs)
    \<and> set (bounded_unique_loop k acc vs) \<subseteq> set acc \<union> set vs
    \<and> (length acc < max 1 k \<longrightarrow> length (bounded_unique_loop k acc vs) \<le> max 1 k)
    \<and> (set (bounded_unique_loop k acc vs) = set acc \<union> set vs \<or> k \<le> length (bounded_unique_loop k acc vs))"
  using assms(1)
proof (induction k acc vs rule: bounded_unique_loop.induct)
  case (2 k acc v vs)
  then show ?case by (cases "v \<in> set acc"; cases "k \<le> length (acc @ [v])") auto
qed auto

lemma bounded_unique_facts:
  "distinct (bounded_unique vs k)" "set (bounded_unique vs k) \<subseteq> set vs" "length (bounded_unique vs k) \<le> max 1 k"
  "set (bounded_unique vs k) = set vs \<or> k \<le> length (bounded_unique vs k)"
  using bounded_unique_loop[of "[]" "[]" k vs] by (auto simp: bounded_unique_def)

section \<open>The numbers of a profile\<close>

lemma missing_percentage_bounds:
  assumes "m \<le> n"
  shows "0 \<le> missing_percentage m n \<and> missing_percentage m n \<le> 100"
proof (cases "n = 0")
  case False
  define q :: rat where "q = of_nat m / of_nat n"
  have "0 \<le> q" "q \<le> 1" using assms False by (simp_all add: q_def divide_le_eq)
  then have "0 \<le> fl q" "fl q \<le> 1" using fl_unit[of q] by auto
  define x where "x = fl (fl q * 100)"
  have x0: "0 \<le> x" unfolding x_def using \<open>0 \<le> fl q\<close> by (simp add: fl_nonneg)
  have "x \<le> fl 100" unfolding x_def using \<open>fl q \<le> 1\<close> by (intro fl_mono) simp
  moreover have f100: "fl 100 = 100" by code_simp
  ultimately have x1: "x \<le> 100" by simp
  define r where "r = round_even (x * 10 ^ 4)"
  have "0 \<le> r" unfolding r_def using round_even_mono[of 0 "x * 10 ^ 4"] round_even_of_int[of 0] x0 by simp
  moreover have "r \<le> 1000000"
    unfolding r_def using round_even_mono[of "x * 10 ^ 4" "of_int 1000000"] round_even_of_int[of 1000000] x1 by simp
  then have "of_int r \<le> (of_int 1000000 :: rat)" by (simp only: of_int_le_iff)
  then have "of_int r / 10 ^ 4 \<le> (100 :: rat)" by (simp add: divide_le_eq)
  then have "fl (of_int r / 10 ^ 4) \<le> 100" using fl_mono[of _ 100] f100 by fastforce
  ultimately show ?thesis
    using False by (simp add: missing_percentage_def py_round_def r_def x_def q_def fl_nonneg)
qed (simp add: missing_percentage_def)

lemma inconsistent_count_le: "inconsistent_count (tally ks) (length ks) \<le> length ks"
proof -
  have "sum_list (map snd (filter P (tally ks))) \<le> sum_list (map snd (tally ks))" for P
    by (induction "tally ks" rule: list.induct) (auto simp: sum_list_filter_le_nat)
  then have "sum_list (map snd (filter P (tally ks))) \<le> length ks" for P by (simp add: sum_tally)
  then show ?thesis by (auto simp: inconsistent_count_def split: prod.splits option.splits)
qed

definition column_ok :: "csv_limits \<Rightarrow> string list list \<Rightarrow> nat \<Rightarrow> string \<Rightarrow> column_profile \<Rightarrow> bool" where
  "column_ok limits rows j name c \<longleftrightarrow>
     cp_name c = name \<and> cp_position c = j
     \<and> cp_missing c = length (filter (\<lambda>row. strip (row ! j) = []) rows)
     \<and> cp_non_null c + cp_missing c = length rows
     \<and> 0 \<le> cp_missing_percentage c \<and> cp_missing_percentage c \<le> 100
     \<and> sum_list (map snd (cp_type_counts c)) = cp_non_null c
     \<and> cp_distinct c = card (set (values_in rows j)) \<and> cp_distinct c \<le> cp_non_null c
     \<and> distinct (cp_samples c) \<and> set (cp_samples c) \<subseteq> set (values_in rows j)
     \<and> length (cp_samples c) \<le> max 1 (max_sample_values limits)
     \<and> distinct (cp_retained c) \<and> length (cp_retained c) \<le> max 1 (max_distinct_values limits)
     \<and> (cp_truncated c \<longleftrightarrow> set (cp_retained c) \<subset> set (values_in rows j))
     \<and> cp_inconsistent c \<le> cp_non_null c"

lemma filter_complement: "length (filter P xs) + length (filter (\<lambda>x. \<not> P x) xs) = length xs"
  by (induction xs) auto

lemma values_in_length: "length (values_in rows j) + length (filter (\<lambda>row. strip (row ! j) = []) rows) = length rows"
  by (induction rows) (auto simp: values_in_def column_values_def)

lemma sum_insort: "sum_list (map snd (insort_key k x xs)) = snd x + sum_list (map snd xs)"
  for xs :: "'k tally"
  by (induction xs) auto

lemma sum_sort_key: "sum_list (map snd (sort_key k xs)) = sum_list (map snd xs)"
  for xs :: "'k tally"
  by (induction xs) (auto simp: sum_insort)

lemma profile_column_ok: "column_ok limits rows j name (profile_column env limits rows (j, name))"
proof -
  let ?v = "values_in rows j"
  have len: "length ?v \<le> length rows" using values_in_length[of rows j] by simp
  have inc: "inconsistent_count (tally (map (value_type env) ?v)) (length ?v) \<le> length ?v"
    using inconsistent_count_le[of "map (value_type env) ?v"] by simp
  have trunc: "length (bounded_unique ?v k) < card (set ?v) \<longleftrightarrow> set (bounded_unique ?v k) \<subset> set ?v" for k
  proof -
    have "length (bounded_unique ?v k) = card (set (bounded_unique ?v k))"
      using bounded_unique_facts(1) by (simp add: distinct_card)
    then show ?thesis
      using bounded_unique_facts(2)[of ?v k] by (metis List.finite_set less_le_not_le psubset_card_mono psubset_eq subset_not_subset_eq)
  qed
  show ?thesis
    using len values_in_length[of rows j] missing_percentage_bounds[of "length rows - length ?v" "length rows"] inc trunc
      bounded_unique_facts[of ?v]
    by (simp add: column_ok_def profile_column_def Let_def values_in_def[symmetric] sum_sort_key sum_tally card_length)
qed

text \<open>A profile counts what it says.  It has one column profile per header, in order.  In each, the
  missing values are the cells that are blank, the values and the missing values make up the rows,
  the counts by type make up the values, the percentage lies between 0 and 100, the samples and the
  retained values are distinct values of the column within their limits, and the profile is marked
  truncated exactly when a value of the column was not retained.  The missing values of the file are
  those of its columns, and its duplicates are the rows minus the different ones.\<close>

theorem profile_counts:
  "let p = profile_csv env limits hs rows issues in
     pr_row_count p = length rows \<and> pr_column_count p = length hs
     \<and> map cp_name (pr_columns p) = hs
     \<and> list_all2 (\<lambda>(j, name) c. column_ok limits rows j name c) (enum hs) (pr_columns p)
     \<and> pr_missing p = sum_list (map (\<lambda>j. length (filter (\<lambda>row. strip (row ! j) = []) rows)) [0..<length hs])
     \<and> pr_duplicates p + card (set (map (map strip) rows)) = length rows"
proof -
  let ?cs = "map (profile_column env limits rows) (enum hs)"
  have ok: "column_ok limits rows j name (profile_column env limits rows (j, name))" for j name by (rule profile_column_ok)
  have names: "map cp_name ?cs = hs"
    by (rule nth_equalityI) (auto simp: nth_enum profile_column_def Let_def length_enum_from)
  have all: "list_all2 (\<lambda>(j, name) c. column_ok limits rows j name c) (enum hs) ?cs"
    by (auto simp: list_all2_conv_all_nth ok nth_enum)
  have miss: "map cp_missing ?cs = map (\<lambda>j. length (filter (\<lambda>row. strip (row ! j) = []) rows)) [0..<length hs]"
    by (rule nth_equalityI) (use ok in \<open>auto simp: nth_enum column_ok_def\<close>)
  have card: "card (set (map (map strip) rows)) \<le> length rows" by (metis card_length length_map)
  show ?thesis using names all miss card by (simp add: profile_csv_def Let_def del: set_map map_map)
qed

end
