(* ===== verification/QualityRelease.thy ===== *)
theory QualityRelease
  imports QualityProps
begin

text \<open>
  The release decision: what a clean pass says of the data, and that worse data never improves it.
\<close>

section \<open>Counting severities\<close>

lemma severity_count_simps [simp]:
  "severity_count s [] = 0"
  "severity_count s (f # fs) = (if qf_severity f = s then 1 else 0) + severity_count s fs"
  "severity_count s (fs @ gs) = severity_count s fs + severity_count s gs"
  by (simp_all add: severity_count_def)

lemma severity_failed_finding [simp]: "qf_severity (failed_finding c r s reason n col) = s"
  by (simp add: failed_finding_def)

lemma severity_count_concat: "severity_count s (concat fss) = sum_list (map (severity_count s) fss)"
  by (induction fss) auto

lemma severity_count_zero: "severity_count s fs = 0 \<longleftrightarrow> s \<notin> qf_severity ` set fs"
  by (induction fs) auto

section \<open>A clean pass\<close>

definition missing_rate :: "quality_input \<Rightarrow> rat" where
  "missing_rate inp = (let cells = es_rows (qi_stats inp) * ps_columns (qi_profile inp)
     in if cells \<le> 0 then 0 else int_quotient (es_missing (qi_stats inp)) cells)"

definition clean_dataset :: "quality_input \<Rightarrow> bool" where
  "clean_dataset inp \<longleftrightarrow>
     es_rows (qi_stats inp) \<noteq> 0 \<and> es_critical (qi_stats inp) = 0 \<and> es_high (qi_stats inp) = 0
     \<and> 85 \<le> score_of_rate (missing_rate inp)
     \<and> 85 \<le> score_of_rate (int_quotient (es_duplicates (qi_stats inp)) (es_rows (qi_stats inp)))
     \<and> rs_passed (qi_run inp) = rs_considered (qi_run inp)
     \<and> (consistency_applicable inp \<longrightarrow> inconsistent_pairs (qi_results inp) = [])"

definition counts_ok :: "quality_input \<Rightarrow> bool" where
  "counts_ok inp \<longleftrightarrow>
     0 \<le> es_rows (qi_stats inp) \<and> 0 \<le> es_duplicates (qi_stats inp) \<and> 0 \<le> es_missing (qi_stats inp)
     \<and> 0 \<le> es_high (qi_stats inp) \<and> 0 \<le> es_critical (qi_stats inp)
     \<and> 0 \<le> rs_passed (qi_run inp) \<and> 0 \<le> rs_failed (qi_run inp) \<and> 0 \<le> rs_skipped (qi_run inp)
     \<and> rs_considered (qi_run inp) = rs_passed (qi_run inp) + rs_failed (qi_run inp) + rs_skipped (qi_run inp)
     \<and> rs_considered (qi_run inp) < 2 ^ 31"

text \<open>No finding beyond \<open>Info\<close>, and a score of at least 85.\<close>

definition unflagged :: "category_result \<Rightarrow> bool" where
  "unflagged r \<longleftrightarrow> 85 \<le> cr_score r \<and> severity_count Blocking (cr_findings r) = 0
     \<and> severity_count Warning (cr_findings r) = 0"

lemma score_of_rate_0 [simp]: "score_of_rate 0 = 100"
  by (simp add: score_of_rate_def clamp_score_def)

lemma outcome_of:
  "outcome inp completeness_category = the (completeness_evaluate inp)"
  "outcome inp uniqueness_category = the (uniqueness_evaluate inp)"
  "outcome inp validity_category = the (validity_evaluate inp)"
  "outcome inp consistency_category = the (consistency_evaluate inp)"
  "outcome inp unresolved_risk_category = the (unresolved_risk_evaluate inp)"
  "outcome inp validation_coverage_category = the (validation_coverage_evaluate inp)"
  by (simp_all add: outcome_def category_defs)

lemma applicable_of [simp]:
  "qc_applicable completeness_category inp"
  "qc_applicable uniqueness_category inp \<longleftrightarrow> 0 < es_rows (qi_stats inp)"
  "qc_applicable validity_category inp \<longleftrightarrow> 0 < rs_considered (qi_run inp)"
  "qc_applicable consistency_category inp \<longleftrightarrow> consistency_applicable inp"
  "\<not> qc_applicable referential_integrity_category inp"
  "\<not> qc_applicable business_rule_category inp"
  "qc_applicable unresolved_risk_category inp \<longleftrightarrow> 0 < ds_total_issues (qi_detection inp)"
  "qc_applicable validation_coverage_category inp \<longleftrightarrow> 0 < rs_considered (qi_run inp)"
  by (simp_all add: category_defs)

lemma completeness_unflagged:
  "unflagged (the (completeness_evaluate inp)) \<longleftrightarrow>
     es_rows (qi_stats inp) \<noteq> 0 \<and> 85 \<le> score_of_rate (missing_rate inp)"
  by (auto simp: completeness_evaluate_def missing_rate_def banded_def unflagged_def Let_def)

lemma uniqueness_unflagged:
  "es_rows (qi_stats inp) \<noteq> 0 \<Longrightarrow> unflagged (the (uniqueness_evaluate inp)) \<longleftrightarrow>
     85 \<le> score_of_rate (int_quotient (es_duplicates (qi_stats inp)) (es_rows (qi_stats inp)))"
  by (auto simp: uniqueness_evaluate_def banded_def unflagged_def Let_def)

lemma validity_unflagged:
  assumes "0 < rs_considered (qi_run inp)" "rs_passed (qi_run inp) = rs_considered (qi_run inp)"
  shows "unflagged (the (validity_evaluate inp))"
  using assms by (auto simp: validity_evaluate_def unflagged_def Let_def int_quotient_def clamp_score_def)

lemma coverage_unflagged:
  "0 < rs_considered (qi_run inp) \<Longrightarrow>
     unflagged (the (validation_coverage_evaluate inp)) \<longleftrightarrow> rs_skipped (qi_run inp) = 0"
  by (auto simp: validation_coverage_evaluate_def unflagged_def Let_def)

lemma consistency_unflagged:
  "unflagged (the (consistency_evaluate inp)) \<longleftrightarrow> inconsistent_pairs (qi_results inp) = []"
proof (cases "pair_outcomes (qi_results inp) = []")
  case True
  then show ?thesis by (simp add: consistency_evaluate_def unflagged_def inconsistent_pairs_def)
next
  case False
  have "severity_count Warning (map (\<lambda>(rule, column). failed_finding ''consistency'' (''consistency_'' @ rule) Warning
      ''INCONSISTENT_NORMALIZATION'' None (Some column)) ps) = length ps" for ps :: "(string \<times> string) list"
    by (induction ps) auto
  then show ?thesis using False
    by (cases "inconsistent_pairs (qi_results inp)")
      (auto simp: consistency_evaluate_def unflagged_def Let_def)
qed

lemma risk_unflagged:
  assumes "0 \<le> es_critical (qi_stats inp)" "0 \<le> es_high (qi_stats inp)"
  shows "unflagged (the (unresolved_risk_evaluate inp)) \<longleftrightarrow>
     es_critical (qi_stats inp) = 0 \<and> es_high (qi_stats inp) = 0"
  using assms by (auto simp: unresolved_risk_evaluate_def unflagged_def Let_def)

lemma active_iff: "c \<in> set (active inp QUALITY_RULES) \<longleftrightarrow> c \<in> set QUALITY_RULES \<and> qc_applicable c inp"
  by (simp add: active_def)

lemma counted_zero:
  "severity_count s (counted inp) = 0 \<longleftrightarrow>
     (\<forall>c \<in> set (active inp QUALITY_RULES). severity_count s (cr_findings (outcome inp c)) = 0)"
  by (auto simp: counted_def severity_count_concat)

lemma clean_unflagged:
  assumes ok: "counts_ok inp" and clean: "clean_dataset inp"
    and c: "c \<in> set QUALITY_RULES" "qc_applicable c inp"
  shows "unflagged (outcome inp c)"
  using c(1)
proof (rule category_cases)
  assume "c = completeness_category"
  then show ?thesis using clean by (simp add: outcome_of completeness_unflagged clean_dataset_def)
next
  assume "c = uniqueness_category"
  then show ?thesis using clean by (simp add: outcome_of uniqueness_unflagged clean_dataset_def)
next
  assume "c = validity_category"
  then show ?thesis using clean c(2)
    by (simp add: outcome_of validity_unflagged clean_dataset_def)
next
  assume "c = consistency_category"
  then show ?thesis using clean c(2)
    by (simp add: outcome_of consistency_unflagged clean_dataset_def)
next
  assume "c = unresolved_risk_category"
  then show ?thesis using clean ok by (simp add: outcome_of risk_unflagged clean_dataset_def counts_ok_def)
next
  assume "c = validation_coverage_category"
  then show ?thesis using clean ok c(2)
    by (simp add: outcome_of coverage_unflagged clean_dataset_def counts_ok_def)
qed (use c(2) in \<open>simp_all\<close>)

text \<open>C32: Under the default thresholds a run is a clean PASS exactly when the dataset has rows, no
  unresolved high or critical issue, completeness and uniqueness of at least 85, no inconsistent
  column, and every considered change passed its validation: no weight and no rounding of the mean
  makes up for a category that is flagged.\<close>

theorem default_pass_is_clean:
  assumes th: "qi_thresholds inp = default_thresholds" and ok: "counts_ok inp"
  shows "\<exists>r. quality_control inp = Some r \<and> (qr_recommendation r = PASS \<longleftrightarrow> clean_dataset inp)"
proof -
  have small: "weights_small (qi_thresholds inp)" by (simp add: th default_thresholds_def weights_small_def)
  obtain r where r: "quality_control inp = Some r" "qr_score r = Some (mean_score inp)"
    "qr_recommendation r = compute_recommendation (Some (mean_score inp)) (severity_count Blocking (counted inp))
       (severity_count Warning (counted inp)) inp"
    using quality_control_small[OF small] by auto
  have "qr_recommendation r = PASS" if clean: "clean_dataset inp"
  proof -
    have u: "unflagged (outcome inp c)" if "c \<in> set (active inp QUALITY_RULES)" for c
      using that clean_unflagged[OF ok clean] by (simp add: active_iff)
    have "of_int 85 \<le> mean_score inp"
      using mean_between[OF small, of 85 100] u outcome_ok[of _ inp]
      by (auto simp: unflagged_def result_ok_def active_iff)
    moreover have "severity_count Blocking (counted inp) = 0" "severity_count Warning (counted inp) = 0"
      using u by (simp_all add: counted_zero unflagged_def)
    moreover have "rs_failed (qi_run inp) = 0" using ok clean by (simp add: counts_ok_def clean_dataset_def)
    ultimately show ?thesis using clean
      by (simp add: r(3) compute_recommendation_def th default_thresholds_def clean_dataset_def Let_def)
  qed
  moreover have "clean_dataset inp" if pass: "qr_recommendation r = PASS"
  proof -
    let ?run = "qi_run inp"
    have p: "severity_count Blocking (counted inp) = 0" "severity_count Warning (counted inp) = 0"
      "\<not> (0 < rs_considered ?run \<and> 0 < int_quotient (rs_failed ?run) (rs_considered ?run))"
      "es_critical (qi_stats inp) \<le> 0" "es_high (qi_stats inp) \<le> 0"
      using pass by (auto simp: r(3) compute_recommendation_def th default_thresholds_def Let_def split: if_splits)
    have quiet: "severity_count Blocking (cr_findings (outcome inp c)) = 0 \<and> severity_count Warning (cr_findings (outcome inp c)) = 0"
      if "c \<in> set QUALITY_RULES" "qc_applicable c inp" for c
      using p(1,2) that by (auto simp: counted_zero active_iff)
    have comp: "es_rows (qi_stats inp) \<noteq> 0 \<and> 85 \<le> score_of_rate (missing_rate inp)"
      using quiet[of completeness_category]
      by (auto simp: QUALITY_RULES_def outcome_def category_defs completeness_evaluate_def missing_rate_def banded_def
          Let_def split: if_splits)
    then have rows: "0 < es_rows (qi_stats inp)" using ok by (simp add: counts_ok_def)
    then have uniq: "85 \<le> score_of_rate (int_quotient (es_duplicates (qi_stats inp)) (es_rows (qi_stats inp)))"
      using quiet[of uniqueness_category]
      by (auto simp: QUALITY_RULES_def outcome_def category_defs uniqueness_evaluate_def banded_def Let_def split: if_splits)
    have cons: "consistency_applicable inp \<longrightarrow> inconsistent_pairs (qi_results inp) = []"
    proof
      assume "consistency_applicable inp"
      then have "severity_count Warning (cr_findings (the (consistency_evaluate inp))) = 0"
        using quiet[of consistency_category] by (simp add: QUALITY_RULES_def outcome_def category_defs)
      then show "inconsistent_pairs (qi_results inp) = []"
        by (cases "inconsistent_pairs (qi_results inp)")
          (auto simp: consistency_evaluate_def Let_def inconsistent_pairs_def split: if_splits prod.splits)
    qed
    have passed: "rs_passed ?run = rs_considered ?run"
    proof (cases "0 < rs_considered ?run")
      case True
      then have skip: "rs_skipped ?run = 0"
        using quiet[of validation_coverage_category]
        by (auto simp: QUALITY_RULES_def outcome_def category_defs validation_coverage_evaluate_def Let_def split: if_splits)
      have "rs_failed ?run = 0"
      proof (rule ccontr)
        assume "rs_failed ?run \<noteq> 0"
        then have "0 < rs_failed ?run" using ok by (simp add: counts_ok_def)
        then show False using p(3) True ok by (auto simp: counts_ok_def int_quotient_pos)
      qed
      then show ?thesis using skip ok by (simp add: counts_ok_def)
    next
      case False
      then show ?thesis using ok by (simp add: counts_ok_def)
    qed
    show ?thesis using comp uniq cons passed p(4,5) ok by (simp add: clean_dataset_def counts_ok_def)
  qed
  ultimately show ?thesis using r(1) by blast
qed

lemma default_pass_is_clean_witness:
  "\<exists>r. quality_control (sample_input default_thresholds sample_stats) = Some r \<and> qr_recommendation r = PASS"
proof -
  let ?inp = "sample_input default_thresholds sample_stats"
  have "counts_ok ?inp" "clean_dataset ?inp" "qi_thresholds ?inp = default_thresholds"
    by (simp_all add: counts_ok_def clean_dataset_def missing_rate_def sample_input_def sample_stats_def
        consistency_applicable_def Let_def)
  then show ?thesis using default_pass_is_clean[of ?inp] by simp
qed

section \<open>Worse data\<close>

definition worse :: "effective_stats \<Rightarrow> effective_stats \<Rightarrow> bool" where
  "worse s s' \<longleftrightarrow> es_rows s' = es_rows s \<and> es_duplicates s \<le> es_duplicates s' \<and> es_missing s \<le> es_missing s'
     \<and> es_high s \<le> es_high s' \<and> es_critical s \<le> es_critical s'
     \<and> 0 \<le> es_duplicates s \<and> 0 \<le> es_missing s \<and> 0 \<le> es_high s \<and> 0 \<le> es_critical s"

fun rank :: "recommendation \<Rightarrow> nat" where
  "rank FAIL = 0"
| "rank PASS_WITH_WARNINGS = 1"
| "rank PASS = 2"

text \<open>The second list blocks, or it has no fewer warnings and the first does not block either.\<close>

definition graver :: "quality_finding list \<Rightarrow> quality_finding list \<Rightarrow> bool" where
  "graver fs fs' \<longleftrightarrow> 0 < severity_count Blocking fs'
     \<or> severity_count Blocking fs = 0 \<and> severity_count Warning fs \<le> severity_count Warning fs'"

definition degrades :: "category_result \<Rightarrow> category_result \<Rightarrow> bool" where
  "degrades r r' \<longleftrightarrow> cr_score r' \<le> cr_score r \<and> graver (cr_findings r) (cr_findings r')"

lemma graver_refl [simp]: "graver fs fs"
  by (auto simp: graver_def)

lemma graver_Nil [simp]: "graver [] fs"
  by (auto simp: graver_def)

lemma graver_concat:
  "list_all (\<lambda>c. graver (f c) (g c)) cs \<Longrightarrow> graver (concat (map f cs)) (concat (map g cs))"
  by (induction cs) (auto simp: graver_def)

lemma banded_graver:
  "s' \<le> s \<Longrightarrow> banded s a b c = (sev, reason) \<Longrightarrow> banded s' a b c = (sev', reason') \<Longrightarrow>
     graver [failed_finding cat rule sev reason n col] [failed_finding cat rule sev' reason' n' col]"
  by (auto simp: banded_def graver_def split: if_splits)

lemma degrades_refl [simp]: "degrades r r"
  by (simp add: degrades_def)

lemma completeness_degrades:
  assumes "worse (qi_stats inp) s'"
  shows "degrades (the (completeness_evaluate inp)) (the (completeness_evaluate (inp\<lparr>qi_stats := s'\<rparr>)))"
proof -
  let ?cells = "es_rows (qi_stats inp) * ps_columns (qi_profile inp)"
  let ?rate = "\<lambda>m. if ?cells \<le> 0 then 0 else int_quotient m ?cells"
  have rate: "?rate (es_missing (qi_stats inp)) \<le> ?rate (es_missing s')" "0 \<le> ?rate (es_missing (qi_stats inp))"
    using assms int_quotient_mono[of 0 "es_missing (qi_stats inp)" ?cells]
    by (auto simp: worse_def intro: int_quotient_mono)
  then have score: "score_of_rate (?rate (es_missing s')) \<le> score_of_rate (?rate (es_missing (qi_stats inp)))"
    by (intro score_of_rate_antimono)
  have rows: "es_rows s' = es_rows (qi_stats inp)" using assms by (simp add: worse_def)
  show ?thesis
    using rate score banded_graver[OF score]
    by (auto simp: completeness_evaluate_def degrades_def rows Let_def split: prod.splits)
qed

lemma uniqueness_degrades:
  assumes "worse (qi_stats inp) s'" "0 < es_rows (qi_stats inp)"
  shows "degrades (the (uniqueness_evaluate inp)) (the (uniqueness_evaluate (inp\<lparr>qi_stats := s'\<rparr>)))"
proof -
  let ?rate = "\<lambda>d. int_quotient d (es_rows (qi_stats inp))"
  have score: "score_of_rate (?rate (es_duplicates s')) \<le> score_of_rate (?rate (es_duplicates (qi_stats inp)))"
    using assms by (intro score_of_rate_antimono int_quotient_mono) (auto simp: worse_def)
  have rows: "es_rows s' = es_rows (qi_stats inp)" using assms by (simp add: worse_def)
  have le: "es_duplicates (qi_stats inp) \<le> es_duplicates s'" "0 \<le> es_duplicates (qi_stats inp)"
    using assms by (auto simp: worse_def)
  show ?thesis
    using assms(2) le score banded_graver[OF score]
    by (auto simp: uniqueness_evaluate_def degrades_def rows Let_def split: prod.splits)
qed

lemma risk_degrades:
  assumes "worse (qi_stats inp) s'"
  shows "degrades (the (unresolved_risk_evaluate inp)) (the (unresolved_risk_evaluate (inp\<lparr>qi_stats := s'\<rparr>)))"
proof -
  let ?d = "max 1 (ds_total_issues (qi_detection inp))"
  let ?n = "\<lambda>s. es_critical s + es_high s"
  have score: "score_of_rate (int_quotient (?n s') ?d) \<le> score_of_rate (int_quotient (?n (qi_stats inp)) ?d)"
    using assms by (intro score_of_rate_antimono int_quotient_mono) (auto simp: worse_def)
  have le: "es_critical (qi_stats inp) \<le> es_critical s'" "es_high (qi_stats inp) \<le> es_high s'"
    "0 \<le> es_critical (qi_stats inp)" "0 \<le> es_high (qi_stats inp)"
    using assms by (auto simp: worse_def)
  show ?thesis
    using le score by (auto simp: unresolved_risk_evaluate_def degrades_def graver_def Let_def)
qed

lemma category_degrades:
  assumes w: "worse (qi_stats inp) s'" and c: "c \<in> set (active inp QUALITY_RULES)"
  shows "degrades (outcome inp c) (outcome (inp\<lparr>qi_stats := s'\<rparr>) c)"
proof -
  have "c \<in> set QUALITY_RULES" using c by (simp add: active_iff)
  then show ?thesis
  proof (rule category_cases)
    assume e: "c = uniqueness_category"
    then show ?thesis using c uniqueness_degrades[OF w] by (simp add: outcome_of active_iff)
  qed (use w c in \<open>simp_all add: outcome_of completeness_degrades risk_degrades active_iff validity_evaluate_def
      consistency_evaluate_def validation_coverage_evaluate_def Let_def\<close>)
qed

lemma active_same:
  assumes "es_rows s' = es_rows (qi_stats inp)"
  shows "active (inp\<lparr>qi_stats := s'\<rparr>) QUALITY_RULES = active inp QUALITY_RULES"
  using assms by (simp add: active_def QUALITY_RULES_def consistency_applicable_def)

lemma weighted_antimono:
  assumes "list_all (\<lambda>c. weight_of inp' c = weight_of inp c \<and> 0 \<le> as_float (weight_of inp c)
      \<and> cr_score (outcome inp' c) \<le> cr_score (outcome inp c)) cs" and "s' \<le> s"
  shows "weighted inp' cs s' \<le> weighted inp cs s"
  using assms
proof (induction cs arbitrary: s s')
  case (Cons c cs)
  have "fl (s' + fl (cr_score (outcome inp' c) * as_float (weight_of inp c)))
      \<le> fl (s + fl (cr_score (outcome inp c) * as_float (weight_of inp c)))"
    using Cons.prems by (intro fl_mono add_mono mult_right_mono) auto
  moreover have "weight_of inp' c = weight_of inp c" using Cons.prems(1) by simp
  ultimately show ?case using Cons.IH[of "fl (s' + fl (cr_score (outcome inp' c) * as_float (weight_of inp' c)))"
        "fl (s + fl (cr_score (outcome inp c) * as_float (weight_of inp c)))"] Cons.prems(1)
    by (simp add: weighted_def)
qed (simp add: weighted_def)

lemma compute_recommendation_antimono:
  assumes "m' \<le> m" "0 < b' \<or> b = 0 \<and> w \<le> w'"
    and "es_critical (qi_stats inp) \<le> es_critical s'" "es_high (qi_stats inp) \<le> es_high s'"
  shows "rank (compute_recommendation (Some m') b' w' (inp\<lparr>qi_stats := s'\<rparr>))
     \<le> rank (compute_recommendation (Some m) b w inp)"
  using assms by (auto simp: compute_recommendation_def Let_def)

text \<open>C23: Worse data never improves the decision: more missing values, more duplicates or more unresolved
  issues on the same rows, all else equal, never lift the recommendation, through all the roundings
  of rates, scores and weighted sums.\<close>

theorem worse_data_never_improves:
  assumes w: "worse (qi_stats inp) s'" and small: "weights_small (qi_thresholds inp)"
  shows "\<exists>r r'. quality_control inp = Some r \<and> quality_control (inp\<lparr>qi_stats := s'\<rparr>) = Some r'
     \<and> rank (qr_recommendation r') \<le> rank (qr_recommendation r)"
proof -
  let ?inp' = "inp\<lparr>qi_stats := s'\<rparr>" and ?on = "active inp QUALITY_RULES"
  have on: "active ?inp' QUALITY_RULES = ?on" using w by (intro active_same) (simp add: worse_def)
  have wt: "weight_of ?inp' = weight_of inp" by (auto simp: weight_of_def)
  have small': "weights_small (qi_thresholds ?inp')" using small by simp
  have pos: "0 \<le> as_float (weight_of inp c)" if "c \<in> set ?on" for c
    using weight_small[OF small, of c] that fl_nonneg[of "of_int (int_weight inp c)"] by (simp add: active_iff)
  have deg: "degrades (outcome inp c) (outcome ?inp' c)" if "c \<in> set ?on" for c
    using category_degrades[OF w that] .
  have total: "weight_total ?inp' = weight_total inp"
    by (simp add: weight_total_def weights_added_def on wt)
  have "weighted ?inp' ?on 0 \<le> weighted inp ?on 0"
    using pos deg by (intro weighted_antimono) (auto simp: list_all_iff wt degrades_def)
  moreover have "0 \<le> as_float (weight_total inp)"
  proof -
    have "0 \<le> sum_list (map (int_weight inp) ?on)"
      using weight_small[OF small] by (intro sum_list_nonneg) (auto simp: active_iff less_imp_le)
    moreover have "weight_total inp = IntNum (sum_list (map (int_weight inp) ?on))"
      using weights_added_int[of inp ?on 0] weight_small[OF small]
      by (simp add: weight_total_def list_all_iff active_iff)
    ultimately show ?thesis by (simp add: fl_nonneg)
  qed
  ultimately have mean: "mean_score ?inp' \<le> mean_score inp"
    unfolding mean_score_def on total by (intro fl_mono divide_right_mono)
  have "graver (counted inp) (counted ?inp')"
    unfolding counted_def on using deg by (intro graver_concat) (simp add: list_all_iff degrades_def)
  then have "rank (compute_recommendation (Some (mean_score ?inp')) (severity_count Blocking (counted ?inp'))
        (severity_count Warning (counted ?inp')) ?inp')
     \<le> rank (compute_recommendation (Some (mean_score inp)) (severity_count Blocking (counted inp))
        (severity_count Warning (counted inp)) inp)"
    using w mean by (intro compute_recommendation_antimono) (auto simp: graver_def worse_def)
  then show ?thesis using quality_control_small[OF small] quality_control_small[OF small'] by auto
qed

lemma worse_data_never_improves_witness:
  "\<exists>r r'. quality_control (sample_input default_thresholds sample_stats) = Some r
     \<and> quality_control (sample_input default_thresholds (sample_stats\<lparr>es_missing := 5\<rparr>)) = Some r'
     \<and> rank (qr_recommendation r') \<le> rank (qr_recommendation r)"
proof -
  let ?inp = "sample_input default_thresholds sample_stats" and ?s = "sample_stats\<lparr>es_missing := 5\<rparr>"
  have "worse (qi_stats ?inp) ?s" "weights_small (qi_thresholds ?inp)"
    by (simp_all add: worse_def sample_input_def sample_stats_def weights_small_def default_thresholds_def)
  moreover have "?inp\<lparr>qi_stats := ?s\<rparr> = sample_input default_thresholds ?s" by (simp add: sample_input_def)
  ultimately show ?thesis using worse_data_never_improves[of ?inp ?s] by simp
qed

end
