(* ===== verification/Claiming.thy ===== *)
theory Claiming
  imports Leases
begin

text \<open>
  \<open>claim_batch\<close>: which runs a poll takes, and in what state it leaves them.
\<close>

lemma claim_one_pending:
  assumes k: "keyed tr_id (task_runs d)" and r: "run_at d rid = Some r" "tr_status r = PENDING"
  shows "claim_one cfg now w (rid, tmo) (d, cs) =
    (let e = now + seconds (effective_timeout cfg tmo); r' = claim_row now (uuid_supply d) e r in
     (record_event r' ''claimed'' (Some PENDING) (Some RUNNING) (Some w)
        (ClaimedDetail (tr_attempt_count r') e)
        (d\<lparr>uuid_supply := Suc (uuid_supply d), task_runs :=
           update_where (\<lambda>r. tr_id r = rid \<and> tr_status r = PENDING)
             (claim_row now (uuid_supply d) e) (task_runs d)\<rparr>),
      cs @ [rid]))"
proof -
  have "rowcount (\<lambda>r. tr_id r = rid \<and> tr_status r = PENDING) (task_runs d) = 1"
    using rowcount_one_iff[OF k, of rid "\<lambda>r. tr_status r = PENDING"] run_at_in[OF r(1)] r(2) by auto
  then show ?thesis
    using r run_at_in[OF r(1)]
    by (simp add: claim_one_def Let_def get_row_update_where[OF k] run_at_def)
qed

lemma run_at_claim_update:
  assumes "keyed tr_id (task_runs d)"
  shows "run_at (d\<lparr>uuid_supply := u, task_runs :=
           update_where (\<lambda>r. tr_id r = rid \<and> tr_status r = PENDING) (claim_row now tok e) (task_runs d)\<rparr>) i =
         map_option (\<lambda>r. if tr_id r = rid \<and> tr_status r = PENDING then claim_row now tok e r else r) (run_at d i)"
  using assms by (simp add: run_at_def get_row_update_where)

lemma claim_one_frame:
  assumes wf: "db_wf d"
  shows "db_wf (fst (claim_one cfg now w c (d, cs)))"
    and "tasks (fst (claim_one cfg now w c (d, cs))) = tasks d"
    and "uuid_supply (fst (claim_one cfg now w c (d, cs))) = Suc (uuid_supply d)"
  using db_wf_claim_update[OF wf, of "fst c" now "now + seconds (effective_timeout cfg (snd c))"]
  by (auto simp: claim_one_def Let_def split: prod.splits option.splits)

lemma fold_claim_one:
  assumes "db_wf d" "distinct (map fst cands)"
    and "\<forall>c \<in> set cands. \<exists>r. run_at d (fst c) = Some r \<and> tr_status r = PENDING"
  shows "\<exists>d' toks. fold (claim_one cfg now w) cands (d, cs) = (d', cs @ map fst cands)
    \<and> db_wf d' \<and> tasks d' = tasks d \<and> uuid_supply d' = uuid_supply d + length cands
    \<and> (\<forall>i. i \<notin> fst ` set cands \<longrightarrow> run_at d' i = run_at d i)
    \<and> (\<forall>c \<in> set cands. \<exists>tok r. uuid_supply d \<le> tok \<and> run_at d (fst c) = Some r \<and>
          run_at d' (fst c) =
            Some (claim_row now tok (now + seconds (effective_timeout cfg (snd c))) r))"
  using assms
proof (induction cands arbitrary: d cs)
  case Nil
  then show ?case by simp
next
  case (Cons c cands)
  obtain rid tmo where c: "c = (rid, tmo)" by (cases c)
  from Cons.prems(3) c obtain r where r: "run_at d rid = Some r" "tr_status r = PENDING" by auto
  define d1 where "d1 = fst (claim_one cfg now w c (d, cs))"
  have k: "keyed tr_id (task_runs d)" using Cons.prems(1) db_wfD by blast
  let ?e = "now + seconds (effective_timeout cfg tmo)"
  have one: "claim_one cfg now w c (d, cs) = (d1, cs @ [rid])"
    unfolding d1_def c using claim_one_pending[OF k r] by (simp add: Let_def)
  have at1: "run_at d1 i = (if i = rid then Some (claim_row now (uuid_supply d) ?e r) else run_at d i)" for i
    using r run_at_in[of d i] run_at_claim_update[OF k, where u = "Suc (uuid_supply d)" and rid = rid and now = now
          and tok = "uuid_supply d" and e = ?e and i = i]
    unfolding d1_def c claim_one_pending[OF k r] Let_def
    by (cases "run_at d i") (auto dest: run_at_in)
  have fr: "db_wf d1" "tasks d1 = tasks d" "uuid_supply d1 = Suc (uuid_supply d)"
    unfolding d1_def using claim_one_frame[OF Cons.prems(1)] by blast+
  have dist: "rid \<notin> fst ` set cands" "distinct (map fst cands)"
    using Cons.prems(2) c by auto
  have pend: "\<forall>c \<in> set cands. \<exists>r. run_at d1 (fst c) = Some r \<and> tr_status r = PENDING"
  proof
    fix x assume x: "x \<in> set cands"
    then have "fst x \<noteq> rid" using dist(1) by force
    then show "\<exists>r. run_at d1 (fst x) = Some r \<and> tr_status r = PENDING"
      using Cons.prems(3) x by (simp add: at1)
  qed
  obtain d' where d': "fold (claim_one cfg now w) cands (d1, cs @ [rid]) = (d', (cs @ [rid]) @ map fst cands)"
      "db_wf d'" "tasks d' = tasks d1" "uuid_supply d' = uuid_supply d1 + length cands"
      and same: "\<forall>i. i \<notin> fst ` set cands \<longrightarrow> run_at d' i = run_at d1 i"
      and got: "\<forall>c \<in> set cands. \<exists>tok r. uuid_supply d1 \<le> tok \<and> run_at d1 (fst c) = Some r \<and>
          run_at d' (fst c) =
            Some (claim_row now tok (now + seconds (effective_timeout cfg (snd c))) r)"
    using Cons.IH[OF fr(1) dist(2) pend, of "cs @ [rid]"] by blast
  have "\<exists>tok r. uuid_supply d \<le> tok \<and> run_at d (fst x) = Some r \<and>
      run_at d' (fst x) = Some (claim_row now tok (now + seconds (effective_timeout cfg (snd x))) r)"
    if "x \<in> set (c # cands)" for x
  proof (cases "x \<in> set cands")
    case True
    then have "fst x \<noteq> rid" using dist(1) by force
    moreover obtain tok q where "uuid_supply d1 \<le> tok" "run_at d1 (fst x) = Some q"
        "run_at d' (fst x) = Some (claim_row now tok (now + seconds (effective_timeout cfg (snd x))) q)"
      using got True by blast
    ultimately show ?thesis using fr(3) by (intro exI[of _ tok] exI[of _ q]) (simp add: at1)
  next
    case False
    then have "x = (rid, tmo)" using that c by simp
    then show ?thesis using same dist(1) r at1[of rid] by (intro exI[of _ "uuid_supply d"] exI[of _ r]) simp
  qed
  moreover have "run_at d' i = run_at d i" if "i \<notin> fst ` set (c # cands)" for i
    using that same c by (simp add: at1)
  ultimately show ?case
    using d' fr one c by (intro exI[of _ d']) simp
qed

section \<open>Candidates\<close>

lemma distinct_claim_candidates:
  assumes "keyed tr_id (task_runs d)"
  shows "distinct (map fst (claim_candidates now n d))"
proof -
  let ?S = "sort_key tr_created_at (filter (\<lambda>r. due now r \<and> task_of d r \<noteq> None) (task_runs d))"
  have "distinct (map tr_id ?S)"
    using assms by (simp add: distinct_map distinct_sort inj_on_subset[of tr_id "set (task_runs d)"])
  then have "distinct (take n (map tr_id ?S))" by simp
  then show ?thesis by (simp add: claim_candidates_def take_map comp_def)
qed

lemma claim_candidates_pending:
  assumes "keyed tr_id (task_runs d)" "c \<in> set (claim_candidates now n d)"
  shows "\<exists>r. run_at d (fst c) = Some r \<and> due now r \<and> tr_status r = PENDING
           \<and> snd c = Option.bind (task_of d r) timeout_seconds"
proof -
  from assms(2) obtain r where r: "r \<in> set (task_runs d)" "due now r"
      "c = (tr_id r, Option.bind (task_of d r) timeout_seconds)"
    by (auto simp: claim_candidates_def dest!: in_set_takeD)
  then show ?thesis
    using get_row_eqI[OF assms(1) r(1)] by (auto simp: run_at_def due_def)
qed

text \<open>The whole poll, in one statement.\<close>

lemma claim_batch_spec:
  assumes wf: "db_wf d" and n: "n = (case b of None \<Rightarrow> worker_claim_batch_size cfg | Some k \<Rightarrow> k)"
  shows "\<exists>d'. claim_batch cfg now w b d = (d', map fst (claim_candidates now n d))
    \<and> db_wf d' \<and> tasks d' = tasks d \<and> uuid_supply d \<le> uuid_supply d'
    \<and> (\<forall>i. i \<notin> set (map fst (claim_candidates now n d)) \<longrightarrow> run_at d' i = run_at d i)
    \<and> (\<forall>c \<in> set (claim_candidates now n d). \<exists>tok r. uuid_supply d \<le> tok \<and> run_at d (fst c) = Some r \<and>
          run_at d' (fst c) =
            Some (claim_row now tok (now + seconds (effective_timeout cfg (snd c))) r))"
proof -
  have k: "keyed tr_id (task_runs d)" using wf db_wfD by blast
  have "\<forall>c \<in> set (claim_candidates now n d). \<exists>r. run_at d (fst c) = Some r \<and> tr_status r = PENDING"
    using claim_candidates_pending[OF k] by blast
  from fold_claim_one[OF wf distinct_claim_candidates[OF k] this, of cfg now w "[]"]
  show ?thesis by (auto simp: claim_batch_def n Let_def)
qed

end
