(* ===== verification/Fencing.thy ===== *)
theory Fencing
  imports Claiming Scheduler
begin

text \<open>
  The engine as a transition system: any number of workers, the reaper and the scheduler issue
  calls in any order, each a committed transaction.  The theory gives the life cycle of a single
  run under such a sequence, and the fencing argument for lease tokens, made once over an
  abstract protocol and interpreted on the engine.
\<close>

section \<open>The life cycle of one run\<close>

inductive run_step :: "settings \<Rightarrow> int option \<Rightarrow> nat \<Rightarrow> task_run \<Rightarrow> task_run \<Rightarrow> bool"
  for cfg :: settings and mx :: "int option" and u :: nat
where
  same: "run_step cfg mx u r r"
| claimed: "tr_status r = PENDING \<Longrightarrow> u \<le> tok \<Longrightarrow> run_step cfg mx u r (claim_row now tok e r)"
| beaten: "tr_status r = RUNNING \<Longrightarrow>
    run_step cfg mx u r (r\<lparr>tr_last_heartbeat_at := h, tr_lease_expires_at := Some e\<rparr>)"
| succeeded: "tr_status r = RUNNING \<Longrightarrow> run_step cfg mx u r (success_row now log r)"
| requeued: "tr_status r = RUNNING \<Longrightarrow>
    int (tr_attempt_count r) < or_default mx (worker_default_max_attempts cfg) \<Longrightarrow>
    run_step cfg mx u r
      (requeue_row (now + seconds (retry_delay cfg (tr_attempt_count r))) log r)"
| failed: "tr_status r = RUNNING \<Longrightarrow> run_step cfg mx u r (failed_row now msg log r)"

inductive_cases run_stepE: "run_step cfg mx u r r'"

section \<open>The engine's step relation\<close>

text \<open>
  A completion whose clock lies before the row's \<open>started_at\<close> breaks a \<open>CHECK\<close> constraint, so the
  database rolls it back: it is not a step.
\<close>

inductive engine_step :: "settings \<Rightarrow> db \<Rightarrow> db \<Rightarrow> bool" for cfg :: settings where
  claim: "engine_step cfg d (fst (claim_batch cfg now w b d))"
| beat: "heartbeat cfg now rid tok d = Inr d' \<Longrightarrow> engine_step cfg d d'"
| succeed: "checks_ok d' \<Longrightarrow> complete_success now rid tok w log d = Inr d' \<Longrightarrow> engine_step cfg d d'"
| fail: "checks_ok d' \<Longrightarrow> complete_failure cfg now rid tok w msg ret log d = Inr d' \<Longrightarrow>
    engine_step cfg d d'"
| schedule: "interval_floor (tasks d) \<Longrightarrow>
    engine_step cfg d (fst (run_due_schedules cfg stamp fails now b d))"
| create: "tid \<in> task_id ` set (tasks d) \<Longrightarrow>
    engine_step cfg d (fst (create_task_run_record now org tid by src d))"

inductive_cases engine_stepE: "engine_step cfg d d'"

text \<open>A call that commits was made by the holder.\<close>

lemma committed_by_holder:
  assumes "db_wf d"
  shows "heartbeat cfg now rid tok d = Inr d' \<Longrightarrow> \<exists>t. tok = Some t \<and> lease_holder d rid = Some t"
    and "complete_success now rid tok w log d = Inr d' \<Longrightarrow> \<exists>t. tok = Some t \<and> lease_holder d rid = Some t"
    and "complete_failure cfg now rid tok w msg ret log d = Inr d' \<Longrightarrow>
         \<exists>t. tok = Some t \<and> lease_holder d rid = Some t"
proof -
  have no_token: "rowcount (holds_lease rid None) (task_runs d) \<noteq> Suc 0"
    using rowcount_holds[OF db_wfD(1)[OF assms], of rid None] run_at_in[of d rid]
      running_has_token[OF db_wfD(2)[OF assms]] by force
  have "tok \<noteq> None" if "rowcount (holds_lease rid tok) (task_runs d) = Suc 0"
    using that no_token by (cases tok) auto
  moreover have "lease_holder d rid = Some t"
    if "rowcount (holds_lease rid (Some t)) (task_runs d) = Suc 0" for t
    using that rowcount_lease[OF assms, of rid t] by simp
  ultimately have *: "\<exists>t. tok = Some t \<and> lease_holder d rid = Some t"
    if "rowcount (holds_lease rid tok) (task_runs d) = Suc 0"
    using that by (cases tok) auto
  show "heartbeat cfg now rid tok d = Inr d' \<Longrightarrow> \<exists>t. tok = Some t \<and> lease_holder d rid = Some t"
    by (rule *) (auto simp: heartbeat_def Let_def split: option.splits sum.splits if_splits)
  show "complete_success now rid tok w log d = Inr d' \<Longrightarrow> \<exists>t. tok = Some t \<and> lease_holder d rid = Some t"
    by (rule *) (auto simp: complete_success_def Let_def split: option.splits if_splits)
  show "complete_failure cfg now rid tok w msg ret log d = Inr d' \<Longrightarrow>
         \<exists>t. tok = Some t \<and> lease_holder d rid = Some t"
    by (rule *) (auto simp: complete_failure_def Let_def split: option.splits if_splits)
qed

section \<open>One step, seen from one run\<close>

definition max_of :: "db \<Rightarrow> task_run \<Rightarrow> int option" where
  "max_of d r = Option.bind (task_of d r) max_attempts"

definition initial_run :: "task_run \<Rightarrow> bool" where
  "initial_run r \<longleftrightarrow> tr_status r = PENDING \<and> tr_attempt_count r = 0 \<and> tr_lease_token r = None"

text \<open>
  \<open>evolves\<close> is the contract every step keeps: well-formedness, monotone supply, untouched task
  settings, and for every run either a \<open>run_step\<close> or its creation.
\<close>

definition evolves :: "settings \<Rightarrow> db \<Rightarrow> db \<Rightarrow> bool" where
  "evolves cfg d d' \<longleftrightarrow> db_wf d' \<and> uuid_supply d \<le> uuid_supply d' \<and> task_profile d' = task_profile d
     \<and> (\<forall>rid r. run_at d rid = Some r \<longrightarrow>
           (\<exists>r'. run_at d' rid = Some r' \<and> run_step cfg (max_of d r) (uuid_supply d) r r'))
     \<and> (\<forall>rid r'. run_at d rid = None \<longrightarrow> run_at d' rid = Some r' \<longrightarrow> initial_run r')"

lemma evolves_record_event [simp]: "evolves cfg d (record_event r e a b w x d') = evolves cfg d d'"
  by (simp add: evolves_def task_profile_def)

lemma run_at_lease_update:
  assumes wf: "db_wf d" and h: "run_at d rid = Some r" "tr_lease_token r = Some t"
    and id: "\<And>x. tr_id (f x) = tr_id x"
  shows "run_at (d\<lparr>task_runs := update_where (holds_lease rid (Some t)) f (task_runs d)\<rparr>) i =
         (if i = rid then Some (f r) else run_at d i)"
proof -
  have "holds_lease rid (Some t) r"
    using h run_at_in[OF h(1)] token_means_running[OF db_wfD(2)[OF wf]] by (auto simp: holds_lease_def)
  moreover have "\<not> holds_lease rid (Some t) x" if "run_at d i = Some x" "i \<noteq> rid" for x
    using run_at_in[OF that(1)] that(2) by (auto simp: holds_lease_def)
  ultimately show ?thesis
    using h run_at_update[OF db_wfD(1)[OF wf] id, of "holds_lease rid (Some t)" i]
    by (cases "run_at d i") auto
qed

lemma evolves_lease_update:
  assumes wf: "db_wf d" and r: "run_at d rid = Some r" "tr_lease_token r = Some t"
    and f: "\<And>x. tr_id (f x) = tr_id x" "\<And>x. tr_task_id (f x) = tr_task_id x"
    and ok: "row_ok (f r)" and tok: "tr_lease_token (f r) = Some t \<or> tr_lease_token (f r) = None"
    and st: "run_step cfg (max_of d r) (uuid_supply d) r (f r)"
  shows "evolves cfg d (d\<lparr>task_runs := update_where (holds_lease rid (Some t)) f (task_runs d)\<rparr>)"
proof -
  have only: "x = r" if "x \<in> set (task_runs d)" "holds_lease rid (Some t) x" for x
    using keyed_inj[OF db_wfD(1)[OF wf] that(1), of r] that(2) run_at_in[OF r(1)]
    by (auto simp: holds_lease_def)
  have "db_wf (d\<lparr>task_runs := update_where (holds_lease rid (Some t)) f (task_runs d)\<rparr>)"
  proof (rule db_wf_update[OF wf f])
    fix x assume "x \<in> set (task_runs d)" "holds_lease rid (Some t) x"
    then have "x = r" by (rule only)
    then show "row_ok (f x)" "tr_lease_token (f x) = tr_lease_token x \<or> tr_lease_token (f x) = None"
      using ok tok r(2) by auto
  qed
  then show ?thesis
    using st r(1) run_at_lease_update[OF wf r f(1)]
    by (auto simp: evolves_def task_profile_def intro: run_step.same)
qed

lemma evolves_claim:
  assumes "db_wf d"
  shows "evolves cfg d (fst (claim_batch cfg now w b d))"
proof -
  define n where "n = (case b of None \<Rightarrow> worker_claim_batch_size cfg | Some k \<Rightarrow> k)"
  let ?C = "claim_candidates now n d"
  obtain d' where d': "claim_batch cfg now w b d = (d', map fst ?C)" "db_wf d'" "tasks d' = tasks d"
      "uuid_supply d \<le> uuid_supply d'"
      and same: "\<forall>i. i \<notin> set (map fst ?C) \<longrightarrow> run_at d' i = run_at d i"
      and got: "\<forall>c \<in> set ?C. \<exists>tok r. uuid_supply d \<le> tok \<and> run_at d (fst c) = Some r \<and>
          run_at d' (fst c) = Some (claim_row now tok (now + seconds (effective_timeout cfg (snd c))) r)"
    using claim_batch_spec[OF assms n_def, of now w] by blast
  have "\<exists>r'. run_at d' rid = Some r' \<and> run_step cfg (max_of d r) (uuid_supply d) r r'"
    if r: "run_at d rid = Some r" for rid r
  proof (cases "rid \<in> fst ` set ?C")
    case True
    then obtain c where c: "c \<in> set ?C" "fst c = rid" by blast
    obtain tok where "uuid_supply d \<le> tok"
        "run_at d' rid = Some (claim_row now tok (now + seconds (effective_timeout cfg (snd c))) r)"
      using got c r by force
    moreover have "tr_status r = PENDING"
      using claim_candidates_pending[OF db_wfD(1)[OF assms] c(1)] c(2) r by auto
    ultimately show ?thesis by (auto intro: run_step.claimed)
  next
    case False
    then show ?thesis using same r by (auto intro: run_step.same)
  qed
  moreover have "run_at d' rid = None" if "run_at d rid = None" for rid
    using that same got by (cases "rid \<in> fst ` set ?C") force+
  ultimately show ?thesis using d' by (simp add: evolves_def task_profile_def)
qed

text \<open>A step that only appends fresh pending runs and leaves task settings alone.\<close>

lemma evolves_append:
  assumes "db_wf d'" "task_runs d' = task_runs d @ new" "\<forall>r \<in> set new. initial_run r"
    and "uuid_supply d \<le> uuid_supply d'" "task_profile d' = task_profile d"
  shows "evolves cfg d d'"
proof -
  have "run_at d' i = Some r" if "run_at d i = Some r" for i r
    using that assms(2) by (simp add: run_at_def get_row_append)
  moreover have "initial_run r'" if "run_at d i = None" "run_at d' i = Some r'" for i r'
  proof -
    have "r' \<in> set (task_runs d @ new)" using run_at_in[OF that(2)] assms(2) by simp
    moreover have "r' \<notin> set (task_runs d)"
      using that(1) run_at_in[OF that(2)] by (auto simp: run_at_def get_row_None)
    ultimately show ?thesis using assms(3) by simp
  qed
  ultimately show ?thesis
    using assms unfolding evolves_def by (metis run_step.same)
qed

lemma evolves_create:
  assumes "db_wf d" "tid \<in> task_id ` set (tasks d)"
  shows "evolves cfg d (fst (create_task_run_record now org tid by src d))"
  by (rule evolves_append[OF db_wf_create[OF assms]])
    (simp add: create_task_run_record_def Let_def initial_run_def task_profile_def)+

lemma evolves_schedule:
  assumes wf: "db_wf d" and fl: "interval_floor (tasks d)"
  shows "evolves cfg d (fst (run_due_schedules cfg stamp fails now b d))"
proof -
  define n where "n = (case b of None \<Rightarrow> scheduler_claim_batch_size cfg | Some k \<Rightarrow> k)"
  define picked where "picked = filter (\<lambda>t. \<not> fails (task_id t)) (take n (due_list now {} (tasks d)))"
  have k: "keyed task_id (tasks d)" using wf by (simp add: db_wf_def)
  have "set picked \<subseteq> set (tasks d)"
    unfolding picked_def using due_list_mem[of _ now "{}" "tasks d"] by (auto dest: in_set_takeD)
  moreover have "distinct (map task_id picked)"
    using distinct_due_list[OF k, of now "{}"] unfolding picked_def
    by (intro distinct_map_filter) (simp add: take_map[symmetric])
  ultimately have fr: "db_wf (fold (schedule_task stamp now) picked d)
    \<and> task_profile (fold (schedule_task stamp now) picked d) = task_profile d
    \<and> uuid_supply d \<le> uuid_supply (fold (schedule_task stamp now) picked d)"
    by (rule fold_schedule_frame[OF wf])
  obtain new where new: "task_runs (fold (schedule_task stamp now) picked d) = task_runs d @ new"
      "\<forall>r \<in> set new. fresh_run r"
    using fold_schedule_runs by blast
  have "fst (run_due_schedules cfg stamp fails now b d) = fold (schedule_task stamp now) picked d"
    using schedule_loop_eq[OF k fl, of n stamp fails now "{}" 0]
    by (simp add: run_due_schedules_def Let_def picked_def n_def)
  then show ?thesis
    using fr new by (simp add: evolves_append fresh_run_def initial_run_def)
qed

lemma checked_success:
  assumes wf: "db_wf d" and r: "run_at d rid = Some r" "tr_lease_token r = Some t"
    and c: "complete_success now rid (Some t) w log d = Inr d'" "checks_ok d'"
    and s: "tr_started_at r = Some s"
  shows "s \<le> now"
proof -
  have "run_at d' rid = Some (success_row now log r)"
    using c(1) complete_success_accepted[OF wf r] run_at_lease_update[OF wf r, of "success_row now log" rid]
    by auto
  then have "finished_after_started (success_row now log r)"
    using run_at_in[of d' rid] c(2) by (auto simp: checks_ok_def)
  then show ?thesis using s by (simp add: finished_after_started_def success_row_def)
qed

lemma checked_failed:
  assumes wf: "db_wf d" and r: "run_at d rid = Some r" "tr_lease_token r = Some t" "task_of d r = Some tk"
    and c: "complete_failure cfg now rid (Some t) w msg ret log d = Inr d'" "checks_ok d'"
    and last: "\<not> (ret \<and> int (tr_attempt_count r) < effective_max_attempts cfg tk)"
    and s: "tr_started_at r = Some s"
  shows "s \<le> now"
proof -
  have "run_at d' rid = Some (failed_row now msg log r)"
    using c(1) last complete_failure_accepted[OF wf r, of cfg now w msg ret log]
      run_at_lease_update[OF wf r(1,2), of "failed_row now msg log" rid]
    by auto
  then have "finished_after_started (failed_row now msg log r)"
    using run_at_in[of d' rid] c(2) by (auto simp: checks_ok_def)
  then show ?thesis using s by (simp add: finished_after_started_def failed_row_def)
qed

theorem engine_step_evolves:
  assumes wf: "db_wf d" and st: "engine_step cfg d d'"
  shows "evolves cfg d d'"
  using st
proof (cases rule: engine_step.cases)
  case (claim now w b)
  then show ?thesis using evolves_claim[OF wf] by simp
next
  case (beat now rid tok)
  obtain t where t: "tok = Some t" "lease_holder d rid = Some t"
    using committed_by_holder(1)[OF wf beat] by blast
  obtain r tk where r: "run_at d rid = Some r" "tr_lease_token r = Some t" "tr_status r = RUNNING"
      "row_ok r" "task_of d r = Some tk"
    by (rule lease_holderE[OF wf t(2)])
  show ?thesis
    using beat heartbeat_accepted[OF wf r(1,2,5)] r row_ok_beat run_step.beaten
      evolves_lease_update[OF wf r(1,2)] by (auto simp: t(1))
next
  case (succeed now rid tok w log)
  obtain t where t: "tok = Some t" "lease_holder d rid = Some t"
    using committed_by_holder(2)[OF wf succeed(2)] by blast
  obtain r tk where r: "run_at d rid = Some r" "tr_lease_token r = Some t" "tr_status r = RUNNING"
      "row_ok r" "task_of d r = Some tk"
    by (rule lease_holderE[OF wf t(2)])
  have "row_ok (success_row now log r)"
    using checked_success[OF wf r(1,2) succeed(2)[unfolded t(1)] succeed(1)] row_ok_success[OF r(4,3)]
    by blast
  then show ?thesis
    using succeed(2) complete_success_accepted[OF wf r(1,2)]
      evolves_lease_update[OF wf r(1,2), of "success_row now log"] run_step.succeeded[OF r(3)]
    by (auto simp: t(1))
next
  case (fail now rid tok w msg ret log)
  obtain t where t: "tok = Some t" "lease_holder d rid = Some t"
    using committed_by_holder(3)[OF wf fail(2)] by blast
  obtain r tk where r: "run_at d rid = Some r" "tr_lease_token r = Some t" "tr_status r = RUNNING"
      "row_ok r" "task_of d r = Some tk"
    by (rule lease_holderE[OF wf t(2)])
  have mx: "effective_max_attempts cfg tk = or_default (max_of d r) (worker_default_max_attempts cfg)"
    using r(5) by (simp add: effective_max_attempts_def max_of_def)
  show ?thesis
  proof (cases "ret \<and> int (tr_attempt_count r) < effective_max_attempts cfg tk")
    case True
    then show ?thesis
      using fail(2) complete_failure_accepted[OF wf r(1,2,5)] row_ok_requeue[OF r(4)]
        evolves_lease_update[OF wf r(1,2)] run_step.requeued[OF r(3)] mx
      by (auto simp: t(1))
  next
    case False
    have "row_ok (failed_row now msg log r)"
      using checked_failed[OF wf r(1,2,5) fail(2)[unfolded t(1)] fail(1) False] row_ok_failed[OF r(4,3)]
      by blast
    then show ?thesis
      using fail(2) complete_failure_accepted[OF wf r(1,2,5), of cfg now w msg ret log] False
        evolves_lease_update[OF wf r(1,2)] run_step.failed[OF r(3)] 
      by (auto simp: t(1))
  qed
next
  case (schedule stamp fails now b)
  then show ?thesis using evolves_schedule[OF wf] by simp
next
  case (create tid now org user src)
  then show ?thesis using evolves_create[OF wf] by simp
qed

section \<open>Lease protocols\<close>

text \<open>
  A protocol in which resources are held under tokens, tokens are drawn in increasing order, and a
  step hands a resource only to a token drawn during that step.  That is all the fencing argument
  needs: a token that has been drawn and does not hold a resource never holds it again.
\<close>

locale lease_protocol =
  fixes inv :: "'s \<Rightarrow> bool"
    and step :: "'s \<Rightarrow> 's \<Rightarrow> bool"
    and holder :: "'s \<Rightarrow> 'r \<Rightarrow> nat option"
    and next_token :: "'s \<Rightarrow> nat"
  assumes inv_step: "inv s \<Longrightarrow> step s s' \<Longrightarrow> inv s'"
    and token_mono: "inv s \<Longrightarrow> step s s' \<Longrightarrow> next_token s \<le> next_token s'"
    and held_drawn: "inv s \<Longrightarrow> holder s r = Some t \<Longrightarrow> t < next_token s"
    and held_origin: "inv s \<Longrightarrow> step s s' \<Longrightarrow> holder s' r = Some t \<Longrightarrow>
      holder s r = Some t \<or> next_token s \<le> t"
begin

lemma inv_reach: "step\<^sup>*\<^sup>* s s' \<Longrightarrow> inv s \<Longrightarrow> inv s'"
  by (induction rule: rtranclp_induct) (auto intro: inv_step)

lemma token_reach: "step\<^sup>*\<^sup>* s s' \<Longrightarrow> inv s \<Longrightarrow> next_token s \<le> next_token s'"
proof (induction rule: rtranclp_induct)
  case (step y z)
  then show ?case using inv_reach[OF step.hyps(1)] token_mono[of y z] by auto
qed simp

lemma retired_forever:
  "step\<^sup>*\<^sup>* s s' \<Longrightarrow> inv s \<Longrightarrow> t < next_token s \<Longrightarrow> holder s r \<noteq> Some t \<Longrightarrow> holder s' r \<noteq> Some t"
proof (induction rule: rtranclp_induct)
  case (step y z)
  then show ?case
    using inv_reach[OF step.hyps(1)] token_reach[OF step.hyps(1)] held_origin[of y z r t] by auto
qed simp

end

text \<open>A protocol with reports: a report is accepted from the holder only, and ends the lease.\<close>

locale reporting_protocol = lease_protocol inv step holder next_token
  for inv :: "'s \<Rightarrow> bool" and step :: "'s \<Rightarrow> 's \<Rightarrow> bool"
    and holder :: "'s \<Rightarrow> 'r \<Rightarrow> nat option" and next_token :: "'s \<Rightarrow> nat" +
  fixes report :: "'c \<Rightarrow> 's \<Rightarrow> 'r \<Rightarrow> nat \<Rightarrow> 's option"
  assumes report_holder: "inv s \<Longrightarrow> report c s r t = Some s' \<Longrightarrow> holder s r = Some t"
    and report_inv: "inv s \<Longrightarrow> report c s r t = Some s' \<Longrightarrow> inv s'"
    and report_ends: "inv s \<Longrightarrow> report c s r t = Some s' \<Longrightarrow> holder s' r = None"
    and report_keeps: "inv s \<Longrightarrow> report c s r t = Some s' \<Longrightarrow> next_token s' = next_token s"
begin

lemma reported_once:
  assumes "inv s" "report c s r t = Some s'" "step\<^sup>*\<^sup>* s' s''"
  shows "report c' s'' r t = None"
proof -
  have "t < next_token s'"
    using held_drawn[OF assms(1) report_holder[OF assms(1,2)]] report_keeps[OF assms(1,2)] by simp
  then have "holder s'' r \<noteq> Some t"
    using retired_forever[OF assms(3) report_inv[OF assms(1,2)]] report_ends[OF assms(1,2)] by simp
  then show ?thesis
    using report_holder inv_reach[OF assms(3) report_inv[OF assms(1,2)]]
    by (cases "report c' s'' r t") auto
qed

end

text \<open>The engine is such a protocol.\<close>

lemma run_step_token:
  "run_step cfg mx u r r' \<Longrightarrow> tr_lease_token r' = Some t \<Longrightarrow> tr_lease_token r = Some t \<or> u \<le> t"
  by (erule run_stepE) auto

lemma engine_held_origin:
  assumes "db_wf d" "engine_step cfg d d'" "lease_holder d' rid = Some t"
  shows "lease_holder d rid = Some t \<or> uuid_supply d \<le> t"
proof -
  have ev: "evolves cfg d d'" by (rule engine_step_evolves[OF assms(1,2)])
  obtain r' where r': "run_at d' rid = Some r'" "tr_lease_token r' = Some t"
    using assms(3) by (auto simp: lease_holder_def bind_eq_Some_conv)
  show ?thesis
  proof (cases "run_at d rid")
    case None
    then have "initial_run r'" using ev r'(1) by (auto simp: evolves_def)
    then show ?thesis using r'(2) by (simp add: initial_run_def)
  next
    case (Some r)
    then have "run_step cfg (max_of d r) (uuid_supply d) r r'"
      using ev r'(1) unfolding evolves_def by fastforce
    then show ?thesis using run_step_token r'(2) Some by (fastforce simp: lease_holder_def)
  qed
qed

lemma lease_holder_below: "db_wf d \<Longrightarrow> lease_holder d rid = Some t \<Longrightarrow> t < uuid_supply d"
  using tokens_ok_below[OF db_wfD(3)] run_at_in[of d rid]
  by (auto simp: lease_holder_def bind_eq_Some_conv)

interpretation engine: lease_protocol db_wf "engine_step cfg" lease_holder uuid_supply for cfg
proof unfold_locales
  fix s s' :: db
  assume "db_wf s" "engine_step cfg s s'"
  note ev = engine_step_evolves[OF this]
  from ev show "db_wf s'" "uuid_supply s \<le> uuid_supply s'" by (simp_all add: evolves_def)
qed (use lease_holder_below engine_held_origin in blast)+

text \<open>Reports, and the database's verdict on them.\<close>

datatype report_call =
    ReportSuccess time string "string option"
  | ReportFailure time string string bool "string option"

fun report :: "settings \<Rightarrow> report_call \<Rightarrow> db \<Rightarrow> nat \<Rightarrow> nat \<Rightarrow> db option" where
  "report cfg (ReportSuccess now w log) d rid t =
     (case complete_success now rid (Some t) w log d of
        Inl _ \<Rightarrow> None | Inr d' \<Rightarrow> if checks_ok d' then Some d' else None)"
| "report cfg (ReportFailure now w msg ret log) d rid t =
     (case complete_failure cfg now rid (Some t) w msg ret log d of
        Inl _ \<Rightarrow> None | Inr d' \<Rightarrow> if checks_ok d' then Some d' else None)"

lemma report_is_step: "report cfg c d rid t = Some d' \<Longrightarrow> engine_step cfg d d'"
  by (cases c) (auto split: sum.splits if_splits intro: engine_step.succeed engine_step.fail)

lemma report_by_holder: "db_wf d \<Longrightarrow> report cfg c d rid t = Some d' \<Longrightarrow> lease_holder d rid = Some t"
  by (cases c) (auto split: sum.splits if_splits dest: committed_by_holder)

lemma report_effect:
  assumes wf: "db_wf d" and rep: "report cfg c d rid t = Some d'"
  shows "lease_holder d' rid = None" and "uuid_supply d' = uuid_supply d"
proof -
  obtain r tk where r: "run_at d rid = Some r" "tr_lease_token r = Some t" "task_of d r = Some tk"
    by (rule lease_holderE[OF wf report_by_holder[OF wf rep]])
  show "lease_holder d' rid = None"
    using rep complete_success_accepted[OF wf r(1,2)] complete_failure_accepted[OF wf r]
      run_at_lease_update[OF wf r(1,2)]
    by (cases c) (auto simp: lease_holder_def split: if_splits)
  show "uuid_supply d' = uuid_supply d"
    using rep complete_success_accepted[OF wf r(1,2)] complete_failure_accepted[OF wf r]
    by (cases c) (auto split: if_splits)
qed

interpretation engine_reports:
  reporting_protocol db_wf "engine_step cfg" lease_holder uuid_supply "report cfg" for cfg
proof unfold_locales
  fix c and s s' :: db and r t
  assume *: "db_wf s" "report cfg c s r t = Some s'"
  show "lease_holder s r = Some t" by (rule report_by_holder[OF *])
  show "db_wf s'" by (rule engine.inv_step[OF *(1) report_is_step[OF *(2)]])
  show "lease_holder s' r = None" "uuid_supply s' = uuid_supply s" by (rule report_effect[OF *])+
qed

end
