(* ===== verification/EngineProps.thy ===== *)
theory EngineProps
  imports Fencing
begin

text \<open>
  Properties of the execution engine over arbitrary interleavings of its calls, the audit trail it
  writes, and the small database on which they are exercised.
\<close>

section \<open>A sample database\<close>

definition sample_settings :: settings where
  "sample_settings = \<lparr>worker_claim_batch_size = 10, worker_default_timeout_seconds = 300,
     worker_default_max_attempts = 3, worker_retry_base_delay_seconds = 30,
     worker_retry_max_delay_seconds = 3600, scheduler_claim_batch_size = 50\<rparr>"

definition sample_task :: task where
  "sample_task = \<lparr>task_id = 1, task_org = 0, schedule_interval_seconds = Some 60,
     next_run_at = Some 0, max_attempts = None, timeout_seconds = None, is_active = True,
     task_name = ''nightly sync'', task_type = SYNC, task_source = None\<rparr>"

definition sample_run :: task_run where
  "sample_run = \<lparr>tr_id = 2, tr_org = 0, tr_task_id = 1, tr_status = PENDING, tr_triggered_by = None,
     tr_started_at = None, tr_finished_at = None, tr_log_output = None, tr_error_message = None,
     tr_created_at = 0, tr_idempotency_key = 3, tr_lease_token = None, tr_lease_expires_at = None,
     tr_last_heartbeat_at = None, tr_attempt_count = 0, tr_next_retry_at = None,
     tr_source_task_run_id = None\<rparr>"

definition sample_db :: db where
  "sample_db = \<lparr>tasks = [sample_task], task_runs = [sample_run], events = [], uuid_supply = 10\<rparr>"

lemmas sample_defs = sample_db_def sample_run_def sample_task_def sample_settings_def

lemma sample_wf: "db_wf sample_db"
  by (simp add: db_wf_def sample_defs row_ok_defs fk_ok_def tokens_ok_def)

text \<open>The sample after a poll at time 5.\<close>

definition sample_running :: db where
  "sample_running = fst (claim_batch sample_settings 5 ''w'' None sample_db)"

lemma sample_running_step: "engine_step sample_settings sample_db sample_running"
  unfolding sample_running_def by (rule engine_step.claim)

lemma sample_running_wf: "db_wf sample_running"
  by (rule engine.inv_step[OF sample_wf sample_running_step])

lemmas claim_eval = claim_batch_def claim_candidates_def claim_one_def claim_row_def due_def task_of_def
  get_row_def rowcount_def update_where_def record_event_def effective_timeout_def Let_def

lemma sample_running_run:
  "run_at sample_running 2 = Some (claim_row 5 10 300000005 sample_run)"
  by (simp add: sample_running_def claim_eval sample_defs run_at_def seconds_def)

lemma sample_running_holder: "lease_holder sample_running 2 = Some 10"
  by (simp add: lease_holder_def sample_running_run)

section \<open>Invariants of reachable databases\<close>



lemma reach_run:
  assumes "(engine_step cfg)\<^sup>*\<^sup>* d d'" "db_wf d" "run_at d rid = Some r"
    and keep: "\<And>mx u x y. run_step cfg mx u x y \<Longrightarrow> P x \<Longrightarrow> P y" and "P r"
  shows "\<exists>r'. run_at d' rid = Some r' \<and> P r'"
  using assms(1)
proof (induction rule: rtranclp_induct)
  case base
  then show ?case using assms by auto
next
  case (step y z)
  have "evolves cfg y z"
    by (rule engine_step_evolves[OF engine.inv_reach[OF step.hyps(1) assms(2)] step.hyps(2)])
  then show ?case using step.IH keep unfolding evolves_def by blast
qed

text \<open>A finished run is final: once a run is \<open>SUCCESS\<close> or \<open>FAILED\<close>, no later call of the engine
  changes any of its columns.\<close>

theorem finished_runs_final:
  assumes "db_wf d" "(engine_step cfg)\<^sup>*\<^sup>* d d'" "run_at d rid = Some r"
    and "tr_status r \<in> {SUCCESS, FAILED}"
  shows "run_at d' rid = Some r"
proof -
  have keep: "y = r" if "run_step cfg mx u x y" "x = r" for mx u x y
    using that assms(4) by (auto elim: run_stepE)
  from reach_run[OF assms(2,1,3), of "\<lambda>x. x = r"] keep show ?thesis by auto
qed

text \<open>The sample after the worker reported success at time 7.\<close>

definition sample_done :: db where
  "sample_done = (case complete_success 7 2 (Some 10) ''w'' None sample_running of
     Inl _ \<Rightarrow> sample_running | Inr d \<Rightarrow> d)"

lemmas lease_eval = complete_success_def holds_lease_def success_row_def get_row_def rowcount_def
  update_where_def record_event_def complete_failure_def heartbeat_def

lemma sample_running_eq:
  "task_runs sample_running = [claim_row 5 10 300000005 sample_run]"
  "tasks sample_running = [sample_task]" "uuid_supply sample_running = 11"
  by (simp_all add: sample_running_def claim_eval sample_defs seconds_def)

lemma sample_done_report:
  "complete_success 7 2 (Some 10) ''w'' None sample_running = Inr sample_done"
  by (simp add: sample_done_def lease_eval sample_running_eq claim_row_def sample_run_def)

lemma sample_done_eq:
  "task_runs sample_done = [success_row 7 None (claim_row 5 10 300000005 sample_run)]"
  "uuid_supply sample_done = 11"
  by (simp_all add: sample_done_def lease_eval sample_running_eq claim_row_def sample_run_def)

lemma sample_done_step: "engine_step sample_settings sample_running sample_done"
  by (rule engine_step.succeed[OF _ sample_done_report])
    (simp add: checks_ok_def sample_done_eq success_row_def claim_row_def sample_run_def row_ok_defs)

lemma sample_reach: "(engine_step sample_settings)\<^sup>*\<^sup>* sample_db sample_done"
  by (rule rtranclp.rtrancl_into_rtrancl[of "engine_step sample_settings" _ sample_running,
        OF rtranclp.rtrancl_into_rtrancl[of "engine_step sample_settings" _ sample_db,
          OF rtranclp.rtrancl_refl sample_running_step] sample_done_step])

lemma sample_done_wf: "db_wf sample_done"
  by (rule engine.inv_step[OF sample_running_wf sample_done_step])

lemma sample_done_run: "run_at sample_done 2 = Some (success_row 7 None (claim_row 5 10 300000005 sample_run))"
  by (simp add: run_at_def get_row_def sample_done_eq success_row_def claim_row_def sample_run_def)

theorem finished_runs_final_witness:
  "run_at (fst (claim_batch sample_settings 9 ''v'' None sample_done)) 2
   = Some (success_row 7 None (claim_row 5 10 300000005 sample_run))"
  by (rule finished_runs_final[OF sample_done_wf
        r_into_rtranclp[of "engine_step sample_settings", OF engine_step.claim] sample_done_run])
    (simp add: success_row_def)

section \<open>Attempts\<close>

definition attempts_ok :: "settings \<Rightarrow> db \<Rightarrow> bool" where
  "attempts_ok cfg d \<longleftrightarrow> (\<forall>r \<in> set (task_runs d).
     let m = or_default (max_of d r) (worker_default_max_attempts cfg) in
     int (tr_attempt_count r) \<le> max 1 m
     \<and> (tr_status r = PENDING \<longrightarrow> tr_attempt_count r = 0 \<or> int (tr_attempt_count r) < m))"

lemma max_of_profile:
  "max_of d r = Option.bind (map_of (map (\<lambda>(i, m, t). (i, m)) (task_profile d)) (tr_task_id r)) (\<lambda>m. m)"
proof -
  have "Option.bind (get_row task_id k T) max_attempts =
      Option.bind (map_of (map (\<lambda>t. (task_id t, max_attempts t)) T) k) (\<lambda>m. m)" for k T
    by (induction T) (auto simp: get_row_def)
  then show ?thesis by (simp add: max_of_def task_of_def task_profile_def comp_def)
qed

lemma run_step_task_id: "run_step cfg mx u r r' \<Longrightarrow> tr_task_id r' = tr_task_id r"
  by (erule run_stepE) auto

lemma attempts_ok_step:
  assumes wf: "db_wf d" and ok: "attempts_ok cfg d" and st: "engine_step cfg d d'"
  shows "attempts_ok cfg d'"
  unfolding attempts_ok_def
proof
  fix r' assume "r' \<in> set (task_runs d')"
  have ev: "evolves cfg d d'" by (rule engine_step_evolves[OF wf st])
  then have "db_wf d'" and prof: "task_profile d' = task_profile d" by (simp_all add: evolves_def)
  then have r': "run_at d' (tr_id r') = Some r'"
    using get_row_eqI[OF db_wfD(1) \<open>r' \<in> _\<close>] by (simp add: run_at_def)
  show "let m = or_default (max_of d' r') (worker_default_max_attempts cfg) in
     int (tr_attempt_count r') \<le> max 1 m
     \<and> (tr_status r' = PENDING \<longrightarrow> tr_attempt_count r' = 0 \<or> int (tr_attempt_count r') < m)"
  proof (cases "run_at d (tr_id r')")
    case None
    then have "initial_run r'" using ev r' by (auto simp: evolves_def)
    then show ?thesis by (simp add: initial_run_def Let_def)
  next
    case (Some r)
    then have rs: "run_step cfg (max_of d r) (uuid_supply d) r r'"
      using ev r' unfolding evolves_def by fastforce
    have "max_of d' r' = max_of d r"
      using run_step_task_id[OF rs] prof by (simp add: max_of_profile)
    moreover have "let m = or_default (max_of d r) (worker_default_max_attempts cfg) in
        int (tr_attempt_count r) \<le> max 1 m
        \<and> (tr_status r = PENDING \<longrightarrow> tr_attempt_count r = 0 \<or> int (tr_attempt_count r) < m)"
      using ok run_at_in[OF Some] unfolding attempts_ok_def by blast
    ultimately show ?thesis
      using rs by (auto simp: Let_def claim_row_def success_row_def requeue_row_def failed_row_def
          elim!: run_stepE)
  qed
qed

text \<open>No run is ever attempted more than its task's \<open>max_attempts\<close> (or the configured default),
  and a run waits for another attempt only while attempts remain.\<close>

theorem attempts_never_exceed_max:
  assumes "db_wf d" "attempts_ok cfg d" "(engine_step cfg)\<^sup>*\<^sup>* d d'"
  shows "attempts_ok cfg d'"
  using assms(3)
proof (induction rule: rtranclp_induct)
  case (step y z)
  show ?case
    by (rule attempts_ok_step[OF engine.inv_reach[OF step.hyps(1) assms(1)] step.IH step.hyps(2)])
qed (rule assms(2))

lemma sample_attempts: "attempts_ok sample_settings sample_db"
  by (simp add: attempts_ok_def sample_defs max_of_def task_of_def get_row_def)

theorem attempts_never_exceed_max_witness: "attempts_ok sample_settings sample_done"
  by (rule attempts_never_exceed_max[OF sample_wf sample_attempts sample_reach])

section \<open>Fencing\<close>

text \<open>C1: Fencing.  A lease token that has been drawn and does not hold a run (its lease was reported,
  reaped or reclaimed) is refused by every heartbeat and every completion from then on, whatever
  the engine does in between.\<close>

theorem retired_token_refused:
  assumes "db_wf d" "t < uuid_supply d" "lease_holder d rid \<noteq> Some t" "(engine_step cfg)\<^sup>*\<^sup>* d d'"
  shows "heartbeat cfg now rid (Some t) d' = Inl (LeaseLostError rid)
    \<and> complete_success now rid (Some t) w log d' = Inl (LeaseLostError rid)
    \<and> complete_failure cfg now rid (Some t) w msg ret log d' = Inl (LeaseLostError rid)"
  using refused[OF engine.inv_reach[OF assms(4,1)] engine.retired_forever[OF assms(4,1,2,3)]] by simp

theorem retired_token_refused_witness:
  "heartbeat sample_settings 9 2 (Some 4) sample_done = Inl (LeaseLostError 2)
   \<and> complete_success 9 2 (Some 4) ''v'' None sample_done = Inl (LeaseLostError 2)
   \<and> complete_failure sample_settings 9 2 (Some 4) ''v'' ''late'' True None sample_done = Inl (LeaseLostError 2)"
  by (rule retired_token_refused[OF sample_wf _ _ sample_reach])
    (simp_all add: sample_defs lease_holder_def run_at_def get_row_def)

text \<open>C24: A claim is reported at most once: after a completion under a token has been committed, no
  completion under the same token is ever accepted again, of either kind.\<close>

theorem reported_at_most_once:
  assumes "db_wf d" "report cfg c d rid t = Some d'" "(engine_step cfg)\<^sup>*\<^sup>* d' d''"
  shows "report cfg c' d'' rid t = None"
  by (rule engine_reports.reported_once[OF assms])

theorem reported_at_most_once_witness:
  "report sample_settings (ReportFailure 9 ''v'' ''late'' True None)
     (fst (claim_batch sample_settings 8 ''v'' None sample_done)) 2 10 = None"
  by (rule reported_at_most_once[OF sample_running_wf,
        where c = "ReportSuccess 7 ''w'' None" and d' = sample_done])
    (auto simp: sample_done_report checks_ok_def sample_done_eq success_row_def claim_row_def
      sample_run_def row_ok_defs intro: r_into_rtranclp engine_step.claim)

section \<open>Polls\<close>

text \<open>A poll claims exactly the first \<open>n\<close> due runs in order of creation, gives each a token of
  its own that was never used before and one more attempt, and leaves every other run alone.\<close>

theorem claim_batch_takes_due_runs:
  assumes wf: "db_wf d" and c: "claim_batch cfg now w (Some n) d = (d', ids)"
  shows "ids = map tr_id (take n (sort_key tr_created_at (filter (due now) (task_runs d))))
    \<and> (\<forall>rid r. run_at d rid = Some r \<longrightarrow>
         (if rid \<in> set ids
          then \<exists>tok e. uuid_supply d \<le> tok \<and> run_at d' rid = Some (claim_row now tok e r)
          else run_at d' rid = Some r))"
proof -
  have "filter (\<lambda>r. due now r \<and> task_of d r \<noteq> None) (task_runs d) = filter (due now) (task_runs d)"
    using task_of_exists[OF wf] get_row_eqI[OF db_wfD(1)[OF wf]]
    by (intro filter_cong) (auto simp: run_at_def)
  then have ids: "map fst (claim_candidates now n d)
      = map tr_id (take n (sort_key tr_created_at (filter (due now) (task_runs d))))"
    by (simp add: claim_candidates_def take_map comp_def)
  obtain d1 where d1: "claim_batch cfg now w (Some n) d = (d1, map fst (claim_candidates now n d))"
      "\<forall>i. i \<notin> set (map fst (claim_candidates now n d)) \<longrightarrow> run_at d1 i = run_at d i"
      "\<forall>c \<in> set (claim_candidates now n d). \<exists>tok r. uuid_supply d \<le> tok \<and> run_at d (fst c) = Some r \<and>
          run_at d1 (fst c) = Some (claim_row now tok (now + seconds (effective_timeout cfg (snd c))) r)"
    using claim_batch_spec[OF wf, where b = "Some n" and n = n and cfg = cfg and now = now and w = w] by auto
  have "\<exists>tok e. uuid_supply d \<le> tok \<and> run_at d1 rid = Some (claim_row now tok e r)"
    if "run_at d rid = Some r" "rid \<in> set (map fst (claim_candidates now n d))" for rid r
    using d1(3) that by force
  then show ?thesis using c d1(1,2) unfolding ids[symmetric] by auto
qed

theorem claim_batch_takes_due_runs_witness:
  "run_at (fst (claim_batch sample_settings 5 ''w'' (Some 4) sample_db)) 2 \<noteq> Some sample_run"
proof -
  obtain d' ids where c: "claim_batch sample_settings 5 ''w'' (Some 4) sample_db = (d', ids)"
    by (cases "claim_batch sample_settings 5 ''w'' (Some 4) sample_db")
  note spec = claim_batch_takes_due_runs[OF sample_wf c]
  have ids: "ids = [2]"
    using conjunct1[OF spec] by (simp add: sample_defs due_def)
  have "run_at sample_db 2 = Some sample_run"
    by (simp add: sample_db_def run_at_def get_row_def sample_run_def)
  then have "\<exists>tok e. run_at d' 2 = Some (claim_row 5 tok e sample_run)"
    using conjunct2[OF spec, rule_format, of 2 sample_run] by (auto simp: ids)
  then show ?thesis by (auto simp: c claim_row_def sample_run_def)
qed

text \<open>Two polls, by whatever workers and at whatever times, never hand out the same run.\<close>

theorem polls_are_disjoint:
  assumes wf: "db_wf d" and one: "claim_batch cfg now w b d = (d1, ids1)"
    and two: "claim_batch cfg now' w' b' d1 = (d2, ids2)"
  shows "set ids1 \<inter> set ids2 = {}"
proof -
  define n where "n = (case b of None \<Rightarrow> worker_claim_batch_size cfg | Some k \<Rightarrow> k)"
  define n' where "n' = (case b' of None \<Rightarrow> worker_claim_batch_size cfg | Some k \<Rightarrow> k)"
  have ids1: "ids1 = map fst (claim_candidates now n d)" and wf1: "db_wf d1"
    and run: "\<And>c. c \<in> set (claim_candidates now n d) \<Longrightarrow>
        \<exists>tok e r. run_at d1 (fst c) = Some (claim_row now tok e r)"
    using claim_batch_spec[OF wf n_def, of now w] one by fastforce+
  have ids2: "ids2 = map fst (claim_candidates now' n' d1)"
    using claim_batch_spec[OF wf1 n'_def, of now' w'] two by auto
  have False if "c \<in> set (claim_candidates now n d)" "c' \<in> set (claim_candidates now' n' d1)"
    "fst c = fst c'" for c c'
    using run[OF that(1)] claim_candidates_pending[OF db_wfD(1)[OF wf1] that(2)] that(3)
    by (auto simp: claim_row_def)
  then show ?thesis unfolding ids1 ids2 by force
qed

theorem polls_are_disjoint_witness:
  "set (snd (claim_batch sample_settings 5 ''w'' None sample_db))
   \<inter> set (snd (claim_batch sample_settings 6 ''v'' None sample_running)) = {}"
  by (rule polls_are_disjoint[OF sample_wf, of sample_settings 5 "''w''" None sample_running _ 6 "''v''" None
        "fst (claim_batch sample_settings 6 ''v'' None sample_running)"])
    (simp_all add: sample_running_def)

section \<open>Failures and retries\<close>

text \<open>What a failure report does, on every branch: from anyone but the holder it is refused; a
  retryable failure with attempts left returns the run to the queue after the back-off, with its
  bookkeeping cleared; any other failure is final.  No other run is touched.\<close>

theorem complete_failure_outcome:
  assumes wf: "db_wf d" and r: "run_at d rid = Some r" "task_of d r = Some tk"
  shows "case complete_failure cfg now rid (Some t) w msg retryable log d of
      Inl e \<Rightarrow> e = LeaseLostError rid \<and> tr_lease_token r \<noteq> Some t
    | Inr d' \<Rightarrow> tr_lease_token r = Some t
        \<and> run_at d' rid = Some
            (if retryable \<and> int (tr_attempt_count r) < effective_max_attempts cfg tk
             then requeue_row (now + seconds (retry_delay cfg (tr_attempt_count r))) log r
             else failed_row now msg log r)
        \<and> (\<forall>i. i \<noteq> rid \<longrightarrow> run_at d' i = run_at d i)"
proof (cases "tr_lease_token r = Some t")
  case True
  then show ?thesis
    using complete_failure_accepted[OF wf r(1) True r(2), of cfg now w msg retryable log]
      run_at_lease_update[OF wf r(1) True] by simp
next
  case False
  then have "lease_holder d rid \<noteq> Some t" using r(1) by (simp add: lease_holder_def)
  then show ?thesis using refused(3)[OF wf] False by simp
qed

theorem complete_failure_outcome_witness:
  "case complete_failure sample_settings 9 2 (Some 10) ''w'' ''boom'' True None sample_running of
     Inl _ \<Rightarrow> False | Inr d' \<Rightarrow> run_at d' 2 = Some (requeue_row 30000009 None (claim_row 5 10 300000005 sample_run))"
proof -
  have t: "task_of sample_running (claim_row 5 10 300000005 sample_run) = Some sample_task"
    by (simp add: task_of_def sample_running_eq get_row_def claim_row_def sample_run_def sample_task_def)
  show ?thesis
    using complete_failure_outcome[OF sample_running_wf sample_running_run t,
        where cfg = sample_settings and now = 9 and t = 10 and w = "''w''" and msg = "''boom''"
          and retryable = True and log = None]
    by (simp split: sum.splits)
      (simp add: claim_row_def sample_run_def sample_settings_def sample_task_def
        effective_max_attempts_def retry_delay_def seconds_def)
qed

text \<open>The back-off doubles from the base delay up to the cap: it stays between the two, never
  decreases with further attempts, and is the capped double of the previous one.\<close>

theorem retry_delay_backoff:
  assumes "0 \<le> worker_retry_base_delay_seconds cfg"
    and "worker_retry_base_delay_seconds cfg \<le> worker_retry_max_delay_seconds cfg"
    and n: "1 \<le> n"
  shows "worker_retry_base_delay_seconds cfg \<le> retry_delay cfg n
    \<and> retry_delay cfg n \<le> worker_retry_max_delay_seconds cfg
    \<and> retry_delay cfg n \<le> retry_delay cfg (n + 1)
    \<and> retry_delay cfg (n + 1) = min (2 * retry_delay cfg n) (worker_retry_max_delay_seconds cfg)"
proof -
  obtain k where k: "n = Suc k" using n by (cases n) auto
  let ?b = "worker_retry_base_delay_seconds cfg"
  have "?b * 1 \<le> ?b * 2 ^ k" using assms(1) by (intro mult_left_mono) auto
  then show ?thesis using assms(1,2) by (auto simp: retry_delay_def k min_def)
qed

theorem retry_delay_backoff_witness:
  "retry_delay sample_settings 2 = min (2 * retry_delay sample_settings 1) 3600"
  using retry_delay_backoff[of sample_settings 1] by (simp add: sample_settings_def numeral_2_eq_2)

section \<open>Scheduled runs\<close>

text \<open>A scheduler pass creates one pending, unclaimed run for each of the first \<open>n\<close> due tasks in
  order of \<open>(next_run_at, id)\<close> whose transaction does not raise, and none for any other: one failing
  task costs its own slot and nothing else, and no task gets two runs.\<close>

theorem run_due_schedules_creates:
  assumes "keyed task_id (tasks d)" "interval_floor (tasks d)"
    and "run_due_schedules cfg stamp fails now (Some n) d = (d', created)"
  shows "\<exists>new. task_runs d' = task_runs d @ new \<and> created = length new \<and> (\<forall>r \<in> set new. fresh_run r)
    \<and> map tr_task_id new =
        filter (\<lambda>i. \<not> fails i) (map task_id (take n (due_list now {} (tasks d))))
    \<and> distinct (map tr_task_id new)"
proof -
  let ?P = "filter (\<lambda>t. \<not> fails (task_id t)) (take n (due_list now {} (tasks d)))"
  have d': "d' = fold (schedule_task stamp now) ?P d" "created = length ?P"
    using assms(3) schedule_loop_eq[OF assms(1,2), of n stamp fails now "{}" 0]
    by (auto simp: run_due_schedules_def Let_def)
  obtain new where new: "task_runs d' = task_runs d @ new" "map tr_task_id new = map task_id ?P"
      "\<forall>r \<in> set new. fresh_run r"
    using fold_schedule_runs unfolding d'(1) by blast
  have "created = length new" using d'(2) arg_cong[OF new(2), of length] by simp
  moreover have ids: "map task_id ?P = filter (\<lambda>i. \<not> fails i) (map task_id (take n (due_list now {} (tasks d))))"
    by (simp add: filter_map comp_def)
  moreover have "distinct (map task_id (take n (due_list now {} (tasks d))))"
    using distinct_due_list[OF assms(1), of now "{}"] by (simp add: take_map[symmetric])
  ultimately show ?thesis using new by (intro exI[of _ new]) simp
qed

theorem run_due_schedules_creates_witness:
  "map tr_task_id (task_runs (fst (run_due_schedules sample_settings (\<lambda>_. 1) (\<lambda>_. False) 1 (Some 5) sample_db)))
   = [1, 1]"
proof -
  obtain d' c where dc: "run_due_schedules sample_settings (\<lambda>_. 1) (\<lambda>_. False) 1 (Some 5) sample_db = (d', c)"
    by (cases "run_due_schedules sample_settings (\<lambda>_. 1) (\<lambda>_. False) 1 (Some 5) sample_db")
  show ?thesis
    unfolding dc using run_due_schedules_creates[OF _ _ dc]
    by (auto simp: sample_defs interval_floor_def due_list_def sched_due_def)
qed

text \<open>Missed periods collapse.  However long a task has been overdue, after a pass that handled
  every due task nothing is due any more at that instant: a second pass creates no run.\<close>

theorem run_due_schedules_no_storm:
  assumes k: "keyed task_id (tasks d)" and fl: "interval_floor (tasks d)"
    and enough: "length (due_list now {} (tasks d)) \<le> n"
  shows "run_due_schedules cfg stamp fails' now b
      (fst (run_due_schedules cfg stamp (\<lambda>_. False) now (Some n) d))
    = (fst (run_due_schedules cfg stamp (\<lambda>_. False) now (Some n) d), 0)"
proof -
  let ?L = "due_list now {} (tasks d)"
  let ?d' = "fold (schedule_task stamp now) ?L d"
  have d': "fst (run_due_schedules cfg stamp (\<lambda>_. False) now (Some n) d) = ?d'"
    using schedule_loop_eq[OF k fl, of n stamp "\<lambda>_. False" now "{}" 0] enough
    by (simp add: run_due_schedules_def Let_def)
  have "due_list now {} (tasks ?d') = []"
    using due_list_fold[OF k fl distinct_due_list[OF k, of now "{}"], of now "{}" stamp]
    by (simp add: filter_empty_conv)
  then have "schedule_loop m stamp fails' now {} 0 ?d' = (?d', 0)" for m
    by (cases m) simp_all
  then show ?thesis by (simp add: d') (simp add: run_due_schedules_def Let_def)
qed

theorem run_due_schedules_no_storm_witness:
  "snd (run_due_schedules sample_settings (\<lambda>_. 1) (\<lambda>_. False) 1 (Some 5)
     (fst (run_due_schedules sample_settings (\<lambda>_. 1) (\<lambda>_. False) 1 (Some 5) sample_db))) = 0"
proof -
  have e: "length (due_list 1 {} (tasks sample_db)) \<le> 5" "keyed task_id (tasks sample_db)"
      "interval_floor (tasks sample_db)"
    by (simp_all add: sample_defs due_list_def sched_due_def interval_floor_def)
  show ?thesis
    using run_due_schedules_no_storm[OF e(2,3,1), of sample_settings "\<lambda>_. 1" "\<lambda>_. False" "Some 5"] by simp
qed

end
