(* ===== verification/AuditTrail.thy ===== *)
theory AuditTrail
  imports EngineProps
begin

text \<open>
  The \<open>task_run_events\<close> table as an audit trail: replaying a run's events from \<open>PENDING\<close> gives its
  status column, and every event starts where the previous one of the same run ended.
\<close>

definition trail_status :: "nat \<Rightarrow> run_event list \<Rightarrow> run_status option" where
  "trail_status rid evs = fold (\<lambda>e s. if ev_run e = rid then ev_to e else s) evs (Some PENDING)"

definition trail_chained :: "run_event list \<Rightarrow> bool" where
  "trail_chained evs \<longleftrightarrow>
     (\<forall>i < length evs. ev_from (evs ! i) = trail_status (ev_run (evs ! i)) (take i evs))"

definition audit_ok :: "db \<Rightarrow> bool" where
  "audit_ok d \<longleftrightarrow> trail_chained (events d)
     \<and> (\<forall>r \<in> set (task_runs d). trail_status (tr_id r) (events d) = Some (tr_status r))
     \<and> (\<forall>e \<in> set (events d). ev_run e < uuid_supply d)"

lemma trail_status_snoc [simp]:
  "trail_status rid (evs @ [e]) = (if ev_run e = rid then ev_to e else trail_status rid evs)"
  by (simp add: trail_status_def)

lemma trail_chained_snoc:
  "trail_chained (evs @ [e]) \<longleftrightarrow> trail_chained evs \<and> ev_from e = trail_status (ev_run e) evs"
  by (auto simp: trail_chained_def nth_append less_Suc_eq)

lemma trail_status_unseen: "\<forall>e \<in> set evs. ev_run e \<noteq> rid \<Longrightarrow> trail_status rid evs = Some PENDING"
  by (induction evs rule: rev_induct) (auto simp: trail_status_def)

text \<open>An event is recorded together with the one row it is about.\<close>

lemma audit_ok_record:
  assumes ok: "audit_ok d" and r: "r \<in> set (task_runs d)" "tr_id r < uuid_supply d"
    and r': "tr_id r' = tr_id r" and from_s: "from_s = Some (tr_status r)"
    and runs: "task_runs d' = update_where P f (task_runs d)"
    and P: "\<And>x. x \<in> set (task_runs d) \<Longrightarrow> P x \<longleftrightarrow> tr_id x = tr_id r"
    and f: "\<And>x. tr_id (f x) = tr_id x" "\<And>x. Some (tr_status (f x)) = to_s"
    and rest: "events d' = events d" "uuid_supply d \<le> uuid_supply d'"
  shows "audit_ok (record_event r' et from_s to_s w x d')"
proof -
  let ?e = "\<lparr>ev_org = tr_org r', ev_run = tr_id r', ev_type = et, ev_from = from_s, ev_to = to_s,
      ev_worker = w, ev_detail = x\<rparr>"
  have evs: "events (record_event r' et from_s to_s w x d') = events d @ [?e]"
    by (simp add: record_event_def rest)
  have st: "trail_status (tr_id q) (events d) = Some (tr_status q)" if "q \<in> set (task_runs d)" for q
    using ok that by (simp add: audit_ok_def)
  have "trail_chained (events d @ [?e])"
    using ok st[OF r(1)] by (simp add: audit_ok_def trail_chained_snoc r' from_s)
  moreover have "trail_status (tr_id q') (events d @ [?e]) = Some (tr_status q')"
    if q': "q' \<in> set (task_runs d')" for q'
  proof -
    obtain q where q: "q \<in> set (task_runs d)" "q' = (if P q then f q else q)"
      using q' unfolding runs by (rule in_update_whereE)
    show ?thesis using q P[OF q(1)] st[OF q(1)] f by (auto simp: r')
  qed
  moreover have "\<forall>e \<in> set (events d @ [?e]). ev_run e < uuid_supply d'"
    using ok r(2) rest(2) by (auto simp: audit_ok_def r' intro: less_le_trans)
  ultimately show ?thesis unfolding audit_ok_def evs by simp
qed

lemma audit_ok_claim_one:
  assumes wf: "db_wf d" and ok: "audit_ok d"
  shows "audit_ok (fst (claim_one cfg now w c (d, cs)))"
proof -
  obtain rid tmo where c: "c = (rid, tmo)" by (cases c)
  show ?thesis
  proof (cases "\<exists>r. run_at d rid = Some r \<and> tr_status r = PENDING")
    case True
    then obtain r where r: "run_at d rid = Some r" "tr_status r = PENDING" by blast
    note in_r = run_at_in[OF r(1)]
    have P: "tr_id x = rid \<and> tr_status x = PENDING \<longleftrightarrow> tr_id x = tr_id r"
      if "x \<in> set (task_runs d)" for x
      using keyed_inj[OF db_wfD(1)[OF wf] that, of r] in_r r(2) by auto
    show ?thesis
      unfolding c claim_one_pending[OF db_wfD(1)[OF wf] r] Let_def fst_conv
      by (rule audit_ok_record[OF ok conjunct1[OF in_r] tokens_ok_id[OF db_wfD(3)[OF wf] conjunct1[OF in_r]],
            where P = "\<lambda>x. tr_id x = rid \<and> tr_status x = PENDING"
              and f = "claim_row now (uuid_supply d) (now + seconds (effective_timeout cfg tmo))"])
        (use r(2) P in \<open>simp_all add: claim_row_def\<close>)
  next
    case False
    have "rowcount (\<lambda>r. tr_id r = rid \<and> tr_status r = PENDING) (task_runs d) = 0"
      using False get_row_eqI[OF db_wfD(1)[OF wf]] by (auto simp: rowcount_zero_iff run_at_def)
    then show ?thesis
      using ok update_where_none[of "\<lambda>r. tr_id r = rid \<and> tr_status r = PENDING" "task_runs d"]
      by (auto simp: c claim_one_def Let_def audit_ok_def)
  qed
qed

lemma audit_ok_fold_claim:
  "db_wf d \<Longrightarrow> audit_ok d \<Longrightarrow> audit_ok (fst (fold (claim_one cfg now w) cands (d, cs)))"
proof (induction cands arbitrary: d cs)
  case (Cons c cands)
  obtain d1 cs1 where one: "claim_one cfg now w c (d, cs) = (d1, cs1)"
    by (cases "claim_one cfg now w c (d, cs)")
  then have "db_wf d1" "audit_ok d1"
    using claim_one_frame(1)[OF Cons.prems(1), of cfg now w c cs]
      audit_ok_claim_one[OF Cons.prems, of cfg now w c cs] by simp_all
  then show ?case using Cons.IH one by simp
qed simp

lemma audit_ok_append:
  assumes "audit_ok d" "task_runs d' = task_runs d @ new" "events d' = events d"
    and "\<forall>r \<in> set new. tr_status r = PENDING \<and> uuid_supply d \<le> tr_id r"
    and "uuid_supply d \<le> uuid_supply d'"
  shows "audit_ok d'"
  using assms trail_status_unseen[of "events d"] by (force simp: audit_ok_def)

lemma audit_ok_create: "audit_ok d \<Longrightarrow> audit_ok (fst (create_task_run_record now org tid by src d))"
  by (rule audit_ok_append) (simp add: create_task_run_record_def Let_def)+

lemma audit_ok_schedule_task: "audit_ok d \<Longrightarrow> audit_ok (schedule_task stamp now t d)"
  unfolding schedule_task_def by (rule audit_ok_create) (simp add: audit_ok_def)

lemma audit_ok_schedule: "audit_ok d \<Longrightarrow> audit_ok (fst (schedule_loop n stamp fails now ex k d))"
  by (induction n stamp fails now ex k d rule: schedule_loop.induct)
    (auto split: list.splits simp: audit_ok_schedule_task)

lemma audit_ok_lease_update:
  assumes wf: "db_wf d" and ok: "audit_ok d" and r: "run_at d rid = Some r" "tr_lease_token r = Some t"
    and r': "tr_id r' = rid" and f: "\<And>x. tr_id (f x) = tr_id x" "\<And>x. Some (tr_status (f x)) = to_s"
  shows "audit_ok (record_event r' et (Some RUNNING) to_s w x
           (d\<lparr>task_runs := update_where (holds_lease rid (Some t)) f (task_runs d)\<rparr>))"
proof -
  note in_r = run_at_in[OF r(1)]
  have run: "tr_status r = RUNNING" using in_r r(2) token_means_running[OF db_wfD(2)[OF wf]] by blast
  have P: "holds_lease rid (Some t) q \<longleftrightarrow> tr_id q = tr_id r" if "q \<in> set (task_runs d)" for q
    using keyed_inj[OF db_wfD(1)[OF wf] that, of r] in_r r(2) run by (auto simp: holds_lease_def)
  show ?thesis
    by (rule audit_ok_record[OF ok conjunct1[OF in_r] tokens_ok_id[OF db_wfD(3)[OF wf] conjunct1[OF in_r]],
          where P = "holds_lease rid (Some t)" and f = f])
      (use in_r r' run P f in simp_all)
qed

lemma audit_ok_beat:
  assumes "audit_ok d" "\<And>x. tr_id (f x) = tr_id x" "\<And>x. tr_status (f x) = tr_status x"
  shows "audit_ok (d\<lparr>task_runs := update_where P f (task_runs d)\<rparr>)"
  using assms by (auto simp: audit_ok_def set_update_where)

lemma audit_ok_step:
  assumes wf: "db_wf d" and ok: "audit_ok d" and st: "engine_step cfg d d'"
  shows "audit_ok d'"
  using st
proof (cases rule: engine_step.cases)
  case (claim now w b)
  then show ?thesis using audit_ok_fold_claim[OF wf ok] by (simp add: claim_batch_def Let_def)
next
  case (beat now rid tok)
  then show ?thesis using ok
    by (auto simp: heartbeat_def Let_def audit_ok_beat split: option.splits sum.splits if_splits)
next
  case (succeed now rid tok w log)
  obtain t where t: "tok = Some t" "lease_holder d rid = Some t"
    using committed_by_holder(2)[OF wf succeed(2)] by blast
  obtain r where r: "run_at d rid = Some r" "tr_lease_token r = Some t"
    by (rule lease_holderE[OF wf t(2)])
  then show ?thesis
    using succeed(2) complete_success_accepted[OF wf r] audit_ok_lease_update[OF wf ok r] run_at_in[OF r(1)]
    by (auto simp: t(1) success_row_def)
next
  case (fail now rid tok w msg ret log)
  obtain t where t: "tok = Some t" "lease_holder d rid = Some t"
    using committed_by_holder(3)[OF wf fail(2)] by blast
  obtain r tk where r: "run_at d rid = Some r" "tr_lease_token r = Some t" "task_of d r = Some tk"
    by (rule lease_holderE[OF wf t(2)])
  then show ?thesis
    using fail(2) complete_failure_accepted[OF wf r] audit_ok_lease_update[OF wf ok r(1,2)] run_at_in[OF r(1)]
    by (auto simp: t(1) requeue_row_def failed_row_def split: if_splits)
next
  case (schedule stamp fails now b)
  then show ?thesis using audit_ok_schedule[OF ok] by (simp add: run_due_schedules_def Let_def)
next
  case (create tid now org user src)
  then show ?thesis using audit_ok_create[OF ok] by simp
qed

text \<open>C8: The event table is a faithful audit trail under every interleaving: replaying a run's events
  yields its current status, and each recorded transition starts from the status the previous event
  of that run left.\<close>

theorem audit_trail_replays:
  assumes "db_wf d" "audit_ok d" "(engine_step cfg)\<^sup>*\<^sup>* d d'"
  shows "trail_chained (events d')
    \<and> (\<forall>r \<in> set (task_runs d'). trail_status (tr_id r) (events d') = Some (tr_status r))"
proof -
  from assms(3) have "audit_ok d'"
  proof (induction rule: rtranclp_induct)
    case (step y z)
    show ?case by (rule audit_ok_step[OF engine.inv_reach[OF step.hyps(1) assms(1)] step.IH step.hyps(2)])
  qed (rule assms(2))
  then show ?thesis by (simp add: audit_ok_def)
qed

theorem audit_trail_replays_witness: "trail_status 2 (events sample_done) = Some SUCCESS"
  using audit_trail_replays[OF sample_wf _ sample_reach]
  by (simp add: audit_ok_def sample_done_eq sample_db_def sample_run_def trail_chained_def
      trail_status_def success_row_def claim_row_def)

end
