(* ===== verification/WorkerLoop.thy ===== *)
theory WorkerLoop
  imports EngineProps
begin

text \<open>
  The worker process: \<open>app.worker.reaper\<close> and \<open>app.worker.runner\<close>.

  Both are sequences of engine calls with other processes' calls in between.  The reaper selects
  expired leases in one transaction and reports each of them in a later one, so selection and
  report are separate definitions here and a race is a statement about what happens between them.
  \<open>execute_one\<close> reads the run's lease token from the row as it is when execution starts (the
  session expires its instances at every commit), runs the handler while the rest of the system
  moves on, and then reports.  The handler's outcome and the moves of the rest of the system are
  parameters.  Database errors other than those of the engine are not modelled.
\<close>

section \<open>Reaper\<close>

definition lease_expired :: "time \<Rightarrow> task_run \<Rightarrow> bool" where
  "lease_expired now r \<longleftrightarrow> tr_status r = RUNNING
     \<and> (case tr_lease_expires_at r of None \<Rightarrow> False | Some e \<Rightarrow> e < now)"

definition reap_select :: "time \<Rightarrow> db \<Rightarrow> (nat \<times> nat option) list" where
  "reap_select now d =
     map (\<lambda>r. (tr_id r, tr_lease_token r)) (filter (lease_expired now) (task_runs d))"

definition reap_message :: string where
  "reap_message = ''Execution timed out: lease expired without a heartbeat (worker likely crashed or lost connectivity).''"

text \<open>
  One iteration of the sweep.  An exception, the database's rejection of the commit included, is
  logged and rolled back; the sweep goes on.
\<close>

definition reap_one ::
  "settings \<Rightarrow> (nat \<Rightarrow> time) \<Rightarrow> string \<Rightarrow> nat \<times> nat option \<Rightarrow> db \<times> nat \<Rightarrow> db \<times> nat"
where
  "reap_one cfg clk worker x acc =
     (let (rid, tok) = x; (d, recovered) = acc in
      case complete_failure cfg (clk rid) rid tok worker reap_message True None d of
        Inl _ \<Rightarrow> (d, recovered)
      | Inr d' \<Rightarrow> if checks_ok d' then (d', recovered + 1) else (d, recovered))"

definition reap_expired_runs ::
  "settings \<Rightarrow> time \<Rightarrow> (nat \<Rightarrow> time) \<Rightarrow> string \<Rightarrow> db \<Rightarrow> db \<times> nat"
where
  "reap_expired_runs cfg now clk worker d =
     fold (reap_one cfg clk worker) (reap_select now d) (d, 0)"

section \<open>Runner\<close>

text \<open>How the handler call ends: a value, or an exception of one of the classes the runner tells apart.\<close>

datatype handler_outcome =
    Returned "string option"
  | Transient string
  | Permanent string
  | LostLease
  | Unexpected string

definition unexpected_message :: "string \<Rightarrow> string" where
  "unexpected_message m = ''Unexpected error: '' @ m"

text \<open>
  The \<open>try\<close> statement after the handler call.  The second component is an exception that leaves
  \<open>execute_one\<close>: only the last \<open>except\<close> clause guards its own call of \<open>complete_failure\<close>.
\<close>

definition execute_finish ::
  "settings \<Rightarrow> time \<Rightarrow> string \<Rightarrow> nat \<Rightarrow> nat option \<Rightarrow> handler_outcome \<Rightarrow> db \<Rightarrow> db \<times> engine_error option"
where
  "execute_finish cfg now worker rid tok out d =
     (let fail = (\<lambda>msg retryable. complete_failure cfg now rid tok worker msg retryable None d);
          unexpected = (\<lambda>m. case fail (unexpected_message m) True of
              Inr d' \<Rightarrow> (d', None)
            | Inl (LeaseLostError _) \<Rightarrow> (d, None)
            | Inl e \<Rightarrow> (d, Some e))
      in case out of
           Returned log \<Rightarrow> (case complete_success now rid tok worker log d of
               Inr d' \<Rightarrow> (d', None)
             | Inl (LeaseLostError _) \<Rightarrow> (d, None)
             | Inl AttributeError \<Rightarrow> unexpected '''')
         | Transient m \<Rightarrow> (case fail m True of Inr d' \<Rightarrow> (d', None) | Inl e \<Rightarrow> (d, Some e))
         | Permanent m \<Rightarrow> (case fail m False of Inr d' \<Rightarrow> (d', None) | Inl e \<Rightarrow> (d, Some e))
         | LostLease \<Rightarrow> (d, None)
         | Unexpected m \<Rightarrow> unexpected m)"

text \<open>\<open>world rid\<close> is what other sessions commit while the handler of \<open>rid\<close> runs.\<close>

definition execute_one ::
  "settings \<Rightarrow> (nat \<Rightarrow> time) \<Rightarrow> string \<Rightarrow> (nat \<Rightarrow> db \<Rightarrow> db) \<Rightarrow> (nat \<Rightarrow> handler_outcome) \<Rightarrow> nat \<Rightarrow> db
     \<Rightarrow> db \<times> engine_error option"
where
  "execute_one cfg clk worker world outcome_of rid d =
     (let tok = Option.bind (get_row tr_id rid (task_runs d)) tr_lease_token
      in execute_finish cfg (clk rid) worker rid tok (outcome_of rid) (world rid d))"

text \<open>The \<open>for task_run in claimed\<close> loop of \<open>run_forever\<close>; an escaping exception ends the process.\<close>

fun run_claimed ::
  "settings \<Rightarrow> (nat \<Rightarrow> time) \<Rightarrow> string \<Rightarrow> (nat \<Rightarrow> db \<Rightarrow> db) \<Rightarrow> (nat \<Rightarrow> handler_outcome) \<Rightarrow> nat list \<Rightarrow> db
     \<Rightarrow> db \<times> engine_error option"
where
  "run_claimed cfg clk worker world outcome_of [] d = (d, None)"
| "run_claimed cfg clk worker world outcome_of (rid # rids) d =
     (case execute_one cfg clk worker world outcome_of rid d of
        (d', None) \<Rightarrow> run_claimed cfg clk worker world outcome_of rids d'
      | (d', Some e) \<Rightarrow> (d', Some e))"

section \<open>The reaper's sweep\<close>

lemma checks_of_wf: "db_wf d \<Longrightarrow> checks_ok d"
  by (auto simp: db_wf_def checks_ok_def row_ok_def)

text \<open>Reporting a held lease as failed always commits when the clock has not run backwards.\<close>

lemma complete_failure_commits:
  assumes wf: "db_wf d" and r: "run_at d rid = Some r" "tr_lease_token r = Some t"
    and clk: "\<forall>s. tr_started_at r = Some s \<longrightarrow> s \<le> now"
  shows "\<exists>d' f. complete_failure cfg now rid (Some t) w msg ret log d = Inr d' \<and> db_wf d'
     \<and> (\<forall>i. run_at d' i = (if i = rid then Some (f r) else run_at d i))
     \<and> (f = failed_row now msg log
        \<or> f = requeue_row (now + seconds (retry_delay cfg (tr_attempt_count r))) log)"
proof -
  obtain tk where tk: "task_of d r = Some tk" using task_of_exists[OF wf r(1)] by blast
  have run: "tr_status r = RUNNING" and ok: "row_ok r"
    using run_at_in[OF r(1)] r(2) token_means_running[OF db_wfD(2)[OF wf]] db_wfD(2)[OF wf] by blast+
  have only: "x = r" if "x \<in> set (task_runs d)" "holds_lease rid (Some t) x" for x
    using keyed_inj[OF db_wfD(1)[OF wf] that(1), of r] that(2) run_at_in[OF r(1)]
    by (auto simp: holds_lease_def)
  have wf': "db_wf (d\<lparr>task_runs := update_where (holds_lease rid (Some t)) f (task_runs d)\<rparr>)"
    if "row_ok (f r)" "\<And>x. tr_id (f x) = tr_id x" "\<And>x. tr_task_id (f x) = tr_task_id x"
      "\<And>x. tr_lease_token (f x) = None" for f
    using that only by (intro db_wf_update[OF wf]) auto
  note acc = complete_failure_accepted[OF wf r tk, of cfg now w msg ret log]
  let ?q = "requeue_row (now + seconds (retry_delay cfg (tr_attempt_count r))) log"
  show ?thesis
  proof (cases "ret \<and> int (tr_attempt_count r) < effective_max_attempts cfg tk")
    case True
    then obtain d' where d': "complete_failure cfg now rid (Some t) w msg ret log d = Inr d'"
        "d' = record_event r ''requeued'' (Some RUNNING) (Some PENDING) (Some w)
            (RequeuedDetail msg (now + seconds (retry_delay cfg (tr_attempt_count r))) (tr_attempt_count r))
            (d\<lparr>task_runs := update_where (holds_lease rid (Some t)) ?q (task_runs d)\<rparr>)"
      using acc by simp
    have "db_wf d'" unfolding d'(2) using wf'[of ?q] row_ok_requeue[OF ok] by simp
    moreover have "run_at d' i = (if i = rid then Some (?q r) else run_at d i)" for i
      unfolding d'(2) using run_at_lease_update[OF wf r, of ?q i] by simp
    ultimately show ?thesis using d'(1) by blast
  next
    case False
    let ?f = "failed_row now msg log"
    from False obtain d' where d': "complete_failure cfg now rid (Some t) w msg ret log d = Inr d'"
        "d' = record_event r ''failed'' (Some RUNNING) (Some FAILED) (Some w)
            (FailedDetail msg (tr_attempt_count r) ret)
            (d\<lparr>task_runs := update_where (holds_lease rid (Some t)) ?f (task_runs d)\<rparr>)"
      using acc by auto
    have "db_wf d'" unfolding d'(2) using wf'[of ?f] row_ok_failed[OF ok run] clk by simp
    moreover have "run_at d' i = (if i = rid then Some (?f r) else run_at d i)" for i
      unfolding d'(2) using run_at_lease_update[OF wf r, of ?f i] by simp
    ultimately show ?thesis using d'(1) by blast
  qed
qed

lemma finished_row_facts [simp]:
  "\<not> lease_expired now (failed_row t msg log r)"
  "\<not> lease_expired now (requeue_row t log r)"
  "tr_status (failed_row t msg log r) = FAILED"
  "tr_status (requeue_row t log r) = PENDING"
  by (simp_all add: lease_expired_def failed_row_def requeue_row_def)

definition recovered_run :: "task_run \<Rightarrow> bool" where
  "recovered_run r \<longleftrightarrow> tr_status r \<in> {PENDING, FAILED} \<and> tr_lease_token r = None"

lemma fold_reap:
  assumes "db_wf d" "distinct (map fst xs)"
    and "\<forall>(rid, tok) \<in> set xs. \<exists>r t. run_at d rid = Some r \<and> tok = Some t \<and> tr_lease_token r = Some t
          \<and> (\<forall>s. tr_started_at r = Some s \<longrightarrow> s \<le> clk rid)"
  shows "\<exists>d'. fold (reap_one cfg clk w) xs (d, n) = (d', n + length xs) \<and> db_wf d'
    \<and> (\<forall>i. i \<notin> fst ` set xs \<longrightarrow> run_at d' i = run_at d i)
    \<and> (\<forall>i \<in> fst ` set xs. \<exists>r'. run_at d' i = Some r' \<and> recovered_run r')"
  using assms
proof (induction xs arbitrary: d n)
  case Nil
  then show ?case by simp
next
  case (Cons x xs)
  obtain rid tok where x: "x = (rid, tok)" by (cases x)
  then obtain r t where r: "run_at d rid = Some r" "tr_lease_token r = Some t" "tok = Some t"
      "\<forall>s. tr_started_at r = Some s \<longrightarrow> s \<le> clk rid"
    using Cons.prems(3) by auto
  obtain d1 f where d1: "complete_failure cfg (clk rid) rid (Some t) w reap_message True None d = Inr d1"
      "db_wf d1" "\<forall>i. run_at d1 i = (if i = rid then Some (f r) else run_at d i)"
      and f: "f = failed_row (clk rid) reap_message None
        \<or> f = requeue_row (clk rid + seconds (retry_delay cfg (tr_attempt_count r))) None"
    using complete_failure_commits[OF Cons.prems(1) r(1,2,4)] by blast
  have one: "reap_one cfg clk w x (d, n) = (d1, n + 1)"
    using d1(1) checks_of_wf[OF d1(2)] by (simp add: x r(3) reap_one_def)
  have notin: "rid \<notin> fst ` set xs" and dist: "distinct (map fst xs)" using Cons.prems(2) x by auto
  have pre: "\<forall>(rid, tok) \<in> set xs. \<exists>r t. run_at d1 rid = Some r \<and> tok = Some t \<and> tr_lease_token r = Some t
          \<and> (\<forall>s. tr_started_at r = Some s \<longrightarrow> s \<le> clk rid)"
  proof (clarify)
    fix i k assume i: "(i, k) \<in> set xs"
    then have "i \<noteq> rid" using notin by force
    then show "\<exists>r t. run_at d1 i = Some r \<and> k = Some t \<and> tr_lease_token r = Some t
          \<and> (\<forall>s. tr_started_at r = Some s \<longrightarrow> s \<le> clk i)"
      using Cons.prems(3) i d1(3) by auto
  qed
  obtain d' where d': "fold (reap_one cfg clk w) xs (d1, n + 1) = (d', n + 1 + length xs)" "db_wf d'"
      "\<forall>i. i \<notin> fst ` set xs \<longrightarrow> run_at d' i = run_at d1 i"
      "\<forall>i \<in> fst ` set xs. \<exists>r'. run_at d' i = Some r' \<and> recovered_run r'"
    using Cons.IH[OF d1(2) dist pre] by blast
  have "recovered_run (f r)" using f by (auto simp: recovered_run_def)
  then have "\<forall>i \<in> fst ` set (x # xs). \<exists>r'. run_at d' i = Some r' \<and> recovered_run r'"
    using d'(3,4) d1(3) notin by (auto simp: x)
  then show ?case
    using d' one d1(3) by (intro exI[of _ d']) (auto simp: x)
qed

lemma reap_select_facts:
  assumes "db_wf d"
  shows "distinct (map fst (reap_select now d))"
    and "i \<in> fst ` set (reap_select now d) \<longleftrightarrow> (\<exists>r. run_at d i = Some r \<and> lease_expired now r)"
proof -
  show "distinct (map fst (reap_select now d))"
    using db_wfD(1)[OF assms] by (simp add: reap_select_def comp_def distinct_map_filter)
  show "i \<in> fst ` set (reap_select now d) \<longleftrightarrow> (\<exists>r. run_at d i = Some r \<and> lease_expired now r)"
    using get_row_eqI[OF db_wfD(1)[OF assms]] run_at_in[of d i]
    by (auto simp: reap_select_def image_image run_at_def)
qed

text \<open>C29: An undisturbed sweep recovers every run whose lease has expired, counts them, and touches no
  other run: each expired run is pending or failed afterwards, without a lease.\<close>

theorem reaper_recovers_expired:
  assumes wf: "db_wf d"
    and clk: "\<forall>rid r s. run_at d rid = Some r \<longrightarrow> tr_started_at r = Some s \<longrightarrow> s \<le> clk rid"
    and res: "reap_expired_runs cfg now clk w d = (d', n)"
  shows "n = rowcount (lease_expired now) (task_runs d)
    \<and> (\<forall>rid r. run_at d rid = Some r \<longrightarrow>
         (if lease_expired now r then \<exists>r'. run_at d' rid = Some r' \<and> recovered_run r'
          else run_at d' rid = Some r))"
proof -
  have pre: "\<forall>(rid, tok) \<in> set (reap_select now d). \<exists>r t. run_at d rid = Some r \<and> tok = Some t
      \<and> tr_lease_token r = Some t \<and> (\<forall>s. tr_started_at r = Some s \<longrightarrow> s \<le> clk rid)"
  proof (clarify)
    fix rid tok assume "(rid, tok) \<in> set (reap_select now d)"
    then obtain r where r: "r \<in> set (task_runs d)" "lease_expired now r" "rid = tr_id r"
        "tok = tr_lease_token r"
      by (auto simp: reap_select_def)
    moreover have "run_at d rid = Some r"
      using get_row_eqI[OF db_wfD(1)[OF wf] r(1)] r(3) by (simp add: run_at_def)
    moreover obtain t where "tr_lease_token r = Some t"
      using running_has_token[OF db_wfD(2)[OF wf r(1)]] r(2) by (auto simp: lease_expired_def)
    ultimately show "\<exists>r t. run_at d rid = Some r \<and> tok = Some t \<and> tr_lease_token r = Some t
        \<and> (\<forall>s. tr_started_at r = Some s \<longrightarrow> s \<le> clk rid)"
      using clk by auto
  qed
  obtain d1 where d1: "reap_expired_runs cfg now clk w d = (d1, length (reap_select now d))"
      "\<forall>i. i \<notin> fst ` set (reap_select now d) \<longrightarrow> run_at d1 i = run_at d i"
      "\<forall>i \<in> fst ` set (reap_select now d). \<exists>r'. run_at d1 i = Some r' \<and> recovered_run r'"
    using fold_reap[OF wf reap_select_facts(1)[OF wf] pre, of cfg w 0]
    by (auto simp: reap_expired_runs_def)
  have "length (reap_select now d) = rowcount (lease_expired now) (task_runs d)"
    by (simp add: reap_select_def rowcount_def)
  moreover have "if lease_expired now r then \<exists>r'. run_at d1 rid = Some r' \<and> recovered_run r'
      else run_at d1 rid = Some r" if "run_at d rid = Some r" for rid r
    using d1(2,3)[rule_format, of rid] reap_select_facts(2)[OF wf, of rid now] that by simp
  ultimately show ?thesis using d1(1) res by simp
qed

theorem reaper_recovers_expired_witness:
  "\<exists>r'. run_at (fst (reap_expired_runs sample_settings 400000000 (\<lambda>_. 400000001) ''reaper'' sample_running)) 2
      = Some r' \<and> recovered_run r'"
proof -
  obtain d' n where c: "reap_expired_runs sample_settings 400000000 (\<lambda>_. 400000001) ''reaper'' sample_running = (d', n)"
    by (cases "reap_expired_runs sample_settings 400000000 (\<lambda>_. 400000001) ''reaper'' sample_running")
  have clk: "\<forall>rid r s. run_at sample_running rid = Some r \<longrightarrow> tr_started_at r = Some s \<longrightarrow> s \<le> 400000001"
    using run_at_in[of sample_running] by (fastforce simp: sample_running_eq claim_row_def)
  have "if lease_expired 400000000 (claim_row 5 10 300000005 sample_run)
      then \<exists>r'. run_at d' 2 = Some r' \<and> recovered_run r'
      else run_at d' 2 = Some (claim_row 5 10 300000005 sample_run)"
    using conjunct2[OF reaper_recovers_expired[where clk = "\<lambda>_. 400000001", OF sample_running_wf clk c]]
      sample_running_run by blast
  then show ?thesis by (simp add: c lease_expired_def claim_row_def)
qed

section \<open>The reaper against a late heartbeat\<close>

text \<open>
  The module text of \<open>reaper.py\<close> says that in a race with a worker that heartbeats at the last
  moment one of the two updates affects zero rows.  It does not: the sweep's report carries the
  token read at selection, which the heartbeat leaves in place, and does not look at the renewed
  expiry.
\<close>

lemma heartbeat_keeps_token:
  assumes wf: "db_wf d" and beat: "heartbeat cfg now rid (Some t) d = Inr d'"
  shows "db_wf d' \<and> lease_holder d' rid = Some t"
proof
  show "db_wf d'" by (rule engine.inv_step[OF wf engine_step.beat[OF beat]])
  obtain r tk where r: "run_at d rid = Some r" "tr_lease_token r = Some t" "task_of d r = Some tk"
    using lease_holderE[OF wf] committed_by_holder(1)[OF wf beat] by (metis option.inject)
  show "lease_holder d' rid = Some t"
    using heartbeat_accepted[OF wf r] beat run_at_lease_update[OF wf r(1,2)] r(2)
    by (auto simp: lease_holder_def)
qed

text \<open>Renewing a lease does not protect it from a sweep that has already selected it: when the
  heartbeat is accepted between the reaper's selection and its report, the report still succeeds and
  the live worker's lease is taken away.\<close>

theorem reaper_takes_renewed_lease:
  assumes wf: "db_wf d" and sel: "(rid, Some t) \<in> set (reap_select now d)"
    and beat: "heartbeat cfg now' rid (Some t) d = Inr d1"
    and clk: "\<forall>r s. run_at d1 rid = Some r \<longrightarrow> tr_started_at r = Some s \<longrightarrow> s \<le> clk rid"
  shows "\<exists>d2. reap_one cfg clk w (rid, Some t) (d1, n) = (d2, n + 1) \<and> lease_holder d2 rid = None
    \<and> complete_success now'' rid (Some t) w' log d2 = Inl (LeaseLostError rid)"
proof -
  have h: "db_wf d1" "lease_holder d1 rid = Some t"
    using heartbeat_keeps_token[OF wf beat] by blast+
  obtain r tk where r: "run_at d1 rid = Some r" "tr_lease_token r = Some t" "tr_status r = RUNNING"
      "row_ok r" "task_of d1 r = Some tk"
    by (rule lease_holderE[OF h])
  have c: "\<forall>s. tr_started_at r = Some s \<longrightarrow> s \<le> clk rid" using clk r(1) by simp
  obtain d2 f where d2: "complete_failure cfg (clk rid) rid (Some t) w reap_message True None d1 = Inr d2"
      "db_wf d2" "\<forall>i. run_at d2 i = (if i = rid then Some (f r) else run_at d1 i)"
      "f = failed_row (clk rid) reap_message None
        \<or> f = requeue_row (clk rid + seconds (retry_delay cfg (tr_attempt_count r))) None"
    using complete_failure_commits[OF h(1) r(1,2) c] by blast
  have "lease_holder d2 rid = None" using d2(3,4) by (auto simp: lease_holder_def)
  then show ?thesis
    using d2(1) checks_of_wf[OF d2(2)] refused(2)[OF d2(2), of rid t] by (simp add: reap_one_def)
qed

lemma sample_selected: "(2, Some 10) \<in> set (reap_select 300000006 sample_running)"
  by (simp add: reap_select_def lease_expired_def sample_running_eq claim_row_def sample_run_def)

theorem reaper_takes_renewed_lease_witness:
  "\<exists>d1. heartbeat sample_settings 300000007 2 (Some 10) sample_running = Inr d1
     \<and> lease_holder (fst (reap_one sample_settings (\<lambda>_. 300000008) ''reaper'' (2, Some 10) (d1, 0))) 2 = None"
proof -
  obtain r tk where r: "run_at sample_running 2 = Some r" "tr_lease_token r = Some 10"
      "task_of sample_running r = Some tk"
    by (rule lease_holderE[OF sample_running_wf sample_running_holder])
  obtain d1 where d1: "heartbeat sample_settings 300000007 2 (Some 10) sample_running = Inr d1"
      "\<forall>r \<in> set (task_runs d1). tr_started_at r = Some 5"
    using heartbeat_accepted[OF sample_running_wf r, of sample_settings 300000007]
    by (auto simp: sample_running_eq claim_row_def update_where_def)
  have c: "\<forall>r s. run_at d1 2 = Some r \<longrightarrow> tr_started_at r = Some s \<longrightarrow> s \<le> 300000008"
    using d1(2) run_at_in[of d1 2] by auto
  obtain d2 where "reap_one sample_settings (\<lambda>_. 300000008) ''reaper'' (2, Some 10) (d1, 0) = (d2, 0 + 1)"
      "lease_holder d2 2 = None"
    using reaper_takes_renewed_lease[where clk = "\<lambda>_. 300000008" and n = 0 and w = "''reaper''",
        OF sample_running_wf sample_selected d1(1) c] by blast
  then show ?thesis using d1(1) by simp
qed

section \<open>What \<open>execute_one\<close> reports\<close>

text \<open>While its lease is held, a worker's execution is reported whatever the handler did: a value
  as success, an exception as failure or retry; no exception leaves \<open>execute_one\<close> and the run is no
  longer running.\<close>

theorem execute_finish_reports:
  assumes wf: "db_wf d" and h: "lease_holder d rid = Some t" and out: "out \<noteq> LostLease"
    and fin: "execute_finish cfg now w rid (Some t) out d = (d', exn)"
  shows "exn = None \<and> lease_holder d' rid = None
    \<and> (\<exists>r'. run_at d' rid = Some r' \<and>
          (case out of Returned log \<Rightarrow> tr_status r' = SUCCESS \<and> tr_log_output r' = log
           | Permanent m \<Rightarrow> tr_status r' = FAILED \<and> tr_error_message r' = Some m
           | _ \<Rightarrow> tr_status r' \<in> {PENDING, FAILED}))"
proof -
  obtain r tk where r: "run_at d rid = Some r" "tr_lease_token r = Some t" "tr_status r = RUNNING"
      "row_ok r" "task_of d r = Some tk"
    by (rule lease_holderE[OF wf h])
  note acc = complete_success_accepted[OF wf r(1,2)] complete_failure_accepted[OF wf r(1,2,5)]
    run_at_lease_update[OF wf r(1,2)]
  show ?thesis
    using fin out acc
    by (cases out) (auto simp: execute_finish_def Let_def lease_holder_def success_row_def failed_row_def
        requeue_row_def split: if_splits)
qed

theorem execute_finish_reports_witness:
  "snd (execute_finish sample_settings 7 ''w'' 2 (Some 10) (Permanent ''bad'') sample_running) = None"
proof -
  obtain d' e where c: "execute_finish sample_settings 7 ''w'' 2 (Some 10) (Permanent ''bad'') sample_running = (d', e)"
    by (cases "execute_finish sample_settings 7 ''w'' 2 (Some 10) (Permanent ''bad'') sample_running")
  show ?thesis
    using execute_finish_reports[OF sample_running_wf sample_running_holder _ c] by (simp add: c)
qed

text \<open>When the lease is lost while the handler runs, the worker changes nothing; but only for a
  returned value and an unexpected exception is the loss handled.  For a transient or permanent
  handler error the \<open>LeaseLostError\<close> of the report leaves \<open>execute_one\<close>, and the loop over the
  claimed runs ends there.\<close>

theorem lost_lease_escapes:
  assumes wf: "db_wf (world rid d)"
    and tok: "lease_holder d rid = Some t" and lost: "lease_holder (world rid d) rid \<noteq> Some t"
  shows "run_claimed cfg clk w world outcome_of (rid # rids) d =
    (case outcome_of rid of
       Transient m \<Rightarrow> (world rid d, Some (LeaseLostError rid))
     | Permanent m \<Rightarrow> (world rid d, Some (LeaseLostError rid))
     | _ \<Rightarrow> run_claimed cfg clk w world outcome_of rids (world rid d))"
  using refused[OF wf lost] tok
  by (simp add: execute_one_def execute_finish_def Let_def lease_holder_def run_at_def split: handler_outcome.splits)

theorem lost_lease_escapes_witness:
  "run_claimed sample_settings (\<lambda>_. 9) ''w'' (\<lambda>_ _. sample_done) (\<lambda>_. Transient ''late'') [2] sample_running
   = (sample_done, Some (LeaseLostError 2))"
  using lost_lease_escapes[where world = "\<lambda>_ _. sample_done" and rid = 2 and d = sample_running and t = 10
      and outcome_of = "\<lambda>_. Transient ''late''" and rids = "[]"]
  by (simp add: sample_done_wf sample_running_holder lease_holder_def[of sample_done] sample_done_run
      success_row_def)

text \<open>The token is read from the row when execution starts, not kept from the claim: whoever holds
  the lease at that moment, an undisturbed \<open>execute_one\<close> by any worker completes the run under it,
  and the holder's own later report is refused.\<close>

theorem execution_uses_current_token:
  assumes wf: "db_wf d" and h: "lease_holder d rid = Some t"
    and one: "execute_one cfg clk w (\<lambda>_ d. d) (\<lambda>_. Returned log) rid d = (d', exn)"
  shows "exn = None \<and> (\<exists>r'. run_at d' rid = Some r' \<and> tr_status r' = SUCCESS)
    \<and> (checks_ok d' \<longrightarrow> report cfg c d' rid t = None)"
proof -
  have fin: "execute_finish cfg (clk rid) w rid (Some t) (Returned log) d = (d', exn)"
    using one h by (simp add: execute_one_def lease_holder_def run_at_def)
  have res: "exn = None" "\<exists>r'. run_at d' rid = Some r' \<and> tr_status r' = SUCCESS"
    using execute_finish_reports[OF wf h _ fin] by auto
  obtain r tk where r: "run_at d rid = Some r" "tr_lease_token r = Some t" "task_of d r = Some tk"
    by (rule lease_holderE[OF wf h])
  have "complete_success (clk rid) rid (Some t) w log d = Inr d'"
    using fin complete_success_accepted[OF wf r(1,2)] by (simp add: execute_finish_def Let_def)
  then have "checks_ok d' \<Longrightarrow> report cfg (ReportSuccess (clk rid) w log) d rid t = Some d'" by simp
  then have "checks_ok d' \<Longrightarrow> report cfg c d' rid t = None"
    using engine_reports.reported_once[OF wf _ rtranclp.rtrancl_refl] by blast
  then show ?thesis using res by blast
qed

theorem execution_uses_current_token_witness:
  "snd (execute_one sample_settings (\<lambda>_. 9) ''other'' (\<lambda>_ d. d) (\<lambda>_. Returned None) 2 sample_running) = None"
proof -
  obtain d' e where c: "execute_one sample_settings (\<lambda>_. 9) ''other'' (\<lambda>_ d. d) (\<lambda>_. Returned None) 2 sample_running = (d', e)"
    by (cases "execute_one sample_settings (\<lambda>_. 9) ''other'' (\<lambda>_ d. d) (\<lambda>_. Returned None) 2 sample_running")
  show ?thesis
    using execution_uses_current_token[OF sample_running_wf sample_running_holder c] by (simp add: c)
qed

end
