(* ===== verification/Tenancy.thy ===== *)
theory Tenancy
  imports QualityHandlerProps
begin

text \<open>
  Tenant isolation of the audit chain: what a handler computes and what a decision request is
  answered depends on the rows of its own organization only.  And two samples of the chain
  down to quality control.
\<close>

section \<open>The rows of one organization\<close>

definition only_org :: "nat \<Rightarrow> pipeline \<Rightarrow> pipeline" where
  "only_org org s =
     s\<lparr>pl_engine := (pl_engine s)\<lparr>tasks := filter (\<lambda>t. task_org t = org) (tasks (pl_engine s)),
                                 task_runs := filter (\<lambda>r. tr_org r = org) (task_runs (pl_engine s))\<rparr>,
       pl_detection_rules := filter (\<lambda>r. sr_org r = org) (pl_detection_rules s),
       pl_remediation_rules := filter (\<lambda>r. sr_org r = org) (pl_remediation_rules s),
       pl_dataset_configs := filter (\<lambda>r. dg_org r = org) (pl_dataset_configs s),
       pl_thresholds := filter (\<lambda>t. tw_org t = org) (pl_thresholds s),
       pl_profiles := filter (\<lambda>r. pf_org r = org) (pl_profiles s),
       pl_detections := filter (\<lambda>r. dr_org r = org) (pl_detections s),
       pl_issues := filter (\<lambda>i. iw_org i = org) (pl_issues s),
       pl_remediations := filter (\<lambda>r. mr_org r = org) (pl_remediations s),
       pl_changes := filter (\<lambda>c. cg_org c = org) (pl_changes s),
       pl_decisions := filter (\<lambda>d. dc_org d = org) (pl_decisions s),
       pl_validations := filter (\<lambda>r. va_org r = org) (pl_validations s),
       pl_results := filter (\<lambda>r. vw_org r = org) (pl_results s),
       pl_quality := filter (\<lambda>r. qn_org r = org) (pl_quality s)\<rparr>"

named_theorems org_simps

lemma org_last [org_simps]:
  "filter (\<lambda>x. P x \<and> f x = k) (filter (\<lambda>x. f x = k) T) = filter (\<lambda>x. P x \<and> f x = k) T"
  by (induction T) auto

lemma org_first [org_simps]:
  "filter (\<lambda>x. f x = k \<and> P x) (filter (\<lambda>x. f x = k) T) = filter (\<lambda>x. f x = k \<and> P x) T"
  by (induction T) auto

lemma org_middle [org_simps]:
  "filter (\<lambda>x. P x \<and> f x = k \<and> Q x) (filter (\<lambda>x. f x = k) T) = filter (\<lambda>x. P x \<and> f x = k \<and> Q x) T"
  by (induction T) auto

lemma org_third [org_simps]:
  "filter (\<lambda>x. P x \<and> Q x \<and> f x = k) (filter (\<lambda>x. f x = k) T) = filter (\<lambda>x. P x \<and> Q x \<and> f x = k) T"
  by (induction T) auto

lemma org_implied:
  "(\<And>x. x \<in> set T \<Longrightarrow> g x = i \<Longrightarrow> f x = k) \<Longrightarrow> filter (\<lambda>x. g x = i) (filter (\<lambda>x. f x = k) T) = filter (\<lambda>x. g x = i) T"
  by (induction T) auto

lemma only_org_simps [org_simps]:
  "tasks (pl_engine (only_org org s)) = filter (\<lambda>t. task_org t = org) (tasks (pl_engine s))"
  "task_runs (pl_engine (only_org org s)) = filter (\<lambda>r. tr_org r = org) (task_runs (pl_engine s))"
  "pl_detection_rules (only_org org s) = filter (\<lambda>r. sr_org r = org) (pl_detection_rules s)"
  "pl_remediation_rules (only_org org s) = filter (\<lambda>r. sr_org r = org) (pl_remediation_rules s)"
  "pl_dataset_configs (only_org org s) = filter (\<lambda>r. dg_org r = org) (pl_dataset_configs s)"
  "pl_thresholds (only_org org s) = filter (\<lambda>t. tw_org t = org) (pl_thresholds s)"
  "pl_profiles (only_org org s) = filter (\<lambda>r. pf_org r = org) (pl_profiles s)"
  "pl_detections (only_org org s) = filter (\<lambda>r. dr_org r = org) (pl_detections s)"
  "pl_issues (only_org org s) = filter (\<lambda>i. iw_org i = org) (pl_issues s)"
  "pl_remediations (only_org org s) = filter (\<lambda>r. mr_org r = org) (pl_remediations s)"
  "pl_changes (only_org org s) = filter (\<lambda>c. cg_org c = org) (pl_changes s)"
  "pl_decisions (only_org org s) = filter (\<lambda>d. dc_org d = org) (pl_decisions s)"
  "pl_validations (only_org org s) = filter (\<lambda>r. va_org r = org) (pl_validations s)"
  "pl_results (only_org org s) = filter (\<lambda>r. vw_org r = org) (pl_results s)"
  "pl_quality (only_org org s) = filter (\<lambda>r. qn_org r = org) (pl_quality s)"
  by (simp_all add: only_org_def)

text \<open>What the foreign keys give: the runs of a task run belong to its organization.\<close>

definition runs_of_org :: "task_run \<Rightarrow> pipeline \<Rightarrow> bool" where
  "runs_of_org r s \<longleftrightarrow>
     list_all (\<lambda>x. dr_task_run x = tr_id r \<longrightarrow> dr_org x = tr_org r) (pl_detections s)
     \<and> list_all (\<lambda>x. mr_task_run x = tr_id r \<longrightarrow> mr_org x = tr_org r) (pl_remediations s)
     \<and> list_all (\<lambda>x. va_task_run x = tr_id r \<longrightarrow> va_org x = tr_org r) (pl_validations s)
     \<and> list_all (\<lambda>x. qn_task_run x = tr_id r \<longrightarrow> qn_org x = tr_org r) (pl_quality s)"

lemma existing_runs:
  assumes "runs_of_org r s"
  shows "filter (\<lambda>x. dr_task_run x = tr_id r) (pl_detections (only_org (tr_org r) s)) = filter (\<lambda>x. dr_task_run x = tr_id r) (pl_detections s)"
    "filter (\<lambda>x. mr_task_run x = tr_id r) (pl_remediations (only_org (tr_org r) s)) = filter (\<lambda>x. mr_task_run x = tr_id r) (pl_remediations s)"
    "filter (\<lambda>x. va_task_run x = tr_id r) (pl_validations (only_org (tr_org r) s)) = filter (\<lambda>x. va_task_run x = tr_id r) (pl_validations s)"
    "filter (\<lambda>x. qn_task_run x = tr_id r) (pl_quality (only_org (tr_org r) s)) = filter (\<lambda>x. qn_task_run x = tr_id r) (pl_quality s)"
  unfolding only_org_simps
  by (rule org_implied; use assms in \<open>auto simp: runs_of_org_def list_all_iff\<close>)+

lemma resolve_rule_org: "resolve_rule org source (filter (\<lambda>r. sr_org r = org) rules) = resolve_rule org source rules"
  by (rule ext) (simp add: resolve_rule_def org_first)

lemma load_column_rules_org: "load_column_rules env (only_org org s) org = load_column_rules env s org"
  by (intro ext) (simp add: load_column_rules_def only_org_simps resolve_rule_org)

lemma load_column_config_org: "load_column_config (only_org org s) org = load_column_config s org"
  by (intro ext) (simp add: load_column_config_def only_org_simps resolve_rule_org)

lemma load_dataset_config_org: "load_dataset_config (only_org org s) org source = load_dataset_config s org source"
  unfolding load_dataset_config_def org_simps ..

lemma approved_changes_org: "approved_changes (only_org org s) org run = approved_changes s org run"
  unfolding approved_changes_def org_simps Let_def ..

lemma resolve_threshold_org: "resolve_threshold (only_org org s) org source = resolve_threshold s org source"
  unfolding resolve_threshold_def org_simps ..

lemma resolve_chain_org: "resolve_chain (only_org org s) org v = resolve_chain s org v"
  unfolding resolve_chain_def task_run_of_org_def org_simps ..

lemma detection_reads_org:
  assumes "runs_of_org (cx_run cx) s"
  shows "detection_prepare env cx (only_org (tr_org (cx_run cx)) s) = detection_prepare env cx s"
  unfolding detection_prepare_def existing_runs[OF assms] detection_dataset_def load_column_rules_org ..

lemma remediation_reads_org:
  assumes "runs_of_org (cx_run cx) s"
  shows "remediation_prepare env cx (only_org (tr_org (cx_run cx)) s) = remediation_prepare env cx s"
  unfolding remediation_prepare_def Let_def unfolding existing_runs[OF assms] unfolding load_column_config_org load_dataset_config_org org_simps ..

lemma validation_reads_org:
  assumes "runs_of_org (cx_run cx) s"
  shows "validation_prepare env cx (only_org (tr_org (cx_run cx)) s) = validation_prepare env cx s"
  unfolding validation_prepare_def Let_def unfolding existing_runs[OF assms] unfolding load_column_config_org approved_changes_org org_simps ..

lemma quality_reads_org:
  assumes "runs_of_org (cx_run cx) s"
  shows "quality_prepare env cx (only_org (tr_org (cx_run cx)) s) = quality_prepare env cx s"
  unfolding quality_prepare_def Let_def unfolding existing_runs[OF assms] unfolding resolve_threshold_org resolve_chain_org org_simps ..

text \<open>C6: Tenant isolation of the audit chain.  What each of the four handlers reads and computes for a run does
  not depend on any row of another organization: on the database without those rows it gives the
  same error, finds the same existing run, or prepares the same rows.  Rules, thresholds,
  upstream runs, issues, changes and decisions of other organizations are invisible to it.\<close>

theorem handlers_read_one_organization:
  assumes "runs_of_org (cx_run cx) s"
  shows "detection_prepare env cx (only_org (tr_org (cx_run cx)) s) = detection_prepare env cx s
    \<and> remediation_prepare env cx (only_org (tr_org (cx_run cx)) s) = remediation_prepare env cx s
    \<and> validation_prepare env cx (only_org (tr_org (cx_run cx)) s) = validation_prepare env cx s
    \<and> quality_prepare env cx (only_org (tr_org (cx_run cx)) s) = quality_prepare env cx s"
  using detection_reads_org[OF assms] remediation_reads_org[OF assms] validation_reads_org[OF assms] quality_reads_org[OF assms] by blast

lemma visible_run_org:
  "get_visible_run_or_404 (pl_engine (only_org org s)) tid rid org = get_visible_run_or_404 (pl_engine s) tid rid org"
  unfolding get_visible_run_or_404_def get_active_task_or_404_def org_simps ..

lemma decisions_of_org: "decisions_of cid org (filter (\<lambda>d. dc_org d = org) ds) = decisions_of cid org ds"
  unfolding decisions_of_def org_simps ..

text \<open>A decision request is answered from the rows of the caller's organization only.\<close>

theorem decision_requests_read_one_organization:
  "check_decision tid rid cid u (only_org (us_org u) s) = check_decision tid rid cid u s
   \<and> get_remediation_change_decision tid rid cid u (only_org (us_org u) s) = get_remediation_change_decision tid rid cid u s"
  unfolding check_decision_def get_remediation_change_decision_def get_remediation_change_or_404_def
    get_remediation_run_or_404_def get_existing_decision_def visible_run_org org_simps decisions_of_org by simp

section \<open>A sample chain\<close>

definition chain_run :: "nat \<Rightarrow> nat option \<Rightarrow> task_run" where
  "chain_run i source =
     \<lparr>tr_id = i, tr_org = 0, tr_task_id = 1, tr_status = SUCCESS, tr_triggered_by = None, tr_started_at = Some 0,
      tr_finished_at = Some 9, tr_log_output = None, tr_error_message = None, tr_created_at = 0, tr_idempotency_key = i,
      tr_lease_token = None, tr_lease_expires_at = None, tr_last_heartbeat_at = None, tr_attempt_count = 1,
      tr_next_retry_at = None, tr_source_task_run_id = source\<rparr>"

definition chain_db :: db where
  "chain_db = \<lparr>tasks = [quality_task], task_runs = [chain_run 1 None, chain_run 2 (Some 1), chain_run 3 (Some 2),
      chain_run 4 (Some 3), chain_run 5 (Some 4)], events = [], uuid_supply = 50\<rparr>"

definition sample_change :: "nat \<Rightarrow> remediation_action \<Rightarrow> change_row" where
  "sample_change i a =
     \<lparr>cg_id = i, cg_org = 0, cg_run = 63, cg_issue = i + 10, cg_row = 4, cg_column = None, cg_action = a, cg_original = None,
      cg_proposed = None, cg_reason = [], cg_confidence = 1\<rparr>"

definition sample_result :: "nat \<Rightarrow> remediation_action \<Rightarrow> validation_row" where
  "sample_result i a =
     \<lparr>vw_id = i, vw_org = 0, vw_run = 64, vw_remediation = 63, vw_change = i, vw_issue = i + 10,
      vw_rule = validation_rule_name (Some a), vw_outcome = Passed, vw_reason = DUPLICATE_REMOVAL_CORRECTLY_FORMED,
      vw_original = None, vw_proposed = None\<rparr>"

definition sample_profile :: profile_row where
  "sample_profile = \<lparr>pf_id = 61, pf_org = 0, pf_task_run = 1, pf_rows = 3, pf_columns = 2, pf_duplicates = 1, pf_missing = 0\<rparr>"

definition chain_pipeline :: "threshold_config \<Rightarrow> pipeline" where
  "chain_pipeline th =
     (empty_pipeline chain_db)\<lparr>
       pl_thresholds := [\<lparr>tw_id = 60, tw_org = 0, tw_source = None, tw_active = True, tw_config = th\<rparr>],
       pl_profiles := [sample_profile],
       pl_detections := [\<lparr>dr_id = 62, dr_org = 0, dr_task_run = 2, dr_task = 1, dr_source = 3, dr_rows = 3, dr_columns = 2, dr_total = 2,
                          dr_persisted = 2, dr_by_severity = [], dr_by_type = [], dr_sha256 = None\<rparr>],
       pl_remediations := [\<lparr>mr_id = 63, mr_org = 0, mr_task_run = 3, mr_task = 1, mr_source = 3, mr_source_task_run = 2,
                            mr_considered = 2, mr_total = 2, mr_skipped = 0, mr_by_action = [], mr_skipped_by_reason = []\<rparr>],
       pl_validations := [\<lparr>va_id = 64, va_org = 0, va_task_run = 4, va_task = 1, va_source = 3, va_remediation = 63,
                           va_considered = 0, va_passed = 0, va_failed = 0, va_skipped = 0, va_by_rule = []\<rparr>]\<rparr>"

definition sample_source :: data_source where
  "sample_source = \<lparr>so_id = 3, so_org = 0, so_type = CSV_UPLOAD, so_active = True, so_file_path = Some ''a.csv''\<rparr>"

definition quality_context :: exec_context where
  "quality_context = \<lparr>cx_run = chain_run 5 (Some 4), cx_task = quality_task, cx_source = Some sample_source\<rparr>"

lemma handlers_read_one_organization_witness:
  "quality_prepare sample_env quality_context (only_org 0 (chain_pipeline default_thresholds))
   = quality_prepare sample_env quality_context (chain_pipeline default_thresholds)"
proof -
  have "runs_of_org (cx_run quality_context) (chain_pipeline default_thresholds)" by code_simp
  moreover have "tr_org (cx_run quality_context) = 0" by code_simp
  ultimately show ?thesis using handlers_read_one_organization[of quality_context "chain_pipeline default_thresholds" sample_env] by simp
qed

definition odd_thresholds :: threshold_config where
  "odd_thresholds =
     (let w = FloatNum (fl (7/10))
      in default_thresholds\<lparr>th_weights := Some [(''completeness'', w), (''uniqueness'', w), (''unresolved_risk'', w)]\<rparr>)"


text \<open>One row removed for two reasons is subtracted twice.  The last of three rows is a duplicate of
  the first and has its primary key; both removals are approved and pass validation; the effective statistics say that one
  row is left, where two are.\<close>

theorem row_removed_twice:
  "es_rows (compute_effective_stats sample_profile
      [sample_result 11 REMOVE_DUPLICATE_ROW, sample_result 12 REMOVE_DUPLICATE_PRIMARY_KEY]
      [sample_change 11 REMOVE_DUPLICATE_ROW, sample_change 12 REMOVE_DUPLICATE_PRIMARY_KEY] []) = 1
   \<and> pf_rows sample_profile - length (remdups (map cg_row [sample_change 11 REMOVE_DUPLICATE_ROW, sample_change 12 REMOVE_DUPLICATE_PRIMARY_KEY])) = 2"
  by code_simp

end
