(* ===== verification/TrimmedText.thy ===== *)
theory TrimmedText
  imports StandardizeEngine
begin

text \<open>
  Texts without surplus white space, and what the engines for cleaning and standardization share
  about their change logs.
\<close>

section \<open>Trimmed texts\<close>

definition trimmed :: "string \<Rightarrow> bool" where
  "trimmed s \<longleftrightarrow> trim_whitespace s = (s, None)"

fun tidy :: "string \<Rightarrow> bool" where
  "tidy (c # d # s) \<longleftrightarrow> (py_space c \<longrightarrow> c = CHR '' '' \<and> \<not> py_space d) \<and> tidy (d # s)"
| "tidy [c] \<longleftrightarrow> (py_space c \<longrightarrow> c = CHR '' '')"
| "tidy [] \<longleftrightarrow> True"

lemma length_sub_ws: "length (sub_ws '' '' s) \<le> length s"
proof (induction "'' ''" s rule: sub_ws.induct)
  case (2 c s)
  then show ?case using length_dropWhile_le[of py_space s] by auto
qed simp

lemma sub_ws_tidy: "sub_ws '' '' s = s \<longleftrightarrow> tidy s"
proof (induction s)
  case (Cons c s)
  have drop: "sub_ws '' '' (dropWhile py_space s) = s \<longleftrightarrow> dropWhile py_space s = s \<and> sub_ws '' '' s = s"
  proof
    assume a: "sub_ws '' '' (dropWhile py_space s) = s"
    then have "length s \<le> length (dropWhile py_space s)" using length_sub_ws by metis
    moreover have "dropWhile py_space s = s \<or> length (dropWhile py_space s) < length s"
      by (cases s) (auto simp: le_imp_less_Suc length_dropWhile_le)
    ultimately show "dropWhile py_space s = s \<and> sub_ws '' '' s = s" using a by auto
  qed simp
  show ?case
  proof (cases s)
    case Nil
    then show ?thesis by auto
  next
    case (Cons d t)
    have "dropWhile py_space s = s \<longleftrightarrow> \<not> py_space d"
    proof
      assume a: "dropWhile py_space s = s"
      show "\<not> py_space d"
      proof
        assume "py_space d"
        then have "length (dropWhile py_space s) < length s"
          using Cons length_dropWhile_le[of py_space t] by simp
        then show False using a by simp
      qed
    qed (use Cons in simp)
    then show ?thesis using Cons.IH drop Cons by auto
  qed
qed simp

lemma trimmed_iff: "trimmed s \<longleftrightarrow> s = [] \<or> (\<not> py_space (hd s) \<and> \<not> py_space (last s) \<and> tidy s)"
proof
  assume "trimmed s"
  then have s: "sub_ws '' '' (strip s) = s"
    by (auto simp: trimmed_def trim_whitespace_def ruled_if_changed_def split: if_splits)
  then have "strip s = s" using strip_sub_ws_strip[of s] by simp
  then show "s = [] \<or> (\<not> py_space (hd s) \<and> \<not> py_space (last s) \<and> tidy s)"
    using s strip_hd[of s] strip_last[of s] sub_ws_tidy[of s] by auto
next
  assume "s = [] \<or> (\<not> py_space (hd s) \<and> \<not> py_space (last s) \<and> tidy s)"
  then show "trimmed s"
  proof
    assume a: "\<not> py_space (hd s) \<and> \<not> py_space (last s) \<and> tidy s"
    then have "strip s = s" by (cases "s = []") (auto simp: strip_fixed)
    then show "trimmed s"
      using a sub_ws_tidy[of s] by (simp add: trimmed_def trim_whitespace_def)
  qed (simp add: trimmed_def trim_empty)
qed

lemma trimmed_trim: "trimmed (fst (trim_whitespace v))"
  using trim_stable.idempotent[of v] by (simp add: trimmed_def)

text \<open>A pointwise change of letters keeps a text trimmed.\<close>

definition letter_change :: "string \<Rightarrow> string \<Rightarrow> bool" where
  "letter_change s t = list_all2 (\<lambda>a b. py_space a = py_space b \<and> (py_space a \<longrightarrow> a = b)) s t"

lemma tidy_letter_change: "letter_change s t \<Longrightarrow> tidy s \<Longrightarrow> tidy t"
  unfolding letter_change_def
  by (induction s arbitrary: t rule: tidy.induct) (fastforce simp: list_all2_Cons1)+

lemma letter_change_ends:
  "letter_change s t \<Longrightarrow> s \<noteq> [] \<Longrightarrow>
     t \<noteq> [] \<and> py_space (hd t) = py_space (hd s) \<and> py_space (last t) = py_space (last s)"
proof -
  assume a: "letter_change s t" "s \<noteq> []"
  then have len: "length t = length s" by (simp add: letter_change_def list_all2_lengthD)
  have "py_space (s ! i) = py_space (t ! i)" if "i < length s" for i
    using a(1) that list_all2_nthD[of _ s t i] unfolding letter_change_def by blast
  moreover have t: "t \<noteq> []" using a(2) len by auto
  ultimately show ?thesis using a(2) len by (simp add: hd_conv_nth last_conv_nth)
qed

lemma trimmed_letter_change: "letter_change s t \<Longrightarrow> trimmed s \<Longrightarrow> trimmed t"
  using tidy_letter_change letter_change_ends
  by (cases "s = []") (fastforce simp: trimmed_iff letter_change_def)+

lemma spaces_no_case: "py_space c \<Longrightarrow> lower_char c = c" "py_space c \<Longrightarrow> upper_char c = c"
  by (auto simp: lower_char_def upper_char_def py_space_def py_upper_letter_def py_lower_letter_def)

lemma letter_change_lower: "letter_change s (lower s)"
  by (induction s) (auto simp: letter_change_def spaces_no_case)

lemma letter_change_capitalize: "letter_change w (capitalize_word w)"
  using letter_change_lower
  by (cases w) (auto simp: capitalize_word_def letter_change_def spaces_no_case)

lemma letter_change_append: "letter_change s t \<Longrightarrow> letter_change s' t' \<Longrightarrow> letter_change (s @ s') (t @ t')"
  by (simp add: letter_change_def list_all2_appendI)

lemma letter_change_title: "letter_change v (title_case v)"
proof -
  have "letter_change (join '' '' ws) (join '' '' (map capitalize_word ws))" for ws
  proof (induction "'' ''" ws rule: join.induct)
    case (3 w v ws)
    have "letter_change '' '' '' ''" by (simp add: letter_change_def)
    from letter_change_append[OF letter_change_capitalize[of w] letter_change_append[OF this 3]]
    show ?case by simp
  qed (auto simp: letter_change_def letter_change_capitalize[unfolded letter_change_def])
  then show ?thesis using join_split_on[of "CHR '' ''" v] by (simp add: title_case_def) metis
qed

lemma tidy_no_space: "list_all (\<lambda>c. \<not> py_space c) s \<Longrightarrow> tidy s"
  by (induction s rule: tidy.induct) auto

lemma tidy_spaced:
  "list_all (\<lambda>c. \<not> py_space c) a \<Longrightarrow> list_all (\<lambda>c. \<not> py_space c) b \<Longrightarrow> b \<noteq> [] \<Longrightarrow> tidy (a @ CHR '' '' # b)"
proof (induction a rule: tidy.induct)
  case (3)
  then show ?case by (cases b) (auto intro: tidy_no_space)
next
  case (2 c)
  then show ?case by (cases b) (auto intro: tidy_no_space)
qed auto

lemma trimmed_no_space: "list_all (\<lambda>c. \<not> py_space c) s \<Longrightarrow> trimmed s"
  by (cases "s = []") (auto simp: trimmed_iff tidy_no_space list_all_iff)

lemma trimmed_spaced:
  "list_all (\<lambda>c. \<not> py_space c) a \<Longrightarrow> list_all (\<lambda>c. \<not> py_space c) b \<Longrightarrow> a \<noteq> [] \<Longrightarrow> b \<noteq> [] \<Longrightarrow>
   trimmed (a @ CHR '' '' # b)"
  using tidy_spaced by (auto simp: trimmed_iff list_all_iff)

lemma boolean_trimmed: "trimmed ''true''" "trimmed ''false''"
  unfolding trimmed_def by code_simp+

lemma no_space_part: "list_all P s \<Longrightarrow> list_all P (take n s) \<and> list_all P (drop n s)"
  by (auto simp: list_all_iff dest: in_set_takeD in_set_dropD)

lemma filter_concat_order:
  assumes "\<And>j c. c \<in> set (g j) \<Longrightarrow> key c = h j" and "distinct js" and "j \<in> set js"
    and "inj_on h (set js)"
  shows "filter (\<lambda>c. key c = h j) (concat (map g js)) = g j"
proof -
  have same: "filter (\<lambda>c. key c = h j) (g k) = (if k = j then g k else [])" if "k \<in> set js" for k
    using assms that by (auto simp: filter_id_conv filter_empty_conv dest: inj_onD)
  have "concat (map (\<lambda>k. if k = j then g k else []) js) = g j" if "distinct js" "j \<in> set js" for js
  proof -
    have none: "concat (map (\<lambda>k. if k = j then g k else []) ks) = []" if "j \<notin> set ks" for ks
      using that by (induction ks) auto
    show ?thesis using that by (induction js) (auto simp: none)
  qed
  moreover have "filter (\<lambda>c. key c = h j) (concat (map g js)) =
      concat (map (\<lambda>k. if k = j then g k else []) js)"
    using same by (simp add: filter_concat comp_def cong: map_cong)
  ultimately show ?thesis using assms(2,3) by simp
qed

lemma rule_confidence_unit: "0 < rule_confidence r \<and> rule_confidence r \<le> 1"
proof -
  have "fl (7 / 10) \<le> fl x \<and> fl x \<le> fl 1" if "7 / 10 \<le> x" "x \<le> 1" for x
    using that by (simp add: fl_mono del: fl_1)
  moreover have "0 < fl (7 / 10)" by code_simp
  ultimately have "0 < fl x \<and> fl x \<le> 1" if "7 / 10 \<le> x" "x \<le> 1" for x
    using that by fastforce
  then show ?thesis by (cases r) simp_all
qed

end
