(* ===== verification/StandardizeProps.thy ===== *)
theory StandardizeProps
  imports TrimmedText
begin

text \<open>
  The properties of the standardization engine: the change log explains every cell, columns
  nobody classified are left alone, and running the engine twice changes nothing for the field
  types whose rules are stable.  For numbers and currencies it can.
\<close>

section \<open>Stable pipelines\<close>

definition quiet :: "(string \<Rightarrow> ruled) list \<Rightarrow> string \<Rightarrow> bool" where
  "quiet fs w \<longleftrightarrow> list_all (\<lambda>f. f w = (w, None)) fs"

lemma quiet_run: "quiet fs w \<Longrightarrow> run_rules fs w = (w, map (\<lambda>f. (w, w, None)) fs)"
  by (induction fs) (auto simp: quiet_def)

lemma quiet_silent: "quiet fs w \<Longrightarrow> changes_of_steps i col ft (snd (run_rules fs w)) = []"
  by (simp add: quiet_run changes_of_steps_def filter_map comp_def)

text \<open>A field rule that is stable and keeps trimmed texts trimmed.\<close>

locale field_rule = stable_rule +
  assumes keeps_trimmed: "trimmed v \<Longrightarrow> trimmed (fst (rule v))"
begin

lemma quiet_after_trim: "quiet [trim_whitespace, rule] (fst (run_rules [trim_whitespace, rule] v))"
proof -
  let ?w = "fst (trim_whitespace v)"
  have "trimmed (fst (rule ?w))" by (rule keeps_trimmed[OF trimmed_trim])
  then show ?thesis using idempotent[of ?w]
    by (auto simp: quiet_def trimmed_def split: prod.splits)
qed

end

lemma field_ruleI:
  assumes "stable_rule rule" and "\<And>v w r. rule v = (w, Some r) \<Longrightarrow> trimmed v \<Longrightarrow> trimmed w"
  shows "field_rule rule"
proof -
  have "trimmed (fst (rule v))" if "trimmed v" for v
  proof (cases "rule v")
    case (Pair w r)
    then show ?thesis
      using assms(2)[of v w] that value_rule.none_keeps[of rule v w] assms(1)
      by (cases r) (auto simp: stable_rule_def strict_rule_def)
  qed
  then show ?thesis using assms(1) by (simp add: field_rule_def field_rule_axioms_def)
qed

interpretation title_field: field_rule title_case_step
  by (rule field_ruleI[OF title_stable.stable_rule_axioms])
    (auto simp: title_case_step_def dest!: ruled_if_changedD
      intro: trimmed_letter_change[OF letter_change_title] split: if_splits)

interpretation email_field: field_rule standardize_email
  by (rule field_ruleI[OF email_stable.stable_rule_axioms])
    (auto simp: standardize_email_def Let_def dest!: ruled_if_changedD
      intro: trimmed_letter_change[OF letter_change_lower] split: if_splits)

interpretation boolean_field: field_rule "standardize_boolean None"
  by (rule field_ruleI[OF boolean_stable.stable_rule_axioms])
    (auto simp: standardize_boolean_def boolean_trimmed Let_def dest!: ruled_if_changedD split: if_splits)

lemma no_space_alnum: "list_all (\<lambda>c. \<not> py_space c) (alnum_only s)"
  by (auto simp: list_all_iff alnum_only_def py_space_def py_alpha_def py_upper_letter_def
      py_lower_letter_def py_digit_def)

lemma no_space_upper: "list_all (\<lambda>c. \<not> py_space c) s \<Longrightarrow> list_all (\<lambda>c. \<not> py_space c) (upper s)"
  by (simp add: upper_def list_all_iff)

interpretation postal_field: field_rule "standardize_postal_code c" for c
proof (rule field_ruleI[OF postal_stable.stable_rule_axioms])
  fix v w r
  assume a: "standardize_postal_code c v = (w, Some r)"
  let ?s = "alnum_only v" and ?c = "upper (alnum_only v)"
  have "w = ?s \<or> w = take 5 ?s @ ''-'' @ drop 5 ?s \<or> (length ?c = 6 \<and> w = take 3 ?c @ '' '' @ drop 3 ?c)"
    using a by (auto simp: standardize_postal_code_def Let_def dest!: ruled_if_changedD split: if_splits)
  moreover have "trimmed (take 5 ?s @ ''-'' @ drop 5 ?s)"
    using no_space_part[OF no_space_alnum, of 5 v] by (intro trimmed_no_space) (simp add: py_space_def)
  moreover have "trimmed (take 3 ?c @ '' '' @ drop 3 ?c)" if "length ?c = 6"
    using trimmed_spaced[of "take 3 ?c" "drop 3 ?c"] that
      no_space_part[OF no_space_upper[OF no_space_alnum], of 3 v] by fastforce
  ultimately show "trimmed w" using trimmed_no_space[OF no_space_alnum] by auto
qed

text \<open>Lookup tables whose targets are not sources of a different target.\<close>

definition closed_table :: "(string \<times> string) list \<Rightarrow> bool" where
  "closed_table t \<longleftrightarrow> list_all (\<lambda>(k, v). v \<noteq> [] \<and> trim_whitespace v = (v, None) \<and>
     (map_of t (lower (strip v)) = None \<or> map_of t (lower (strip v)) = Some v)) t"

lemma closed_tableD:
  "closed_table t \<Longrightarrow> map_of t k = Some v \<Longrightarrow>
     v \<noteq> [] \<and> trimmed v \<and> (map_of t (lower (strip v)) = None \<or> map_of t (lower (strip v)) = Some v)"
  by (drule map_of_SomeD) (auto simp: closed_table_def list_all_iff trimmed_def)

lemma us_closed: "closed_table DEFAULT_US_STATE_ABBREVIATIONS"
  by code_simp

lemma ca_closed: "closed_table DEFAULT_CA_PROVINCE_ABBREVIATIONS"
  by code_simp

lemma country_closed: "closed_table DEFAULT_COUNTRY_NAME_VARIANTS"
  by code_simp

interpretation state_field: field_rule "standardize_state_province c" for c
proof -
  let ?t = "if c = Some ''US'' then DEFAULT_US_STATE_ABBREVIATIONS else DEFAULT_CA_PROVINCE_ABBREVIATIONS"
  have closed: "closed_table ?t" by (simp add: us_closed ca_closed)
  have r: "standardize_state_province c v =
      (if v = [] \<or> c \<notin> {Some ''US'', Some ''CA''} then (v, None)
       else case map_of ?t (lower (strip v)) of None \<Rightarrow> (v, None)
            | Some w \<Rightarrow> ruled_if_changed v w StateProvinceAbbreviation)" for v
    by (simp add: standardize_state_province_def Let_def)
  have some: "c \<in> {Some ''US'', Some ''CA''} \<and> map_of ?t (lower (strip v)) = Some w"
    if "standardize_state_province c v = (w, Some q)" for v w q
    using that unfolding r by (auto dest!: ruled_if_changedD split: if_splits option.splits)
  have stable: "stable_rule (standardize_state_province c)"
  proof (rule stableI[OF state_province.strict_rule_axioms])
    fix v w q
    assume "standardize_state_province c v = (w, Some q)"
    from closed_tableD[OF closed conjunct2[OF some[OF this]]]
    show "standardize_state_province c w = (w, None)" unfolding r by (auto split: option.splits)
  qed
  show "field_rule (standardize_state_province c)"
    by (rule field_ruleI[OF stable]) (use some closed_tableD[OF closed] in blast)
qed

interpretation country_field: field_rule "standardize_country (\<lambda>_. None)"
proof -
  have r: "standardize_country (\<lambda>_. None) v =
      (if v = [] then (v, None)
       else case map_of DEFAULT_COUNTRY_NAME_VARIANTS (lower (strip v)) of None \<Rightarrow> (v, None)
            | Some w \<Rightarrow> ruled_if_changed v w CountryIsoNormalize)" for v
    by (simp add: standardize_country_def)
  have some: "map_of DEFAULT_COUNTRY_NAME_VARIANTS (lower (strip v)) = Some w"
    if "standardize_country (\<lambda>_. None) v = (w, Some q)" for v w q
    using that unfolding r by (auto dest!: ruled_if_changedD split: if_splits option.splits)
  have stable: "stable_rule (standardize_country (\<lambda>_. None))"
  proof (rule stableI[OF country.strict_rule_axioms])
    fix v w q
    assume "standardize_country (\<lambda>_. None) v = (w, Some q)"
    from closed_tableD[OF country_closed some[OF this]]
    show "standardize_country (\<lambda>_. None) w = (w, None)" unfolding r by (auto split: option.splits)
  qed
  show "field_rule (standardize_country (\<lambda>_. None))"
    by (rule field_ruleI[OF stable]) (use some closed_tableD[OF country_closed] in blast)
qed

section \<open>Rows and files\<close>

text \<open>The field types whose standardization can be repeated without effect.\<close>

definition repeatable_types :: "field_type list" where
  "repeatable_types =
     [PersonName, CompanyName, Email, City, StateProvince, Country, PostalCode, Boolean]"

definition no_lookups :: "lookup_tables \<Rightarrow> bool" where
  "no_lookups tables \<longleftrightarrow> scoped tables = (\<lambda>_ _. None) \<and> global_lookup tables = (\<lambda>_. None)"

lemma generic_no_table: "apply_generic_abbreviation_lookup (\<lambda>_. None) v = (v, None)"
  by (simp add: apply_generic_abbreviation_lookup_def)

lemma company_no_table: "standardize_company_name (\<lambda>_. None) = title_case_step"
  by (simp add: fun_eq_iff standardize_company_name_def title_case_step_def)

interpretation kept: field_rule "\<lambda>v. (v, None)"
  by unfold_locales auto

lemma quiet_with_generic:
  assumes "field_rule f"
  shows "quiet (trim_whitespace # f # [apply_generic_abbreviation_lookup (\<lambda>_. None)])
           (fst (run_rules (trim_whitespace # f # [apply_generic_abbreviation_lookup (\<lambda>_. None)]) v))"
  using field_rule.quiet_after_trim[OF assms, of v]
  by (auto simp: quiet_def generic_no_table split: prod.splits)

lemma quiet_cell:
  assumes "no_lookups tables" "boolean_output_form cfg = None" "ft \<in> set repeatable_types"
  shows "quiet (cell_rules env tables cfg c ft) (fst (run_rules (cell_rules env tables cfg c ft) v))"
proof -
  have "field_rule (std_field env tables cfg c ft)"
    using assms title_field.field_rule_axioms email_field.field_rule_axioms
      state_field.field_rule_axioms postal_field.field_rule_axioms boolean_field.field_rule_axioms
      kept.field_rule_axioms
    by (auto simp: repeatable_types_def std_field_def[abs_def] no_lookups_def company_no_table
        standardize_person_name_def[abs_def] standardize_city_def[abs_def])
  then show ?thesis
    using assms quiet_with_generic field_rule.quiet_after_trim
    by (auto simp: cell_rules_def no_lookups_def repeatable_types_def)
qed



lemma length_std_row [simp]: "length (std_row env tables cfg fts row) = length row"
  by (simp add: std_row_def)

lemma std_row_nth:
  "j < length row \<Longrightarrow> std_row env tables cfg fts row ! j =
     fst (run_rules (column_pipeline env tables cfg fts row j) (row ! j))"
  by (simp add: std_row_def nth_enum)

lemma country_column_lt: "country_column fts = Some c \<Longrightarrow> c < length fts \<and> fts ! c = Some Country"
  by (auto simp: country_column_def find_Some_iff nth_enum)

definition repeatable :: "lookup_tables \<Rightarrow> std_config \<Rightarrow> field_type option list \<Rightarrow> bool" where
  "repeatable tables cfg fts \<longleftrightarrow> no_lookups tables \<and> boolean_output_form cfg = None \<and>
     list_all (\<lambda>ft. case ft of None \<Rightarrow> True | Some t \<Rightarrow> t \<in> set repeatable_types) fts"

lemma column_quiet:
  assumes "repeatable tables cfg fts" "length row = length fts" "j < length row"
  shows "quiet (column_pipeline env tables cfg fts row j) (std_row env tables cfg fts row ! j)"
proof -
  have "quiet (country_rules tables) (fst (run_rules (country_rules tables) v))" for v
    using assms(1) country_field.quiet_after_trim by (simp add: country_rules_def repeatable_def no_lookups_def)
  moreover have "t \<in> set repeatable_types" if "fts ! j = Some t" for t
    using assms that by (auto simp: repeatable_def list_all_length split: option.splits)
  ultimately show ?thesis
    using assms quiet_cell by (auto simp: std_row_nth column_pipeline_def repeatable_def quiet_def
        split: option.splits)
qed

lemma row_country_fixed:
  assumes "repeatable tables cfg fts" "length row = length fts"
  shows "row_country tables cfg fts (std_row env tables cfg fts row) = row_country tables cfg fts row"
proof (cases "country_column fts")
  case (Some c)
  then have c: "c < length row" "column_pipeline env tables cfg fts row c = country_rules tables"
    using country_column_lt assms(2) by (auto simp: column_pipeline_def)
  then show ?thesis
    using Some column_quiet[OF assms c(1), of env] by (simp add: row_country_def quiet_run std_row_nth)
qed (simp add: row_country_def)

lemma repeated_row:
  assumes "repeatable tables cfg fts" "length row = length fts"
  shows "std_row env tables cfg fts (std_row env tables cfg fts row) = std_row env tables cfg fts row"
    and "row_changes env tables cfg hs fts i (std_row env tables cfg fts row) = []"
proof -
  let ?w = "std_row env tables cfg fts row"
  have same: "column_pipeline env tables cfg fts ?w j = column_pipeline env tables cfg fts row j" for j
    by (auto simp: column_pipeline_def row_country_fixed[OF assms] split: option.splits)
  have quiet: "quiet (column_pipeline env tables cfg fts ?w j) (?w ! j)" if "j < length row" for j
    using column_quiet[OF assms that] same by simp
  show "std_row env tables cfg fts ?w = ?w"
    by (rule nth_equalityI) (simp_all add: std_row_nth[of _ ?w] quiet_run[OF quiet])
  have "j < length row" if "j \<in> set (column_order fts ?w)" for j
    using that country_column_lt[of fts] assms(2) by (auto simp: column_order_def split: option.splits)
  then show "row_changes env tables cfg hs fts i ?w = []"
    using quiet_silent[OF quiet] by (simp add: row_changes_def concat_eq_Nil_conv)
qed

lemma standardize_simps:
  "standardized_rows (standardize env rows hs fts tables cfg n) = map (std_row env tables cfg fts) rows"
  "std_changes (standardize env rows hs fts tables cfg n) =
     take n (concat (map (\<lambda>(i, row). row_changes env tables cfg hs fts i row) (enum rows)))"
  "std_total_changes (standardize env rows hs fts tables cfg n) =
     length (concat (map (\<lambda>(i, row). row_changes env tables cfg hs fts i row) (enum rows)))"
  "std_changes_by_rule (standardize env rows hs fts tables cfg n) =
     tally (map ch_rule (concat (map (\<lambda>(i, row). row_changes env tables cfg hs fts i row) (enum rows))))"
  "std_confidence (standardize env rows hs fts tables cfg n) =
     min_default 1 (map ch_confidence (concat (map (\<lambda>(i, row). row_changes env tables cfg hs fts i row) (enum rows))))"
  by (simp_all add: standardize_def Let_def)

section \<open>Repetition\<close>

text \<open>Standardizing already standardized rows again changes nothing, as long as every column is
  unclassified or of a repeatable type (names, companies, e-mail addresses, cities, states,
  countries, postal codes, booleans in the default form) and the organization configured no lookup
  tables.  The second run reports no change, full confidence and the same rows.\<close>

theorem standardize_repeats:
  assumes "repeatable tables cfg fts" and "\<forall>row \<in> set rows. length row = length fts"
  shows "let r = standardize env rows hs fts tables cfg n;
             r' = standardize env (standardized_rows r) hs fts tables cfg n
         in standardized_rows r' = standardized_rows r \<and> std_total_changes r' = 0
            \<and> std_changes r' = [] \<and> std_confidence r' = 1"
proof -
  have "row_changes env tables cfg hs fts i (std_row env tables cfg fts row) = []"
    if "row \<in> set rows" for i row
    using repeated_row(2)[OF assms(1)] assms(2) that by blast
  then have "concat (map (\<lambda>(i, row). row_changes env tables cfg hs fts i row)
      (enum (map (std_row env tables cfg fts) rows))) = []"
    by (auto simp: concat_eq_Nil_conv enum_iff)
  moreover have "map (std_row env tables cfg fts) (map (std_row env tables cfg fts) rows) =
      map (std_row env tables cfg fts) rows"
    using assms(2) by (simp add: repeated_row(1)[OF assms(1)])
  ultimately show ?thesis by (simp add: Let_def standardize_simps min_default_def)
qed

definition plain_config :: std_config where
  "plain_config = \<lparr>default_country = Some ''US'', default_currency = None, date_output_format = None,
                   boolean_output_form = None, numeric_locale = None\<rparr>"

definition no_tables :: lookup_tables where
  "no_tables = \<lparr>scoped = (\<lambda>_ _. None), global_lookup = (\<lambda>_. None)\<rparr>"

lemma standardize_repeats_witness:
  "let r = standardize no_oracles [[''  ada  LOVELACE '', ''new york'', ''10001 1234'', ''x '']]
             [''name'', ''state'', ''zip'', ''note''] [Some PersonName, Some StateProvince, Some PostalCode, None]
             no_tables plain_config 100;
       r' = standardize no_oracles (standardized_rows r) [''name'', ''state'', ''zip'', ''note'']
             [Some PersonName, Some StateProvince, Some PostalCode, None] no_tables plain_config 100
   in standardized_rows r' = standardized_rows r \<and> std_total_changes r' = 0
      \<and> std_changes r' = [] \<and> std_confidence r' = 1"
  by (rule standardize_repeats)
    (simp_all add: repeatable_def no_lookups_def no_tables_def plain_config_def repeatable_types_def)

text \<open>Standardization is not idempotent on numbers.  With European separators \<open>.234,567\<close> is
  standardized to \<open>234.567\<close>, which a second run reads as grouped thousands and turns into
  \<open>234567\<close>.\<close>

theorem standardize_numeric_drifts:
  "let cfg = plain_config\<lparr>numeric_locale := Some ''eu''\<rparr>;
       r = standardize no_oracles [[''.234,567'']] [''amount''] [Some Numeric] no_tables cfg 100;
       r' = standardize no_oracles (standardized_rows r) [''amount''] [Some Numeric] no_tables cfg 100
   in standardized_rows r = [[''234.567'']] \<and> standardized_rows r' = [[''234567'']]
      \<and> std_total_changes r' = 1"
  by code_simp

text \<open>A header is matched by substring, so ordinary words fall into a class: without an override
  \<open>Hotel\<close> is a telephone column, \<open>Capacity\<close> a city, \<open>Update\<close> a date, \<open>Donation\<close> a country and
  \<open>Account\<close> a number.\<close>

theorem classify_by_substring:
  "classify_columns Map.empty [''Hotel'', ''Capacity'', ''Update'', ''Donation'', ''Account'', ''Notes''] =
     [Some Phone, Some City, Some Date, Some Country, Some Numeric, None]"
  by code_simp

section \<open>The change log\<close>

lemma row_changes_row: "c \<in> set (row_changes env tables cfg hs fts i row) \<Longrightarrow> ch_row c = i"
  by (auto simp: row_changes_def changes_of_steps_def)

lemma steps_column: "c \<in> set (changes_of_steps i col ft steps) \<Longrightarrow> ch_row c = i \<and> ch_column c = col"
  by (auto simp: changes_of_steps_def)

lemma filter_concat_rows:
  assumes "\<And>k x c. c \<in> set (f k x) \<Longrightarrow> key c = k" and "i < length xs"
  shows "filter (\<lambda>c. key c = i) (concat (map (\<lambda>(k, x). f k x) (enum xs))) = f i (xs ! i)"
proof -
  have same: "filter (\<lambda>c. key c = i) (f k x) = (if k = i then f k x else [])" for k x
    using assms(1)[of _ k x] by (auto simp: filter_id_conv filter_empty_conv)
  have "concat (map (\<lambda>(k, x). filter (\<lambda>c. key c = i) (f k x)) (enum_from b ys)) =
        (if b \<le> i \<and> i < b + length ys then f i (ys ! (i - b)) else [])" for b ys
  proof (induction b ys rule: enum_from.induct)
    case (2 b y ys)
    then show ?case by (cases "b = i") (auto simp: same nth_Cons' )
  qed auto
  from this[of 0 xs] show ?thesis
    using assms(2) by (simp add: filter_concat comp_def case_prod_unfold)
qed

lemma row_changes_column:
  assumes "distinct hs" "length row = length hs" "length fts = length hs" "j < length hs"
  shows "filter (\<lambda>c. ch_column c = hs ! j) (row_changes env tables cfg hs fts i row) =
     changes_of_steps i (hs ! j) (the (fts ! j))
       (snd (run_rules (column_pipeline env tables cfg fts row j) (row ! j)))"
proof -
  have order: "distinct (column_order fts row)" "set (column_order fts row) = {0 ..< length row}"
    using country_column_lt[of fts] assms by (auto simp: column_order_def split: option.splits)
  show ?thesis
    unfolding row_changes_def
    by (rule filter_concat_order[where h = "\<lambda>j. hs ! j"])
      (use steps_column assms order in \<open>auto simp: inj_on_def nth_eq_iff_index_eq\<close>)
qed



text \<open>Standardization keeps the shape of the file and leaves every unclassified column alone:
  the result has the same rows with the same number of cells, and a cell whose column has no field
  type keeps its text.\<close>

theorem standardize_untouched:
  assumes "i < length rows" "j < length (rows ! i)" "fts ! j = None" "length fts = length (rows ! i)"
  shows "let out = standardized_rows (standardize env rows hs fts tables cfg n)
         in length out = length rows \<and> length (out ! i) = length (rows ! i) \<and> out ! i ! j = rows ! i ! j"
proof -
  have "country_column fts \<noteq> Some j" using country_column_lt[of fts j] assms(3) by auto
  then show ?thesis
    using assms by (simp add: Let_def standardize_simps std_row_nth column_pipeline_def)
qed

lemma standardize_untouched_witness:
  "let out = standardized_rows (standardize no_oracles [[''  ada '', '' n/a '']] [''name'', ''note'']
               [Some PersonName, None] no_tables plain_config 100)
   in length out = length [[''  ada '', '' n/a '']] \<and> length (out ! 0) = length ([[''  ada '', '' n/a '']] ! 0)
      \<and> out ! 0 ! 1 = [[''  ada '', '' n/a '']] ! 0 ! 1"
  by (rule standardize_untouched) simp_all

text \<open>The summary of a standardization run is true to its changes: the counts per rule add up to
  the total, at most the limit is persisted and nothing is cut below it, every logged change
  changes the text, and the confidence is the smallest confidence of a change, so it lies strictly
  above zero, and is 1 if nothing changed.\<close>

theorem standardize_summary:
  "let r = standardize env rows hs fts tables cfg n
   in sum_list (map snd (std_changes_by_rule r)) = std_total_changes r
      \<and> length (std_changes r) = min n (std_total_changes r)
      \<and> list_all (\<lambda>c. ch_original c \<noteq> ch_new c \<and> std_confidence r \<le> ch_confidence c
           \<and> ch_confidence c = rule_confidence (ch_rule c)) (std_changes r)
      \<and> 0 < std_confidence r \<and> std_confidence r \<le> 1
      \<and> (if std_total_changes r = 0 then std_confidence r = 1
         else std_confidence r \<in> range rule_confidence)"
proof -
  let ?all = "concat (map (\<lambda>(i, row). row_changes env tables cfg hs fts i row) (enum rows))"
  have each: "ch_original c \<noteq> ch_new c \<and> ch_confidence c = rule_confidence (ch_rule c)" if "c \<in> set ?all" for c
    using that by (auto simp: row_changes_def changes_of_steps_def)
  have least: "min_default 1 (map ch_confidence ?all) \<le> ch_confidence c" if "c \<in> set ?all" for c
    using that by (intro min_default_le) auto
  have range: "if length ?all = 0 then min_default 1 (map ch_confidence ?all) = 1
      else min_default 1 (map ch_confidence ?all) \<in> range rule_confidence"
  proof (cases "?all = []")
    case False
    then have "min_default 1 (map ch_confidence ?all) \<in> ch_confidence ` set ?all"
      using min_default_in[of "map ch_confidence ?all" 1] by simp
    then obtain c where "c \<in> set ?all" "min_default 1 (map ch_confidence ?all) = ch_confidence c" by blast
    then show ?thesis using False each[of c] by (auto simp del: concat_eq_Nil_conv set_concat)
  qed (simp add: min_default_def)
  then have "0 < min_default 1 (map ch_confidence ?all) \<and> min_default 1 (map ch_confidence ?all) \<le> 1"
    using rule_confidence_unit by (auto split: if_splits)
  then show ?thesis
    unfolding Let_def standardize_simps
    using each least range
    by (auto simp: sum_tally list_all_iff dest!: in_set_takeD simp del: set_concat)
qed

end
