(* ===== verification/RemediationProps.thy ===== *)
theory RemediationProps
  imports "HOL-Library.Multiset" Validation DetectionEngine
begin

text \<open>
  What the remediation and the validation engine guarantee, each by itself and together.

  The contract between the two is a locale: a remediation rule never proposes the value that is
  already there, and its validation rule passes what it proposes.  All ten pairs of rules keep it.
\<close>

section \<open>The contract of a rule\<close>

text \<open>What the detector stores as suggested fix of the whitespace issues.\<close>

definition suggestion_ok :: "remediation_issue \<Rightarrow> bool" where
  "suggestion_ok i =
     (case ri_type i of
        LEADING_WHITESPACE \<Rightarrow> ri_suggested i = map_option lstrip (ri_original i)
      | TRAILING_WHITESPACE \<Rightarrow> ri_suggested i = map_option rstrip (ri_original i)
      | MULTIPLE_INTERNAL_SPACES \<Rightarrow> ri_suggested i = map_option sub_multispace (ri_original i)
      | _ \<Rightarrow> True)"

definition removal_enabled :: "remediation_action \<Rightarrow> dataset_config \<Rightarrow> bool" where
  "removal_enabled a dc \<longleftrightarrow>
     (a = REMOVE_DUPLICATE_ROW \<and> remove_duplicate_rows_enabled dc) \<or>
     (a = REMOVE_DUPLICATE_PRIMARY_KEY \<and> remove_duplicate_primary_keys_enabled dc)"

definition engine_reasons :: "skip_reason list" where
  "engine_reasons = [ISSUE_TYPE_NOT_REMEDIABLE, ROW_NOT_FOUND_IN_DATASET, PERSISTED_CHANGE_LIMIT_REACHED]"

locale remediation_rule =
  fixes action :: remediation_action and propose :: rule
  assumes no_noop: "propose i cc dc = Propose (Some v) \<Longrightarrow> ri_original i \<noteq> Some v"
    and exclusion: "propose i cc dc = Propose None \<Longrightarrow> removal_enabled action dc"
    and own_reason: "propose i cc dc = Leave r \<Longrightarrow> r \<notin> set engine_reasons"
begin

lemma changes_or_excludes:
  "propose i cc dc = Propose v \<Longrightarrow> v \<noteq> ri_original i \<or> (v = None \<and> removal_enabled action dc)"
  using no_noop exclusion by (cases v) fastforce+

end

locale checked_rule = remediation_rule +
  fixes types :: "issue_type list" and check :: "validation_change \<Rightarrow> column_config option \<Rightarrow> verdict"
  assumes agreed: "propose i cc dc = Propose v \<Longrightarrow> ri_type i \<in> set types \<Longrightarrow> suggestion_ok i \<Longrightarrow>
    vc_original c = ri_original i \<Longrightarrow> vc_proposed c = v \<Longrightarrow> fst (check c cc) = Passed"

named_theorems action_defs \<open>definitions of the actions and their validation\<close>

lemmas [action_defs] = propose_trim_def propose_collapse_def propose_suggested_def
  propose_standardize_capitalization_def propose_ruled_def propose_normalize_boolean_def
  propose_normalize_numeric_def propose_normalize_phone_def propose_normalize_date_def
  propose_normalize_enum_value_def propose_remove_duplicate_row_def
  propose_remove_duplicate_primary_key_def propose_if_changed_def
  validate_trim_def validate_collapse_def validate_capitalization_def validate_ruled_def
  validate_boolean_def validate_numeric_def validate_phone_def validate_date_def
  validate_enum_value_def validate_duplicate_removal_def matching_verdict_def
  engine_reasons_def removal_enabled_def suggestion_ok_def

lemma truthyE: "truthy x \<Longrightarrow> (\<And>s. x = Some s \<Longrightarrow> s \<noteq> [] \<Longrightarrow> P) \<Longrightarrow> P"
  by (cases x) auto

lemma truthy_mapD: "truthy (map_option f x) \<Longrightarrow> \<exists>y. x = Some y"
  by (cases x) auto

interpretation trim_action: checked_rule TRIM_WHITESPACE "\<lambda>i cc dc. propose_trim i"
    "[LEADING_WHITESPACE, TRAILING_WHITESPACE]" "\<lambda>c cc. validate_trim c"
  by unfold_locales (auto simp: action_defs split: if_splits option.splits dest!: truthy_mapD)

interpretation collapse_action: checked_rule COLLAPSE_MULTIPLE_SPACES "\<lambda>i cc dc. propose_collapse i"
    "[MULTIPLE_INTERNAL_SPACES]" "\<lambda>c cc. validate_collapse c"
  by unfold_locales (auto simp: action_defs split: if_splits option.splits elim!: truthyE)

interpretation capitalization_action: checked_rule STANDARDIZE_CAPITALIZATION
    "\<lambda>i cc dc. propose_standardize_capitalization i cc" "[INCONSISTENT_CAPITALIZATION]"
    validate_capitalization
  by unfold_locales (auto simp: action_defs split: if_splits option.splits elim!: truthyE)

text \<open>An action that calls a strict standardization rule.\<close>

lemma propose_ruled_change:
  assumes "strict_rule f" "propose_ruled (f (or_empty x)) = Propose (Some v)"
  shows "x \<noteq> Some v"
proof
  assume "x = Some v"
  then show False
    using assms strict_rule.some_changes[of f v v] by (auto simp: propose_ruled_def split: option.splits)
      (metis prod.collapse)
qed

lemma propose_ruled_Leave: "propose_ruled r = Leave q \<Longrightarrow> q = NO_DETERMINISTIC_CHANGE_AVAILABLE"
  by (auto simp: propose_ruled_def split: option.splits)

lemma propose_ruled_not_None: "propose_ruled r \<noteq> Propose None"
  by (auto simp: propose_ruled_def split: option.splits)

lemma ruled_agreed: "propose_ruled r = Propose v \<Longrightarrow> fst (validate_ruled r v) = Passed"
  by (auto simp: propose_ruled_def validate_ruled_def matching_verdict_def split: option.splits)

interpretation boolean_action: checked_rule NORMALIZE_BOOLEAN "\<lambda>i cc dc. propose_normalize_boolean i"
    "[BOOLEAN_INCONSISTENCY]" "\<lambda>c cc. validate_boolean c"
  by unfold_locales
    (auto simp: propose_normalize_boolean_def validate_boolean_def propose_ruled_not_None engine_reasons_def
      dest: propose_ruled_change[OF boolean_form.strict_rule_axioms] propose_ruled_Leave ruled_agreed)

interpretation numeric_action: checked_rule NORMALIZE_NUMERIC "\<lambda>i cc dc. propose_normalize_numeric i"
    "[INVALID_NUMERIC]" "\<lambda>c cc. validate_numeric c"
  by unfold_locales
    (auto simp: propose_normalize_numeric_def validate_numeric_def propose_ruled_not_None engine_reasons_def
      dest: propose_ruled_change[OF numeric.strict_rule_axioms] propose_ruled_Leave ruled_agreed)

interpretation phone_action: checked_rule NORMALIZE_PHONE
    "\<lambda>i cc dc. propose_normalize_phone env i cc" "[INVALID_PHONE]" "validate_phone env" for env
  by unfold_locales
    (auto simp: propose_normalize_phone_def validate_phone_def propose_ruled_not_None engine_reasons_def
      dest: propose_ruled_change[OF phone.strict_rule_axioms] propose_ruled_Leave ruled_agreed
      split: if_splits)

interpretation date_action: checked_rule NORMALIZE_DATE
    "\<lambda>i cc dc. propose_normalize_date env i cc" "[INVALID_DATE]" "validate_date env" for env
  by unfold_locales (auto simp: action_defs split: if_splits option.splits elim!: truthyE)

interpretation enum_action: checked_rule NORMALIZE_ENUM_VALUE
    "\<lambda>i cc dc. propose_normalize_enum_value i cc" "[INVALID_ENUM_VALUE]" validate_enum_value
  by unfold_locales (auto simp: action_defs Let_def split: if_splits option.splits elim!: truthyE)

interpretation row_action: checked_rule REMOVE_DUPLICATE_ROW
    "\<lambda>i cc dc. propose_remove_duplicate_row dc" "[DUPLICATE_ROW]" "\<lambda>c cc. validate_duplicate_removal c"
  by unfold_locales (auto simp: action_defs split: if_splits)

interpretation key_action: checked_rule REMOVE_DUPLICATE_PRIMARY_KEY
    "\<lambda>i cc dc. propose_remove_duplicate_primary_key dc" "[DUPLICATE_PRIMARY_KEY]"
    "\<lambda>c cc. validate_duplicate_removal c"
  by unfold_locales (auto simp: action_defs split: if_splits)

text \<open>Dispatch: the rule of an issue type and the validation rule of its action keep the contract.\<close>

lemma registry_contract:
  assumes "get_rule_for_issue_type env ty = Some (a, propose)"
  shows "\<exists>check types. get_rule_for_action env (Inl a) = Some (a, check) \<and> ty \<in> set types
           \<and> checked_rule a propose types check"
  using assms trim_action.checked_rule_axioms collapse_action.checked_rule_axioms
    capitalization_action.checked_rule_axioms boolean_action.checked_rule_axioms
    numeric_action.checked_rule_axioms phone_action.checked_rule_axioms date_action.checked_rule_axioms
    enum_action.checked_rule_axioms row_action.checked_rule_axioms key_action.checked_rule_axioms
  by (cases ty)
    (auto simp: get_rule_for_issue_type_def REMEDIATION_RULES_def get_rule_for_action_def
      VALIDATION_RULES_def intro!: exI)

section \<open>The remediation engine\<close>

lemma set_lefts: "a \<in> set (lefts xs) \<longleftrightarrow> Inl a \<in> set xs"
  by (induction xs) (auto split: sum.splits)

lemma set_rights: "b \<in> set (rights xs) \<longleftrightarrow> Inr b \<in> set xs"
  by (induction xs) (auto split: sum.splits)

lemma mset_lefts_rights:
  "mset (map f (lefts xs)) + mset (map g (rights xs)) = mset (map (case_sum f g) xs)"
  by (induction xs) (auto split: sum.splits)

lemma rights_map_sorted: "sorted_wrt P (map (case_sum f g) xs) \<Longrightarrow> sorted_wrt P (map g (rights xs))"
proof (induction xs)
  case (Cons x xs)
  then show ?case by (cases x) (auto simp: set_rights dest!: bspec[where x = "Inr _"])
qed simp

lemma apply_ceiling_eq: "apply_ceiling xs n = (take n xs, drop n xs)"
  by (simp add: apply_ceiling_def)

definition processed ::
  "'d oracles \<Rightarrow> remediation_dataset \<Rightarrow> remediation_issue list \<Rightarrow> (string \<Rightarrow> column_config option) \<Rightarrow>
     dataset_config \<Rightarrow> (skipped_issue + (proposal \<times> issue_type)) list"
where
  "processed env ds issues config dc = map (process_issue env ds config dc) (sort_key issue_sort_key issues)"

lemma remediate_simps:
  "rr_changes (remediate env ds issues config dc n) = map fst (take n (rights (processed env ds issues config dc)))"
  "rr_skipped (remediate env ds issues config dc n) = sort_key skipped_sort_key
     (lefts (processed env ds issues config dc) @
      map overflow_skip (drop n (rights (processed env ds issues config dc))))"
  "rr_considered (remediate env ds issues config dc n) = length issues"
  "rr_total_changes (remediate env ds issues config dc n) = length (rr_changes (remediate env ds issues config dc n))"
  "rr_skipped_count (remediate env ds issues config dc n) = length (rr_skipped (remediate env ds issues config dc n))"
  "rr_changes_by_action (remediate env ds issues config dc n) =
     tally (map rp_action (rr_changes (remediate env ds issues config dc n)))"
  by (simp_all add: remediate_def processed_def apply_ceiling_eq Let_def)

lemma process_issue_id:
  "case_sum sk_issue_id (rp_issue_id \<circ> fst) (process_issue env ds config dc i) = ri_id i"
  "case_sum skipped_sort_key (\<lambda>(p, ty). (rp_row p, or_empty (rp_column p), issue_value ty))
     (process_issue env ds config dc i) = issue_sort_key i"
  by (simp_all add: process_issue_def skip_def proposal_for_def skipped_sort_key_def issue_sort_key_def
      split: option.splits rule_outcome.splits)

text \<open>Issue ids, with repetitions, as changes and as skipped issues.\<close>

lemma ids_partition:
  "mset (map rp_issue_id (rr_changes (remediate env ds issues config dc n))) +
   mset (map sk_issue_id (rr_skipped (remediate env ds issues config dc n))) = mset (map ri_id issues)"
proof -
  let ?P = "processed env ds issues config dc"
  have drop: "image_mset sk_issue_id (image_mset overflow_skip M) = {#rp_issue_id (fst x). x \<in># M#}" for M
    by (simp add: multiset.map_comp comp_def overflow_skip_def)
  have parts: "mset (map (rp_issue_id \<circ> fst) (rights ?P)) =
      mset (map (rp_issue_id \<circ> fst) (take n (rights ?P))) + mset (map (rp_issue_id \<circ> fst) (drop n (rights ?P)))"
    by (simp only: mset_append[symmetric] map_append[symmetric] append_take_drop_id)
  have "mset (map (rp_issue_id \<circ> fst) (take n (rights ?P))) +
      (mset (map sk_issue_id (lefts ?P)) + mset (map (rp_issue_id \<circ> fst) (drop n (rights ?P)))) =
      mset (map sk_issue_id (lefts ?P)) + mset (map (rp_issue_id \<circ> fst) (rights ?P))"
    using parts by (simp add: ac_simps)
  also have "\<dots> = mset (map ri_id (sort_key issue_sort_key issues))"
    unfolding mset_lefts_rights processed_def by (simp add: process_issue_id[unfolded comp_def] comp_def)
  finally have "mset (map (rp_issue_id \<circ> fst) (take n (rights ?P))) +
      (mset (map sk_issue_id (lefts ?P)) + mset (map (rp_issue_id \<circ> fst) (drop n (rights ?P)))) =
      mset (map ri_id issues)"
    by (metis mset_map mset_sort)
  then show ?thesis
    unfolding remediate_simps by (simp add: drop comp_def)
qed

text \<open>Every considered issue ends up in exactly one bucket: with their multiplicities, the issue
  ids of the proposed changes and of the skipped issues together are the ids of the issues given,
  so the counts reconcile.  The ceiling holds, the counts per action add up, and both lists are
  sorted by row, column and kind of issue.\<close>

theorem remediate_partitions:
  "let r = remediate env ds issues config dc n
   in mset (map rp_issue_id (rr_changes r)) + mset (map sk_issue_id (rr_skipped r)) = mset (map ri_id issues)
      \<and> rr_considered r = rr_total_changes r + rr_skipped_count r
      \<and> rr_total_changes r = length (rr_changes r) \<and> rr_skipped_count r = length (rr_skipped r)
      \<and> rr_total_changes r \<le> n
      \<and> sum_list (map snd (rr_changes_by_action r)) = rr_total_changes r
      \<and> sorted (map rp_row (rr_changes r)) \<and> sorted (map skipped_sort_key (rr_skipped r))"
proof -
  let ?P = "processed env ds issues config dc"
  let ?key = "\<lambda>(p, ty). (rp_row p, or_empty (rp_column p), issue_value ty)"
  have "sorted_wrt (\<le>) (map (case_sum skipped_sort_key ?key) ?P)"
    unfolding processed_def by (simp add: process_issue_id comp_def)
  then have "sorted_wrt (\<le>) (map ?key (rights ?P))" by (rule rights_map_sorted)
  then have "sorted_wrt (\<le>) (take n (map ?key (rights ?P)))" by (rule sorted_wrt_take)
  then have "sorted_wrt (\<lambda>x y. ?key x \<le> ?key y) (take n (rights ?P))"
    by (simp add: take_map sorted_wrt_map)
  then have "sorted_wrt (\<lambda>x y. rp_row (fst x) \<le> rp_row (fst y)) (take n (rights ?P))"
    by (rule sorted_wrt_mono_rel[rotated]) (auto simp: less_eq_prod_def split: prod.splits)
  then have "sorted (map rp_row (rr_changes (remediate env ds issues config dc n)))"
    by (simp add: remediate_simps sorted_wrt_map)
  moreover have "rr_considered (remediate env ds issues config dc n) =
      length (rr_changes (remediate env ds issues config dc n)) + length (rr_skipped (remediate env ds issues config dc n))"
    using arg_cong[OF ids_partition[of env ds issues config dc n], where f = size] by (simp add: remediate_simps(3))
  moreover have "length (rr_changes (remediate env ds issues config dc n)) \<le> n"
    by (simp add: remediate_simps(1))
  moreover have "sorted (map skipped_sort_key (rr_skipped (remediate env ds issues config dc n)))"
    by (simp add: remediate_simps(2))
  ultimately show ?thesis
    unfolding Let_def remediate_simps(4,5,6) using ids_partition by (simp add: sum_tally)
qed

text \<open>The remediation engine invents nothing.  Every proposed change belongs to one of the issues
  given and copies its row, column and original value; the row exists in the file; the action is the
  one registered for the kind of issue.  What it proposes differs from the original value, unless
  it proposes to exclude the row as a duplicate, and that only if the removal is enabled.\<close>

theorem remediate_never_invents:
  assumes "p \<in> set (rr_changes (remediate env ds issues config dc n))"
  shows "\<exists>i \<in> set issues. rp_issue_id p = ri_id i \<and> rp_row p = ri_row i \<and> rp_column p = ri_column i
           \<and> rp_original p = ri_original i
           \<and> 2 \<le> rp_row p \<and> rp_row p \<le> int (length (rd_rows ds)) + 1
           \<and> map_option fst (get_rule_for_issue_type env (ri_type i)) = Some (rp_action p)
           \<and> rp_reason p = CHANGE_REASONS (rp_action p) \<and> rp_confidence p = 1
           \<and> (rp_proposed p \<noteq> rp_original p \<or> rp_proposed p = None \<and> removal_enabled (rp_action p) dc)"
proof -
  obtain ty where "Inr (p, ty) \<in> set (processed env ds issues config dc)"
    using assms by (auto simp: remediate_simps(1) set_rights[symmetric] dest!: in_set_takeD)
  then obtain i where i: "i \<in> set issues" "process_issue env ds config dc i = Inr (p, ty)"
    by (auto simp: processed_def)
  then obtain a propose v where a: "get_rule_for_issue_type env (ri_type i) = Some (a, propose)"
      "2 \<le> ri_row i" "ri_row i \<le> int (length (rd_rows ds)) + 1"
      "propose i (resolved_config config (ri_column i)) dc = Propose v" "p = proposal_for i a v"
    by (auto simp: process_issue_def split: option.splits if_splits rule_outcome.splits)
  obtain types check where "checked_rule a propose types check"
    using registry_contract[OF a(1)] by blast
  then have "remediation_rule a propose" by (simp add: checked_rule_def)
  from remediation_rule.changes_or_excludes[OF this a(4)] show ?thesis
    using i(1) a by (intro bexI[of _ i]) (auto simp: proposal_for_def)
qed

definition sample_issues :: "remediation_issue list" where
  "sample_issues =
     [\<lparr>ri_id = 1, ri_row = 3, ri_column = Some ''name'', ri_type = LEADING_WHITESPACE,
       ri_original = Some ''  ada'', ri_suggested = Some ''ada''\<rparr>,
      \<lparr>ri_id = 2, ri_row = 2, ri_column = Some ''n'', ri_type = INVALID_NUMERIC,
       ri_original = Some '' abc'', ri_suggested = None\<rparr>,
      \<lparr>ri_id = 3, ri_row = 2, ri_column = Some ''n'', ri_type = OUTLIER,
       ri_original = Some ''9'', ri_suggested = None\<rparr>]"

definition sample_file :: remediation_dataset where
  "sample_file = \<lparr>rd_headers = [''name'', ''n''], rd_rows = [[''bob'', '' abc''], [''  ada'', ''9'']]\<rparr>"

definition no_removal :: dataset_config where
  "no_removal = \<lparr>remove_duplicate_rows_enabled = False, remove_duplicate_primary_keys_enabled = False\<rparr>"

definition numeric_proposal :: proposal where
  "numeric_proposal = \<lparr>rp_issue_id = 2, rp_row = 2, rp_column = Some ''n'', rp_action = NORMALIZE_NUMERIC,
     rp_original = Some '' abc'', rp_proposed = Some ''abc'',
     rp_reason = CHANGE_REASONS NORMALIZE_NUMERIC, rp_confidence = 1\<rparr>"

lemma sample_changes:
  "map rp_proposed (rr_changes (remediate no_oracles sample_file sample_issues Map.empty no_removal 10)) =
     [Some ''abc'', Some ''ada'']"
  by code_simp

lemma remediate_never_invents_witness:
  "\<exists>i \<in> set sample_issues. rp_issue_id numeric_proposal = ri_id i \<and> rp_row numeric_proposal = ri_row i
     \<and> rp_column numeric_proposal = ri_column i \<and> rp_original numeric_proposal = ri_original i
     \<and> 2 \<le> rp_row numeric_proposal \<and> rp_row numeric_proposal \<le> int (length (rd_rows sample_file)) + 1
     \<and> map_option fst (get_rule_for_issue_type no_oracles (ri_type i)) = Some (rp_action numeric_proposal)
     \<and> rp_reason numeric_proposal = CHANGE_REASONS (rp_action numeric_proposal) \<and> rp_confidence numeric_proposal = 1
     \<and> (rp_proposed numeric_proposal \<noteq> rp_original numeric_proposal
        \<or> rp_proposed numeric_proposal = None \<and> removal_enabled (rp_action numeric_proposal) no_removal)"
  by (rule remediate_never_invents[where env = no_oracles and config = Map.empty and n = 10]) code_simp

text \<open>The order in which the issues are handed over does not matter, as long as no two of them
  agree in row, column and kind.\<close>

theorem remediate_order_independent:
  assumes "mset issues = mset issues'" and "distinct (map issue_sort_key issues)"
  shows "remediate env ds issues config dc n = remediate env ds issues' config dc n"
proof -
  have "inj_on issue_sort_key (set issues)" using assms(2) by (simp add: distinct_map)
  then have "sort_key issue_sort_key issues' = sort_key issue_sort_key issues"
    using assms(1) mset_eq_setD[OF assms(1)] by (intro sort_key_inj_key_eq) auto
  moreover have "length issues = length issues'" using assms(1) by (rule mset_eq_length)
  ultimately show ?thesis by (simp add: remediate_def)
qed

lemma remediate_order_independent_witness:
  "remediate no_oracles sample_file sample_issues Map.empty no_removal 10 =
     remediate no_oracles sample_file (rev sample_issues) Map.empty no_removal 10"
  by (rule remediate_order_independent) (simp, code_simp)

text \<open>The numeric action can propose, as the canonical numeric form, a text that is no number: an
  invalid number whose only removable defect is surrounding whitespace or separators is rewritten,
  the proposal is still invalid for the detector that reported it, and validation passes it.\<close>

theorem numeric_proposal_not_numeric:
  "rr_changes (remediate no_oracles sample_file [sample_issues ! 1] Map.empty no_removal 10) = [numeric_proposal]
   \<and> \<not> is_valid_numeric (the (rp_proposed numeric_proposal))
   \<and> CHANGE_REASONS (rp_action numeric_proposal) =
       ''Value normalized to canonical numeric form (app.standardization.rules.values.standardize_numeric).''"
  by code_simp

section \<open>The validation engine\<close>

definition items :: "'d oracles \<Rightarrow> (string \<Rightarrow> column_config option) \<Rightarrow> nat \<Rightarrow> validation_change list \<Rightarrow> nat \<Rightarrow> validation_item list" where
  "items env config limit cs k = map (\<lambda>(n, c). validate_change env config limit n c) (enum_from k cs)"

definition count_outcome :: "validation_outcome \<Rightarrow> validation_item list \<Rightarrow> nat" where
  "count_outcome oc xs = length (filter (\<lambda>x. vi_outcome x = oc) xs)"

definition used_rules :: "validation_item list \<Rightarrow> remediation_action list" where
  "used_rules xs = concat (map (\<lambda>x. case vi_rule x of None \<Rightarrow> [] | Some a \<Rightarrow> [a]) xs)"

text \<open>The loop, without its accumulator.\<close>

lemma validate_loop_eq:
  assumes "acc = \<lparr>vr_results = xs, vr_considered = m, vr_passed = count_outcome Passed xs,
     vr_failed = count_outcome Failed xs, vr_skipped = count_outcome Skipped xs, vr_by_rule = tally (used_rules xs)\<rparr>"
  shows "validate_loop env config limit cs acc =
    (let ys = xs @ items env config limit cs (length xs) in
     \<lparr>vr_results = ys, vr_considered = m, vr_passed = count_outcome Passed ys,
      vr_failed = count_outcome Failed ys, vr_skipped = count_outcome Skipped ys, vr_by_rule = tally (used_rules ys)\<rparr>)"
  using assms
proof (induction cs arbitrary: xs acc)
  case Nil
  then show ?case by (simp add: items_def)
next
  case (Cons c cs)
  let ?x = "validate_change env config limit (length xs) c"
  have grow: "count_outcome oc (xs @ [?x]) = count_outcome oc xs + (if vi_outcome ?x = oc then 1 else 0)" for oc
    by (simp add: count_outcome_def)
  have rules: "tally (used_rules (xs @ [?x])) =
      (case vi_rule ?x of None \<Rightarrow> tally (used_rules xs) | Some a \<Rightarrow> bump a (tally (used_rules xs)))"
    by (simp add: used_rules_def tally_snoc split: option.split)
  have step: "validate_loop env config limit (c # cs) acc = validate_loop env config limit cs
      \<lparr>vr_results = xs @ [?x], vr_considered = m, vr_passed = count_outcome Passed (xs @ [?x]),
       vr_failed = count_outcome Failed (xs @ [?x]), vr_skipped = count_outcome Skipped (xs @ [?x]),
       vr_by_rule = tally (used_rules (xs @ [?x]))\<rparr>"
    unfolding Cons.prems grow rules
    by (simp add: Let_def cong: option.case_cong split del: if_split)
  have rest: "xs @ items env config limit (c # cs) (length xs) =
      (xs @ [?x]) @ items env config limit cs (length (xs @ [?x]))"
    by (simp add: items_def)
  show ?case unfolding step rest by (rule Cons.IH[OF refl])
qed

lemma validate_eq:
  "validate env cs config limit =
    (let ys = items env config limit (sort_key change_sort_key cs) 0 in
     \<lparr>vr_results = ys, vr_considered = length cs, vr_passed = count_outcome Passed ys,
      vr_failed = count_outcome Failed ys, vr_skipped = count_outcome Skipped ys, vr_by_rule = tally (used_rules ys)\<rparr>)"
  unfolding validate_def
  by (subst validate_loop_eq[where xs = "[]" and m = "length cs"])
    (simp_all add: count_outcome_def used_rules_def Let_def)

lemma outcomes_sum: "count_outcome Passed ys + count_outcome Failed ys + count_outcome Skipped ys = length ys"
  unfolding count_outcome_def
proof (induction ys)
  case (Cons y ys)
  then show ?case by (cases "vi_outcome y") auto
qed simp

lemma item_for_fields [simp]:
  "vi_change_id (item_for c r oc q) = vc_id c" "vi_row (item_for c r oc q) = vc_row c"
  "vi_proposed (item_for c r oc q) = vc_proposed c" "vi_outcome (item_for c r oc q) = oc"
  "vi_rule (item_for c r oc q) = r" "vi_reason (item_for c r oc q) = q"
  by (simp_all add: item_for_def)

lemma validate_change_copies:
  "vi_change_id (validate_change env config limit n c) = vc_id c"
  "vi_proposed (validate_change env config limit n c) = vc_proposed c"
  "vi_row (validate_change env config limit n c) = vc_row c"
  by (simp_all add: validate_change_def split: option.splits prod.splits)

text \<open>Validation neither drops nor doubles a change: every change given has exactly one result,
  the passed, failed and skipped results add up to all of them, results come by row, and no result
  past the ceiling is anything but skipped.\<close>

theorem validate_partitions:
  "let v = validate env cs config limit
   in mset (map vi_change_id (vr_results v)) = mset (map vc_id cs)
      \<and> vr_passed v + vr_failed v + vr_skipped v = length cs \<and> vr_considered v = length cs
      \<and> vr_passed v = length (filter (\<lambda>x. vi_outcome x = Passed) (vr_results v))
      \<and> vr_failed v = length (filter (\<lambda>x. vi_outcome x = Failed) (vr_results v))
      \<and> sorted (map vi_row (vr_results v))
      \<and> list_all (\<lambda>x. vi_outcome x = Skipped) (drop limit (vr_results v))
      \<and> sum_list (map snd (vr_by_rule v)) = length (filter (\<lambda>x. vi_rule x \<noteq> None) (vr_results v))"
proof -
  let ?s = "sort_key change_sort_key cs"
  let ?ys = "items env config limit ?s 0"
  have ids: "map vi_change_id ?ys = map vc_id ?s" and rows: "map vi_row ?ys = map vc_row ?s"
    using map_snd_enum_from[of 0 ?s] map_map[of vc_id snd "enum ?s"] map_map[of vc_row snd "enum ?s"]
    by (simp_all add: items_def validate_change_copies comp_def case_prod_unfold)
  have "sorted_wrt (\<lambda>x y. change_sort_key x \<le> change_sort_key y) ?s"
    using sorted_sort_key[of change_sort_key cs] by (simp add: sorted_wrt_map)
  then have "sorted_wrt (\<lambda>x y. vc_row x \<le> vc_row y) ?s"
    by (rule sorted_wrt_mono_rel[rotated]) (auto simp: change_sort_key_def less_eq_prod_def)
  then have sorted: "sorted (map vi_row ?ys)" by (simp add: rows sorted_wrt_map)
  have skip: "vi_outcome (validate_change env config limit n c) = Skipped" if "limit \<le> n" for n c
    using that by (simp add: validate_change_def split: option.splits)
  have "\<forall>x \<in> set (drop limit ?ys). vi_outcome x = Skipped"
  proof
    fix x
    assume "x \<in> set (drop limit ?ys)"
    then obtain j where "j < length ?ys - limit" "x = ?ys ! (limit + j)"
      by (auto simp: in_set_conv_nth)
    then show "vi_outcome x = Skipped" using skip[of "limit + j"] by (simp add: items_def nth_enum_from)
  qed
  then have ceiling: "list_all (\<lambda>x. vi_outcome x = Skipped) (drop limit ?ys)" by (simp add: list_all_iff)
  have used: "length (used_rules ys) = length (filter (\<lambda>x. vi_rule x \<noteq> None) ys)" for ys
    by (induction ys) (auto simp: used_rules_def split: option.splits)
  have "length ?ys = length cs" by (simp add: items_def)
  moreover have "mset (map vi_change_id ?ys) = mset (map vc_id cs)" unfolding ids by simp
  ultimately show ?thesis
    using sorted ceiling outcomes_sum[of ?ys]
    by (simp add: validate_eq Let_def sum_tally used count_outcome_def)
qed

section \<open>From detection to validation\<close>

text \<open>The rows the handlers write: an issue per finding, a change per proposal.\<close>

definition issues_of :: "finding list \<Rightarrow> remediation_issue list" where
  "issues_of fs =
     map (\<lambda>(k, f). \<lparr>ri_id = k, ri_row = int (row_number f), ri_column = column_name f,
            ri_type = issue_type f, ri_original = original_value f, ri_suggested = suggested_fix f\<rparr>)
       (enum fs)"

definition changes_of :: "proposal list \<Rightarrow> validation_change list" where
  "changes_of ps =
     map (\<lambda>(k, p). \<lparr>vc_id = k, vc_issue_id = rp_issue_id p, vc_row = rp_row p, vc_column = rp_column p,
            vc_action = Inl (rp_action p), vc_original = rp_original p, vc_proposed = rp_proposed p\<rparr>)
       (enum ps)"

lemma detected_suggestions:
  assumes "detect_issues env ds n = Some r" and "i \<in> set (issues_of (findings r))" and "dataset_ok ds"
  shows "suggestion_ok i"
proof -
  obtain fs where fs: "all_findings env ds = Some fs" "findings r = take n fs"
    using assms(1) by (auto simp: detect_issues_def Let_def split: option.splits)
  obtain k f where k: "(k, f) \<in> set (enum (findings r))" "i = \<lparr>ri_id = k, ri_row = int (row_number f),
      ri_column = column_name f, ri_type = issue_type f, ri_original = original_value f,
      ri_suggested = suggested_fix f\<rparr>"
    using assms(2) by (auto simp: issues_of_def simp del: enum_from.simps)
  then have f: "f \<in> set (findings r)" "i = \<lparr>ri_id = k, ri_row = int (row_number f),
      ri_column = column_name f, ri_type = issue_type f, ri_original = original_value f,
      ri_suggested = suggested_fix f\<rparr>"
    by (auto simp: enum_iff)
  have "f \<in> set fs" using f(1) fs(2) by (auto dest: in_set_takeD)
  then obtain ty detect ys where rule: "(ty, detect) \<in> set (DETECTION_RULES env)" "detect ds = Some ys" "f \<in> set ys"
    using all_findings_mem[OF fs(1)] by blast
  show ?thesis
  proof (cases "issue_type f \<in> {LEADING_WHITESPACE, TRAILING_WHITESPACE, MULTIPLE_INTERNAL_SPACES}")
    case False
    then show ?thesis using f(2) by (auto simp: suggestion_ok_def split: issue_type.splits)
  next
    case True
    have "issue_type f = ty" by (rule detection_rule.own_type[OF registry_sound[OF rule(1)] assms(3) rule(2,3)])
    then have "f \<in> set (leading_whitespace_rule ds) \<or> f \<in> set (trailing_whitespace_rule ds)
        \<or> f \<in> set (multiple_internal_spaces_rule ds)"
      using True rule by (auto simp: DETECTION_RULES_def)
    then show ?thesis
      by (auto simp: f(2) suggestion_ok_def leading_whitespace_rule_def trailing_whitespace_rule_def
          multiple_internal_spaces_rule_def cell_finding_def)
  qed
qed

lemma changes_of_mem:
  "c \<in> set (changes_of ps) \<Longrightarrow> \<exists>q \<in> set ps. vc_action c = Inl (rp_action q) \<and> vc_original c = rp_original q
     \<and> vc_proposed c = rp_proposed q \<and> vc_column c = rp_column q"
proof -
  assume "c \<in> set (changes_of ps)"
  then obtain k q where q: "(k, q) \<in> set (enum ps)" and "vc_action c = Inl (rp_action q)"
      "vc_original c = rp_original q" "vc_proposed c = rp_proposed q" "vc_column c = rp_column q"
    by (auto simp: changes_of_def)
  moreover have "q \<in> set ps" using q by (auto simp: enum_iff)
  ultimately show ?thesis by blast
qed

lemma process_issue_passes:
  assumes "process_issue env rds config dc i = Inr (p, ty)" "suggestion_ok i"
    and "vc_action c = Inl (rp_action p)" "vc_original c = rp_original p" "vc_proposed c = rp_proposed p"
      "vc_column c = rp_column p" "k < limit"
  shows "vi_outcome (validate_change env config limit k c) = Passed"
proof -
  obtain a propose v where a: "get_rule_for_issue_type env (ri_type i) = Some (a, propose)"
      "propose i (resolved_config config (ri_column i)) dc = Propose v" "p = proposal_for i a v"
    using assms(1) by (auto simp: process_issue_def split: option.splits if_splits rule_outcome.splits)
  obtain types check where check: "get_rule_for_action env (Inl a) = Some (a, check)"
      "ri_type i \<in> set types" "checked_rule a propose types check"
    using registry_contract[OF a(1)] by blast
  have "fst (check c (resolved_config config (ri_column i))) = Passed"
    by (rule checked_rule.agreed[OF check(3) a(2) check(2) assms(2)]) (simp_all add: assms a(3) proposal_for_def)
  then show ?thesis
    using check(1) assms a(3) by (auto simp: validate_change_def proposal_for_def split: prod.splits)
qed

text \<open>What remediation proposes for the issues of a detection run, validation passes: under the same
  configuration, and with room for all results, validating the proposals of a remediation run gives
  a passed result for every one of them, none failed and none skipped.\<close>

theorem detected_proposals_validate:
  assumes "dataset_ok ds" and "detect_issues env ds n = Some r"
    and "rr_total_changes (remediate env rds (issues_of (findings r)) config dc m) \<le> limit"
  shows "let p = remediate env rds (issues_of (findings r)) config dc m;
             v = validate env (changes_of (rr_changes p)) config limit
         in vr_passed v = rr_total_changes p \<and> vr_failed v = 0 \<and> vr_skipped v = 0"
proof -
  let ?is = "issues_of (findings r)"
  let ?p = "remediate env rds ?is config dc m"
  let ?cs = "sort_key change_sort_key (changes_of (rr_changes ?p))"
  let ?ys = "items env config limit ?cs 0"
  have len: "length ?cs = rr_total_changes ?p" by (simp add: changes_of_def remediate_simps(4))
  have "vi_outcome y = Passed" if y: "y \<in> set ?ys" for y
  proof -
    obtain k c where "(k, c) \<in> set (enum ?cs)" "y = validate_change env config limit k c"
      using y by (auto simp: items_def)
    then have k: "k < length ?cs" "y = validate_change env config limit k (?cs ! k)"
      by (auto simp: enum_iff)
    then have "?cs ! k \<in> set (changes_of (rr_changes ?p))" by (metis nth_mem set_sort)
    then obtain q where q: "q \<in> set (rr_changes ?p)" "vc_action (?cs ! k) = Inl (rp_action q)"
        "vc_original (?cs ! k) = rp_original q" "vc_proposed (?cs ! k) = rp_proposed q"
        "vc_column (?cs ! k) = rp_column q"
      using changes_of_mem by blast
    obtain ty where "Inr (q, ty) \<in> set (processed env rds ?is config dc)"
      using q(1) by (auto simp: remediate_simps(1) set_rights[symmetric] dest!: in_set_takeD)
    then obtain i where i: "i \<in> set ?is" "process_issue env rds config dc i = Inr (q, ty)"
      by (auto simp: processed_def)
    show ?thesis unfolding k(2)
      by (rule process_issue_passes[OF i(2) detected_suggestions[OF assms(2) i(1) assms(1)] q(2-5)])
        (use k(1) len assms(3) in simp)
  qed
  then have "filter (\<lambda>x. vi_outcome x = Passed) ?ys = ?ys" "filter (\<lambda>x. vi_outcome x = Failed) ?ys = []"
      "filter (\<lambda>x. vi_outcome x = Skipped) ?ys = []"
    by (auto simp: filter_id_conv filter_empty_conv)
  moreover have "length ?ys = rr_total_changes ?p" using len by (simp add: items_def)
  ultimately show ?thesis by (simp add: validate_eq Let_def count_outcome_def)
qed

definition spaced_dataset :: dataset where
  "spaced_dataset = \<lparr>headers = [''a''], rows = [['' x''], [''y  z'']], structural_issues = [],
     column_rules = (\<lambda>h. None)\<rparr>"

lemma spaced_detects: "\<exists>r. detect_issues no_oracles spaced_dataset 100 = Some r"
proof -
  have "target_columns outlier_enabled spaced_dataset = []"
    by (simp add: target_columns_def spaced_dataset_def filter_empty_conv)
  then have "outlier_rule spaced_dataset = Some []" by (simp add: outlier_rule_def)
  then show ?thesis by (simp add: detect_issues_def all_findings_def DETECTION_RULES_def)
qed

lemma detected_proposals_validate_witness:
  "\<exists>r. detect_issues no_oracles spaced_dataset 100 = Some r \<and>
    (let p = remediate no_oracles sample_file (issues_of (findings r)) Map.empty no_removal 1;
         v = validate no_oracles (changes_of (rr_changes p)) Map.empty 1
     in vr_passed v = rr_total_changes p \<and> vr_failed v = 0 \<and> vr_skipped v = 0)"
proof -
  obtain r where r: "detect_issues no_oracles spaced_dataset 100 = Some r" using spaced_detects by blast
  have ok: "dataset_ok spaced_dataset" by (simp add: dataset_ok_def spaced_dataset_def)
  show ?thesis
    using detected_proposals_validate[OF ok r, where rds = sample_file
        and config = Map.empty and dc = no_removal and m = 1 and limit = 1] r
    by (intro exI[of _ r] conjI) (simp, simp add: remediate_simps)
qed

end
