(* ===== verification/CleaningProps.thy ===== *)
theory CleaningProps
  imports Cleaning TrimmedText
begin

text \<open>
  The properties of the cleaning engine.  The central one is that cleaning is a normal form:
  printing a normalized decimal and reading it back gives the same decimal, so a cleaned file is
  left alone by a second run.
\<close>

section \<open>Printed digits\<close>

lemma length_show_nat: "length (show_nat n) = count_digits n"
proof (induction n rule: show_nat.induct)
  case (1 n)
  then show ?case by (subst show_nat.simps, subst count_digits.simps) auto
qed

lemma zeros_digits: "list_all py_digit (zeros n)"
  by (simp add: zeros_def list_all_iff py_digit_iff)

lemma digits_value_zeros [simp]: "digits_value (zeros n) = 0"
  by (induction n) (auto simp: zeros_def digits_value_def)

lemma length_zeros [simp]: "length (zeros n) = n"
  by (simp add: zeros_def)

lemma count_digits_bounds: "n \<noteq> 0 \<Longrightarrow> 10 ^ (count_digits n - 1) \<le> n \<and> n < 10 ^ count_digits n"
proof (induction n rule: count_digits.induct)
  case (1 n)
  show ?case
  proof (cases "n < 10")
    case True
    then show ?thesis using 1(2) by (simp add: count_digits.simps)
  next
    case False
    have c: "count_digits n = Suc (count_digits (n div 10))" using False by (simp add: count_digits.simps)
    have p: "0 < count_digits (n div 10)" by (simp add: count_digits.simps)
    have ih: "10 ^ (count_digits (n div 10) - 1) \<le> n div 10 \<and> n div 10 < 10 ^ count_digits (n div 10)"
      using 1 False by simp
    have "10 ^ count_digits (n div 10) = (10::nat) * 10 ^ (count_digits (n div 10) - 1)"
      using p by (metis power_minus_mult mult.commute)
    then show ?thesis using ih c by simp linarith
  qed
qed

lemma count_digits_eqI: "0 < k \<Longrightarrow> 10 ^ (k - 1) \<le> n \<Longrightarrow> n < 10 ^ k \<Longrightarrow> count_digits n = k"
proof -
  assume a: "0 < k" "10 ^ (k - 1) \<le> n" "n < 10 ^ k"
  then have n: "n \<noteq> 0" by (metis not_one_le_zero one_le_numeral one_le_power order_trans)
  note b = count_digits_bounds[OF n]
  have p: "0 < count_digits n" by (simp add: count_digits.simps)
  have "(10::nat) ^ (k - 1) < 10 ^ count_digits n" "(10::nat) ^ (count_digits n - 1) < 10 ^ k"
    using a b by linarith+
  then have "k - 1 < count_digits n" "count_digits n - 1 < k" by simp_all
  then show ?thesis using p a(1) by simp
qed

lemma count_digits_shift: "n \<noteq> 0 \<Longrightarrow> count_digits (n * 10 ^ k) = count_digits n + k"
proof -
  assume n: "n \<noteq> 0"
  have p: "0 < count_digits n" by (simp add: count_digits.simps)
  note b = count_digits_bounds[OF n]
  have "(10::nat) ^ (count_digits n + k - 1) = 10 ^ (count_digits n - 1) * 10 ^ k"
    using p by (metis Nat.add_diff_assoc2 One_nat_def Suc_leI power_add)
  then show ?thesis
    using b p by (intro count_digits_eqI) (auto simp: power_add)
qed

section \<open>Reading back\<close>

definition printed_number :: "string \<Rightarrow> bool" where
  "printed_number s \<longleftrightarrow> s \<noteq> [] \<and> list_all (\<lambda>c. py_digit c \<or> c = CHR ''-'' \<or> c = CHR ''.'' \<or> c = CHR ''+'') s
     \<and> list_ex py_digit s"

lemma printed_not_space: "py_digit c \<or> c = CHR ''-'' \<or> c = CHR ''.'' \<or> c = CHR ''+'' \<Longrightarrow> \<not> py_space c"
  by (auto simp: py_space_def py_digit_iff)

lemma printed_no_space: "printed_number s \<Longrightarrow> list_all (\<lambda>c. \<not> py_space c) s"
  by (auto simp: printed_number_def list_all_iff dest!: printed_not_space)

lemma trimmed_strip: "trimmed s \<Longrightarrow> strip s = s"
  by (cases "s = []") (auto simp: trimmed_iff strip_fixed)

lemma blank_has_no_digit: "list_all (\<lambda>s. \<not> list_ex py_digit s) BLANK_EQUIVALENTS"
  by code_simp

lemma list_ex_digit_lower: "list_ex py_digit s \<Longrightarrow> list_ex py_digit (lower s)"
  by (induction s) (auto simp: lower_char_def py_upper_letter_def py_digit_iff)

lemma printed_not_blank: "printed_number s \<Longrightarrow> normalize_blank s = (s, None)"
proof -
  assume s: "printed_number s"
  then have "list_ex py_digit (casefold s)" by (simp add: casefold_def printed_number_def list_ex_digit_lower)
  then have "casefold s \<notin> set BLANK_EQUIVALENTS" using blank_has_no_digit by (auto simp: list_all_iff)
  then show ?thesis by (simp add: normalize_blank_def)
qed

lemma takeWhile_digits: "list_all py_digit s \<Longrightarrow> takeWhile py_digit (s @ t) = s @ takeWhile py_digit t
    \<and> dropWhile py_digit (s @ t) = dropWhile py_digit t"
  by (induction s) auto

lemma digits_all: "list_all py_digit s \<Longrightarrow> takeWhile py_digit s = s \<and> dropWhile py_digit s = []"
  using takeWhile_digits[of s "[]"] by simp

lemma split_sign_signed: "s \<noteq> [] \<Longrightarrow> py_digit (hd s) \<Longrightarrow> split_sign (show_signed neg s) = (neg, s)"
  by (cases s) (auto simp: show_signed_def py_digit_iff)

lemma parse_digits:
  "s \<noteq> [] \<Longrightarrow> list_all py_digit s \<Longrightarrow> parse_numeral (show_signed neg s) = Some (neg, digits_value s, 0)"
  using split_sign_signed[of s neg] digits_all[of s]
  by (cases s) (simp_all add: parse_numeral_def parse_exponent_def Let_def
      del: takeWhile_eq_all_conv dropWhile_eq_Nil_conv takeWhile.simps dropWhile.simps)

lemma parse_point:
  assumes "ip \<noteq> []" "list_all py_digit ip" "list_all py_digit fp"
  shows "parse_numeral (show_signed neg (ip @ CHR ''.'' # fp)) =
    Some (neg, digits_value (ip @ fp), - int (length fp))"
proof -
  have dot: "\<not> py_digit CHR ''.''" by (simp add: py_digit_iff)
  have "split_sign (show_signed neg (ip @ CHR ''.'' # fp)) = (neg, ip @ CHR ''.'' # fp)"
    using assms(1,2) by (intro split_sign_signed) (auto simp: list_all_iff hd_append)
  moreover have "takeWhile py_digit (ip @ CHR ''.'' # fp) = ip"
      "dropWhile py_digit (ip @ CHR ''.'' # fp) = CHR ''.'' # fp"
    using takeWhile_digits[OF assms(2), of "CHR ''.'' # fp"] dot by simp_all
  ultimately show ?thesis
    using assms(1) digits_all[OF assms(3)]
    by (simp add: parse_numeral_def parse_exponent_def Let_def
        del: takeWhile_eq_all_conv dropWhile_eq_Nil_conv)
qed

lemma printed_filter: "printed_number s \<Longrightarrow> filter (\<lambda>c. c \<noteq> CHR ''_'') (strip s) = s"
  using trimmed_strip[OF trimmed_no_space[OF printed_no_space]]
  by (auto simp: filter_id_conv printed_number_def list_all_iff py_digit_iff)

section \<open>Normalized decimals\<close>

definition normal_decimal :: "nat \<Rightarrow> int \<Rightarrow> bool" where
  "normal_decimal c e \<longleftrightarrow> (c = 0 \<and> e = 0) \<or>
     (c mod 10 \<noteq> 0 \<and> count_digits c \<le> 28 \<and> - 1000026 \<le> e \<and> e + int (count_digits c) - 1 \<le> 999999)"

lemma strip_zeros_spec:
  "c \<noteq> 0 \<Longrightarrow> \<exists>s j. strip_zeros c e = (s, e + int j) \<and> c = s * 10 ^ j \<and> s mod 10 \<noteq> 0"
proof (induction c e rule: strip_zeros.induct)
  case (1 c e)
  show ?case
  proof (cases "c mod 10 = 0")
    case True
    then have "c div 10 \<noteq> 0" using 1(2) by (metis mult_zero_right div_mult_mod_eq add.right_neutral mult.commute)
    then obtain s j where s: "strip_zeros (c div 10) (e + 1) = (s, e + 1 + int j)" "c div 10 = s * 10 ^ j" "s mod 10 \<noteq> 0"
      using 1 True by blast
    have "c = s * 10 ^ Suc j" using True s(2) by (metis div_mult_mod_eq add.right_neutral mult.assoc mult.commute power_Suc)
    then show ?thesis
      using s True 1(2) by (intro exI[of _ s] exI[of _ "Suc j"]) (subst strip_zeros.simps, simp)
  next
    case False
    then show ?thesis by (intro exI[of _ c] exI[of _ 0]) (subst strip_zeros.simps, simp)
  qed
qed

lemma strip_zeros_shift: "s mod 10 \<noteq> 0 \<Longrightarrow> strip_zeros (s * 10 ^ j) (e - int j) = (s, e)"
proof (induction j arbitrary: e)
  case 0
  then show ?case by (subst strip_zeros.simps) simp
next
  case (Suc j)
  have "s \<noteq> 0" using Suc.prems by auto
  moreover have "s * 10 ^ Suc j mod 10 = 0" "s * 10 ^ Suc j div 10 = s * 10 ^ j" by simp_all
  ultimately show ?case using Suc.IH[OF Suc.prems, of e] by (subst strip_zeros.simps) simp
qed

lemma count_digits_less: "n < 10 ^ k \<Longrightarrow> 0 < k \<Longrightarrow> count_digits n \<le> k"
proof (cases "n = 0")
  case False
  assume a: "n < 10 ^ k" "0 < k"
  then have "(10::nat) ^ (count_digits n - 1) < 10 ^ k"
    using count_digits_bounds[OF False] by linarith
  then have "count_digits n - 1 < k" by simp
  then show ?thesis using a by simp
qed (simp add: count_digits.simps)

lemma stripped_digits:
  assumes "s * 10 ^ j \<le> 10 ^ 28" "s mod 10 \<noteq> (0::nat)"
  shows "count_digits s \<le> 28"
proof -
  have "s \<le> s * 10 ^ j" by simp
  then have le: "s \<le> 10 ^ 28" using assms(1) by linarith
  have "s \<noteq> 10 ^ 28" using assms(2) by auto
  then have "s < 10 ^ 28" using le by linarith
  then show ?thesis using count_digits_less[of s 28] by simp
qed

lemma round_half_even_le: "0 < m \<Longrightarrow> c < b * m \<Longrightarrow> round_half_even c m \<le> b"
proof -
  assume a: "0 < m" "c < b * m"
  then have "c div m < b" by (simp add: less_mult_imp_div_less)
  then show ?thesis by (auto simp: round_half_even_def Let_def)
qed

lemma round_half_even_exact: "0 < m \<Longrightarrow> round_half_even (q * m) m = q"
  by (simp add: round_half_even_def)

lemma normalize_normal:
  assumes "normalize_decimal c e = Some (c', e')"
  shows "normal_decimal c' e'"
proof (cases "c = 0")
  case True
  then show ?thesis using assms by (simp add: normalize_decimal_def normal_decimal_def)
next
  case False
  define k where "k = max (int (count_digits c) - 28) (- 1000026 - e)"
  define r where "r = (if 0 < k then (round_half_even c (10 ^ nat k), e + k) else (c, e))"
  have low: "- 1000026 \<le> snd r" by (auto simp: r_def k_def max_def)
  have "c < 10 ^ count_digits c" using count_digits_bounds[OF False] by simp
  have small: "fst r \<le> 10 ^ 28"
  proof (cases "0 < k")
    case True
    have "count_digits c \<le> 28 + nat k" using True by (simp add: k_def)
    then have "(10::nat) ^ count_digits c \<le> 10 ^ (28 + nat k)" by (rule power_increasing) simp
    then have "c < 10 ^ 28 * 10 ^ nat k" using \<open>c < 10 ^ count_digits c\<close> by (simp only: power_add)
    then show ?thesis using True round_half_even_le[of "10 ^ nat k" c "10 ^ 28"] by (simp add: r_def)
  next
    case False
    then have "count_digits c \<le> 28" by (simp add: k_def)
    then have "(10::nat) ^ count_digits c \<le> 10 ^ 28" by (rule power_increasing) simp
    then show ?thesis using False \<open>c < 10 ^ count_digits c\<close> by (simp add: r_def)
  qed
  have eq: "normalize_decimal c e =
      (if fst r = 0 then Some (0, 0)
       else if snd r + int (count_digits (fst r)) - 1 > 999999 then None else Some (strip_zeros (fst r) (snd r)))"
    using False by (simp add: normalize_decimal_def k_def[symmetric] r_def[symmetric] Let_def case_prod_unfold)
  show ?thesis
  proof (cases "fst r = 0")
    case True
    then show ?thesis using assms eq by (simp add: normal_decimal_def)
  next
    case nz: False
    then obtain s j where s: "strip_zeros (fst r) (snd r) = (s, snd r + int j)" "fst r = s * 10 ^ j" "s mod 10 \<noteq> 0"
      using strip_zeros_spec by blast
    have "s \<noteq> 0" using s(3) by auto
    then have "count_digits (fst r) = count_digits s + j" by (simp add: s(2) count_digits_shift)
    moreover have "count_digits s \<le> 28" using small s by (intro stripped_digits[of s j]) simp_all
    ultimately show ?thesis
      using assms eq nz s low by (auto simp: normal_decimal_def split: if_splits)
  qed
qed

lemma normalize_shift:
  assumes "normal_decimal c e" "c \<noteq> 0" "- 1000026 \<le> e - int i"
  shows "normalize_decimal (c * 10 ^ i) (e - int i) = Some (c, e)"
proof -
  have n: "c mod 10 \<noteq> 0" "count_digits c \<le> 28" "e + int (count_digits c) - 1 \<le> 999999"
    using assms(1,2) by (auto simp: normal_decimal_def)
  define k where "k = nat (int (count_digits c + i) - 28)"
  have k: "k \<le> i" using n(2) by (simp add: k_def)
  have "(if 0 < max (int (count_digits (c * 10 ^ i)) - 28) (- 1000026 - (e - int i))
      then (round_half_even (c * 10 ^ i) (10 ^ nat (max (int (count_digits (c * 10 ^ i)) - 28) (- 1000026 - (e - int i)))),
        e - int i + max (int (count_digits (c * 10 ^ i)) - 28) (- 1000026 - (e - int i)))
      else (c * 10 ^ i, e - int i)) = (c * 10 ^ (i - k), e - int (i - k))"
  proof (cases "0 < k")
    case True
    then have m: "max (int (count_digits (c * 10 ^ i)) - 28) (- 1000026 - (e - int i)) = int k"
      using assms(2,3) by (simp add: count_digits_shift k_def)
    have split: "c * 10 ^ i = c * 10 ^ (i - k) * 10 ^ k" using k by (simp flip: power_add)
    have "round_half_even (c * 10 ^ i) (10 ^ k) = c * 10 ^ (i - k)"
      unfolding split by (rule round_half_even_exact) simp
    then show ?thesis using True k by (simp add: m)
  next
    case False
    then have "max (int (count_digits (c * 10 ^ i)) - 28) (- 1000026 - (e - int i)) \<le> 0"
      using assms(2,3) by (simp add: count_digits_shift k_def)
    then show ?thesis using False by (simp add: not_less)
  qed
  then have "normalize_decimal (c * 10 ^ i) (e - int i) =
      (if e - int (i - k) + int (count_digits (c * 10 ^ (i - k))) - 1 > 999999 then None
       else Some (strip_zeros (c * 10 ^ (i - k)) (e - int (i - k))))"
    using assms(2) by (simp add: normalize_decimal_def Let_def)
  then show ?thesis
    using strip_zeros_shift[OF n(1), of "i - k" e] n(3) assms(2) by (simp add: count_digits_shift)
qed

section \<open>Printing and reading back\<close>

lemma printed_point:
  "ip \<noteq> [] \<Longrightarrow> list_all py_digit ip \<Longrightarrow> list_all py_digit fp \<Longrightarrow>
     printed_number (show_signed neg (ip @ CHR ''.'' # fp))"
  by (cases ip) (auto simp: printed_number_def show_signed_def list_all_iff)

lemma some_digit: "s \<noteq> [] \<Longrightarrow> list_all py_digit s \<Longrightarrow> list_ex py_digit s"
  by (cases s) auto

lemma format_f_shape:
  assumes "normal_decimal c e"
  shows "printed_number (format_f neg c e) \<and>
    parse_numeral (format_f neg c e) = Some (neg, if 0 \<le> e then c * 10 ^ nat e else c, min e 0)"
proof (cases "0 \<le> e")
  case True
  let ?s = "if c = 0 then ''0'' else show_nat c @ zeros (nat e)"
  have s: "?s \<noteq> []" "list_all py_digit ?s"
    using show_nat_digits[of c] zeros_digits[of "nat e"] by (auto simp: py_digit_iff)
  have "digits_value ?s = c * 10 ^ nat e"
    by (auto simp: digits_value_append digits_value_single)
  moreover have "printed_number (show_signed neg ?s)"
  proof -
    have "list_ex py_digit ?s" using s by (cases ?s) auto
    then show ?thesis using s by (auto simp: printed_number_def show_signed_def list_all_iff list_ex_iff)
  qed
  ultimately show ?thesis
    using True parse_digits[OF s, of neg] by (simp add: format_f_def)
next
  case False
  let ?k = "nat (- e)" and ?ds = "show_nat c"
  let ?p = "zeros (Suc ?k - length ?ds) @ ?ds"
  let ?ip = "take (length ?p - ?k) ?p" and ?fp = "drop (length ?p - ?k) ?p"
  have all: "list_all py_digit ?p" using show_nat_digits[of c] zeros_digits by simp
  then have parts: "list_all py_digit ?ip" "list_all py_digit ?fp" using no_space_part by blast+
  have len: "Suc ?k \<le> length ?p" by simp
  then have ip: "?ip \<noteq> []" by (metis Suc_le_lessD list.size(3) length_take min.absorb2 diff_le_self less_irrefl zero_less_diff)
  have fp: "length ?fp = ?k" unfolding length_drop using len by simp
  have val: "digits_value (?ip @ ?fp) = c"
    by (simp only: append_take_drop_id) (simp add: digits_value_append)
  have form: "format_f neg c e = show_signed neg (?ip @ CHR ''.'' # ?fp)"
    using False by (simp add: format_f_def Let_def)
  have "parse_numeral (show_signed neg (?ip @ CHR ''.'' # ?fp)) = Some (neg, c, - int ?k)"
    unfolding parse_point[OF ip parts, of neg] val fp by (rule refl)
  then show ?thesis using printed_point[OF ip parts, of neg] False unfolding form by simp
qed

lemma decimal_of_format_f:
  assumes "normal_decimal c e"
  shows "decimal_of (format_f neg c e) = Some (Finite neg (if 0 \<le> e then c * 10 ^ nat e else c) (min e 0))"
proof -
  have "in_context (if 0 \<le> e then c * 10 ^ nat e else c) (min e 0)"
  proof (cases "c = 0")
    case True
    then show ?thesis using assms by (auto simp: normal_decimal_def in_context_def count_digits.simps)
  next
    case False
    then show ?thesis using assms by (auto simp: normal_decimal_def in_context_def count_digits_shift min_def)
  qed
  then show ?thesis
    using format_f_shape[OF assms, of neg] by (simp add: decimal_of_def Let_def printed_filter)
qed

lemma printed_strip: "printed_number s \<Longrightarrow> strip s = s"
  by (rule trimmed_strip[OF trimmed_no_space[OF printed_no_space]])

lemma coerce_decimal_printed:
  assumes "normal_decimal c e"
  shows "coerce_decimal (format_f neg c e) = Some (format_f neg c e, None)"
proof -
  have "normalize_decimal (if 0 \<le> e then c * 10 ^ nat e else c) (min e 0) = Some (c, e)"
  proof (cases "c = 0")
    case True
    then show ?thesis using assms by (auto simp: normal_decimal_def normalize_decimal_def)
  next
    case False
    then show ?thesis
      using normalize_shift[OF assms False, of "if 0 \<le> e then nat e else 0"] assms
      by (auto simp: normal_decimal_def split: if_splits)
  qed
  then show ?thesis
    using decimal_of_format_f[OF assms] format_f_shape[OF assms, of neg]
    by (simp add: coerce_decimal_def printed_strip ruled_if_changed_def)
qed

section \<open>Coercions are idempotent\<close>

text \<open>What a coercion leaves behind: itself trimmed, not blank, and coerced.\<close>

definition settled :: "(string \<Rightarrow> ruled option) \<Rightarrow> string \<Rightarrow> bool" where
  "settled f w \<longleftrightarrow> trimmed w \<and> normalize_blank w = (w, None) \<and> f w = Some (w, None)"

definition prepared :: "string \<Rightarrow> bool" where
  "prepared v \<longleftrightarrow> trimmed v \<and> normalize_blank v = (v, None) \<and> v \<noteq> []"

lemma printed_settles: "printed_number s \<Longrightarrow> f s = Some (s, None) \<Longrightarrow> settled f s"
  by (simp add: settled_def printed_not_blank trimmed_no_space printed_no_space)

lemma integer_shape_printed: "integer_shape s \<Longrightarrow> printed_number s"
  using some_digit[of "snd (split_sign s)"]
  by (cases s) (auto simp: integer_shape_def isdigit_def printed_number_def list_all_iff split: if_splits)

lemma integer_shape_shown: "integer_shape (show_signed neg (show_nat n))"
proof -
  have "py_digit (hd (show_nat n))" using show_nat_digits[of n] by (cases "show_nat n") auto
  then show ?thesis
    using split_sign_signed[of "show_nat n" neg] show_nat_digits[of n]
    by (simp add: integer_shape_def isdigit_def)
qed

lemma coerce_integer_settles:
  assumes "coerce_integer v = Some (w, r)" "prepared v"
  shows "settled coerce_integer w"
proof -
  have v: "strip v = v" using assms(2) trimmed_strip by (simp add: prepared_def)
  have shaped: "settled coerce_integer s" if "integer_shape s" for s
    using that printed_settles[OF integer_shape_printed[OF that]] printed_strip[OF integer_shape_printed[OF that]]
    by (simp add: coerce_integer_def)
  show ?thesis
  proof (cases "integer_shape v")
    case True
    then show ?thesis using assms v shaped by (auto simp: coerce_integer_def ruled_if_changed_def)
  next
    case False
    have "w = v \<or> w = ''0'' \<or> (\<exists>neg n. w = show_signed neg (show_nat n))"
      using assms(1) v False
      by (auto simp: coerce_integer_def show_integral_def split: option.splits decimal.splits if_splits)
    moreover have "integer_shape ''0''" by code_simp
    moreover have "settled coerce_integer v" if "w = v"
    proof -
      have "coerce_integer v = Some (v, None)"
      proof (cases "r = None")
        case False
        then have "w = ''0'' \<or> (\<exists>neg n. w = show_signed neg (show_nat n))"
          using assms(1) v \<open>\<not> integer_shape v\<close>
          by (auto simp: coerce_integer_def show_integral_def split: option.splits decimal.splits if_splits)
        then show ?thesis using that \<open>\<not> integer_shape v\<close> \<open>integer_shape ''0''\<close> integer_shape_shown by auto
      qed (use assms(1) that in simp)
      then show ?thesis using assms(2) by (simp add: settled_def prepared_def)
    qed
    ultimately show ?thesis using shaped integer_shape_shown by auto
  qed
qed

lemma coerce_decimal_settles:
  assumes "coerce_decimal v = Some (w, r)" "prepared v"
  shows "settled coerce_decimal w"
proof (cases "decimal_of (strip v)")
  case (Some d)
  show ?thesis
  proof (cases d)
    case (Finite neg c e)
    then obtain c' e' where n: "normalize_decimal c e = Some (c', e')" "(w, r) = ruled_if_changed v (format_f neg c' e') CoerceDecimal"
      using assms(1) Some by (auto simp: coerce_decimal_def)
    have "w = format_f neg c' e'" using n(2) by (auto simp: ruled_if_changed_def split: if_splits)
    then show ?thesis
      using printed_settles[of w coerce_decimal] format_f_shape[OF normalize_normal[OF n(1)], of neg]
        coerce_decimal_printed[OF normalize_normal[OF n(1)], of neg] by simp
  qed (use assms Some in \<open>auto simp: coerce_decimal_def settled_def prepared_def\<close>)
qed (use assms in \<open>auto simp: coerce_decimal_def settled_def prepared_def\<close>)

lemma booleans_kept: "normalize_blank ''true'' = (''true'', None)" "normalize_blank ''false'' = (''false'', None)"
    "coerce_boolean ''true'' = (''true'', None)" "coerce_boolean ''false'' = (''false'', None)"
  by code_simp+

lemma booleans_settled: "settled (\<lambda>v. Some (coerce_boolean v)) ''true''" "settled (\<lambda>v. Some (coerce_boolean v)) ''false''"
  by (simp_all only: settled_def boolean_trimmed booleans_kept simp_thms)

lemma coerce_boolean_settles:
  assumes "coerce_boolean v = (w, r)" "prepared v"
  shows "settled (\<lambda>v. Some (coerce_boolean v)) w"
proof -
  have "w = ''true'' \<or> w = ''false'' \<or> (w = v \<and> r = None)"
    using assms(1) by (auto simp: coerce_boolean_def Let_def simp del: One_nat_def split: if_splits)
  then show ?thesis
  proof (elim disjE conjE)
    assume "w = v" "r = None"
    then show ?thesis using assms by (simp only: settled_def prepared_def simp_thms)
  qed (simp_all only: booleans_settled)
qed

text \<open>The column types whose coercion needs no date parser.\<close>

definition dateless :: "string \<Rightarrow> bool" where
  "dateless ty \<longleftrightarrow> ty \<noteq> ''date'' \<and> ty \<noteq> ''datetime''"

lemma coerce_type_settles:
  assumes "coerce_type env ty v = Some (w, r)" "dateless ty" "trimmed v" "normalize_blank v = (v, None)"
  shows "settled (coerce_type env ty) w"
proof (cases "v = []")
  case True
  then show ?thesis using assms by (auto simp: coerce_type_def settled_def)
next
  case False
  then have p: "prepared v" using assms by (simp add: prepared_def)
  have lift: "settled (coerce_type env ty) w"
    if "settled f w" "\<And>x. x \<noteq> [] \<Longrightarrow> coerce_type env ty x = f x" for f
    using that by (cases "w = []") (auto simp: settled_def coerce_type_def)
  consider "ty = ''integer''" | "ty = ''decimal''" | "ty = ''boolean''" | "ty \<notin> {''integer'', ''decimal'', ''boolean''}"
    by blast
  then show ?thesis
  proof cases
    case 1
    then show ?thesis using assms(1) False coerce_integer_settles[OF _ p] by (intro lift) (auto simp: coerce_type_def)
  next
    case 2
    then show ?thesis using assms(1) False coerce_decimal_settles[OF _ p] by (intro lift) (auto simp: coerce_type_def)
  next
    case 3
    then show ?thesis using assms(1) False coerce_boolean_settles[OF _ p]
      by (intro lift[of "\<lambda>v. Some (coerce_boolean v)"]) (auto simp: coerce_type_def)
  next
    case 4
    then show ?thesis using assms False
      by (auto simp: coerce_type_def settled_def dateless_def split: if_splits)
  qed
qed

section \<open>Cells, rows, files\<close>

lemma those_Some: "those xs = Some ys \<longleftrightarrow> xs = map Some ys"
  by (induction xs arbitrary: ys) (auto simp: Cons_eq_map_conv split: option.splits)

lemma those_None: "those xs = None \<longleftrightarrow> None \<in> set xs"
  by (induction xs) (auto split: option.splits)

lemma normalize_blank_result: "normalize_blank t = (v, r) \<Longrightarrow> (v = [] \<and> t \<noteq> [] \<and> r \<noteq> None) \<or> (v = t \<and> r = None)"
  by (auto simp: normalize_blank_def split: if_splits)

lemma clean_cell_again:
  assumes "clean_cell env i col ty raw = Some (w, cs)" "dateless ty"
  shows "clean_cell env i' col' ty w = Some (w, [])"
proof -
  obtain t r1 where t: "trim_whitespace raw = (t, r1)" by (cases "trim_whitespace raw")
  obtain v r2 where v: "normalize_blank t = (v, r2)" by (cases "normalize_blank t")
  obtain r3 where w: "coerce_type env ty v = Some (w, r3)"
    using assms(1) t v by (auto simp: clean_cell_def)
  have "trimmed t" using trimmed_trim[of raw] t by simp
  then have "trimmed v" "normalize_blank v = (v, None)"
  proof -
    have "v = [] \<or> v = t \<and> r2 = None" using normalize_blank_result[OF v] by blast
    moreover have "trimmed []" "normalize_blank [] = ([], None)" by (simp_all add: trimmed_iff normalize_blank_def)
    ultimately show "trimmed v" "normalize_blank v = (v, None)" using v \<open>trimmed t\<close> by auto
  qed
  from coerce_type_settles[OF w assms(2) this] show ?thesis
    by (simp add: settled_def trimmed_def clean_cell_def cleaning_steps_def)
qed

lemma clean_rows:
  assumes "clean env rows hs types n = Some r"
  obtains rs where "length rs = length rows"
    and "\<And>i. i < length rows \<Longrightarrow> clean_row env hs types i (rows ! i) = Some (rs ! i)"
    and "cleaned_rows r = map fst rs" and "cl_changes r = take n (concat (map snd rs))"
    and "cl_total_changes r = length (concat (map snd rs))"
    and "cl_changes_by_rule r = tally (map cl_rule (concat (map snd rs)))"
    and "cl_duplicate_rows r = count_duplicates [] (map fst rs)"
    and "cl_confidence_score r = min_default 1 (map cl_confidence (concat (map snd rs)))"
proof -
  obtain rs where rs: "map (\<lambda>(i, row). clean_row env hs types i row) (enum rows) = map Some rs"
    using assms by (auto simp: clean_def those_Some)
  then have len: "length rs = length rows" by (metis length_map length_enum_from)
  have each: "clean_row env hs types i (rows ! i) = Some (rs ! i)" if "i < length rows" for i
    using arg_cong[OF rs, of "\<lambda>xs. xs ! i"] that len by (simp add: nth_enum)
  show thesis
    by (rule that[OF len each]) (use assms rs in \<open>auto simp: clean_def Let_def those_Some[THEN iffD2]\<close>)
qed

lemma clean_row_cells:
  assumes "clean_row env hs types i row = Some (out, cs)"
  obtains xs where "length xs = length row"
    and "\<And>j. j < length row \<Longrightarrow> clean_cell env i (hs ! j) (types ! j) (row ! j) = Some (xs ! j)"
    and "out = map fst xs" and "cs = concat (map snd xs)"
proof -
  obtain xs where xs: "map (\<lambda>(j, v). clean_cell env i (hs ! j) (types ! j) v) (enum row) = map Some xs"
      "out = map fst xs" "cs = concat (map snd xs)"
    using assms by (auto simp: clean_row_def those_Some)
  then have len: "length xs = length row" by (metis length_map length_enum_from)
  have "clean_cell env i (hs ! j) (types ! j) (row ! j) = Some (xs ! j)" if "j < length row" for j
    using arg_cong[OF xs(1), of "\<lambda>ys. ys ! j"] that len by (simp add: nth_enum)
  then show thesis using that[OF len _ xs(2,3)] by blast
qed

lemma clean_row_again:
  assumes "clean_row env hs types i row = Some (out, cs)" "length row = length types" "list_all dateless types"
  shows "clean_row env hs types k out = Some (out, [])"
proof -
  obtain xs where xs: "length xs = length row"
      "\<And>j. j < length row \<Longrightarrow> clean_cell env i (hs ! j) (types ! j) (row ! j) = Some (xs ! j)" "out = map fst xs"
    using clean_row_cells[OF assms(1)] by metis
  have again: "clean_cell env k (hs ! j) (types ! j) (out ! j) = Some (out ! j, [])" if "j < length out" for j
    using clean_cell_again[of env i "hs ! j" "types ! j" "row ! j" "fst (xs ! j)" "snd (xs ! j)"]
      xs that assms(2,3) by (simp add: list_all_length)
  have "map (\<lambda>(j, v). clean_cell env k (hs ! j) (types ! j) v) (enum out) = map Some (map (\<lambda>v. (v, [])) out)"
    by (rule nth_equalityI) (simp_all add: nth_enum again)
  then have "those (map (\<lambda>(j, v). clean_cell env k (hs ! j) (types ! j) v) (enum out)) = Some (map (\<lambda>v. (v, [])) out)"
    by (simp only: those_Some)
  then show ?thesis by (simp add: clean_row_def comp_def)
qed

text \<open>C25: Cleaning is a normal form.  Whatever a run accepts, cleaning its output again under the same
  column types leaves every row as it is and records no change, for every column type but dates:
  trimmed and blank-normalized cells stay, and the canonical integers, decimals and booleans
  read back as themselves.\<close>

theorem clean_again:
  assumes "clean env rows hs types n = Some r"
    and "\<forall>row \<in> set rows. length row = length types" and "list_all dateless types"
  shows "\<exists>r'. clean env (cleaned_rows r) hs types n = Some r' \<and> cleaned_rows r' = cleaned_rows r
           \<and> cl_total_changes r' = 0 \<and> cl_changes r' = [] \<and> cl_confidence_score r' = 1
           \<and> cl_duplicate_rows r' = cl_duplicate_rows r"
proof -
  obtain rs where rs: "length rs = length rows"
      "\<And>i. i < length rows \<Longrightarrow> clean_row env hs types i (rows ! i) = Some (rs ! i)"
      "cleaned_rows r = map fst rs" "cl_duplicate_rows r = count_duplicates [] (map fst rs)"
    using clean_rows[OF assms(1)] by metis
  let ?out = "cleaned_rows r"
  have again: "clean_row env hs types i (?out ! i) = Some (?out ! i, [])" if "i < length ?out" for i
    using clean_row_again[of env hs types i "rows ! i" "fst (rs ! i)" "snd (rs ! i)"] rs that assms(2,3) by simp
  have "map (\<lambda>(i, row). clean_row env hs types i row) (enum ?out) = map Some (map (\<lambda>v. (v, [])) ?out)"
    by (rule nth_equalityI) (simp_all add: nth_enum again)
  then have "those (map (\<lambda>(i, row). clean_row env hs types i row) (enum ?out)) = Some (map (\<lambda>v. (v, [])) ?out)"
    by (simp only: those_Some)
  moreover have "concat (map (snd \<circ> (\<lambda>v. (v, []))) ?out) = []" by simp
  ultimately show ?thesis
    using rs(3,4) by (simp add: clean_def Let_def comp_def min_default_def)
qed

lemma clean_again_witness:
  "\<exists>r r'. clean no_oracles [['' 007 '', ''1e3'', ''YES''], [''+5'', ''1.50'', ''N/A'']] [''a'', ''b'', ''c'']
       [''integer'', ''decimal'', ''boolean''] 10 = Some r
     \<and> clean no_oracles (cleaned_rows r) [''a'', ''b'', ''c''] [''integer'', ''decimal'', ''boolean''] 10 = Some r'
     \<and> cleaned_rows r' = cleaned_rows r"
proof -
  have "clean no_oracles [['' 007 '', ''1e3'', ''YES''], [''+5'', ''1.50'', ''N/A'']] [''a'', ''b'', ''c'']
      [''integer'', ''decimal'', ''boolean''] 10 \<noteq> None" by code_simp
  then obtain r where r: "clean no_oracles [['' 007 '', ''1e3'', ''YES''], [''+5'', ''1.50'', ''N/A'']] [''a'', ''b'', ''c'']
      [''integer'', ''decimal'', ''boolean''] 10 = Some r" by blast
  show ?thesis
    using clean_again[OF r] r by (auto simp: dateless_def)
qed

section \<open>The change log, duplicates and the summary\<close>

lemma coerce_integer_none: "coerce_integer v = Some (w, None) \<Longrightarrow> w = v"
  by (auto simp: coerce_integer_def ruled_if_changed_def Let_def split: if_splits option.splits decimal.splits)

lemma coerce_decimal_none: "coerce_decimal v = Some (w, None) \<Longrightarrow> w = v"
  by (auto simp: coerce_decimal_def ruled_if_changed_def split: if_splits option.splits decimal.splits)

lemma coerce_boolean_none: "coerce_boolean v = (w, None) \<Longrightarrow> w = v"
  by (simp add: coerce_boolean_def Let_def split: if_splits)

lemma coerce_type_none: "coerce_type env ty v = Some (w, None) \<Longrightarrow> w = v"
  using coerce_integer_none coerce_decimal_none coerce_boolean_none
  by (auto simp: coerce_type_def coerce_date_def ruled_if_changed_def split: if_splits option.splits)

lemma cleaning_step_chain:
  assumes "clean_cell env i col ty raw = Some (w, cs)"
  shows "chained raw (map (\<lambda>c. (cl_original c, cl_cleaned c)) cs) w"
    and "c \<in> set cs \<Longrightarrow> cl_row c = i \<and> cl_column c = col \<and> cl_original c \<noteq> cl_cleaned c
           \<and> cl_confidence c = rule_confidence (cl_rule c)"
proof -
  obtain t r1 where t: "trim_whitespace raw = (t, r1)" by (cases "trim_whitespace raw")
  obtain v r2 where v: "normalize_blank t = (v, r2)" by (cases "normalize_blank t")
  obtain r3 where w: "coerce_type env ty v = Some (w, r3)"
      "cs = cleaning_steps i col [(raw, t, r1), (t, v, r2), (v, w, r3)]"
    using assms t v by (auto simp: clean_cell_def)
  have "r1 = None \<Longrightarrow> t = raw" using trim.none_keeps t by simp
  moreover have "r2 = None \<Longrightarrow> v = t" using normalize_blank_result[OF v] by auto
  moreover have "r3 = None \<Longrightarrow> w = v" using w(1) coerce_type_none by simp
  ultimately show "chained raw (map (\<lambda>c. (cl_original c, cl_cleaned c)) cs) w"
    unfolding w(2) by (cases r1; cases r2; cases r3) (simp_all add: cleaning_steps_def)
  show "c \<in> set cs \<Longrightarrow> cl_row c = i \<and> cl_column c = col \<and> cl_original c \<noteq> cl_cleaned c
      \<and> cl_confidence c = rule_confidence (cl_rule c)"
    unfolding w(2) by (auto simp: cleaning_steps_def split: if_splits)
qed

lemma cleaned_step_row: "clean_cell env i col ty raw = Some x \<Longrightarrow> c \<in> set (snd x) \<Longrightarrow> cl_row c = i"
  and cleaned_step_column: "clean_cell env i col ty raw = Some x \<Longrightarrow> c \<in> set (snd x) \<Longrightarrow> cl_column c = col"
  using cleaning_step_chain(2)[of env i col ty raw "fst x" "snd x" c] by simp_all

lemma clean_row_parts:
  assumes "clean_row env hs types i row = Some p"
  shows "\<exists>xs. length xs = length row \<and> p = (map fst xs, concat (map snd xs))
    \<and> (\<forall>m < length row. clean_cell env i (hs ! m) (types ! m) (row ! m) = Some (xs ! m))"
  using clean_row_cells[of env hs types i row "fst p" "snd p"] assms by (metis prod.collapse)

lemma filter_concat_index:
  assumes "\<And>k c. k < length css \<Longrightarrow> c \<in> set (css ! k) \<Longrightarrow> key c = h k"
    and "inj_on h {..< length css}" and "i < length css"
  shows "filter (\<lambda>c. key c = h i) (concat css) = css ! i"
proof -
  let ?g = "\<lambda>k. if k < length css then css ! k else []"
  have all: "map ?g [0 ..< length css] = css" by (rule nth_equalityI) simp_all
  have "filter (\<lambda>c. key c = h i) (concat (map ?g [0 ..< length css])) = ?g i"
    by (rule filter_concat_order) (use assms in \<open>auto simp: atLeast0LessThan split: if_splits\<close>)
  then show ?thesis using assms(3) unfolding all by simp
qed

text \<open>The cleaning log replays the file.  When no change is cut off, the changes logged for a row and
  a column lead from the raw cell to the cleaned cell, each starting where the previous one ended
  and each really changing the text.\<close>

theorem clean_log_replays:
  assumes "clean env rows hs types n = Some r" and "cl_total_changes r \<le> n"
    and "distinct hs" and "\<forall>row \<in> set rows. length row = length hs"
    and "i < length rows" and "j < length hs"
  shows "chained (rows ! i ! j)
    (map (\<lambda>c. (cl_original c, cl_cleaned c))
       (filter (\<lambda>c. cl_row c = i \<and> cl_column c = hs ! j) (cl_changes r)))
    (cleaned_rows r ! i ! j)"
proof -
  obtain rs where rs: "length rs = length rows"
      "\<And>i. i < length rows \<Longrightarrow> clean_row env hs types i (rows ! i) = Some (rs ! i)"
      "cleaned_rows r = map fst rs" "cl_changes r = take n (concat (map snd rs))"
      "cl_total_changes r = length (concat (map snd rs))"
    using clean_rows[OF assms(1)] by metis
  have parts: "\<exists>xs. length xs = length hs \<and> rs ! k = (map fst xs, concat (map snd xs))
      \<and> (\<forall>m < length hs. clean_cell env k (hs ! m) (types ! m) (rows ! k ! m) = Some (xs ! m))"
    if "k < length rows" for k
    using clean_row_parts[OF rs(2)[OF that]] assms(4) that by simp
  obtain xs where xs: "length xs = length hs" "rs ! i = (map fst xs, concat (map snd xs))"
      "\<forall>m < length hs. clean_cell env i (hs ! m) (types ! m) (rows ! i ! m) = Some (xs ! m)"
    using parts[OF assms(5)] by blast
  have "filter (\<lambda>c. cl_row c = i) (concat (map snd rs)) = map snd rs ! i"
  proof (rule filter_concat_index[where h = "\<lambda>k. k"])
    fix k c
    assume k: "k < length (map snd rs)" and c: "c \<in> set (map snd rs ! k)"
    have k': "k < length rows" using k rs(1) by simp
    from parts[OF k'] obtain ys where "length ys = length hs" "rs ! k = (map fst ys, concat (map snd ys))"
        "\<forall>m < length hs. clean_cell env k (hs ! m) (types ! m) (rows ! k ! m) = Some (ys ! m)"
      by blast
    moreover from this obtain m where "m < length ys" "c \<in> set (snd (ys ! m))"
      using c k by (fastforce simp: in_set_conv_nth[of _ ys])
    ultimately show "cl_row c = k" using cleaned_step_row[of env k "hs ! m" "types ! m" "rows ! k ! m" "ys ! m" c] by simp
  qed (use rs(1) assms(5) in auto)
  moreover have "filter (\<lambda>c. cl_column c = hs ! j) (concat (map snd xs)) = map snd xs ! j"
  proof (rule filter_concat_index[where h = "\<lambda>m. hs ! m"])
    fix k c
    assume "k < length (map snd xs)" "c \<in> set (map snd xs ! k)"
    then show "cl_column c = hs ! k"
      using cleaned_step_column[of env i "hs ! k" "types ! k" "rows ! i ! k" "xs ! k" c] xs by simp
  qed (use xs(1) assms(3,6) in \<open>auto simp: inj_on_def nth_eq_iff_index_eq\<close>)
  moreover have "filter (\<lambda>c. cl_row c = i \<and> cl_column c = hs ! j) (cl_changes r) =
      filter (\<lambda>c. cl_column c = hs ! j) (filter (\<lambda>c. cl_row c = i) (concat (map snd rs)))"
    using rs(4,5) assms(2) by (simp add: conj_commute)
  ultimately have logged: "filter (\<lambda>c. cl_row c = i \<and> cl_column c = hs ! j) (cl_changes r) = snd (xs ! j)"
    using xs(1,2) rs(1) assms(5,6) by simp
  have cell: "cleaned_rows r ! i ! j = fst (xs ! j)" using rs(1,3) xs(1,2) assms(5,6) by simp
  show ?thesis
    unfolding logged cell
    by (rule cleaning_step_chain(1)[of env i "hs ! j" "types ! j"]) (use xs(3) assms(6) in simp)
qed

lemma clean_log_replays_witness:
  "\<exists>r. clean no_oracles [['' 007 '', ''N/A'']] [''a'', ''b''] [''integer'', ''string''] 10 = Some r
     \<and> chained ([['' 007 '', ''N/A'']] ! 0 ! 1)
         (map (\<lambda>c. (cl_original c, cl_cleaned c))
            (filter (\<lambda>c. cl_row c = 0 \<and> cl_column c = [''a'', ''b''] ! 1) (cl_changes r)))
         (cleaned_rows r ! 0 ! 1)"
proof -
  let ?r = "clean no_oracles [['' 007 '', ''N/A'']] [''a'', ''b''] [''integer'', ''string''] 10"
  have "case ?r of None \<Rightarrow> False | Some r \<Rightarrow> cl_total_changes r \<le> 10" by code_simp
  then obtain r where r: "?r = Some r" "cl_total_changes r \<le> 10" by (auto split: option.splits)
  show ?thesis
    by (intro exI[of _ r] conjI r(1)) (rule clean_log_replays[OF r], simp_all)
qed

lemma count_duplicates_set: "count_duplicates seen rows + card (set rows - set seen) = length rows"
proof (induction seen rows rule: count_duplicates.induct)
  case (2 seen row rows)
  show ?case
  proof (cases "row \<in> set seen")
    case True
    then have "set (row # rows) - set seen = set rows - set seen" by auto
    then show ?thesis using 2 True by simp
  next
    case False
    have "set (row # rows) - set seen = insert row (set rows - set (row # seen))" using False by auto
    moreover have "row \<notin> set rows - set (row # seen)" by simp
    ultimately show ?thesis using 2 False by simp
  qed
qed simp

text \<open>A cleaning run's summary is exact: the shape of the file is kept, the duplicate count is the
  number of rows beyond the distinct ones of the cleaned file, the counts per rule add up to the
  total, at most the limit is persisted, and the confidence is above zero and at most one.\<close>

theorem clean_summary:
  assumes "clean env rows hs types n = Some r"
  shows "length (cleaned_rows r) = length rows
    \<and> map length (cleaned_rows r) = map length rows
    \<and> cl_duplicate_rows r = length rows - card (set (cleaned_rows r))
    \<and> sum_list (map snd (cl_changes_by_rule r)) = cl_total_changes r
    \<and> length (cl_changes r) = min n (cl_total_changes r)
    \<and> 0 < cl_confidence_score r \<and> cl_confidence_score r \<le> 1"
proof -
  obtain rs where rs: "length rs = length rows"
      "\<And>i. i < length rows \<Longrightarrow> clean_row env hs types i (rows ! i) = Some (rs ! i)"
      "cleaned_rows r = map fst rs" "cl_changes r = take n (concat (map snd rs))"
      "cl_total_changes r = length (concat (map snd rs))"
      "cl_changes_by_rule r = tally (map cl_rule (concat (map snd rs)))"
      "cl_duplicate_rows r = count_duplicates [] (map fst rs)"
      "cl_confidence_score r = min_default 1 (map cl_confidence (concat (map snd rs)))"
    using clean_rows[OF assms] by metis
  have lens: "length (fst (rs ! i)) = length (rows ! i)" if "i < length rows" for i
    using clean_row_parts[OF rs(2)[OF that]] by auto
  have "map length (map fst rs) = map length rows"
    by (rule nth_equalityI) (simp_all add: rs(1) lens)
  moreover have "cl_duplicate_rows r = length rows - card (set (cleaned_rows r))"
    using count_duplicates_set[of "[]" "map fst rs"] rs(1,3,7) by simp
  moreover have conf: "\<exists>q. cl_confidence c = rule_confidence q" if c: "c \<in> set (concat (map snd rs))" for c
  proof -
    obtain p where p: "p \<in> set rs" "c \<in> set (snd p)" using c by auto
    then obtain i where i: "i < length rows" "c \<in> set (snd (rs ! i))" using rs(1) by (metis in_set_conv_nth)
    obtain xs where xs: "length xs = length (rows ! i)" "rs ! i = (map fst xs, concat (map snd xs))"
        "\<forall>m < length (rows ! i). clean_cell env i (hs ! m) (types ! m) (rows ! i ! m) = Some (xs ! m)"
      using clean_row_parts[OF rs(2)[OF i(1)]] by blast
    then obtain m where m: "m < length xs" "c \<in> set (snd (xs ! m))"
      using i(2) by (fastforce simp: in_set_conv_nth[of _ xs])
    then show ?thesis
      using cleaning_step_chain(2)[of env i "hs ! m" "types ! m" "rows ! i ! m" "fst (xs ! m)" "snd (xs ! m)" c]
        xs(1,3) by auto
  qed
  have "0 < cl_confidence_score r \<and> cl_confidence_score r \<le> 1"
  proof (cases "concat (map snd rs) = []")
    case False
    then have "cl_confidence_score r \<in> cl_confidence ` set (concat (map snd rs))"
      unfolding rs(8) using min_default_in[of "map cl_confidence (concat (map snd rs))" 1] by simp
    then obtain c where "c \<in> set (concat (map snd rs))" "cl_confidence_score r = cl_confidence c" by blast
    then show ?thesis using conf rule_confidence_unit by metis
  qed (simp add: rs(8) min_default_def)
  ultimately show ?thesis using rs(1,3-6) by (simp add: sum_tally)
qed

lemma clean_summary_witness:
  "\<exists>r. clean no_oracles [[''a''], ['' a '']] [''x''] [''string''] 10 = Some r
    \<and> length (cleaned_rows r) = 2 \<and> cl_duplicate_rows r = 2 - card (set (cleaned_rows r))"
proof -
  have "clean no_oracles [[''a''], ['' a '']] [''x''] [''string''] 10 \<noteq> None" by code_simp
  then obtain r where r: "clean no_oracles [[''a''], ['' a '']] [''x''] [''string''] 10 = Some r" by blast
  show ?thesis using clean_summary[OF r] r by auto
qed

section \<open>Numbers out of range\<close>

lemmas read_defs = decimal_of_def parse_numeral_def parse_exponent_def digits_value_def strip_def
  lstrip_def rstrip_def py_space_def py_digit_def isdigit_def lower_char_def py_upper_letter_def
  in_context_def count_digits.simps Let_def

lemma digit_chars: "char_of (48::nat) = CHR ''0''" "char_of (49::nat) = CHR ''1''" "char_of (50::nat) = CHR ''2''"
  "char_of (51::nat) = CHR ''3''" "char_of (52::nat) = CHR ''4''" "char_of (53::nat) = CHR ''5''"
  "char_of (54::nat) = CHR ''6''" "char_of (55::nat) = CHR ''7''" "char_of (56::nat) = CHR ''8''"
  "char_of (57::nat) = CHR ''9''"
  by code_simp+

text \<open>One cell can end a cleaning run: in an integer column, the text of an integer whose exponent
  makes it longer than the interpreter prints raises, whatever the other cells are.\<close>

theorem clean_raises:
  assumes "''1e5000'' \<in> set row" "row \<in> set rows"
    and "list_all (\<lambda>ty. ty = ''integer'') types" "length row \<le> length types"
  shows "clean env rows hs types n = None"
proof -
  obtain i where i: "i < length rows" "rows ! i = row" using assms(2) by (auto simp: in_set_conv_nth)
  obtain j where j: "j < length row" "row ! j = ''1e5000''" using assms(1) by (auto simp: in_set_conv_nth)
  have ty: "types ! j = ''integer''" using assms(3,4) j(1) by (simp add: list_all_length)
  have "trim_whitespace ''1e5000'' = (''1e5000'', None)" "normalize_blank ''1e5000'' = (''1e5000'', None)"
      "coerce_integer ''1e5000'' = None"
    by code_simp+
  then have "clean_cell env i (hs ! j) (types ! j) (row ! j) = None"
    by (simp add: clean_cell_def j(2) ty coerce_type_def)
  moreover have "clean_cell env i (hs ! j) (types ! j) (row ! j) \<in>
      set (map (\<lambda>(j, v). clean_cell env i (hs ! j) (types ! j) v) (enum row))"
    using j(1) by (auto simp: enum_iff intro!: image_eqI[of _ _ "(j, row ! j)"])
  ultimately have "clean_row env hs types i row = None"
    by (simp only: clean_row_def those_None[THEN iffD2] option.map)
  moreover have "clean_row env hs types i row \<in> set (map (\<lambda>(i, row). clean_row env hs types i row) (enum rows))"
    using i by (auto simp: enum_iff intro!: image_eqI[of _ _ "(i, row)"])
  ultimately show ?thesis by (simp only: clean_def those_None[THEN iffD2] option.map)
qed

lemma clean_raises_witness:
  "clean no_oracles [[''1''], [''1e5000'']] [''n''] [''integer''] 10 = None"
  by (rule clean_raises[of "[''1e5000'']"]) simp_all

text \<open>Decimals are cleaned to the 28 digits of the default decimal context: a longer fraction comes
  out as a different number, recorded as a change to the canonical form.\<close>

theorem coerce_decimal_rounds:
  "coerce_decimal ''1234567890.12345678901234567891'' = Some (''1234567890.123456789012345679'', Some CoerceDecimal)
   \<and> coerce_decimal ''1e1000000'' = None
   \<and> coerce_decimal ''0.10'' = Some (''0.1'', Some CoerceDecimal)"
proof (intro conjI)
  have d: "decimal_of (strip ''1234567890.12345678901234567891'') =
      Some (Finite False 123456789012345678901234567891 (- 20))"
    by (simp add: read_defs)
  have n: "normalize_decimal 123456789012345678901234567891 (- 20) = Some (1234567890123456789012345679, - 18)"
    by (simp add: normalize_decimal_def count_digits.simps round_half_even_def strip_zeros.simps Let_def)
  have f: "format_f False 1234567890123456789012345679 (- 18) = ''1234567890.123456789012345679''"
    by (simp add: format_f_def show_nat.simps show_signed_def zeros_def Let_def digit_chars)
  show "coerce_decimal ''1234567890.12345678901234567891'' =
      Some (''1234567890.123456789012345679'', Some CoerceDecimal)"
    by (simp add: coerce_decimal_def d n f ruled_if_changed_def)
  have "decimal_of (strip ''1e1000000'') = Some (Finite False 1 1000000)" by (simp add: read_defs)
  then show "coerce_decimal ''1e1000000'' = None"
    by (simp add: coerce_decimal_def normalize_decimal_def count_digits.simps)
  show "coerce_decimal ''0.10'' = Some (''0.1'', Some CoerceDecimal)" by code_simp
qed

end
