(* ===== verification/MatchingProps.thy ===== *)
theory MatchingProps
  imports Matching "HOL-Library.Multiset"
begin

text \<open>
  What a matching run computes.

  The stages thread a state; \<open>logged\<close> says that a state is what a list of decisions leaves behind,
  so that each stage is described by the decisions it records.  From there the groups are the
  components of the duplicate decisions, through the contract of the disjoint-set structure.
\<close>

section \<open>States and the decisions that lead to them\<close>

abbreviation is_duplicate :: "decision \<Rightarrow> bool" where
  "is_duplicate d \<equiv> d_label d = Duplicate"

abbreviation duplicates_of :: "decision list \<Rightarrow> decision list" where
  "duplicates_of ds \<equiv> filter is_duplicate ds"

definition edges_of :: "decision list \<Rightarrow> (nat \<times> nat) list" where
  "edges_of ds = map (\<lambda>d. (d_a d, d_b d)) (duplicates_of ds)"

definition duplicate_positions :: "decision list \<Rightarrow> nat list" where
  "duplicate_positions ds = filter (\<lambda>i. is_duplicate (ds ! i)) [0 ..< length ds]"

lemma duplicate_positions_snoc:
  "duplicate_positions (ds @ [d]) = duplicate_positions ds @ (if is_duplicate d then [length ds] else [])"
  by (auto simp: duplicate_positions_def nth_append intro!: filter_cong)

lemma take_snoc: "take c (ds @ [d]) = (if length ds < c then take c ds @ [d] else take c ds)"
  by (simp add: take_Cons')

definition logged ::
  "nat \<Rightarrow> match_limits \<Rightarrow> decision list \<Rightarrow> nat \<Rightarrow> skipped_block list \<Rightarrow> match_state \<Rightarrow> bool"
where
  "logged n limits ds k sk st \<longleftrightarrow>
     union_find.represents (new_union_find n) (m_uf st) (edges_of ds)
     \<and> list_all (\<lambda>d. d_a d < n \<and> d_b d < n) ds
     \<and> m_decisions st = take (max_persisted_decisions limits) ds
     \<and> m_by_rule st = tally (map d_rule ds)
     \<and> m_duplicates st = length (duplicates_of ds)
     \<and> m_ambiguous st = length (filter (\<lambda>d. \<not> is_duplicate d) ds)
     \<and> m_comparisons st = k
     \<and> m_skipped st = sk
     \<and> m_edges st = map (\<lambda>d. (d_a d, d_b d, d_confidence d)) (duplicates_of ds)
     \<and> m_pending st = duplicate_positions (take (max_persisted_decisions limits) ds)"

lemma new_union_find_represents: "union_find.represents (new_union_find n) (new_union_find n) []"
  by (simp add: union_find.represents_def new_union_find_good new_union_find_same union_find.linked_def)

lemma logged_initial: "logged n limits [] 0 [] (initial_state n)"
  by (simp add: logged_def initial_state_def edges_of_def duplicate_positions_def new_union_find_represents)

lemma logged_compared: "logged n limits ds k sk st \<Longrightarrow> logged n limits ds (Suc k) sk (count_comparison st)"
  by (simp add: logged_def count_comparison_def)

lemma logged_record:
  assumes "logged n limits ds k sk st" "d_a d < n" "d_b d < n" "d_label d = Ambiguous"
  shows "logged n limits (ds @ [d]) k sk (record_decision limits d st)"
  using assms
  by (simp add: logged_def record_decision_def edges_of_def tally_snoc Let_def take_snoc
      duplicate_positions_snoc del: take_append)

lemma logged_duplicate:
  assumes l: "logged n limits ds k sk st" and d: "d_a d < n" "d_b d < n" "is_duplicate d"
  shows "\<exists>st'. add_edge (d_a d) (d_b d) (d_confidence d) st = Some st'
           \<and> logged n limits (ds @ [d]) k sk (record_decision limits d st')"
proof -
  obtain u where u: "uf_union (m_uf st) (d_a d) (d_b d) = Some u"
      "union_find.represents (new_union_find n) u (edges_of ds @ [(d_a d, d_b d)])"
    using union_find.represents_union[of "new_union_find n" "m_uf st" "edges_of ds" "d_a d" "d_b d"] l d
    by (auto simp: logged_def new_union_find_good)
  have "logged n limits (ds @ [d]) k sk (record_decision limits d
      (st\<lparr>m_uf := u, m_edges := m_edges st @ [(d_a d, d_b d, d_confidence d)]\<rparr>))"
    using l d u(2)
    by (simp add: logged_def record_decision_def edges_of_def tally_snoc Let_def take_snoc
        duplicate_positions_snoc del: take_append)
  then show ?thesis using u(1) by (simp add: add_edge_def)
qed

lemma add_edge_counted:
  "add_edge a b c (count_comparison st) = map_option count_comparison (add_edge a b c st)"
  by (cases st) (simp add: add_edge_def count_comparison_def option.map_comp comp_def)

text \<open>A loop records, in order, what its iterations record.\<close>

lemma logged_loop:
  assumes "logged n limits ds k sk st"
    and "\<And>x ds k sk st. x \<in> set xs \<Longrightarrow> logged n limits ds k sk st \<Longrightarrow>
           \<exists>st'. f x st = Some st' \<and> logged n limits (ds @ D x) (k + K x) (sk @ S x) st'"
  shows "\<exists>st'. foldM f xs st = Some st'
           \<and> logged n limits (ds @ concat (map D xs)) (k + sum_list (map K xs)) (sk @ concat (map S xs)) st'"
  using assms
proof (induction xs arbitrary: ds k sk st)
  case (Cons x xs)
  then obtain st' where st': "f x st = Some st'" "logged n limits (ds @ D x) (k + K x) (sk @ S x) st'"
    by force
  then obtain t where "foldM f xs st' = Some t"
      "logged n limits ((ds @ D x) @ concat (map D xs)) ((k + K x) + sum_list (map K xs))
         ((sk @ S x) @ concat (map S xs)) t"
    using Cons.IH[OF st'(2)] Cons.prems(2) by (meson list.set_intros(2))
  then show ?case using st'(1) by (auto simp: add.assoc)
qed simp

section \<open>The decisions of each stage\<close>

definition exact_decisions :: "string list list \<Rightarrow> string list \<Rightarrow> decision list" where
  "exact_decisions rows hs =
     concat (map (\<lambda>(row, indices). if length indices < 2 then []
                  else map (\<lambda>(a, b). exact_decision rows hs a b) (chain (sort indices)))
       (exact_groups rows))"

definition pair_decision ::
  "string list list \<Rightarrow> string list \<Rightarrow> rule_set \<Rightarrow> string \<Rightarrow> nat \<times> nat \<Rightarrow> decision list"
where
  "pair_decision rows hs rs key p =
     (let (a, b) = p; (comparisons, score) = compare_pair (rows ! a) (rows ! b) hs (ms_fields rs)
      in if ms_duplicate_threshold rs \<le> score then [scored_decision rs key a b comparisons score Duplicate]
         else if ms_review_threshold rs \<le> score then [scored_decision rs key a b comparisons score Ambiguous]
         else [])"

definition compared_pairs :: "match_limits \<Rightarrow> nat list \<Rightarrow> (nat \<times> nat) list" where
  "compared_pairs limits members =
     (if max_block_size limits < length members then [] else pairs_of (sort members))"

definition rule_blocks :: "string list list \<Rightarrow> string list \<Rightarrow> rule_set option \<Rightarrow> (string, nat) groups" where
  "rule_blocks rows hs rs =
     (case rs of None \<Rightarrow> []
      | Some rs \<Rightarrow> if ms_fields rs = [] then []
          else sort_key fst (build_blocks (match_candidates rows) rows hs (select_blocking_field (ms_fields rs))))"

definition field_decisions ::
  "string list list \<Rightarrow> string list \<Rightarrow> rule_set option \<Rightarrow> match_limits \<Rightarrow> decision list"
where
  "field_decisions rows hs rs limits =
     concat (map (\<lambda>(key, members).
         concat (map (pair_decision rows hs (the rs) key) (compared_pairs limits members)))
       (rule_blocks rows hs rs))"

definition oversize_blocks ::
  "string list list \<Rightarrow> string list \<Rightarrow> rule_set option \<Rightarrow> match_limits \<Rightarrow> skipped_block list"
where
  "oversize_blocks rows hs rs limits =
     map (\<lambda>(key, members). \<lparr>sb_key = key, sb_size = length members,
              sb_sample = take (max_skipped_row_sample limits) (sort members)\<rparr>)
       (filter (\<lambda>(key, members). max_block_size limits < length members) (rule_blocks rows hs rs))"

definition comparison_count ::
  "string list list \<Rightarrow> string list \<Rightarrow> rule_set option \<Rightarrow> match_limits \<Rightarrow> nat"
where
  "comparison_count rows hs rs limits =
     length (exact_decisions rows hs)
     + sum_list (map (\<lambda>(key, members). length (compared_pairs limits members)) (rule_blocks rows hs rs))"

definition all_decisions ::
  "string list list \<Rightarrow> string list \<Rightarrow> rule_set option \<Rightarrow> match_limits \<Rightarrow> decision list"
where
  "all_decisions rows hs rs limits = exact_decisions rows hs @ field_decisions rows hs rs limits"

lemma exact_decision_simps [simp]:
  "d_a (exact_decision rows hs a b) = a" "d_b (exact_decision rows hs a b) = b"
  "d_label (exact_decision rows hs a b) = Duplicate" "d_confidence (exact_decision rows hs a b) = 1"
  "d_rule (exact_decision rows hs a b) = ExactRowMatch"
  by (simp_all add: exact_decision_def)

lemma scored_decision_simps [simp]:
  "d_a (scored_decision rs key a b cs s l) = a" "d_b (scored_decision rs key a b cs s l) = b"
  "d_label (scored_decision rs key a b cs s l) = l" "d_confidence (scored_decision rs key a b cs s l) = s"
  "d_score (scored_decision rs key a b cs s l) = s"
  "d_rule (scored_decision rs key a b cs s l) = rule_name_for rs"
  "d_blocking_key (scored_decision rs key a b cs s l) = Some key"
  by (simp_all add: scored_decision_def)

lemma exact_groups_iff:
  "(row, indices) \<in> set (exact_groups rows) \<longleftrightarrow>
     row \<in> set rows \<and> indices = filter (\<lambda>i. rows ! i = row) [0 ..< length rows]"
proof -
  have "map fst (map (\<lambda>(i, row). (row, i)) (enum rows)) = map snd (enum rows)"
    by (simp add: case_prod_unfold comp_def)
  then have keys: "fst ` set (map (\<lambda>(i, row). (row, i)) (enum rows)) = set rows"
    by (metis list.set_map map_snd_enum_from)
  have "enum rows = map (\<lambda>i. (i, rows ! i)) [0 ..< length rows]"
    by (rule nth_equalityI) (simp_all add: nth_enum)
  then have "values_of row (map (\<lambda>(i, row). (row, i)) (enum rows)) =
      filter (\<lambda>i. rows ! i = row) [0 ..< length rows]"
    by (simp add: filter_map comp_def)
  then show ?thesis unfolding exact_groups_def group_pairs_iff keys by simp
qed

lemma concat_map_Nil [simp]: "concat (map (\<lambda>_. []) xs) = []"
  by (induction xs) auto

lemma chain_Cons: "chain (x # y # zs) = (x, y) # chain (y # zs)"
  by (simp add: chain_def)

lemma chain_in: "(a, b) \<in> set (chain xs) \<Longrightarrow> a \<in> set xs \<and> b \<in> set xs"
  by (cases xs) (auto simp: chain_def dest: set_zip_leftD set_zip_rightD)

lemma length_chain: "length (chain xs) = length xs - 1"
  by (simp add: chain_def)

lemma pairs_of_in: "(a, b) \<in> set (pairs_of xs) \<Longrightarrow> a \<in> set xs \<and> b \<in> set xs"
  by (induction xs) auto

lemma exact_group_bound: "(row, indices) \<in> set (exact_groups rows) \<Longrightarrow> i \<in> set indices \<Longrightarrow> i < length rows"
  by (auto simp: exact_groups_iff)

lemma link_exact_logged:
  assumes "logged n limits ds k sk st" "a < n" "b < n"
  shows "\<exists>st'. link_exact rows hs limits (a, b) st = Some st'
           \<and> logged n limits (ds @ [exact_decision rows hs a b]) (k + 1) (sk @ []) st'"
proof -
  let ?d = "exact_decision rows hs a b"
  have "logged n limits ds (Suc k) sk (count_comparison st)" using assms(1) by (rule logged_compared)
  from logged_duplicate[OF this, of ?d] assms(2,3)
  obtain st' where st': "add_edge a b 1 (count_comparison st) = Some st'"
      "logged n limits (ds @ [?d]) (Suc k) sk (record_decision limits ?d st')" by auto
  then obtain t where "add_edge a b 1 st = Some t" "st' = count_comparison t"
    by (auto simp: add_edge_counted)
  then show ?thesis using st'(2) by (simp add: link_exact_def)
qed

lemma exact_stage_logged:
  "\<exists>st. exact_stage rows hs limits (initial_state (length rows)) = Some st
     \<and> logged (length rows) limits (exact_decisions rows hs) (length (exact_decisions rows hs)) [] st"
proof -
  let ?n = "length rows"
  let ?D = "\<lambda>p. [case p of (a, b) \<Rightarrow> exact_decision rows hs a b]"
  let ?G = "\<lambda>g. if length (snd g) < 2 then [] else map (\<lambda>(a, b). exact_decision rows hs a b) (chain (sort (snd g)))"
  have "\<exists>st'. (case g of (row, indices) \<Rightarrow> \<lambda>st. if length indices < 2 then Some st
              else foldM (link_exact rows hs limits) (chain (sort indices)) st) st = Some st'
         \<and> logged ?n limits (ds @ ?G g) (k + length (?G g)) (sk @ []) st'"
    if g: "g \<in> set (exact_groups rows)" and l: "logged ?n limits ds k sk st" for g ds k sk st
  proof (cases "length (snd g) < 2")
    case True
    then show ?thesis using l by (auto simp: case_prod_unfold)
  next
    case False
    have b: "a < ?n \<and> b < ?n" if "(a, b) \<in> set (chain (sort (snd g)))" for a b
      using chain_in[OF that] exact_group_bound[of "fst g" "snd g" rows] g by auto
    have "\<exists>st'. link_exact rows hs limits p st = Some st' \<and> logged ?n limits (ds @ ?D p) (k + 1) (sk @ []) st'"
      if p: "p \<in> set (chain (sort (snd g)))" and l: "logged ?n limits ds k sk st" for p ds k sk st
      using link_exact_logged[OF l, of "fst p" "snd p"] b[of "fst p" "snd p"] p
      by (auto simp: case_prod_unfold)
    from logged_loop[OF l, of "chain (sort (snd g))" "link_exact rows hs limits" ?D "\<lambda>_. 1" "\<lambda>_. []", OF this]
    show ?thesis using False
      by (auto simp: case_prod_unfold concat_map_singleton sum_list_triv)
  qed
  from logged_loop[OF logged_initial, where D = ?G and K = "\<lambda>g. length (?G g)" and S = "\<lambda>_. []", OF this]
  show ?thesis
    by (auto simp: exact_stage_def exact_decisions_def case_prod_unfold length_concat comp_def)
qed

text \<open>Which rows reach the second stage: the first occurrence of every row.\<close>

definition first_occurrence :: "string list list \<Rightarrow> nat \<Rightarrow> bool" where
  "first_occurrence rows i \<longleftrightarrow> i < length rows \<and> rows ! i \<notin> set (take i rows)"

definition first_index :: "string list list \<Rightarrow> nat \<Rightarrow> nat" where
  "first_index rows i = hd (filter (\<lambda>j. rows ! j = rows ! i) [0 ..< length rows])"

lemma first_index:
  assumes "i < length rows"
  shows "first_index rows i \<le> i" "rows ! first_index rows i = rows ! i" "first_occurrence rows (first_index rows i)"
    "first_occurrence rows i \<longleftrightarrow> first_index rows i = i"
proof -
  let ?xs = "filter (\<lambda>j. rows ! j = rows ! i) [0 ..< length rows]"
  have i: "i \<in> set ?xs" using assms by simp
  then have ne: "?xs \<noteq> []" by force
  then have f: "first_index rows i \<in> set ?xs" unfolding first_index_def by (rule hd_in_set)
  have least: "first_index rows i \<le> j" if "j \<in> set ?xs" for j
  proof -
    have "sorted ?xs" by (simp add: sorted_wrt_filter)
    then show ?thesis using that ne unfolding first_index_def by (cases ?xs) auto
  qed
  show le: "first_index rows i \<le> i" using least[OF i] .
  show eq: "rows ! first_index rows i = rows ! i" using f by simp
  have "rows ! i \<noteq> rows ! j" if j: "j < first_index rows i" for j
    using least[of j] j le assms by fastforce
  then show fo: "first_occurrence rows (first_index rows i)"
    using eq le assms by (fastforce simp: first_occurrence_def in_set_conv_nth)
  show "first_occurrence rows i \<longleftrightarrow> first_index rows i = i"
  proof
    assume "first_occurrence rows i"
    then have "\<not> first_index rows i < i"
      using eq assms by (auto simp: first_occurrence_def in_set_conv_nth)
    then show "first_index rows i = i" using le by simp
  qed (use fo in simp)
qed

lemma fold_assign:
  "fold (\<lambda>i m. m(i \<mapsto> v)) xs m j = (if j \<in> set xs then Some v else m j)"
  by (induction xs arbitrary: m) auto

lemma fold_groups_assign:
  assumes "\<forall>g \<in> set gs. 2 \<le> length (snd g) \<longrightarrow> i \<in> set (snd g) \<longrightarrow> hd (sort (snd g)) = h"
  shows "fold (\<lambda>(row, indices) m. if length indices < 2 then m
             else (let s = sort indices in fold (\<lambda>i m. m(i \<mapsto> hd s)) s m)) gs m i
    = (if \<exists>g \<in> set gs. 2 \<le> length (snd g) \<and> i \<in> set (snd g) then Some h else m i)"
  using assms by (induction gs arbitrary: m) (auto simp: Let_def fold_assign not_less)

lemma stage1_representative:
  assumes i: "i < length rows"
  shows "stage1_representative_for rows i =
    (if 2 \<le> length (filter (\<lambda>j. rows ! j = rows ! i) [0 ..< length rows]) then Some (first_index rows i) else None)"
proof -
  let ?g = "(rows ! i, filter (\<lambda>j. rows ! j = rows ! i) [0 ..< length rows])"
  have g: "g = ?g" if "g \<in> set (exact_groups rows)" "i \<in> set (snd g)" for g
    using that exact_groups_iff[of "fst g" "snd g" rows] by (simp add: prod_eq_iff)
  have m: "?g \<in> set (exact_groups rows)" using i by (simp add: exact_groups_iff)
  have "sort (snd ?g) = snd ?g" by (simp add: sorted_sort_id sorted_wrt_filter)
  then have h: "hd (sort (snd ?g)) = first_index rows i" by (simp add: first_index_def)
  have "(\<exists>g \<in> set (exact_groups rows). 2 \<le> length (snd g) \<and> i \<in> set (snd g)) \<longleftrightarrow> 2 \<le> length (snd ?g)"
  proof
    assume "\<exists>g \<in> set (exact_groups rows). 2 \<le> length (snd g) \<and> i \<in> set (snd g)"
    then show "2 \<le> length (snd ?g)" using g by blast
  next
    have "i \<in> set (snd ?g)" using i by simp
    then show "2 \<le> length (snd ?g) \<Longrightarrow> \<exists>g \<in> set (exact_groups rows). 2 \<le> length (snd g) \<and> i \<in> set (snd g)"
      using m by blast
  qed
  moreover have "\<forall>g \<in> set (exact_groups rows). 2 \<le> length (snd g) \<longrightarrow> i \<in> set (snd g) \<longrightarrow>
      hd (sort (snd g)) = first_index rows i"
    using g h by blast
  ultimately show ?thesis
    unfolding stage1_representative_for_def by (simp only: fold_groups_assign snd_conv)
qed

lemma set_candidates:
  "set (candidate_indices rep seen xs) =
     {i \<in> set xs. rep i = None} \<union> ({r. \<exists>i \<in> set xs. rep i = Some r} - seen)"
  by (induction rep seen xs rule: candidate_indices.induct) (auto split: option.splits)

lemma distinct_candidates:
  assumes "distinct xs" and "\<And>i j. i \<in> set xs \<Longrightarrow> j \<in> set xs \<Longrightarrow> rep i = None \<Longrightarrow> rep j \<noteq> Some i"
  shows "distinct (candidate_indices rep seen xs)"
  using assms
proof (induction rep seen xs rule: candidate_indices.induct)
  case (2 rep seen i "is")
  have "rep r \<noteq> None" if "r \<in> set is" "rep i = Some r" for r
    using 2(5)[of r i] that by auto
  then show ?case using 2 by (auto simp: set_candidates split: option.splits)
qed simp

lemma single_first:
  assumes "i < length rows" "length (filter (\<lambda>j. rows ! j = rows ! i) [0 ..< length rows]) < 2"
    "j < length rows" "rows ! j = rows ! i"
  shows "j = i"
proof (rule ccontr)
  assume "j \<noteq> i"
  then have "card {i, j} = 2" by simp
  moreover have "card {i, j} \<le> card (set (filter (\<lambda>j. rows ! j = rows ! i) [0 ..< length rows]))"
    using assms by (intro card_mono) auto
  moreover have "card (set (filter (\<lambda>j. rows ! j = rows ! i) [0 ..< length rows])) < 2"
    using assms(2) by (meson card_length le_less_trans)
  ultimately show False by simp
qed

lemma match_candidates:
  "set (match_candidates rows) = {i. first_occurrence rows i}" "distinct (match_candidates rows)"
  "sorted (match_candidates rows)"
proof -
  let ?rep = "stage1_representative_for rows"
  have none: "first_index rows i = i" if "i < length rows" "?rep i = None" for i
    using that single_first[OF that(1) _ _ first_index(2)[OF that(1)]] first_index(1)[OF that(1)]
    by (auto simp: stage1_representative split: if_splits)
  have some: "r = first_index rows i" if "i < length rows" "?rep i = Some r" for i r
    using that by (auto simp: stage1_representative split: if_splits)
  have "x \<in> set (match_candidates rows) \<longleftrightarrow> (\<exists>i < length rows. first_index rows i = x)" for x
  proof -
    have "x \<in> set (match_candidates rows) \<longleftrightarrow>
        x < length rows \<and> ?rep x = None \<or> (\<exists>i < length rows. ?rep i = Some x)"
      by (auto simp: match_candidates_def set_candidates)
    also have "\<dots> \<longleftrightarrow> (\<exists>i < length rows. first_index rows i = x)"
      using none some by (metis not_None_eq)
    finally show ?thesis .
  qed
  moreover have "(\<exists>i < length rows. first_index rows i = x) \<longleftrightarrow> first_occurrence rows x" for x
    using first_index(3,4) by (metis first_occurrence_def)
  ultimately show "set (match_candidates rows) = {i. first_occurrence rows i}" by blast
  have "?rep j \<noteq> Some i" if "i < length rows" "j < length rows" "?rep i = None" for i j
  proof
    assume s: "?rep j = Some i"
    then have "i = first_index rows j" using some that(2) by simp
    then have "rows ! i = rows ! j" using first_index(2)[OF that(2)] by simp
    then show False using s that by (simp add: stage1_representative split: if_splits)
  qed
  then show "distinct (match_candidates rows)"
    unfolding match_candidates_def by (intro iffD2[OF distinct_sort] distinct_candidates) auto
qed (simp add: match_candidates_def)

section \<open>The second stage\<close>

text \<open>The blocks: the candidates that share a non-empty normalized text in the blocking column.\<close>

definition has_fields :: "rule_set option \<Rightarrow> bool" where
  "has_fields rs \<longleftrightarrow> (\<exists>c. rs = Some c \<and> ms_fields c \<noteq> [])"

definition rule_key :: "string list list \<Rightarrow> string list \<Rightarrow> rule_set option \<Rightarrow> nat \<Rightarrow> string" where
  "rule_key rows hs rs i = block_key hs (select_blocking_field (ms_fields (the rs))) (rows ! i)"

definition block_members :: "string list list \<Rightarrow> string list \<Rightarrow> rule_set option \<Rightarrow> string \<Rightarrow> nat list" where
  "block_members rows hs rs key = filter (\<lambda>i. rule_key rows hs rs i = key) (match_candidates rows)"

lemma build_blocks_iff:
  "(key, members) \<in> set (build_blocks candidates rows hs f) \<longleftrightarrow>
     key \<noteq> [] \<and> members \<noteq> [] \<and> members = filter (\<lambda>i. block_key hs f (rows ! i) = key) candidates"
proof -
  let ?kvs = "filter (\<lambda>(key, i). key \<noteq> []) (map (\<lambda>i. (block_key hs f (rows ! i), i)) candidates)"
  have v: "values_of key ?kvs = (if key = [] then [] else filter (\<lambda>i. block_key hs f (rows ! i) = key) candidates)" for key
    by (induction candidates) auto
  have "key \<in> fst ` set ?kvs \<longleftrightarrow> values_of key ?kvs \<noteq> []"
    by (force simp: filter_empty_conv image_iff)
  then show ?thesis unfolding build_blocks_def group_pairs_iff v by auto
qed

lemma rule_blocks_iff:
  "(key, members) \<in> set (rule_blocks rows hs rs) \<longleftrightarrow>
     has_fields rs \<and> key \<noteq> [] \<and> members \<noteq> [] \<and> members = block_members rows hs rs key"
proof (cases "has_fields rs")
  case True
  then obtain c where c: "rs = Some c" "ms_fields c \<noteq> []" by (auto simp: has_fields_def)
  have members: "block_members rows hs rs key = filter (\<lambda>i. block_key hs (select_blocking_field (ms_fields c)) (rows ! i) = key)
      (match_candidates rows)"
    by (simp add: block_members_def rule_key_def c)
  show ?thesis using True c unfolding members by (simp add: rule_blocks_def build_blocks_iff)
qed (auto simp: rule_blocks_def has_fields_def split: option.splits)

lemma distinct_map_sort_key: "distinct (map f (sort_key k xs)) \<longleftrightarrow> distinct (map f xs)"
  by (metis mset_eq_imp_distinct_iff mset_map mset_sort)

lemma distinct_rule_blocks: "distinct (map fst (rule_blocks rows hs rs))"
  by (simp add: rule_blocks_def build_blocks_def distinct_map_sort_key distinct_group_pairs split: option.splits)

lemma block_member: "i \<in> set (block_members rows hs rs key) \<longleftrightarrow> first_occurrence rows i \<and> rule_key rows hs rs i = key"
  by (auto simp: block_members_def match_candidates)

lemma block_members_sorted: "sorted (block_members rows hs rs key)" "distinct (block_members rows hs rs key)"
  by (simp_all add: block_members_def match_candidates sorted_wrt_filter)

lemma compare_step_logged:
  assumes l: "logged n limits ds k sk st" and b: "a < n" "b < n"
  shows "\<exists>st'. compare_step rows hs rs limits key (a, b) st = Some st'
           \<and> logged n limits (ds @ pair_decision rows hs rs key (a, b)) (k + 1) (sk @ []) st'"
proof -
  obtain cs score where c: "compare_pair (rows ! a) (rows ! b) hs (ms_fields rs) = (cs, score)" by force
  let ?d = "scored_decision rs key a b cs score"
  have l': "logged n limits ds (Suc k) sk (count_comparison st)" using l by (rule logged_compared)
  consider "ms_duplicate_threshold rs \<le> score" | "\<not> ms_duplicate_threshold rs \<le> score" "ms_review_threshold rs \<le> score"
    | "\<not> ms_duplicate_threshold rs \<le> score" "\<not> ms_review_threshold rs \<le> score" by blast
  then show ?thesis
  proof cases
    case 1
    then show ?thesis
      using logged_duplicate[OF l', of "?d Duplicate"] b
      by (auto simp: compare_step_def pair_decision_def c)
  next
    case 2
    then show ?thesis
      using logged_record[OF l', of "?d Ambiguous"] b by (simp add: compare_step_def pair_decision_def c)
  next
    case 3
    then show ?thesis using l' by (simp add: compare_step_def pair_decision_def c)
  qed
qed

abbreviation block_decisions ::
  "string list list \<Rightarrow> string list \<Rightarrow> rule_set \<Rightarrow> match_limits \<Rightarrow> string \<times> nat list \<Rightarrow> decision list"
where
  "block_decisions rows hs rs limits block \<equiv>
     concat (map (pair_decision rows hs rs (fst block)) (compared_pairs limits (snd block)))"

abbreviation block_skipped :: "match_limits \<Rightarrow> string \<times> nat list \<Rightarrow> skipped_block list" where
  "block_skipped limits block \<equiv>
     (if max_block_size limits < length (snd block)
      then [\<lparr>sb_key = fst block, sb_size = length (snd block),
              sb_sample = take (max_skipped_row_sample limits) (sort (snd block))\<rparr>] else [])"

lemma block_step_logged:
  assumes l: "logged n limits ds k sk st" and b: "\<And>i. i \<in> set (snd block) \<Longrightarrow> i < n"
  shows "\<exists>st'. block_step rows hs rs limits block st = Some st'
           \<and> logged n limits (ds @ block_decisions rows hs rs limits block)
               (k + length (compared_pairs limits (snd block))) (sk @ block_skipped limits block) st'"
proof (cases "max_block_size limits < length (snd block)")
  case True
  then show ?thesis using l
    by (simp add: block_step_def case_prod_unfold Let_def compared_pairs_def) (simp add: logged_def)
next
  case False
  have "\<exists>st'. compare_step rows hs rs limits (fst block) p st = Some st'
      \<and> logged n limits (ds @ pair_decision rows hs rs (fst block) p) (k + 1) (sk @ []) st'"
    if p: "p \<in> set (pairs_of (sort (snd block)))" and l: "logged n limits ds k sk st" for p ds k sk st
    using compare_step_logged[OF l, of "fst p" "snd p" rows hs rs "fst block"]
      pairs_of_in[of "fst p" "snd p" "sort (snd block)"] p b by simp
  from logged_loop[OF l, where D = "pair_decision rows hs rs (fst block)" and K = "\<lambda>_. 1" and S = "\<lambda>_. []", OF this]
  show ?thesis using False
    by (auto simp: block_step_def case_prod_unfold Let_def compared_pairs_def sum_list_triv)
qed

lemma field_stage_logged:
  assumes l: "logged (length rows) limits ds k [] st"
  shows "\<exists>st'. field_stage rows hs rs limits st = Some st'
           \<and> logged (length rows) limits (ds @ field_decisions rows hs rs limits)
               (k + sum_list (map (\<lambda>(key, members). length (compared_pairs limits members)) (rule_blocks rows hs rs)))
               (oversize_blocks rows hs rs limits) st'"
proof (cases "has_fields rs")
  case False
  then have "rule_blocks rows hs rs = []" "field_stage rows hs rs limits st = Some st"
    by (auto simp: rule_blocks_def field_stage_def has_fields_def split: option.splits)
  then show ?thesis using l by (simp add: field_decisions_def oversize_blocks_def)
next
  case True
  then obtain c where c: "rs = Some c" "ms_fields c \<noteq> []" by (auto simp: has_fields_def)
  have b: "i < length rows" if "block \<in> set (rule_blocks rows hs rs)" "i \<in> set (snd block)" for block i
    using that rule_blocks_iff[of "fst block" "snd block" rows hs rs] block_member[of i]
    by (auto simp: first_occurrence_def)
  have skipped: "concat (map (block_skipped limits) bs) =
      map (\<lambda>(key, members). \<lparr>sb_key = key, sb_size = length members,
              sb_sample = take (max_skipped_row_sample limits) (sort members)\<rparr>)
       (filter (\<lambda>(key, members). max_block_size limits < length members) bs)" for bs :: "(string, nat) groups"
    by (induction bs) auto
  have "field_stage rows hs rs limits st = foldM (block_step rows hs c limits) (rule_blocks rows hs rs) st"
    using c by (simp add: field_stage_def rule_blocks_def)
  moreover note logged_loop[OF l, of "rule_blocks rows hs rs" "block_step rows hs c limits"
      "block_decisions rows hs c limits" "\<lambda>block. length (compared_pairs limits (snd block))" "block_skipped limits",
      OF block_step_logged[OF _ b]]
  ultimately show ?thesis
    by (simp add: field_decisions_def oversize_blocks_def skipped case_prod_unfold c)
qed

section \<open>The third stage\<close>

text \<open>The components, given the root of every row; and what \<open>finish\<close> makes of them.\<close>

definition root_groups :: "(nat \<Rightarrow> nat) \<Rightarrow> nat \<Rightarrow> (nat, nat) groups" where
  "root_groups rt n = sorted_components (group_pairs (map (\<lambda>x. (rt x, x)) [0 ..< n]))"

definition confidences_of :: "(nat \<Rightarrow> nat) \<Rightarrow> decision list \<Rightarrow> nat \<Rightarrow> rat list" where
  "confidences_of rt ds r = map d_confidence (filter (\<lambda>d. rt (d_a d) = r) (duplicates_of ds))"

definition scored_group :: "(nat \<Rightarrow> nat) \<Rightarrow> decision list \<Rightarrow> nat list \<Rightarrow> match_group" where
  "scored_group rt ds members =
     (let cs = confidences_of rt ds (rt (select_canonical members))
      in (group_of_members members)\<lparr>g_confidence := Min (set (if cs = [] then [1] else cs))\<rparr>)"

definition wired :: "(nat \<Rightarrow> nat) \<Rightarrow> nat \<Rightarrow> decision \<Rightarrow> decision" where
  "wired rt n d =
     (if is_duplicate d
      then d\<lparr>d_group := map_of (zip (map fst (root_groups rt n)) [0 ..< length (root_groups rt n)]) (rt (d_a d))\<rparr>
      else d)"

lemma root_groups_iff:
  "(r, members) \<in> set (root_groups rt n) \<longleftrightarrow>
     members = filter (\<lambda>x. rt x = r) [0 ..< n] \<and> 2 \<le> length members"
proof -
  have v: "values_of r (map (\<lambda>x. (rt x, x)) [0 ..< n]) = filter (\<lambda>x. rt x = r) [0 ..< n]"
    by (simp add: filter_map comp_def)
  have k: "r \<in> fst ` set (map (\<lambda>x. (rt x, x)) [0 ..< n]) \<longleftrightarrow> filter (\<lambda>x. rt x = r) [0 ..< n] \<noteq> []"
    by (force simp: filter_empty_conv image_iff)
  show ?thesis
    unfolding root_groups_def sorted_components_def set_filter set_sort mem_Collect_eq group_pairs_iff v k
    by auto
qed

lemma select_canonical_in: "members \<noteq> [] \<Longrightarrow> select_canonical members \<in> set members"
  by (simp add: select_canonical_def)

lemma root_group_canonical:
  assumes "(r, members) \<in> set (root_groups rt n)"
  shows "select_canonical members < n" "rt (select_canonical members) = r"
proof -
  have "members \<noteq> []" "members = filter (\<lambda>x. rt x = r) [0 ..< n]"
    using assms by (auto simp: root_groups_iff)
  then show "select_canonical members < n" "rt (select_canonical members) = r"
    using select_canonical_in[of members] by auto
qed

lemma wire_positions:
  assumes find: "\<And>x s. x < n \<Longrightarrow> I s \<Longrightarrow> \<exists>s'. uf_find x s = Some (rt x, s') \<and> I s'"
    and ds: "list_all (\<lambda>d. d_a d < n) ds" and u: "I u"
  shows "\<exists>u'. foldM (wire_decision gi) (duplicate_positions ds) (ds, u) =
     Some (map (\<lambda>d. if is_duplicate d then d\<lparr>d_group := map_of gi (rt (d_a d))\<rparr> else d) ds, u') \<and> I u'"
proof -
  let ?f = "\<lambda>d. d\<lparr>d_group := map_of gi (rt (d_a d))\<rparr>"
  let ?at = "\<lambda>prev. map (\<lambda>i. if i \<in> set prev then ?f (ds ! i) else ds ! i) [0 ..< length ds]"
  have "\<exists>s'. wire_decision gi pos s = Some s' \<and> (fst s' = ?at (prev @ [pos]) \<and> I (snd s'))"
    if pos: "pos \<in> set (duplicate_positions ds)" and s: "fst s = ?at prev \<and> I (snd s)" for prev pos s
  proof -
    have p: "pos < length ds" using pos by (simp add: duplicate_positions_def)
    then have a: "d_a (ds ! pos) < n" using ds by (simp add: list_all_length)
    obtain s' where s': "uf_find (d_a (ds ! pos)) (snd s) = Some (rt (d_a (ds ! pos)), s')" "I s'"
      using find[OF a] s by blast
    have "(?at prev)[pos := ?f (?at prev ! pos)] = ?at (prev @ [pos])"
      using p by (intro nth_equalityI) (auto simp: nth_list_update)
    moreover have "d_a (?at prev ! pos) = d_a (ds ! pos)" using p by simp
    ultimately show ?thesis
      using s s' by (cases s) (simp add: wire_decision_def)
  qed
  moreover have "ds = ?at []" by (simp add: map_nth)
  ultimately obtain t where t: "foldM (wire_decision gi) (duplicate_positions ds) (ds, u) = Some t"
      "fst t = ?at (duplicate_positions ds)" "I (snd t)"
    using foldM_invariant[where I = "\<lambda>prev s. fst s = ?at prev \<and> I (snd s)" and f = "wire_decision gi"
        and xs = "duplicate_positions ds" and s = "(ds, u)"] u by auto
  moreover have "?at (duplicate_positions ds) = map (\<lambda>d. if is_duplicate d then ?f d else d) ds"
    by (intro nth_equalityI) (auto simp: duplicate_positions_def)
  ultimately show ?thesis by (cases t) auto
qed

lemma finish_logged:
  assumes l: "logged n limits ds k sk st"
  shows "\<exists>rt r. finish n st = Some r
    \<and> (\<forall>x < n. \<forall>y. y < n \<longrightarrow> (rt x = rt y \<longleftrightarrow> (x, y) \<in> union_find.linked (edges_of ds)))
    \<and> r = \<lparr>mr_groups = map (\<lambda>(x, members). scored_group rt ds members) (root_groups rt n),
            mr_decisions = map (wired rt n) (take (max_persisted_decisions limits) ds),
            mr_skipped_blocks = sk, mr_row_count = n, mr_comparisons = k,
            mr_group_count = length (root_groups rt n),
            mr_duplicate_pairs = length (duplicates_of ds),
            mr_ambiguous_pairs = length (filter (\<lambda>d. \<not> is_duplicate d) ds),
            mr_skipped_count = length sk, mr_by_rule = tally (map d_rule ds),
            mr_confidence = min_default 1 (map (\<lambda>(x, members). g_confidence (scored_group rt ds members))
              (root_groups rt n))\<rparr>"
proof -
  let ?u = "m_uf st"
  have rep: "union_find.represents (new_union_find n) ?u (edges_of ds)" using l by (simp add: logged_def)
  then have good: "uf_good ?u" "uf_size ?u = n"
    by (simp_all add: union_find.represents_def new_union_find_good)
  define rt where "rt x = the (uf_root ?u x)" for x
  let ?I = "\<lambda>u'. uf_good u' \<and> uf_size u' = n \<and> (\<forall>z < n. uf_root u' z = uf_root ?u z)"
  have find: "\<exists>s'. uf_find x s = Some (rt x, s') \<and> ?I s'" if "x < n" "?I s" for x s
    using uf_find_ok[of s x] that by (auto simp: rt_def)
  have linked: "rt x = rt y \<longleftrightarrow> (x, y) \<in> union_find.linked (edges_of ds)" if "x < n" "y < n" for x y
  proof -
    obtain a b where "uf_root ?u x = Some a" "uf_root ?u y = Some b"
      using uf_root_ok[OF good(1)] good(2) \<open>x < n\<close> \<open>y < n\<close> by blast
    then have "rt x = rt y \<longleftrightarrow> uf_same ?u x y" using good(2) \<open>x < n\<close> \<open>y < n\<close> by (simp add: rt_def uf_same_def)
    then show ?thesis
      using union_find.represents_linked[OF rep] \<open>x < n\<close> by (simp add: new_union_find_good)
  qed
  obtain u1 where u1: "uf_components ?u = Some (group_pairs (map (\<lambda>x. (rt x, x)) [0 ..< n]), u1)" "?I u1"
    using uf_components_ok[OF good(1)] good(2) by (auto simp: rt_def)
  let ?E = "map (\<lambda>d. (d_a d, d_b d, d_confidence d)) (duplicates_of ds)"
  have bounds: "list_all (\<lambda>d. d_a d < n \<and> d_b d < n) ds" using l by (simp add: logged_def)
  have "\<exists>t. mapM (\<lambda>(a, b, c). uf_find a) ?E u1 = Some (map (\<lambda>(a, b, c). rt a) ?E, t) \<and> ?I t"
    using bounds find
    by (intro mapM_pure[where I = ?I]) (use u1 in \<open>auto simp: list_all_iff\<close>)
  then obtain u2 where u2: "mapM (\<lambda>(a, b, c). uf_find a) ?E u1 = Some (map (\<lambda>d. rt (d_a d)) (duplicates_of ds), u2)"
      "?I u2" by (auto simp: comp_def)
  let ?C = "group_pairs (map (\<lambda>d. (rt (d_a d), d_confidence d)) (duplicates_of ds))"
  have confs: "root_confidences ?E u1 = Some (?C, u2)"
    by (simp add: root_confidences_def u2(1) zip_map1 zip_map2 zip_same_conv_map comp_def)
  have scored: "(case map_of ?C r of None \<Rightarrow> [1] | Some cs \<Rightarrow> cs) =
      (if confidences_of rt ds r = [] then [1] else confidences_of rt ds r)" for r
  proof -
    have "values_of r (map (\<lambda>d. (rt (d_a d), d_confidence d)) (duplicates_of ds)) = confidences_of rt ds r"
      by (simp add: confidences_of_def filter_map comp_def)
    moreover have "r \<in> fst ` set (map (\<lambda>d. (rt (d_a d), d_confidence d)) (duplicates_of ds))
        \<longleftrightarrow> confidences_of rt ds r \<noteq> []"
      by (force simp: confidences_of_def filter_empty_conv image_iff)
    ultimately show ?thesis unfolding map_of_group_pairs by simp
  qed
  let ?R = "root_groups rt n"
  let ?G = "map (\<lambda>(x, members). group_of_members members) ?R"
  let ?s = "\<lambda>g. g\<lparr>g_confidence := Min (set (case map_of ?C (rt (g_canonical g)) of None \<Rightarrow> [1] | Some cs \<Rightarrow> cs))\<rparr>"
  have "\<exists>t. mapM (score_group ?C) ?G u2 = Some (map ?s ?G, t) \<and> ?I t"
  proof (rule mapM_pure[where I = ?I])
    fix g s
    assume g: "g \<in> set ?G" and s: "?I s"
    obtain x members where m: "(x, members) \<in> set ?R" "g = group_of_members members" using g by auto
    then have c: "g_canonical g < n" using root_group_canonical(1) by (simp add: group_of_members_def)
    then show "\<exists>s'. score_group ?C g s = Some (?s g, s') \<and> ?I s'"
      using find[OF c s] by (auto simp: score_group_def)
  qed (use u2 in simp)
  moreover have "map ?s ?G = map (\<lambda>(x, members). scored_group rt ds members) ?R"
    unfolding scored by (auto simp: scored_group_def group_of_members_def Let_def)
  ultimately obtain u3 where u3: "mapM (score_group ?C) ?G u2 =
      Some (map (\<lambda>(x, members). scored_group rt ds members) ?R, u3)" "?I u3" by auto
  let ?ds = "take (max_persisted_decisions limits) ds"
  have "list_all (\<lambda>d. d_a d < n) ?ds" using bounds by (auto simp: list_all_iff dest: in_set_takeD)
  from wire_positions[where I = ?I and n = n and rt = rt and ds = ?ds and u = u3, OF find this u3(2)]
  obtain u4 where u4: "foldM (wire_decision (zip (map fst ?R) [0 ..< length ?R])) (duplicate_positions ?ds) (?ds, u3)
      = Some (map (wired rt n) ?ds, u4)"
    unfolding wired_def by blast
  have "finish n st = Some \<lparr>mr_groups = map (\<lambda>(x, members). scored_group rt ds members) ?R,
            mr_decisions = map (wired rt n) ?ds,
            mr_skipped_blocks = sk, mr_row_count = n, mr_comparisons = k, mr_group_count = length ?R,
            mr_duplicate_pairs = length (duplicates_of ds),
            mr_ambiguous_pairs = length (filter (\<lambda>d. \<not> is_duplicate d) ds),
            mr_skipped_count = length sk, mr_by_rule = tally (map d_rule ds),
            mr_confidence = min_default 1 (map (\<lambda>(x, members). g_confidence (scored_group rt ds members)) ?R)\<rparr>"
  proof -
    have st: "m_decisions st = ?ds" "m_pending st = duplicate_positions ?ds" "m_edges st = ?E"
        "m_skipped st = sk" "m_comparisons st = k" "m_by_rule st = tally (map d_rule ds)"
        "m_duplicates st = length (duplicates_of ds)" "m_ambiguous st = length (filter (\<lambda>d. \<not> is_duplicate d) ds)"
      using l by (simp_all add: logged_def)
    have "sorted_components (group_pairs (map (\<lambda>x. (rt x, x)) [0 ..< n])) = ?R" by (simp add: root_groups_def)
    then show ?thesis
      unfolding finish_def st u1(1) option.case prod.case Let_def confs
      by (simp only: u3(1) u4 option.case prod.case) (simp add: comp_def case_prod_unfold)
  qed
  then show ?thesis using linked by blast
qed

section \<open>The whole run\<close>

lemma match_rows_result:
  "\<exists>rt r. match_rows rows hs rs limits = Some r
    \<and> (\<forall>x < length rows. \<forall>y. y < length rows \<longrightarrow>
         (rt x = rt y \<longleftrightarrow> (x, y) \<in> union_find.linked (edges_of (all_decisions rows hs rs limits))))
    \<and> r = (let ds = all_decisions rows hs rs limits; n = length rows; sk = oversize_blocks rows hs rs limits in
          \<lparr>mr_groups = map (\<lambda>(x, members). scored_group rt ds members) (root_groups rt n),
            mr_decisions = map (wired rt n) (take (max_persisted_decisions limits) ds),
            mr_skipped_blocks = sk, mr_row_count = n, mr_comparisons = comparison_count rows hs rs limits,
            mr_group_count = length (root_groups rt n),
            mr_duplicate_pairs = length (duplicates_of ds),
            mr_ambiguous_pairs = length (filter (\<lambda>d. \<not> is_duplicate d) ds),
            mr_skipped_count = length sk, mr_by_rule = tally (map d_rule ds),
            mr_confidence = min_default 1 (map (\<lambda>(x, members). g_confidence (scored_group rt ds members))
              (root_groups rt n))\<rparr>)"
proof -
  obtain st1 where st1: "exact_stage rows hs limits (initial_state (length rows)) = Some st1"
      "logged (length rows) limits (exact_decisions rows hs) (length (exact_decisions rows hs)) [] st1"
    using exact_stage_logged by blast
  obtain st2 where st2: "field_stage rows hs rs limits st1 = Some st2"
      "logged (length rows) limits (all_decisions rows hs rs limits) (comparison_count rows hs rs limits)
         (oversize_blocks rows hs rs limits) st2"
    using field_stage_logged[OF st1(2)] by (auto simp: all_decisions_def comparison_count_def)
  have "match_rows rows hs rs limits = finish (length rows) st2"
    by (simp add: match_rows_def st1(1) st2(1))
  then show ?thesis using finish_logged[OF st2(2)] unfolding Let_def by (simp only:)
qed

lemma exact_decisions_iff:
  "d \<in> set (exact_decisions rows hs) \<longleftrightarrow>
     (\<exists>row \<in> set rows. \<exists>p \<in> set (chain (filter (\<lambda>i. rows ! i = row) [0 ..< length rows])).
        d = exact_decision rows hs (fst p) (snd p))"
proof -
  have "chain xs = []" if "length xs < 2" for xs :: "nat list"
    using that length_chain[of xs] by simp
  then have "exact_decisions rows hs =
      concat (map (\<lambda>g. map (\<lambda>p. exact_decision rows hs (fst p) (snd p)) (chain (sort (snd g)))) (exact_groups rows))"
    unfolding exact_decisions_def
    by (intro arg_cong[where f = concat] map_cong) (simp_all add: case_prod_unfold)
  then have "d \<in> set (exact_decisions rows hs) \<longleftrightarrow>
      (\<exists>row indices. (row, indices) \<in> set (exact_groups rows)
         \<and> (\<exists>p \<in> set (chain (sort indices)). d = exact_decision rows hs (fst p) (snd p)))"
    by (simp only: set_concat list.set_map image_image UN_iff image_iff Bex_def split_paired_Ex fst_conv snd_conv)
  moreover have "sort (filter (\<lambda>i. rows ! i = row) [0 ..< length rows]) = filter (\<lambda>i. rows ! i = row) [0 ..< length rows]" for row
    by (simp add: sorted_sort_id sorted_wrt_filter)
  ultimately show ?thesis
    unfolding exact_groups_iff by metis
qed

lemma pairs_of_iff:
  "sorted xs \<Longrightarrow> distinct xs \<Longrightarrow> (a, b) \<in> set (pairs_of xs) \<longleftrightarrow> a \<in> set xs \<and> b \<in> set xs \<and> a < b"
  by (induction xs) (auto simp: order.strict_iff_order)

text \<open>The pairs that the configured fields decide, and what they decide.\<close>

definition comparable ::
  "string list list \<Rightarrow> string list \<Rightarrow> rule_set option \<Rightarrow> match_limits \<Rightarrow> nat \<Rightarrow> nat \<Rightarrow> bool"
where
  "comparable rows hs rs limits a b \<longleftrightarrow> has_fields rs \<and> a < b
     \<and> first_occurrence rows a \<and> first_occurrence rows b
     \<and> rule_key rows hs rs a = rule_key rows hs rs b \<and> rule_key rows hs rs a \<noteq> []
     \<and> length (block_members rows hs rs (rule_key rows hs rs a)) \<le> max_block_size limits"

definition pair_score :: "string list list \<Rightarrow> string list \<Rightarrow> rule_set option \<Rightarrow> nat \<Rightarrow> nat \<Rightarrow> rat" where
  "pair_score rows hs rs a b = snd (compare_pair (rows ! a) (rows ! b) hs (ms_fields (the rs)))"

lemma field_decisions_iff:
  "d \<in> set (field_decisions rows hs rs limits) \<longleftrightarrow>
     (\<exists>a b. comparable rows hs rs limits a b \<and> d \<in> set (pair_decision rows hs (the rs) (rule_key rows hs rs a) (a, b)))"
    (is "?L \<longleftrightarrow> ?R")
proof
  assume ?L
  then obtain key members p where m: "(key, members) \<in> set (rule_blocks rows hs rs)"
      "p \<in> set (compared_pairs limits members)" "d \<in> set (pair_decision rows hs (the rs) key p)"
    by (auto simp: field_decisions_def)
  obtain a b where p: "p = (a, b)" by (cases p)
  have k: "has_fields rs" "key \<noteq> []" "members = block_members rows hs rs key" using m(1) by (auto simp: rule_blocks_iff)
  then have "length members \<le> max_block_size limits" "a \<in> set members" "b \<in> set members" "a < b"
    using m(2) p block_members_sorted[of rows hs rs key]
    by (auto simp: compared_pairs_def pairs_of_iff sorted_sort_id split: if_splits)
  then have "comparable rows hs rs limits a b" "key = rule_key rows hs rs a"
    using k by (auto simp: comparable_def block_member)
  then show ?R using m(3) p by blast
next
  assume ?R
  then obtain a b where c: "comparable rows hs rs limits a b"
      "d \<in> set (pair_decision rows hs (the rs) (rule_key rows hs rs a) (a, b))" by blast
  let ?key = "rule_key rows hs rs a"
  let ?m = "block_members rows hs rs ?key"
  have ab: "a \<in> set ?m" "b \<in> set ?m" using c(1) by (auto simp: comparable_def block_member)
  then have "(?key, ?m) \<in> set (rule_blocks rows hs rs)"
    using c(1) by (auto simp: rule_blocks_iff comparable_def)
  moreover have "(a, b) \<in> set (compared_pairs limits ?m)"
  proof -
    have "length ?m \<le> max_block_size limits" "a < b" using c(1) unfolding comparable_def by blast+
    then show ?thesis
      using ab block_members_sorted[of rows hs rs ?key]
      by (simp add: compared_pairs_def pairs_of_iff sorted_sort_id)
  qed
  ultimately show ?L using c(2) by (force simp: field_decisions_def)
qed

section \<open>What the duplicate decisions connect\<close>

text \<open>Two rows are directly related when they are equal, or when they are first occurrences that
  share a block not above the size limit and score at least the duplicate threshold.\<close>

definition duplicate_pair ::
  "string list list \<Rightarrow> string list \<Rightarrow> rule_set option \<Rightarrow> match_limits \<Rightarrow> nat \<Rightarrow> nat \<Rightarrow> bool"
where
  "duplicate_pair rows hs rs limits a b \<longleftrightarrow> a < length rows \<and> b < length rows \<and>
     (rows ! a = rows ! b
      \<or> comparable rows hs rs limits a b \<and> ms_duplicate_threshold (the rs) \<le> pair_score rows hs rs a b)"

definition same_record ::
  "string list list \<Rightarrow> string list \<Rightarrow> rule_set option \<Rightarrow> match_limits \<Rightarrow> (nat \<times> nat) set"
where
  "same_record rows hs rs limits =
     ({(a, b). duplicate_pair rows hs rs limits a b} \<union> {(a, b). duplicate_pair rows hs rs limits b a})\<^sup>*"

lemma chain_linked:
  assumes "x \<in> set xs" "y \<in> set xs"
  shows "(x, y) \<in> union_find.linked (chain xs)"
proof -
  have first: "(hd ys, z) \<in> union_find.linked (chain ys)" if "z \<in> set ys" for z ys
    using that
  proof (induction ys)
    case (Cons y ys)
    show ?case
    proof (cases "z = y")
      case True
      then show ?thesis by (simp add: union_find.linked_def)
    next
      case False
      then obtain y' ys' where ys: "ys = y' # ys'" "z \<in> set ys" using Cons.prems by (cases ys) auto
      have "(y, y') \<in> union_find.linked (chain (y # ys))"
        by (intro union_find.linked_edge) (simp add: ys(1) chain_Cons)
      moreover have "(y', z) \<in> union_find.linked (chain (y # ys))"
        using Cons.IH[OF ys(2)] rtrancl_mono[of "set (chain ys) \<union> (set (chain ys))\<inverse>"
            "set (chain (y # ys)) \<union> (set (chain (y # ys)))\<inverse>"]
        by (auto simp: union_find.linked_def ys(1) chain_Cons)
      ultimately show ?thesis by (auto intro: union_find.linked_trans)
    qed
  qed simp
  show ?thesis
    using union_find.linked_trans[OF union_find.linked_sym[OF first[OF assms(1)]] first[OF assms(2)]] .
qed

lemma linked_subset: "set es \<subseteq> union_find.linked fs \<Longrightarrow> union_find.linked es \<subseteq> union_find.linked fs"
proof -
  assume "set es \<subseteq> union_find.linked fs"
  then have "set es \<union> (set es)\<inverse> \<subseteq> union_find.linked fs" using union_find.linked_sym by auto
  then have "(set es \<union> (set es)\<inverse>)\<^sup>* \<subseteq> (union_find.linked fs)\<^sup>*" by (rule rtrancl_mono)
  also have "\<dots> = union_find.linked fs" by (simp add: union_find.linked_def)
  finally show ?thesis by (simp only: union_find.linked_def)
qed

lemma edges_of_iff: "(a, b) \<in> set (edges_of ds) \<longleftrightarrow> (\<exists>d \<in> set ds. is_duplicate d \<and> d_a d = a \<and> d_b d = b)"
  by (auto simp: edges_of_def)

lemma pair_decision_duplicate:
  "(\<exists>d \<in> set (pair_decision rows hs c key (a, b)). is_duplicate d \<and> d_a d = x \<and> d_b d = y) \<longleftrightarrow>
     x = a \<and> y = b \<and> ms_duplicate_threshold c \<le> pair_score rows hs (Some c) a b"
proof -
  obtain cs score where c: "compare_pair (rows ! a) (rows ! b) hs (ms_fields c) = (cs, score)" by force
  show ?thesis by (auto simp: pair_decision_def pair_score_def c)
qed

lemma field_edges:
  "(a, b) \<in> set (edges_of (field_decisions rows hs rs limits)) \<longleftrightarrow>
     comparable rows hs rs limits a b \<and> ms_duplicate_threshold (the rs) \<le> pair_score rows hs rs a b"
proof -
  have "(a, b) \<in> set (edges_of (field_decisions rows hs rs limits)) \<longleftrightarrow>
      (\<exists>x y. comparable rows hs rs limits x y \<and>
         (\<exists>d \<in> set (pair_decision rows hs (the rs) (rule_key rows hs rs x) (x, y)). is_duplicate d \<and> d_a d = a \<and> d_b d = b))"
    unfolding edges_of_iff Bex_def field_decisions_iff by blast
  then show ?thesis
    unfolding pair_decision_duplicate by (auto simp: pair_score_def)
qed

lemma exact_edges:
  "(a, b) \<in> set (edges_of (exact_decisions rows hs)) \<longleftrightarrow>
     (\<exists>row \<in> set rows. (a, b) \<in> set (chain (filter (\<lambda>i. rows ! i = row) [0 ..< length rows])))"
proof -
  have "(a, b) \<in> set (edges_of (exact_decisions rows hs)) \<longleftrightarrow>
      (\<exists>row \<in> set rows. \<exists>p \<in> set (chain (filter (\<lambda>i. rows ! i = row) [0 ..< length rows])). fst p = a \<and> snd p = b)"
    unfolding edges_of_iff Bex_def exact_decisions_iff by (metis exact_decision_simps(1-3))
  then show ?thesis by (metis fst_conv prod.collapse snd_conv)
qed

lemma linked_same_record:
  "union_find.linked (edges_of (all_decisions rows hs rs limits)) = same_record rows hs rs limits"
proof -
  let ?es = "edges_of (all_decisions rows hs rs limits)"
  let ?P = "{(a, b). duplicate_pair rows hs rs limits a b}"
  have es: "set ?es = set (edges_of (exact_decisions rows hs)) \<union> set (edges_of (field_decisions rows hs rs limits))"
    by (auto simp: edges_of_def all_decisions_def)
  have sub: "set ?es \<subseteq> ?P"
  proof (intro subrelI)
    fix a b
    assume "(a, b) \<in> set ?es"
    then consider "(a, b) \<in> set (edges_of (exact_decisions rows hs))"
      | "(a, b) \<in> set (edges_of (field_decisions rows hs rs limits))" unfolding es by blast
    then show "(a, b) \<in> ?P"
    proof cases
      case 1
      then show ?thesis by (auto simp: exact_edges duplicate_pair_def dest!: chain_in)
    next
      case 2
      then have c: "comparable rows hs rs limits a b" "ms_duplicate_threshold (the rs) \<le> pair_score rows hs rs a b"
        by (simp_all only: field_edges)
      then have "a < length rows" "b < length rows"
        unfolding comparable_def first_occurrence_def by blast+
      then show ?thesis using c by (simp add: duplicate_pair_def)
    qed
  qed
  have "(a, b) \<in> union_find.linked ?es" if "duplicate_pair rows hs rs limits a b" for a b
  proof (cases "rows ! a = rows ! b")
    case True
    let ?xs = "filter (\<lambda>i. rows ! i = rows ! a) [0 ..< length rows]"
    have ab: "a \<in> set ?xs" "b \<in> set ?xs" using that True by (auto simp: duplicate_pair_def)
    have "set (chain ?xs) \<subseteq> set ?es"
    proof (rule subrelI)
      fix x y
      assume "(x, y) \<in> set (chain ?xs)"
      then have "\<exists>row \<in> set rows. (x, y) \<in> set (chain (filter (\<lambda>i. rows ! i = row) [0 ..< length rows]))"
        using that by (intro bexI[of _ "rows ! a"]) (simp_all add: duplicate_pair_def)
      then show "(x, y) \<in> set ?es" by (simp add: es exact_edges)
    qed
    then have "union_find.linked (chain ?xs) \<subseteq> union_find.linked ?es"
      by (intro linked_subset) (auto intro: union_find.linked_edge)
    then show ?thesis using chain_linked[OF ab] by blast
  next
    case False
    then show ?thesis
      using that by (intro union_find.linked_edge) (simp add: es field_edges duplicate_pair_def)
  qed
  then have "?P \<union> ?P\<inverse> \<subseteq> union_find.linked ?es" using union_find.linked_sym by auto
  then have "(?P \<union> ?P\<inverse>)\<^sup>* \<subseteq> (union_find.linked ?es)\<^sup>*" by (rule rtrancl_mono)
  also have "\<dots> = union_find.linked ?es" by (simp add: union_find.linked_def)
  finally have "(?P \<union> ?P\<inverse>)\<^sup>* \<subseteq> union_find.linked ?es" .
  moreover have "union_find.linked ?es \<subseteq> (?P \<union> ?P\<inverse>)\<^sup>*"
    unfolding union_find.linked_def using sub by (intro rtrancl_mono) auto
  moreover have "?P\<inverse> = {(a, b). duplicate_pair rows hs rs limits b a}" by auto
  ultimately show ?thesis by (simp add: same_record_def)
qed

end
