(* ===== verification/MatchingTheorems.thy ===== *)
theory MatchingTheorems
  imports MatchingProps
begin

text \<open>
  The theorems about a matching run: it always returns, its groups are the classes of the
  relation the rules generate, scores lie between zero and one, and the recorded decisions point
  to the groups they feed.
\<close>

section \<open>Groups are classes\<close>

lemma run_groups:
  assumes "\<And>x y. x < n \<Longrightarrow> y < n \<Longrightarrow> rt x = rt y \<longleftrightarrow> (x, y) \<in> R"
    and gs: "gs = map (\<lambda>(x, members). scored_group rt ds members) (root_groups rt n)"
  shows "(\<exists>g \<in> set gs. x \<in> set (g_members g) \<and> y \<in> set (g_members g)) \<and> x \<noteq> y
    \<longleftrightarrow> x < n \<and> y < n \<and> x \<noteq> y \<and> (x, y) \<in> R"
proof -
  let ?ms = "filter (\<lambda>z. rt z = rt x) [0 ..< n]"
  have "(\<exists>g \<in> set gs. x \<in> set (g_members g) \<and> y \<in> set (g_members g)) \<longleftrightarrow>
      (\<exists>r members. (r, members) \<in> set (root_groups rt n) \<and> x \<in> set members \<and> y \<in> set members)"
    by (force simp: gs scored_group_def group_of_members_def Let_def)
  also have "\<dots> \<longleftrightarrow> x < n \<and> y < n \<and> rt x = rt y \<and> 2 \<le> length ?ms"
    by (auto simp: root_groups_iff)
  also have "\<dots> \<and> x \<noteq> y \<longleftrightarrow> x < n \<and> y < n \<and> rt x = rt y \<and> x \<noteq> y"
  proof -
    have "2 \<le> length ?ms" if "x < n" "y < n" "rt x = rt y" "x \<noteq> y"
    proof -
      have "card {x, y} \<le> card (set ?ms)" using that by (intro card_mono) auto
      then show ?thesis using that(4) card_length[of ?ms] by simp
    qed
    then show ?thesis by auto
  qed
  finally show ?thesis using assms(1)[of x y] by auto
qed

lemma match_classes:
  "\<exists>r. match_rows rows hs rs limits = Some r
     \<and> (\<forall>x y. (\<exists>g \<in> set (mr_groups r). x \<in> set (g_members g) \<and> y \<in> set (g_members g)) \<and> x \<noteq> y
          \<longleftrightarrow> x < length rows \<and> y < length rows \<and> x \<noteq> y \<and> (x, y) \<in> same_record rows hs rs limits)"
proof -
  obtain rt r where r: "match_rows rows hs rs limits = Some r"
      "\<And>x y. x < length rows \<Longrightarrow> y < length rows \<Longrightarrow> rt x = rt y \<longleftrightarrow> (x, y) \<in> same_record rows hs rs limits"
      "mr_groups r = map (\<lambda>(x, members). scored_group rt (all_decisions rows hs rs limits) members)
         (root_groups rt (length rows))"
    using match_rows_result[of rows hs rs limits] unfolding linked_same_record Let_def by fastforce
  then show ?thesis using run_groups[OF r(2) r(3)] by blast
qed

text \<open>C2: The groups of a matching run are exactly the equivalence classes, of at least two rows, of the
  relation the configuration generates: equal rows, and first occurrences of rows that share a
  block and score at least the duplicate threshold.  The union-find structure implements this
  specification, whatever the order of the unions.\<close>

theorem match_groups_are_classes:
  "\<exists>r. match_rows rows hs rs limits = Some r
     \<and> (\<forall>x y. (\<exists>g \<in> set (mr_groups r). x \<in> set (g_members g) \<and> y \<in> set (g_members g)) \<and> x \<noteq> y
          \<longleftrightarrow> x < length rows \<and> y < length rows \<and> x \<noteq> y \<and> (x, y) \<in> same_record rows hs rs limits)"
  by (rule match_classes)


section \<open>Well-formed groups\<close>

lemma distinct_root_groups: "distinct (map fst (root_groups rt n))"
  unfolding root_groups_def sorted_components_def
  by (intro distinct_map_filter) (simp add: distinct_map_sort_key distinct_group_pairs)

lemma sorted_root_groups: "sorted_wrt (<) (map (\<lambda>(x, members). select_canonical members) (root_groups rt n))"
proof -
  let ?R = "root_groups rt n"
  let ?c = "\<lambda>(x, members). select_canonical members"
  have "sorted (map ?c ?R)"
    unfolding root_groups_def sorted_components_def select_canonical_def
    by (intro sorted_filter) simp
  moreover have "distinct (map ?c ?R)"
  proof -
    have "fst p = rt (?c p)" if "p \<in> set ?R" for p
      using root_group_canonical(2)[of "fst p" "snd p"] that by (simp add: case_prod_unfold)
    then have "map fst ?R = map rt (map ?c ?R)" by simp
    then have "distinct (map rt (map ?c ?R))" using distinct_root_groups[of rt n] by metis
    then show ?thesis by (simp only: distinct_map)
  qed
  ultimately show ?thesis by (simp only: strict_sorted_iff)
qed

lemma root_group_members:
  assumes "(x, members) \<in> set (root_groups rt n)"
  shows "sorted_wrt (<) members" "sort members = members" "hd members = select_canonical members"
    "set members \<subseteq> {..< n}" "2 \<le> length members" "members \<noteq> []"
proof -
  have m: "members = filter (\<lambda>z. rt z = x) [0 ..< n]" "2 \<le> length members"
    using assms by (auto simp: root_groups_iff)
  show sm: "sorted_wrt (<) members" unfolding m(1) by (rule sorted_wrt_filter) simp
  show "sort members = members" using sm by (simp add: sorted_sort_id strict_sorted_iff)
  show "set members \<subseteq> {..< n}" "2 \<le> length members" using m by auto
  show ne: "members \<noteq> []" using m(2) by auto
  then obtain y ys where "members = y # ys" by (cases members) auto
  then show "hd members = select_canonical members"
    using sm by (auto simp: select_canonical_def intro!: Min_eqI[symmetric])
qed

lemma scored_group_fields:
  assumes "(x, members) \<in> set (root_groups rt n)"
  shows "g_members (scored_group rt ds members) = members"
    "g_canonical (scored_group rt ds members) = select_canonical members"
    "g_confidence (scored_group rt ds members) =
       Min (set (if confidences_of rt ds x = [] then [1] else confidences_of rt ds x))"
  using root_group_canonical(2)[OF assms] root_group_members(2)[OF assms]
  by (simp_all add: scored_group_def group_of_members_def Let_def)

lemma distinct_concat_disjoint:
  assumes "distinct (map fst ps)" "\<And>x ms. (x, ms) \<in> set ps \<Longrightarrow> distinct ms \<and> (\<forall>z \<in> set ms. f z = x)"
  shows "distinct (concat (map snd ps))"
  using assms
proof (induction ps)
  case (Cons p ps)
  obtain x ms where p: "p = (x, ms)" by (cases p)
  have "x \<notin> fst ` set ps" using Cons.prems(1) by (simp add: p)
  moreover have "f z = x" if "z \<in> set ms" for z using Cons.prems(2)[of x ms] that by (simp add: p)
  moreover have "\<exists>q \<in> set ps. fst q = f z" if "z \<in> set (concat (map snd ps))" for z
  proof -
    obtain q where q: "q \<in> set ps" "z \<in> set (snd q)" using \<open>z \<in> set (concat (map snd ps))\<close> by auto
    then have "f z = fst q" using Cons.prems(2)[of "fst q" "snd q"] by simp
    then show ?thesis using q by metis
  qed
  ultimately have "set ms \<inter> set (concat (map snd ps)) = {}" by (metis disjoint_iff image_eqI)
  moreover have "distinct (concat (map snd ps))"
    using Cons.prems(1) by (intro Cons.IH) (auto simp: p intro!: Cons.prems(2))
  moreover have "distinct ms" using Cons.prems(2)[of x ms] by (simp add: p)
  ultimately show ?case by (simp add: p)
qed simp

lemma match_wellformed:
  "\<exists>r. match_rows rows hs rs limits = Some r
     \<and> sorted_wrt (<) (map g_canonical (mr_groups r))
     \<and> list_all (\<lambda>g. 2 \<le> g_record_count g \<and> sorted_wrt (<) (g_members g) \<and> hd (g_members g) = g_canonical g)
         (mr_groups r)
     \<and> distinct (concat (map g_members (mr_groups r)))
     \<and> set (concat (map g_members (mr_groups r))) \<subseteq> {..< length rows}"
proof -
  let ?n = "length rows"
  obtain rt r where r: "match_rows rows hs rs limits = Some r"
      "mr_groups r = map (\<lambda>(x, members). scored_group rt (all_decisions rows hs rs limits) members) (root_groups rt ?n)"
    using match_rows_result[of rows hs rs limits] unfolding Let_def by fastforce
  have canon: "map g_canonical (mr_groups r) = map (\<lambda>(x, members). select_canonical members) (root_groups rt ?n)"
    and members: "map g_members (mr_groups r) = map snd (root_groups rt ?n)"
    using scored_group_fields by (auto simp: r(2))
  have "distinct (concat (map snd (root_groups rt ?n)))"
    by (rule distinct_concat_disjoint[OF distinct_root_groups, of _ _ rt])
      (auto simp: root_groups_iff)
  moreover have "list_all (\<lambda>g. 2 \<le> g_record_count g \<and> sorted_wrt (<) (g_members g) \<and> hd (g_members g) = g_canonical g)
      (mr_groups r)"
    using root_group_members scored_group_fields by (auto simp: r(2) list_all_iff g_record_count_def)
  moreover have "set (concat (map snd (root_groups rt ?n))) \<subseteq> {..< ?n}"
    using root_group_members(4) by fastforce
  ultimately show ?thesis
    using r(1) sorted_root_groups[of rt ?n] unfolding members[symmetric] canon[symmetric] by blast
qed

text \<open>The groups are well formed: in strictly increasing order of their canonical rows, each with at
  least two members in strictly increasing order of which the canonical row is the first, all of
  them rows of the file, and no row in two groups.\<close>

theorem match_groups_wellformed:
  "\<exists>r. match_rows rows hs rs limits = Some r
     \<and> sorted_wrt (<) (map g_canonical (mr_groups r))
     \<and> list_all (\<lambda>g. 2 \<le> g_record_count g \<and> sorted_wrt (<) (g_members g) \<and> hd (g_members g) = g_canonical g)
         (mr_groups r)
     \<and> distinct (concat (map g_members (mr_groups r)))
     \<and> set (concat (map g_members (mr_groups r))) \<subseteq> {..< length rows}"
  by (rule match_wellformed)

text \<open>The decision of a duplicate pair points to its group.\<close>

lemma wired_group:
  assumes link: "\<And>x y. x < n \<Longrightarrow> y < n \<Longrightarrow> (x, y) \<in> set (edges_of ds) \<Longrightarrow> rt x = rt y"
    and d: "d \<in> set ds" "is_duplicate d" "d_a d < n" "d_b d < n" "d_a d \<noteq> d_b d"
    and gs: "gs = map (\<lambda>(x, members). scored_group rt ds members) (root_groups rt n)"
  shows "\<exists>k < length gs. d_group (wired rt n d) = Some k \<and> d_a d \<in> set (g_members (gs ! k))
           \<and> d_b d \<in> set (g_members (gs ! k)) \<and> g_confidence (gs ! k) \<le> d_confidence d"
proof -
  let ?R = "root_groups rt n"
  let ?x = "rt (d_a d)"
  let ?ms = "filter (\<lambda>z. rt z = ?x) [0 ..< n]"
  have "(d_a d, d_b d) \<in> set (edges_of ds)" using d by (auto simp: edges_of_iff)
  then have same: "rt (d_b d) = ?x" using link d by simp
  have "card {d_a d, d_b d} \<le> card (set ?ms)" using d same by (intro card_mono) auto
  then have "2 \<le> length ?ms" using d(5) card_length[of ?ms] by simp
  then have R: "(?x, ?ms) \<in> set ?R" by (simp add: root_groups_iff)
  then obtain k where k: "k < length ?R" "?R ! k = (?x, ?ms)" by (auto simp: in_set_conv_nth)
  have "map_of (zip (map fst ?R) [0 ..< length ?R]) ?x = Some k"
    using map_of_zip_nth[of "map fst ?R" "[0 ..< length ?R]" k] distinct_root_groups[of rt n] k by simp
  moreover have g: "gs ! k = scored_group rt ds ?ms" using k by (simp add: gs)
  moreover have "d_confidence d \<in> set (confidences_of rt ds ?x)"
    using d(1,2) by (auto simp: confidences_of_def)
  then have "Min (set (if confidences_of rt ds ?x = [] then [1] else confidences_of rt ds ?x)) \<le> d_confidence d"
    by (intro Min_le) auto
  ultimately show ?thesis
    using d same k(1) scored_group_fields[OF R, of ds]
    by (intro exI[of _ k]) (simp add: wired_def gs)
qed

lemma chain_less: "sorted_wrt (<) xs \<Longrightarrow> (a, b) \<in> set (chain xs) \<Longrightarrow> a < (b :: nat)"
proof (induction xs)
  case (Cons x xs)
  then show ?case by (cases xs) (auto simp: chain_Cons chain_def)
qed (simp add: chain_def)

lemma all_decisions_bounds:
  assumes "d \<in> set (all_decisions rows hs rs limits)"
  shows "d_a d < d_b d" "d_b d < length rows"
proof -
  have exact: "d_a d < d_b d \<and> d_b d < length rows" if dd: "d \<in> set (exact_decisions rows hs)"
  proof -
    obtain row a b where c: "(a, b) \<in> set (chain (filter (\<lambda>i. rows ! i = row) [0 ..< length rows]))"
        "d = exact_decision rows hs a b"
      using dd by (auto simp: exact_decisions_iff)
    moreover have "a < b" by (rule chain_less[OF _ c(1)]) (rule sorted_wrt_filter, simp)
    ultimately show ?thesis using chain_in[OF c(1)] by simp
  qed
  have field: "d_a d < d_b d \<and> d_b d < length rows" if dd: "d \<in> set (field_decisions rows hs rs limits)"
  proof -
    obtain a b where c: "comparable rows hs rs limits a b"
        "d \<in> set (pair_decision rows hs (the rs) (rule_key rows hs rs a) (a, b))"
      using dd unfolding field_decisions_iff by blast
    have "d_a d = a" "d_b d = b" using c(2) by (auto simp: pair_decision_def split: prod.splits if_splits)
    then show ?thesis using c(1) unfolding comparable_def first_occurrence_def by blast
  qed
  show "d_a d < d_b d" "d_b d < length rows"
    using assms exact field by (auto simp: all_decisions_def)
qed

lemma match_wired:
  "\<exists>r. match_rows rows hs rs limits = Some r
     \<and> list_all (\<lambda>d. d_a d < d_b d \<and> d_b d < length rows
         \<and> (case d_group d of
              None \<Rightarrow> d_label d = Ambiguous
            | Some k \<Rightarrow> d_label d = Duplicate \<and> k < length (mr_groups r)
                \<and> d_a d \<in> set (g_members (mr_groups r ! k)) \<and> d_b d \<in> set (g_members (mr_groups r ! k))
                \<and> g_confidence (mr_groups r ! k) \<le> d_confidence d)) (mr_decisions r)"
proof -
  let ?ds = "all_decisions rows hs rs limits" and ?n = "length rows"
  obtain rt r where r: "match_rows rows hs rs limits = Some r"
      "\<And>x y. x < ?n \<Longrightarrow> y < ?n \<Longrightarrow> rt x = rt y \<longleftrightarrow> (x, y) \<in> union_find.linked (edges_of ?ds)"
      "mr_groups r = map (\<lambda>(x, members). scored_group rt ?ds members) (root_groups rt ?n)"
      "mr_decisions r = map (wired rt ?n) (take (max_persisted_decisions limits) ?ds)"
    using match_rows_result[of rows hs rs limits] unfolding Let_def by fastforce
  have "d_a e < d_b e \<and> d_b e < ?n \<and> (case d_group e of None \<Rightarrow> d_label e = Ambiguous
      | Some k \<Rightarrow> d_label e = Duplicate \<and> k < length (mr_groups r)
          \<and> d_a e \<in> set (g_members (mr_groups r ! k)) \<and> d_b e \<in> set (g_members (mr_groups r ! k))
          \<and> g_confidence (mr_groups r ! k) \<le> d_confidence e)"
    if e: "e \<in> set (mr_decisions r)" for e
  proof -
    obtain d where d: "d \<in> set ?ds" "e = wired rt ?n d" using e r(4) by (auto dest: in_set_takeD)
    have w: "d_a e = d_a d" "d_b e = d_b d" "d_label e = d_label d" "d_confidence e = d_confidence d"
      by (simp_all add: d(2) wired_def)
    note b = all_decisions_bounds[OF d(1)]
    show ?thesis
    proof (cases "is_duplicate d")
      case True
      have "\<exists>k < length (mr_groups r). d_group (wired rt ?n d) = Some k \<and> d_a d \<in> set (g_members (mr_groups r ! k))
          \<and> d_b d \<in> set (g_members (mr_groups r ! k)) \<and> g_confidence (mr_groups r ! k) \<le> d_confidence d"
        by (rule wired_group[OF _ d(1) True _ _ _ r(3)]) (use r(2) union_find.linked_edge b in auto)
      then show ?thesis using True w b d(2) by auto
    next
      case False
      then have "d_group e = d_group d" by (simp add: d(2) wired_def)
      moreover have "d_label d = Ambiguous" using False by (cases "d_label d") auto
      moreover have "d_group d = None"
        using d(1) unfolding all_decisions_def set_append Un_iff field_decisions_iff exact_decisions_iff
        by (auto simp: pair_decision_def scored_decision_def exact_decision_def split: prod.splits if_splits)
      ultimately show ?thesis using w b by simp
    qed
  qed
  then show ?thesis using r(1) by (auto simp: list_all_iff)
qed

text \<open>C28: Every persisted decision is tied to the groups it belongs to: an ambiguous one to none, a
  duplicate one to the one group that holds both of its rows, whose confidence it bounds.\<close>

theorem match_decisions_wired:
  "\<exists>r. match_rows rows hs rs limits = Some r
     \<and> list_all (\<lambda>d. d_a d < d_b d \<and> d_b d < length rows
         \<and> (case d_group d of
              None \<Rightarrow> d_label d = Ambiguous
            | Some k \<Rightarrow> d_label d = Duplicate \<and> k < length (mr_groups r)
                \<and> d_a d \<in> set (g_members (mr_groups r ! k)) \<and> d_b d \<in> set (g_members (mr_groups r ! k))
                \<and> g_confidence (mr_groups r ! k) \<le> d_confidence d)) (mr_decisions r)"
  by (rule match_wired)

text \<open>When nothing is cut off, every member of a group occurs in a persisted duplicate decision.\<close>

lemma linked_has_edge:
  "(x, y) \<in> union_find.linked es \<Longrightarrow> x \<noteq> y \<Longrightarrow> \<exists>z. (x, z) \<in> set es \<or> (z, x) \<in> set es"
  by (auto simp: union_find.linked_def elim: converse_rtranclE)

lemma match_duplicate_grouped:
  assumes "match_rows rows hs rs limits = Some r" "d \<in> set (mr_decisions r)" "is_duplicate d"
  shows "\<exists>k. d_group d = Some k"
proof -
  obtain r' where "match_rows rows hs rs limits = Some r'"
      "list_all (\<lambda>d. d_a d < d_b d \<and> d_b d < length rows
         \<and> (case d_group d of None \<Rightarrow> d_label d = Ambiguous
            | Some k \<Rightarrow> d_label d = Duplicate \<and> k < length (mr_groups r')
                \<and> d_a d \<in> set (g_members (mr_groups r' ! k)) \<and> d_b d \<in> set (g_members (mr_groups r' ! k))
                \<and> g_confidence (mr_groups r' ! k) \<le> d_confidence d)) (mr_decisions r')"
    using match_wired[of rows hs rs limits] by blast
  then show ?thesis using assms by (cases "d_group d") (auto simp: list_all_iff)
qed

lemma member_has_decision:
  assumes r: "match_rows rows hs rs limits = Some r"
    and full: "mr_duplicate_pairs r + mr_ambiguous_pairs r \<le> max_persisted_decisions limits"
    and g: "g \<in> set (mr_groups r)" "x \<in> set (g_members g)" "y \<in> set (g_members g)" "y \<noteq> x"
  shows "\<exists>d \<in> set (mr_decisions r). is_duplicate d \<and> x \<in> {d_a d, d_b d}"
proof -
  let ?ds = "all_decisions rows hs rs limits" and ?n = "length rows"
  obtain rt r' where r': "match_rows rows hs rs limits = Some r'"
      "\<And>x y. x < ?n \<Longrightarrow> y < ?n \<Longrightarrow> rt x = rt y \<longleftrightarrow> (x, y) \<in> union_find.linked (edges_of ?ds)"
      "mr_groups r' = map (\<lambda>(x, members). scored_group rt ?ds members) (root_groups rt ?n)"
      "mr_decisions r' = map (wired rt ?n) (take (max_persisted_decisions limits) ?ds)"
      "mr_duplicate_pairs r' = length (duplicates_of ?ds)"
      "mr_ambiguous_pairs r' = length (filter (\<lambda>d. \<not> is_duplicate d) ?ds)"
    using match_rows_result[of rows hs rs limits] unfolding Let_def by fastforce
  have "r' = r" using r r'(1) by simp
  obtain c members where m: "(c, members) \<in> set (root_groups rt ?n)" "g = scored_group rt ?ds members"
    using g(1) r'(3) \<open>r' = r\<close> by auto
  have xy: "x < ?n" "y < ?n" "rt x = rt y"
    using g(2,3) m(1) unfolding m(2) scored_group_fields(1)[OF m(1)] by (auto simp: root_groups_iff)
  then obtain z where "(x, z) \<in> set (edges_of ?ds) \<or> (z, x) \<in> set (edges_of ?ds)"
    using r'(2)[OF xy(1,2)] linked_has_edge[of x y] g(4) by blast
  then obtain d where d: "d \<in> set ?ds" "is_duplicate d" "x \<in> {d_a d, d_b d}" by (auto simp: edges_of_iff)
  have "length ?ds \<le> max_persisted_decisions limits"
    using full r'(5,6) sum_length_filter_compl[of is_duplicate ?ds] \<open>r' = r\<close> by simp
  then have "wired rt ?n d \<in> set (mr_decisions r)" using d(1) r'(4) \<open>r' = r\<close> by simp
  moreover have "is_duplicate (wired rt ?n d)" "d_a (wired rt ?n d) = d_a d" "d_b (wired rt ?n d) = d_b d"
    using d(2) by (simp_all add: wired_def)
  ultimately show ?thesis using d(3) by metis
qed

section \<open>Scores\<close>

abbreviation field_matches :: "string list \<Rightarrow> string list \<Rightarrow> string list \<Rightarrow> rule_field \<Rightarrow> bool" where
  "field_matches row_a row_b hs f \<equiv> fc_matched (field_comparison_of row_a row_b hs f)"

definition weights_ok :: "rule_field list \<Rightarrow> bool" where
  "weights_ok fs \<longleftrightarrow> list_all (\<lambda>f. 0 \<le> mf_weight f) fs"

lemma field_comparison_simps:
  "fc_contribution (field_comparison_of a b hs f) = (if field_matches a b hs f then mf_weight f else 0)"
  "field_matches a b hs f \<longleftrightarrow> field_matches b a hs f"
  by (auto simp: field_comparison_of_def compare_field_def)

text \<open>Two accumulations side by side: same weights, matched weights in order.\<close>

lemma compare_loop_mono:
  assumes "weights_ok fs" "list_all (\<lambda>f. field_matches a b hs f \<longrightarrow> field_matches c d hs f) fs"
    "0 \<le> m" "m \<le> m'" "m' \<le> w"
  shows "\<exists>xs ys w1 m1 m1'. compare_loop a b hs fs (cs, w, m) = (xs, w1, m1)
           \<and> compare_loop c d hs fs (cs', w, m') = (ys, w1, m1') \<and> 0 \<le> m1 \<and> m1 \<le> m1' \<and> m1' \<le> w1"
  using assms
proof (induction fs arbitrary: cs cs' w m m')
  case (Cons f fs)
  let ?k = "\<lambda>x y. fc_contribution (field_comparison_of x y hs f)"
  have k: "0 \<le> ?k a b" "?k a b \<le> ?k c d" "?k c d \<le> mf_weight f"
    using Cons.prems(1,2) by (auto simp: field_comparison_simps weights_ok_def)
  have "0 \<le> fl (m + ?k a b)" "fl (m + ?k a b) \<le> fl (m' + ?k c d)" "fl (m' + ?k c d) \<le> fl (w + mf_weight f)"
    using k Cons.prems(3-5) by (intro fl_nonneg fl_mono; simp)+
  then show ?case
    using Cons.IH[of "fl (m + ?k a b)" "fl (m' + ?k c d)" "fl (w + mf_weight f)"] Cons.prems(1,2)
    by (simp add: Let_def weights_ok_def)
qed simp

lemma compare_loop_sym:
  "snd (compare_loop a b hs fs (cs, w, m)) = snd (compare_loop b a hs fs (cs', w, m))"
  by (induction fs arbitrary: cs cs' w m)
    (simp_all add: Let_def field_comparison_simps(1) field_comparison_simps(2)[of a b])

lemma compare_pair_mono:
  assumes "weights_ok fs" "list_all (\<lambda>f. field_matches a b hs f \<longrightarrow> field_matches c d hs f) fs"
  shows "0 \<le> snd (compare_pair a b hs fs)" "snd (compare_pair a b hs fs) \<le> snd (compare_pair c d hs fs)"
    "snd (compare_pair c d hs fs) \<le> 1"
proof -
  obtain xs ys w m m' where l: "compare_loop a b hs fs ([], 0, 0) = (xs, w, m)"
      "compare_loop c d hs fs ([], 0, 0) = (ys, w, m')" "0 \<le> m" "m \<le> m'" "m' \<le> w"
    using compare_loop_mono[OF assms, of 0 0 0 "[]" "[]"] by auto
  have "0 \<le> fl (m / w)" "fl (m / w) \<le> fl (m' / w)" "fl (m' / w) \<le> fl 1" if "0 < w"
    using that l(3-5) by (intro fl_nonneg fl_mono; simp add: divide_right_mono)+
  then show "0 \<le> snd (compare_pair a b hs fs)" "snd (compare_pair a b hs fs) \<le> snd (compare_pair c d hs fs)"
    "snd (compare_pair c d hs fs) \<le> 1"
    by (simp_all add: compare_pair_def l(1,2))
qed

text \<open>The score of a pair lies between zero and one, is symmetric, and despite the rounding of every
  addition a pair that matches in more fields never scores less.\<close>

theorem pair_scores_ordered:
  assumes "weights_ok fs" and "list_all (\<lambda>f. field_matches a b hs f \<longrightarrow> field_matches c d hs f) fs"
  shows "0 \<le> snd (compare_pair a b hs fs) \<and> snd (compare_pair a b hs fs) \<le> snd (compare_pair c d hs fs)
    \<and> snd (compare_pair c d hs fs) \<le> 1 \<and> snd (compare_pair b a hs fs) = snd (compare_pair a b hs fs)"
proof -
  have "snd (compare_pair b a hs fs) = snd (compare_pair a b hs fs)"
    using compare_loop_sym[of a b hs fs "[]" 0 0 "[]"] by (auto simp: compare_pair_def split: prod.splits)
  then show ?thesis using compare_pair_mono[OF assms] by simp
qed

definition sample_fields :: "rule_field list" where
  "sample_fields = [\<lparr>mf_column = ''city'', mf_comparison = ''normalized_exact'', mf_weight = 3/4\<rparr>,
                    \<lparr>mf_column = ''phone'', mf_comparison = ''exact'', mf_weight = 1/4\<rparr>]"

lemma pair_scores_ordered_witness:
  "snd (compare_pair [''Rome'', ''1''] [''Oslo'', ''1''] [''City'', ''Phone''] sample_fields)
     \<le> snd (compare_pair [''Rome'', ''1''] ['' rome'', ''1''] [''City'', ''Phone''] sample_fields)"
proof -
  have "weights_ok sample_fields" by code_simp
  moreover have "list_all (\<lambda>f. field_matches [''Rome'', ''1''] [''Oslo'', ''1''] [''City'', ''Phone''] f \<longrightarrow>
      field_matches [''Rome'', ''1''] ['' rome'', ''1''] [''City'', ''Phone''] f) sample_fields"
    by code_simp
  ultimately show ?thesis using pair_scores_ordered by blast
qed

text \<open>Confidences are sound: with weights that are not negative every decision's score, every
  group's confidence and the run's confidence lie between zero and one.\<close>

theorem match_confidence_unit:
  assumes "\<forall>c. rs = Some c \<longrightarrow> weights_ok (ms_fields c)"
  shows "\<exists>r. match_rows rows hs rs limits = Some r
     \<and> list_all (\<lambda>d. 0 \<le> d_score d \<and> d_score d \<le> 1 \<and> d_confidence d = d_score d) (mr_decisions r)
     \<and> list_all (\<lambda>g. 0 \<le> g_confidence g \<and> g_confidence g \<le> 1) (mr_groups r)
     \<and> 0 \<le> mr_confidence r \<and> mr_confidence r \<le> 1"
proof -
  let ?ds = "all_decisions rows hs rs limits" and ?n = "length rows"
  obtain rt r where r: "match_rows rows hs rs limits = Some r"
      "mr_groups r = map (\<lambda>(x, members). scored_group rt ?ds members) (root_groups rt ?n)"
      "mr_decisions r = map (wired rt ?n) (take (max_persisted_decisions limits) ?ds)"
      "mr_confidence r = min_default 1 (map g_confidence (mr_groups r))"
    using match_rows_result[of rows hs rs limits] unfolding Let_def by (fastforce simp: comp_def case_prod_unfold)
  have score: "0 \<le> d_score d \<and> d_score d \<le> 1 \<and> d_confidence d = d_score d" if "d \<in> set ?ds" for d
  proof (cases "d \<in> set (exact_decisions rows hs)")
    case True
    then show ?thesis by (auto simp: exact_decisions_iff exact_decision_def)
  next
    case False
    then have "d \<in> set (field_decisions rows hs rs limits)" using that by (simp add: all_decisions_def)
    then obtain a b where ab: "comparable rows hs rs limits a b"
        "d \<in> set (pair_decision rows hs (the rs) (rule_key rows hs rs a) (a, b))"
      unfolding field_decisions_iff by blast
    then have c: "has_fields rs" "d \<in> set (pair_decision rows hs (the rs) (rule_key rows hs rs a) (a, b))"
      unfolding comparable_def by blast+
    then have "weights_ok (ms_fields (the rs))" using assms by (auto simp: has_fields_def)
    from compare_pair_mono[OF this, of "rows ! a" "rows ! b" hs "rows ! a" "rows ! b"]
    have s: "0 \<le> snd (compare_pair (rows ! a) (rows ! b) hs (ms_fields (the rs)))"
        "snd (compare_pair (rows ! a) (rows ! b) hs (ms_fields (the rs))) \<le> 1"
      by (simp_all add: list_all_iff)
    obtain xs score where p: "compare_pair (rows ! a) (rows ! b) hs (ms_fields (the rs)) = (xs, score)" by force
    show ?thesis
      using c(2) s by (auto simp: pair_decision_def p split: if_splits)
  qed
  have group: "0 \<le> g_confidence g \<and> g_confidence g \<le> 1" if g: "g \<in> set (mr_groups r)" for g
  proof -
    obtain x ms where m: "(x, ms) \<in> set (root_groups rt ?n)" "g = scored_group rt ?ds ms" using g by (auto simp: r(2))
    let ?cs = "if confidences_of rt ?ds x = [] then [1] else confidences_of rt ?ds x"
    have "g_confidence g \<in> set ?cs"
      unfolding m(2) scored_group_fields(3)[OF m(1)] by (intro Min_in) auto
    then show ?thesis using score by (auto simp: confidences_of_def split: if_splits)
  qed
  have "mr_confidence r \<in> insert 1 (g_confidence ` set (mr_groups r))"
    using min_default_in[of "map g_confidence (mr_groups r)" 1]
    by (cases "mr_groups r = []") (auto simp: r(4) min_default_def)
  then have "0 \<le> mr_confidence r \<and> mr_confidence r \<le> 1" using group by auto
  moreover have "list_all (\<lambda>d. 0 \<le> d_score d \<and> d_score d \<le> 1 \<and> d_confidence d = d_score d) (mr_decisions r)"
    using score by (auto simp: r(3) list_all_iff wired_def dest!: in_set_takeD)
  ultimately show ?thesis using r(1) group by (auto simp: list_all_iff)
qed

definition sample_rule_set :: rule_set where
  "sample_rule_set = \<lparr>ms_duplicate_threshold = 9/10, ms_review_threshold = 1/2, ms_fields = sample_fields\<rparr>"

definition sample_limits :: match_limits where
  "sample_limits = \<lparr>max_block_size = 10, max_persisted_decisions = 100, max_skipped_row_sample = 5\<rparr>"

lemma match_confidence_unit_witness:
  "\<exists>r. match_rows [[''Rome'', ''1''], [''rome'', ''1'']] [''City'', ''Phone''] (Some sample_rule_set) sample_limits = Some r
     \<and> 0 \<le> mr_confidence r \<and> mr_confidence r \<le> 1"
proof -
  have "\<forall>c. Some sample_rule_set = Some c \<longrightarrow> weights_ok (ms_fields c)"
    by (simp add: sample_rule_set_def sample_fields_def weights_ok_def)
  from match_confidence_unit[OF this] show ?thesis by blast
qed

section \<open>Without configuration\<close>

lemma same_record_identical:
  assumes "\<not> has_fields rs" "x < length rows"
  shows "(x, y) \<in> same_record rows hs rs limits \<longleftrightarrow> y < length rows \<and> rows ! x = rows ! y"
proof
  assume "(x, y) \<in> same_record rows hs rs limits"
  then show "y < length rows \<and> rows ! x = rows ! y"
    unfolding same_record_def
  proof (induction rule: rtrancl_induct)
    case (step y z)
    then show ?case using assms(1) by (auto simp: duplicate_pair_def comparable_def)
  qed (use assms(2) in simp)
next
  assume "y < length rows \<and> rows ! x = rows ! y"
  then show "(x, y) \<in> same_record rows hs rs limits"
    using assms(2) unfolding same_record_def by (intro r_into_rtrancl) (simp add: duplicate_pair_def)
qed

lemma sum_list_length: "sum_list (map f xs) + length xs = sum_list (map (\<lambda>x. f x + 1) xs)" for f :: "'a \<Rightarrow> nat"
  by (induction xs) simp_all

lemma length_exact_decisions: "length (exact_decisions rows hs) + card (set rows) = length rows"
proof -
  let ?G = "exact_groups rows"
  have "length (exact_decisions rows hs) = sum_list (map (\<lambda>g. length (snd g) - 1) ?G)"
    unfolding exact_decisions_def length_concat map_map
    by (intro arg_cong[where f = sum_list] map_cong) (auto simp: length_chain)
  moreover have "sum_list (map (\<lambda>g. length (snd g) - 1) ?G) + length ?G = sum_list (map (\<lambda>g. length (snd g)) ?G)"
  proof -
    have "1 \<le> length (snd g)" if "g \<in> set ?G" for g
      using that exact_groups_iff[of "fst g" "snd g" rows] by (auto simp: in_set_conv_nth Suc_le_eq filter_empty_conv)
    then have m: "map (\<lambda>g. length (snd g) - 1 + 1) ?G = map (\<lambda>g. length (snd g)) ?G"
      by (intro map_cong refl) (simp only: le_add_diff_inverse2)
    show ?thesis unfolding sum_list_length m ..
  qed
  moreover have "length ?G = card (set rows)"
  proof -
    have "x \<in> fst ` set ?G \<longleftrightarrow> (\<exists>indices. (x, indices) \<in> set ?G)" for x by force
    then have "fst ` set ?G = set rows" unfolding exact_groups_iff by blast
    moreover have "distinct (map fst ?G)" by (simp add: exact_groups_def distinct_group_pairs)
    ultimately show ?thesis by (metis distinct_card length_map list.set_map)
  qed
  moreover have "sum_list (map (\<lambda>g. length (snd g)) ?G) = length rows"
  proof -
    have "distinct (concat (map snd ?G))"
      by (rule distinct_concat_disjoint[of _ "\<lambda>i. rows ! i"])
        (auto simp: exact_groups_iff exact_groups_def[symmetric] distinct_group_pairs, simp add: exact_groups_def distinct_group_pairs)
    moreover have "set (concat (map snd ?G)) = {..< length rows}"
    proof -
      have "i \<in> set (concat (map snd ?G)) \<longleftrightarrow> (\<exists>x indices. (x, indices) \<in> set ?G \<and> i \<in> set indices)" for i by force
      then show ?thesis unfolding exact_groups_iff by auto
    qed
    then have "card (set (concat (map snd ?G))) = length rows" by simp
    ultimately have "length (concat (map snd ?G)) = length rows" using distinct_card by fastforce
    then show ?thesis by (simp add: length_concat comp_def)
  qed
  ultimately show ?thesis by simp
qed

text \<open>Without a rule set matching is exact deduplication: two rows share a group exactly when they are
  equal, nothing is ambiguous, and the number of duplicate pairs is the number of rows beyond the
  distinct ones.\<close>

theorem match_exact_rows:
  "\<exists>r. match_rows rows hs None limits = Some r
     \<and> (\<forall>x y. (\<exists>g \<in> set (mr_groups r). x \<in> set (g_members g) \<and> y \<in> set (g_members g)) \<and> x \<noteq> y
          \<longleftrightarrow> x < length rows \<and> y < length rows \<and> x \<noteq> y \<and> rows ! x = rows ! y)
     \<and> mr_ambiguous_pairs r = 0
     \<and> mr_duplicate_pairs r + card (set rows) = length rows
     \<and> mr_comparisons r = mr_duplicate_pairs r"
proof -
  obtain rt r where r: "match_rows rows hs None limits = Some r"
      "mr_duplicate_pairs r = length (duplicates_of (all_decisions rows hs None limits))"
      "mr_ambiguous_pairs r = length (filter (\<lambda>d. \<not> is_duplicate d) (all_decisions rows hs None limits))"
      "mr_comparisons r = comparison_count rows hs None limits"
    using match_rows_result[of rows hs None limits] unfolding Let_def by fastforce
  obtain r' where r': "match_rows rows hs None limits = Some r'"
      "\<forall>x y. (\<exists>g \<in> set (mr_groups r'). x \<in> set (g_members g) \<and> y \<in> set (g_members g)) \<and> x \<noteq> y
          \<longleftrightarrow> x < length rows \<and> y < length rows \<and> x \<noteq> y \<and> (x, y) \<in> same_record rows hs None limits"
    using match_classes[of rows hs None limits] by blast
  have "r' = r" using r(1) r'(1) by simp
  have none: "\<not> has_fields None" "rule_blocks rows hs None = []"
    by (simp_all add: has_fields_def rule_blocks_def)
  have ds: "all_decisions rows hs None limits = exact_decisions rows hs"
    by (simp add: all_decisions_def field_decisions_def none)
  have dup: "is_duplicate d" if "d \<in> set (exact_decisions rows hs)" for d
    using that by (auto simp: exact_decisions_iff)
  then have "duplicates_of (exact_decisions rows hs) = exact_decisions rows hs"
    "filter (\<lambda>d. \<not> is_duplicate d) (exact_decisions rows hs) = []"
    by (simp_all add: filter_id_conv filter_empty_conv)
  then have counts: "mr_ambiguous_pairs r = 0" "mr_duplicate_pairs r + card (set rows) = length rows"
      "mr_comparisons r = mr_duplicate_pairs r"
    using r length_exact_decisions[of rows hs] by (simp_all add: ds comparison_count_def none)
  have same: "(x < length rows \<and> y < length rows \<and> x \<noteq> y \<and> (x, y) \<in> same_record rows hs None limits) =
      (x < length rows \<and> y < length rows \<and> x \<noteq> y \<and> rows ! x = rows ! y)" for x y
    using same_record_identical[OF none(1), of x rows y hs limits] by auto
  have "\<forall>x y. (\<exists>g \<in> set (mr_groups r). x \<in> set (g_members g) \<and> y \<in> set (g_members g)) \<and> x \<noteq> y
      \<longleftrightarrow> x < length rows \<and> y < length rows \<and> x \<noteq> y \<and> rows ! x = rows ! y"
    using r'(2) unfolding \<open>r' = r\<close> same .
  then show ?thesis using r(1) counts by (intro exI[of _ r] conjI)
qed

section \<open>Absent and empty values\<close>

text \<open>A configured column that is blank in both rows, or that the file does not have, counts as a
  match.  Two people of one city without telephone numbers score one, as if their numbers agreed,
  and three quarters when one of them has a number; and they score one when the file has no
  telephone column at all.\<close>

theorem blank_fields_match:
  "snd (compare_pair [''Ann'', ''Rome'', ''''] [''Bob'', ''Rome'', ''''] [''Name'', ''City'', ''Phone''] sample_fields) = 1
   \<and> snd (compare_pair [''Ann'', ''Rome'', ''''] [''Bob'', ''Rome'', ''5''] [''Name'', ''City'', ''Phone''] sample_fields) = 3/4
   \<and> snd (compare_pair [''Ann'', ''Rome''] [''Bob'', ''Rome''] [''Name'', ''City''] sample_fields) = 1"
  by (intro conjI) code_simp+

end
