(* ===== verification/ExportProps.thy ===== *)
theory ExportProps
  imports Export MatchingTheorems
begin

text \<open>
  From a matching run to the exported file: the persisted groups and decisions give back the
  members of every group or a failure, and the file has one row for each class of equal records.
\<close>

section \<open>Materialization\<close>

lemma excluded_inner:
  "fold (\<lambda>i m. if i \<noteq> c then m(i \<mapsto> g) else m) xs m j = (if j \<in> set xs \<and> j \<noteq> c then Some g else m j)"
  by (induction xs arbitrary: m) auto

lemma excluded_by_row_eq:
  "excluded_by_row gs i = (case filter (\<lambda>g. i \<in> set (gi_members g) \<and> i \<noteq> gi_canonical g) gs of
     [] \<Rightarrow> None | hs \<Rightarrow> Some (last hs))"
  by (induction gs rule: rev_induct) (auto simp: excluded_by_row_def excluded_inner split: list.splits)

lemma excluded_by_row_None:
  "excluded_by_row gs i = None \<longleftrightarrow> list_all (\<lambda>g. i \<in> set (gi_members g) \<longrightarrow> i = gi_canonical g) gs"
proof -
  let ?hs = "filter (\<lambda>g. i \<in> set (gi_members g) \<and> i \<noteq> gi_canonical g) gs"
  have "excluded_by_row gs i = None \<longleftrightarrow> ?hs = []" by (simp add: excluded_by_row_eq split: list.splits)
  also have "\<dots> \<longleftrightarrow> list_all (\<lambda>g. i \<in> set (gi_members g) \<longrightarrow> i = gi_canonical g) gs"
    by (auto simp: filter_empty_conv list_all_iff)
  finally show ?thesis .
qed

lemma materialize_loop_eq:
  "length exclusions \<le> limit \<Longrightarrow>
   materialize_loop excluded limit rest (out, exclusions) =
     (out @ map (\<lambda>(i, row). row @ [''True'', show_nat i]) (filter (\<lambda>(i, row). excluded i = None) rest),
      take limit (exclusions @ map (\<lambda>(i, row). exclusion_of i (the (excluded i))) (filter (\<lambda>(i, row). excluded i \<noteq> None) rest)))"
proof (induction rest arbitrary: out exclusions)
  case (Cons p rest)
  obtain i row where p: "p = (i, row)" by (cases p)
  show ?case
  proof (cases "excluded i")
    case None
    then show ?thesis using Cons by (simp add: p)
  next
    case (Some g)
    then show ?thesis using Cons by (cases "length exclusions < limit") (simp_all add: p take_Cons')
  qed
qed simp

lemma enum_map: "enum xs = map (\<lambda>i. (i, xs ! i)) [0 ..< length xs]"
  by (rule nth_equalityI) (simp_all add: nth_enum)

lemma materialize_rows:
  "mt_rows (materialize rows hs gs limits) =
     map (\<lambda>i. rows ! i @ [''True'', show_nat i]) (filter (\<lambda>i. excluded_by_row gs i = None) [0 ..< length rows])"
  by (simp add: materialize_def materialize_loop_eq case_prod_unfold enum_map filter_map comp_def)

lemma materialize_exclusions:
  "mt_exclusions (materialize rows hs gs limits) = take (max_persisted_exclusions limits)
     (map (\<lambda>i. exclusion_of i (the (excluded_by_row gs i)))
       (filter (\<lambda>i. excluded_by_row gs i \<noteq> None) [0 ..< length rows]))"
  by (simp add: materialize_def materialize_loop_eq case_prod_unfold enum_map filter_map comp_def)

lemma materialize_counts:
  "mt_row_count (materialize rows hs gs limits) = length (mt_rows (materialize rows hs gs limits))"
  "mt_excluded (materialize rows hs gs limits) = length rows - mt_row_count (materialize rows hs gs limits)"
  "mt_groups (materialize rows hs gs limits) = length gs"
  "mt_headers (materialize rows hs gs limits) = hs @ RESERVED_COLUMNS"
  "mt_columns (materialize rows hs gs limits) = length hs + 2"
  by (simp_all add: materialize_def case_prod_unfold Let_def RESERVED_COLUMNS_def)

lemma materialize_row_count_le: "mt_row_count (materialize rows hs gs limits) \<le> length rows"
  using length_filter_le[of "\<lambda>i. excluded_by_row gs i = None" "[0 ..< length rows]"]
  by (simp add: materialize_counts materialize_rows)

text \<open>The materialized file partitions the input: each input row is either exported, unchanged but for
  the two provenance columns and in the original order, or counted as excluded; the exclusions
  recorded are, up to the limit, exactly the excluded rows in order, each with a group that has it
  as a non-canonical member.\<close>

theorem materialize_partitions:
  "let r = materialize rows hs gs limits; kept = filter (\<lambda>i. excluded_by_row gs i = None) [0 ..< length rows]
   in mt_rows r = map (\<lambda>i. rows ! i @ [''True'', show_nat i]) kept
      \<and> mt_row_count r + mt_excluded r = length rows
      \<and> length (mt_exclusions r) = min (max_persisted_exclusions limits) (mt_excluded r)
      \<and> map re_row (mt_exclusions r) = take (max_persisted_exclusions limits) (filter (\<lambda>i. i \<notin> set kept) [0 ..< length rows])
      \<and> list_all (\<lambda>e. list_ex (\<lambda>g. gi_id g = re_group_id e \<and> gi_canonical g = re_canonical e
                          \<and> re_row e \<in> set (gi_members g) \<and> re_row e \<noteq> gi_canonical g) gs) (mt_exclusions r)
      \<and> mt_headers r = hs @ [RESERVED_CANONICAL_RECORD_COLUMN, RESERVED_SOURCE_ROW_INDEX_COLUMN]"
proof -
  let ?r = "materialize rows hs gs limits"
  let ?out = "filter (\<lambda>i. excluded_by_row gs i \<noteq> None) [0 ..< length rows]"
  have "length (filter (\<lambda>i. excluded_by_row gs i = None) [0 ..< length rows]) + length ?out = length rows"
    using filter_length_le_partition[of "\<lambda>i. excluded_by_row gs i = None" "[0 ..< length rows]"] by simp
  then have excluded: "mt_excluded ?r = length ?out" by (simp add: materialize_counts materialize_rows)
  have len: "length (mt_exclusions ?r) = min (max_persisted_exclusions limits) (mt_excluded ?r)"
    by (simp add: materialize_exclusions excluded min.commute)
  have out: "map re_row (mt_exclusions ?r) = take (max_persisted_exclusions limits) ?out"
    by (simp add: materialize_exclusions take_map comp_def exclusion_of_def)
  have kept: "?out = filter (\<lambda>i. i \<notin> set (filter (\<lambda>i. excluded_by_row gs i = None) [0 ..< length rows])) [0 ..< length rows]"
    by (intro filter_cong) auto
  have each: "list_ex (\<lambda>g. gi_id g = re_group_id e \<and> gi_canonical g = re_canonical e
      \<and> re_row e \<in> set (gi_members g) \<and> re_row e \<noteq> gi_canonical g) gs" if e: "e \<in> set (mt_exclusions ?r)" for e
  proof -
    obtain i where i: "excluded_by_row gs i \<noteq> None" "e = exclusion_of i (the (excluded_by_row gs i))"
      using in_set_takeD[OF e[unfolded materialize_exclusions]] by auto
    let ?hs = "filter (\<lambda>g. i \<in> set (gi_members g) \<and> i \<noteq> gi_canonical g) gs"
    have "?hs \<noteq> []" "the (excluded_by_row gs i) = last ?hs"
      using i(1) by (auto simp: excluded_by_row_eq split: list.splits)
    then have "the (excluded_by_row gs i) \<in> set ?hs" using last_in_set[of ?hs] by presburger
    then show ?thesis by (auto simp: i(2) exclusion_of_def list_ex_iff)
  qed
  show ?thesis
    unfolding Let_def
  proof (intro conjI)
    show "mt_row_count ?r + mt_excluded ?r = length rows"
      using materialize_row_count_le[of rows hs gs limits] by (simp add: materialize_counts(2))
  qed (use each len out[unfolded kept] in \<open>simp_all add: materialize_rows materialize_counts(4) RESERVED_COLUMNS_def list_all_iff\<close>)
qed

section \<open>Reconstruction of the groups\<close>

definition group_inputs :: "nat list \<Rightarrow> match_result \<Rightarrow> group_input list" where
  "group_inputs ids r =
     map (\<lambda>(i, g). \<lparr>gi_id = i, gi_canonical = g_canonical g, gi_record_count = g_record_count g,
                   gi_members = g_members g\<rparr>) (zip ids (mr_groups r))"

definition loaded_group :: "match_decision_row list \<Rightarrow> group_row \<Rightarrow> group_input" where
  "loaded_group ds g =
     \<lparr>gi_id = gr_id g, gi_canonical = gr_canonical g, gi_record_count = gr_record_count g,
      gi_members = sort (member_set ds g)\<rparr>"

lemma load_groups_eq:
  "load_groups ds gs =
     (case filter (\<lambda>g. length (member_set ds g) \<noteq> gr_record_count g) gs of
        [] \<Rightarrow> Inr (map (loaded_group ds) gs) | g # _ \<Rightarrow> Inl (gr_id g))"
  by (induction gs) (auto simp: loaded_group_def Let_def split: list.splits)

lemma set_member_set:
  "set (member_set ds g) = insert (gr_canonical g) (\<Union>d \<in> {d \<in> set ds. dr_group d = Some (gr_id g)}. {dr_a d, dr_b d})"
  by (auto simp: member_set_def)

lemma distinct_member_set: "distinct (member_set ds g)"
  by (simp add: member_set_def)

text \<open>What a matching run guarantees of its groups and decisions.\<close>

lemma match_run_facts:
  assumes r: "match_rows rows hs rs limits = Some r"
  shows "\<And>k. k < length (mr_groups r) \<Longrightarrow> sorted_wrt (<) (g_members (mr_groups r ! k))
            \<and> hd (g_members (mr_groups r ! k)) = g_canonical (mr_groups r ! k)
            \<and> 2 \<le> length (g_members (mr_groups r ! k))"
    and "\<And>d k. d \<in> set (mr_decisions r) \<Longrightarrow> d_group d = Some k \<Longrightarrow> k < length (mr_groups r)
            \<and> d_a d \<in> set (g_members (mr_groups r ! k)) \<and> d_b d \<in> set (g_members (mr_groups r ! k))"
    and "distinct (concat (map g_members (mr_groups r)))"
    and "\<And>x y. (\<exists>g \<in> set (mr_groups r). x \<in> set (g_members g) \<and> y \<in> set (g_members g)) \<and> x \<noteq> y
            \<longleftrightarrow> x < length rows \<and> y < length rows \<and> x \<noteq> y \<and> (x, y) \<in> same_record rows hs rs limits"
proof -
  obtain r1 where r1: "match_rows rows hs rs limits = Some r1"
      "list_all (\<lambda>g. 2 \<le> g_record_count g \<and> sorted_wrt (<) (g_members g) \<and> hd (g_members g) = g_canonical g) (mr_groups r1)"
      "distinct (concat (map g_members (mr_groups r1)))"
    using match_wellformed[of rows hs rs limits] by blast
  then have "r1 = r" using r by simp
  then show "\<And>k. k < length (mr_groups r) \<Longrightarrow> sorted_wrt (<) (g_members (mr_groups r ! k))
            \<and> hd (g_members (mr_groups r ! k)) = g_canonical (mr_groups r ! k)
            \<and> 2 \<le> length (g_members (mr_groups r ! k))"
    and "distinct (concat (map g_members (mr_groups r)))"
    using r1(2,3) by (auto simp: list_all_length g_record_count_def)
  obtain r2 where r2: "match_rows rows hs rs limits = Some r2"
      "list_all (\<lambda>d. d_a d < d_b d \<and> d_b d < length rows
         \<and> (case d_group d of
              None \<Rightarrow> d_label d = Ambiguous
            | Some k \<Rightarrow> d_label d = Duplicate \<and> k < length (mr_groups r2)
                \<and> d_a d \<in> set (g_members (mr_groups r2 ! k)) \<and> d_b d \<in> set (g_members (mr_groups r2 ! k))
                \<and> g_confidence (mr_groups r2 ! k) \<le> d_confidence d)) (mr_decisions r2)"
    using match_wired[of rows hs rs limits] by blast
  then have "r2 = r" using r by simp
  then show "\<And>d k. d \<in> set (mr_decisions r) \<Longrightarrow> d_group d = Some k \<Longrightarrow> k < length (mr_groups r)
            \<and> d_a d \<in> set (g_members (mr_groups r ! k)) \<and> d_b d \<in> set (g_members (mr_groups r ! k))"
    using r2(2) by (auto simp: list_all_iff split: option.splits)
  obtain r3 where "match_rows rows hs rs limits = Some r3"
     "\<forall>x y. (\<exists>g \<in> set (mr_groups r3). x \<in> set (g_members g) \<and> y \<in> set (g_members g)) \<and> x \<noteq> y
          \<longleftrightarrow> x < length rows \<and> y < length rows \<and> x \<noteq> y \<and> (x, y) \<in> same_record rows hs rs limits"
    using match_classes[of rows hs rs limits] by blast
  then show "\<And>x y. (\<exists>g \<in> set (mr_groups r). x \<in> set (g_members g) \<and> y \<in> set (g_members g)) \<and> x \<noteq> y
            \<longleftrightarrow> x < length rows \<and> y < length rows \<and> x \<noteq> y \<and> (x, y) \<in> same_record rows hs rs limits"
    using r by simp
qed

lemma in_persisted:
  assumes ids: "distinct ids" "length ids = length (mr_groups r)" "k < length (mr_groups r)"
    and wired: "\<And>d k. d \<in> set (mr_decisions r) \<Longrightarrow> d_group d = Some k \<Longrightarrow> k < length (mr_groups r)"
  shows "(\<exists>e \<in> set (persist_decisions ids r). dr_group e = Some (ids ! k) \<and> x \<in> {dr_a e, dr_b e}) \<longleftrightarrow>
    (\<exists>d \<in> set (mr_decisions r). d_group d = Some k \<and> x \<in> {d_a d, d_b d})"
proof -
  have key: "map_option (\<lambda>j. ids ! j) (d_group d) = Some (ids ! k) \<longleftrightarrow> d_group d = Some k"
    if "d \<in> set (mr_decisions r)" for d
    using ids wired[OF that] by (cases "d_group d") (auto simp: nth_eq_iff_index_eq)
  show ?thesis
    by (simp add: persist_decisions_def) (use key in blast)
qed

lemma hd_strict_sorted:
  assumes "sorted_wrt (<) xs" "x \<in> set xs" "x \<noteq> hd xs"
  shows "hd xs < (x :: nat)"
  using assms by (cases xs) auto

lemma distinct_concat_less:
  "distinct (concat xss) \<Longrightarrow> i < j \<Longrightarrow> j < length xss \<Longrightarrow> set (xss ! i) \<inter> set (xss ! j) = {}"
proof (induction xss arbitrary: i j)
  case (Cons xs xss)
  obtain j' where j: "j = Suc j'" using Cons.prems(2) by (cases j) auto
  show ?case
  proof (cases i)
    case 0
    have "set (xss ! j') \<subseteq> set (concat xss)" using Cons.prems(3) j by (auto intro!: bexI[of _ "xss ! j'"])
    then show ?thesis using 0 j Cons.prems(1) by auto
  next
    case (Suc i')
    then show ?thesis using Cons j by simp
  qed
qed simp

lemma set_group_unique:
  assumes "distinct (concat (map f xs))" "i < length xs" "j < length xs" "z \<in> set (f (xs ! i))" "z \<in> set (f (xs ! j))"
  shows "i = j"
  using distinct_concat_less[OF assms(1), of i j] distinct_concat_less[OF assms(1), of j i] assms(2-)
  by (cases i j rule: linorder_cases) auto

abbreviation stored_row :: "nat list \<Rightarrow> match_result \<Rightarrow> nat \<Rightarrow> group_row" where
  "stored_row ids r k \<equiv> \<lparr>gr_id = ids ! k, gr_canonical = g_canonical (mr_groups r ! k),
     gr_record_count = g_record_count (mr_groups r ! k)\<rparr>"

abbreviation stored_input :: "nat list \<Rightarrow> match_result \<Rightarrow> nat \<Rightarrow> group_input" where
  "stored_input ids r k \<equiv> \<lparr>gi_id = ids ! k, gi_canonical = g_canonical (mr_groups r ! k),
     gi_record_count = g_record_count (mr_groups r ! k), gi_members = g_members (mr_groups r ! k)\<rparr>"

text \<open>The members found for a group are members of the group; with every decision stored, all of them.\<close>

lemma reconstructed_members:
  assumes r: "match_rows rows hs rs limits = Some r" and ids: "distinct ids" "length ids = length (mr_groups r)"
    and ds: "set ds = set (persist_decisions ids r)" and k: "k < length (mr_groups r)"
    and g: "g = stored_row ids r k"
  shows "set (member_set ds g) \<subseteq> set (g_members (mr_groups r ! k))"
    and "mr_duplicate_pairs r + mr_ambiguous_pairs r \<le> max_persisted_decisions limits \<Longrightarrow>
      set (member_set ds g) = set (g_members (mr_groups r ! k))"
proof -
  note facts = match_run_facts[OF r]
  let ?ms = "g_members (mr_groups r ! k)"
  have mem: "x \<in> set (member_set ds g) \<longleftrightarrow>
      x = g_canonical (mr_groups r ! k) \<or> (\<exists>d \<in> set (mr_decisions r). d_group d = Some k \<and> x \<in> {d_a d, d_b d})" for x
    using in_persisted[OF ids k, of x] facts(2) by (simp add: set_member_set ds g) blast
  have canon: "g_canonical (mr_groups r ! k) \<in> set ?ms"
    using facts(1)[OF k] by (metis hd_in_set length_0_conv not_numeral_le_zero)
  show sub: "set (member_set ds g) \<subseteq> set ?ms"
  proof
    fix x
    assume "x \<in> set (member_set ds g)"
    then consider "x = g_canonical (mr_groups r ! k)"
      | d where "d \<in> set (mr_decisions r)" "d_group d = Some k" "x = d_a d \<or> x = d_b d"
      using mem[of x] by auto
    then show "x \<in> set ?ms" by cases (use canon facts(2) in auto)
  qed
  assume full: "mr_duplicate_pairs r + mr_ambiguous_pairs r \<le> max_persisted_decisions limits"
  have "x \<in> set (member_set ds g)" if x: "x \<in> set ?ms" for x
  proof -
    obtain y where y: "y \<in> set ?ms" "y \<noteq> x"
    proof -
      have "distinct ?ms" using facts(1)[OF k] by (simp add: strict_sorted_iff)
      then have "card (set ?ms) \<ge> 2" using facts(1)[OF k] by (simp add: distinct_card)
      then have "set ?ms \<noteq> {x}" by auto
      then show thesis using that x by blast
    qed
    obtain d where d: "d \<in> set (mr_decisions r)" "is_duplicate d" "x \<in> {d_a d, d_b d}"
      using member_has_decision[OF r full nth_mem[OF k] x y] by blast
    obtain j where j: "d_group d = Some j"
      using match_duplicate_grouped[OF r d(1,2)] by blast
    then have "x \<in> set (g_members (mr_groups r ! j))" "j < length (mr_groups r)" using facts(2)[OF d(1) j] d(3) by auto
    then have "j = k" using set_group_unique[OF facts(3) _ k _ x] by blast
    then show ?thesis using mem d j by blast
  qed
  then show "set (member_set ds g) = set ?ms" using sub by blast
qed

text \<open>The reconstruction as a whole, on the stored rows in whatever order the database returns them.\<close>

lemma loaded_groups:
  assumes r: "match_rows rows hs rs limits = Some r" and ids: "distinct ids" "length ids = length (mr_groups r)"
    and gs: "set gs = set (persist_groups ids r)" and ds: "set ds = set (persist_decisions ids r)"
  shows "load_groups ds gs = Inr ins \<Longrightarrow> set ins = set (group_inputs ids r) \<and> length ins = length gs"
    and "load_groups ds gs = Inl e \<Longrightarrow>
      max_persisted_decisions limits < mr_duplicate_pairs r + mr_ambiguous_pairs r"
proof -
  note facts = match_run_facts[OF r]
  have members: "g \<in> set gs \<longleftrightarrow> (\<exists>k < length (mr_groups r). g = stored_row ids r k)" for g
    unfolding gs persist_groups_def by (auto simp: set_zip ids(2) image_iff)
  have card: "length (g_members (mr_groups r ! k)) = card (set (g_members (mr_groups r ! k)))"
    if "k < length (mr_groups r)" for k
    using facts(1)[OF that] by (simp add: strict_sorted_iff distinct_card)
  have same: "loaded_group ds g = stored_input ids r k"
    if k: "k < length (mr_groups r)" and g: "g = stored_row ids r k"
      and count: "length (member_set ds g) = gr_record_count g" for k g
  proof -
    let ?ms = "g_members (mr_groups r ! k)"
    have "card (set (member_set ds g)) = card (set ?ms)"
      using count card[OF k] distinct_card[OF distinct_member_set] by (simp add: g g_record_count_def)
    then have "set (member_set ds g) = set ?ms"
      using reconstructed_members(1)[OF r ids ds k g] by (intro card_subset_eq) auto
    then have "sort (member_set ds g) = ?ms"
      using facts(1)[OF k] distinct_member_set
      by (intro sorted_distinct_set_unique) (simp_all add: strict_sorted_iff)
    then show ?thesis by (simp add: loaded_group_def) (simp add: g)
  qed
  {
    assume ins: "load_groups ds gs = Inr ins"
    then have all: "\<forall>g \<in> set gs. length (member_set ds g) = gr_record_count g" and map: "ins = map (loaded_group ds) gs"
      by (auto simp: load_groups_eq filter_empty_conv split: list.splits)
    have "set (group_inputs ids r) = (\<lambda>k. stored_input ids r k) ` {..< length (mr_groups r)}"
      by (auto simp: group_inputs_def set_zip ids(2) image_iff)
    moreover have "set ins = (\<lambda>k. stored_input ids r k) ` {..< length (mr_groups r)}"
    proof (rule set_eqI)
      fix x
      have "x \<in> set ins \<longleftrightarrow> (\<exists>g \<in> set gs. x = loaded_group ds g)" by (auto simp: map)
      also have "\<dots> \<longleftrightarrow> (\<exists>k < length (mr_groups r). x = stored_input ids r k)"
        using same all members by (metis (no_types, lifting))
      finally show "x \<in> set ins \<longleftrightarrow> x \<in> (\<lambda>k. stored_input ids r k) ` {..< length (mr_groups r)}"
        by auto
    qed
    ultimately show "set ins = set (group_inputs ids r) \<and> length ins = length gs" by (simp add: map)
  }
  assume "load_groups ds gs = Inl e"
  then obtain g rest where "filter (\<lambda>g. length (member_set ds g) \<noteq> gr_record_count g) gs = g # rest"
    by (auto simp: load_groups_eq split: list.splits)
  then have "g \<in> set (filter (\<lambda>g. length (member_set ds g) \<noteq> gr_record_count g) gs)" by simp
  then have g: "g \<in> set gs" "length (member_set ds g) \<noteq> gr_record_count g" by simp_all
  from g(1) obtain k where k: "k < length (mr_groups r)" "g = stored_row ids r k"
    using members by blast
  show "max_persisted_decisions limits < mr_duplicate_pairs r + mr_ambiguous_pairs r"
  proof (rule ccontr)
    assume "\<not> ?thesis"
    then have "set (member_set ds g) = set (g_members (mr_groups r ! k))"
      using reconstructed_members(2)[OF r ids ds k] by simp
    then have "length (member_set ds g) = gr_record_count g"
      using card[OF k(1)] distinct_card[OF distinct_member_set] by (simp add: k(2) g_record_count_def) metis
    then show False using g(2) by simp
  qed
qed

text \<open>C34: Reconstruction is all or nothing.  From the stored groups and decisions of a matching run, in
  any order, the exporter either gets back exactly the groups of the run, or fails; and it can only
  fail when the limit on persisted decisions was exceeded.  No export runs on a part of a group.\<close>

theorem export_reconstructs_groups:
  assumes "match_rows rows hs rs limits = Some r" "distinct ids" "length ids = length (mr_groups r)"
    and "set gs = set (persist_groups ids r)" "set ds = set (persist_decisions ids r)"
  shows "case load_groups ds gs of
      Inr ins \<Rightarrow> set ins = set (group_inputs ids r)
    | Inl e \<Rightarrow> max_persisted_decisions limits < mr_duplicate_pairs r + mr_ambiguous_pairs r"
  using loaded_groups[OF assms] by (simp split: sum.splits)

section \<open>The exported file\<close>

text \<open>A row is excluded exactly when an earlier row is the same record.\<close>

lemma excluded_iff:
  assumes r: "match_rows rows hs rs limits = Some r" and ids: "length ids = length (mr_groups r)"
    and ins: "set ins = set (group_inputs ids r)"
  shows "excluded_by_row ins i = None \<longleftrightarrow> \<not> (\<exists>j. j < i \<and> i < length rows \<and> (j, i) \<in> same_record rows hs rs limits)"
proof -
  note facts = match_run_facts[OF r]
  have groups: "x \<in> set ins \<longleftrightarrow> (\<exists>k < length (mr_groups r). x = stored_input ids r k)" for x
    unfolding ins group_inputs_def by (auto simp: set_zip ids image_iff)
  have "excluded_by_row ins i \<noteq> None \<longleftrightarrow> (\<exists>k < length (mr_groups r).
      i \<in> set (g_members (mr_groups r ! k)) \<and> i \<noteq> g_canonical (mr_groups r ! k))"
  proof -
    have "excluded_by_row ins i \<noteq> None \<longleftrightarrow> (\<exists>x. x \<in> set ins \<and> i \<in> set (gi_members x) \<and> i \<noteq> gi_canonical x)"
      by (auto simp: excluded_by_row_None list_all_iff)
    also have "\<dots> \<longleftrightarrow> (\<exists>x k. k < length (mr_groups r) \<and> x = stored_input ids r k
        \<and> i \<in> set (gi_members x) \<and> i \<noteq> gi_canonical x)"
      unfolding groups by blast
    finally show ?thesis by simp
  qed
  also have "\<dots> \<longleftrightarrow> (\<exists>j < i. \<exists>g \<in> set (mr_groups r). j \<in> set (g_members g) \<and> i \<in> set (g_members g))"
  proof
    assume "\<exists>k < length (mr_groups r). i \<in> set (g_members (mr_groups r ! k)) \<and> i \<noteq> g_canonical (mr_groups r ! k)"
    then obtain k where k: "k < length (mr_groups r)" "i \<in> set (g_members (mr_groups r ! k))"
        "i \<noteq> g_canonical (mr_groups r ! k)" by blast
    then have "hd (g_members (mr_groups r ! k)) < i" using facts(1)[OF k(1)] by (intro hd_strict_sorted) auto
    moreover have "hd (g_members (mr_groups r ! k)) \<in> set (g_members (mr_groups r ! k))" using k(2) by (cases "g_members (mr_groups r ! k)") auto
    ultimately show "\<exists>j < i. \<exists>g \<in> set (mr_groups r). j \<in> set (g_members g) \<and> i \<in> set (g_members g)"
      using k(1,2) by (intro exI[of _ "hd (g_members (mr_groups r ! k))"]) auto
  next
    assume "\<exists>j < i. \<exists>g \<in> set (mr_groups r). j \<in> set (g_members g) \<and> i \<in> set (g_members g)"
    then obtain j g where "j < i" "g \<in> set (mr_groups r)" "j \<in> set (g_members g)" "i \<in> set (g_members g)" by blast
    moreover then obtain k where "k < length (mr_groups r)" "g = mr_groups r ! k" by (metis in_set_conv_nth)
    ultimately have jk: "j < i" "k < length (mr_groups r)" "j \<in> set (g_members (mr_groups r ! k))"
        "i \<in> set (g_members (mr_groups r ! k))" by simp_all
    have "i \<noteq> g_canonical (mr_groups r ! k)"
    proof
      assume "i = g_canonical (mr_groups r ! k)"
      then have "i = hd (g_members (mr_groups r ! k))" using facts(1)[OF jk(2)] by simp
      moreover have "sorted (g_members (mr_groups r ! k))" using facts(1)[OF jk(2)] by (simp add: strict_sorted_iff)
      ultimately show False using jk(1,3) by (cases "g_members (mr_groups r ! k)") auto
    qed
    then show "\<exists>k < length (mr_groups r). i \<in> set (g_members (mr_groups r ! k)) \<and> i \<noteq> g_canonical (mr_groups r ! k)"
      using jk by blast
  qed
  also have "\<dots> \<longleftrightarrow> (\<exists>j. j < i \<and> i < length rows \<and> (j, i) \<in> same_record rows hs rs limits)"
  proof -
    have "(\<exists>g \<in> set (mr_groups r). j \<in> set (g_members g) \<and> i \<in> set (g_members g)) \<longleftrightarrow>
        i < length rows \<and> (j, i) \<in> same_record rows hs rs limits" if "j < i" for j
      using facts(4)[of j i] that by (meson less_irrefl less_trans)
    then show ?thesis by blast
  qed
  finally show ?thesis by blast
qed

lemma export_rows:
  assumes "match_rows rows hs rs limits = Some r" "distinct ids" "length ids = length (mr_groups r)"
    and "set gs = set (persist_groups ids r)" "set ds = set (persist_decisions ids r)"
    and "load_groups ds gs = Inr ins"
  shows "mt_rows (materialize rows hs ins elimits) =
      map (\<lambda>i. rows ! i @ [''True'', show_nat i])
        (filter (\<lambda>i. \<not> (\<exists>j. j < i \<and> i < length rows \<and> (j, i) \<in> same_record rows hs rs limits)) [0 ..< length rows])"
proof -
  have "set ins = set (group_inputs ids r)" using loaded_groups(1)[OF assms] by simp
  then show ?thesis by (simp only: materialize_rows excluded_iff[OF assms(1,3)])
qed

text \<open>C22: From matching to the exported file: whenever the groups of a matching run can be loaded back, the
  exported file has, in the original order and unchanged but for the provenance columns, the first
  row of every class of equal records and no other row; the rest is counted as excluded.\<close>

theorem export_first_of_each_record:
  assumes "match_rows rows hs rs limits = Some r" "distinct ids" "length ids = length (mr_groups r)"
    and "set gs = set (persist_groups ids r)" "set ds = set (persist_decisions ids r)"
    and "load_groups ds gs = Inr ins"
  shows "mt_rows (materialize rows hs ins elimits) =
      map (\<lambda>i. rows ! i @ [''True'', show_nat i])
        (filter (\<lambda>i. \<not> (\<exists>j. j < i \<and> i < length rows \<and> (j, i) \<in> same_record rows hs rs limits)) [0 ..< length rows])"
  using assms by (rule export_rows)

text \<open>Without a rule set, exporting is deduplication: the data columns of the exported file are the rows
  of the input without later repetitions, pairwise different and with the same set of rows.\<close>

theorem export_deduplicates:
  assumes "match_rows rows hs None limits = Some r" "distinct ids" "length ids = length (mr_groups r)"
    and "set gs = set (persist_groups ids r)" "set ds = set (persist_decisions ids r)"
    and "load_groups ds gs = Inr ins"
  shows "let out = map (\<lambda>row. take (length row - 2) row) (mt_rows (materialize rows hs ins elimits))
    in distinct out \<and> set out = set rows \<and> mt_row_count (materialize rows hs ins elimits) = card (set rows)"
proof -
  let ?keep = "filter (first_occurrence rows) [0 ..< length rows]"
  let ?r = "materialize rows hs ins elimits"
  have "set ins = set (group_inputs ids r)" using loaded_groups(1)[OF assms] by simp
  have "\<not> has_fields None" by (simp add: has_fields_def)
  then have "(j, i) \<in> same_record rows hs None limits \<longleftrightarrow> i < length rows \<and> rows ! j = rows ! i"
    if "j < length rows" for i j
    using same_record_identical[OF _ that] by blast
  then have "\<not> (\<exists>j. j < i \<and> i < length rows \<and> (j, i) \<in> same_record rows hs None limits) \<longleftrightarrow> first_occurrence rows i"
    if "i < length rows" for i
    using that by (fastforce simp: first_occurrence_def in_set_conv_nth)
  then have rows: "mt_rows ?r = map (\<lambda>i. rows ! i @ [''True'', show_nat i]) ?keep"
    unfolding export_rows[OF assms] by (intro arg_cong[where f = "map _"] filter_cong) auto
  then have out: "map (\<lambda>row. take (length row - 2) row) (mt_rows ?r) = map (\<lambda>i. rows ! i) ?keep"
    by simp
  have dist: "distinct (map (\<lambda>i. rows ! i) ?keep)"
    unfolding distinct_map
  proof
    show "inj_on (\<lambda>i. rows ! i) (set ?keep)"
    proof (rule inj_onI)
      fix i j
      assume "i \<in> set ?keep" "j \<in> set ?keep" "rows ! i = rows ! j"
      then show "i = j"
        by (cases i j rule: linorder_cases) (auto simp: first_occurrence_def in_set_conv_nth)
    qed
  qed simp
  have set: "set (map (\<lambda>i. rows ! i) ?keep) = set rows"
  proof
    show "set rows \<subseteq> set (map (\<lambda>i. rows ! i) ?keep)"
    proof
      fix row
      assume "row \<in> set rows"
      then obtain i where i: "i < length rows" "rows ! i = row" by (auto simp: in_set_conv_nth)
      then have "first_index rows i \<in> set ?keep" "rows ! first_index rows i = row"
        using first_index(2,3)[OF i(1)] by (auto simp: first_occurrence_def)
      then show "row \<in> set (map (\<lambda>i. rows ! i) ?keep)" by force
    qed
  qed (auto simp: first_occurrence_def)
  have "mt_row_count ?r = length (map (\<lambda>i. rows ! i) ?keep)" by (simp add: materialize_counts(1) rows)
  also have "\<dots> = card (set rows)" using distinct_card[OF dist] set by simp
  finally show ?thesis unfolding Let_def out using dist set by blast
qed

section \<open>A concrete run\<close>

definition sample_rows :: "string list list" where
  "sample_rows = [[''a''], [''b''], [''a'']]"

definition sample_match :: match_result where
  "sample_match = the (match_rows sample_rows [''h''] None sample_limits)"

lemma sample_match_facts:
  "match_rows sample_rows [''h''] None sample_limits = Some sample_match"
  "length [7] = length (mr_groups sample_match)"
  "load_groups (persist_decisions [7] sample_match) (persist_groups [7] sample_match) =
     Inr [\<lparr>gi_id = 7, gi_canonical = 0, gi_record_count = 2, gi_members = [0, 2]\<rparr>]"
proof -
  show "match_rows sample_rows [''h''] None sample_limits = Some sample_match"
    using match_classes[of sample_rows "[''h'']" None sample_limits] by (auto simp: sample_match_def)
qed code_simp+

lemma export_reconstructs_groups_witness:
  "set [\<lparr>gi_id = 7, gi_canonical = 0, gi_record_count = 2, gi_members = [0, 2]\<rparr>] = set (group_inputs [7] sample_match)"
  using export_reconstructs_groups[OF sample_match_facts(1) _ sample_match_facts(2) refl refl]
  by (simp only: sample_match_facts(3) sum.case) simp

lemma export_first_of_each_record_witness:
  "mt_rows (materialize sample_rows [''h''] [\<lparr>gi_id = 7, gi_canonical = 0, gi_record_count = 2, gi_members = [0, 2]\<rparr>]
       \<lparr>max_persisted_exclusions = 5\<rparr>) =
     map (\<lambda>i. sample_rows ! i @ [''True'', show_nat i])
       (filter (\<lambda>i. \<not> (\<exists>j. j < i \<and> i < length sample_rows
           \<and> (j, i) \<in> same_record sample_rows [''h''] None sample_limits)) [0 ..< length sample_rows])"
  by (rule export_first_of_each_record[OF sample_match_facts(1) _ sample_match_facts(2) refl refl sample_match_facts(3)]) simp

lemma export_deduplicates_witness:
  "mt_row_count (materialize sample_rows [''h''] [\<lparr>gi_id = 7, gi_canonical = 0, gi_record_count = 2, gi_members = [0, 2]\<rparr>]
       \<lparr>max_persisted_exclusions = 5\<rparr>) = card (set sample_rows)"
  using export_deduplicates[OF sample_match_facts(1) _ sample_match_facts(2) refl refl sample_match_facts(3)]
  by (simp add: Let_def)

end
