(* ===== verification/CsvProps.thy ===== *)
theory CsvProps
  imports Csv
begin

text \<open>
  The files the handlers write are the files the next handler reads.

  \<open>resume\<close> is the reader in the middle of a line; inside quotes the line structure of the text does
  not matter, so a written row is read field by field.
\<close>

section \<open>Reading text character by character\<close>

definition resume :: "dialect \<Rightarrow> reader \<Rightarrow> string \<Rightarrow> read_result" where
  "resume d r t =
     (case process_line d (fst (break_line t)) r of
        None \<Rightarrow> CsvError
      | Some r' \<Rightarrow> if rd_state r' = StartRecord then Record (rd_fields r') (csv_lines (snd (break_line t)))
                  else read_loop d r' (csv_lines (snd (break_line t))))"

lemma read_loop_resume: "t \<noteq> [] \<Longrightarrow> read_loop d r (csv_lines t) = resume d r t"
  by (cases t) (simp_all add: resume_def del: break_line.simps)

lemma resume_char:
  assumes "c \<noteq> LF" "c \<noteq> CR"
  shows "resume d r (c # t) = (case process_char d (Some c) r of None \<Rightarrow> CsvError | Some r' \<Rightarrow> resume d r' t)"
  using assms by (simp add: resume_def case_prod_unfold Let_def split: option.splits)

text \<open>At the end of a row.\<close>

lemma resume_end:
  assumes "\<And>x. is_newline x \<Longrightarrow> process_char d x r = Some (end_field x r)"
  shows "resume d r (CR # LF # t) = Record (rd_fields r @ [rd_field r]) (csv_lines t)"
  using assms[of "Some CR"]
  by (simp add: resume_def LF_def CR_def is_newline_def end_field_def process_char_def save_field_def)

section \<open>One field\<close>

definition room :: "reader \<Rightarrow> string \<Rightarrow> bool" where
  "room r s \<longleftrightarrow> int (py_len (rd_field r @ s)) \<le> FIELD_SIZE_LIMIT"

lemma py_len_append: "py_len (s @ t) = py_len s + py_len t"
  by (simp add: py_len_def)

lemma py_len_Cons: "py_len (c # s) = (if py_cont c then py_len s else Suc (py_len s))"
  by (simp add: py_len_def py_cont_def)

lemma add_char_room: "room r (c # s) \<Longrightarrow> add_char c r = Some (r\<lparr>rd_field := rd_field r @ [c]\<rparr>)"
  by (auto simp: room_def add_char_def py_len_append py_len_Cons)

lemma room_step: "room r (c # s) \<Longrightarrow> room (r\<lparr>rd_field := rd_field r @ [c]\<rparr>) s"
  by (simp add: room_def)

lemma excel_simps [simp]:
  "delimiter excel = CHR '',''" "quotechar excel = DQUOTE" "doublequote excel" "\<not> skipinitialspace excel"
  by (simp_all add: excel_def)

lemma special_distinct [simp]:
  "CR \<noteq> LF" "LF \<noteq> CR" "DQUOTE \<noteq> CR" "DQUOTE \<noteq> LF" "CHR '','' \<noteq> DQUOTE" "DQUOTE \<noteq> CHR '',''"
  "CHR '','' \<noteq> CR" "CHR '','' \<noteq> LF" "LF \<noteq> DQUOTE" "CR \<noteq> DQUOTE"
  "CR \<noteq> CHR '',''" "LF \<noteq> CHR '',''"
  by code_simp+

text \<open>Inside quotes every character but the quote is kept, line ends included.\<close>

lemma resume_quoted_char:
  assumes "rd_state r = InQuotedField" "c \<noteq> DQUOTE" "room r (c # s)" "t \<noteq> []"
  shows "resume excel r (c # t) = resume excel (r\<lparr>rd_field := rd_field r @ [c]\<rparr>) t"
proof -
  have p: "process_char excel (Some c) r = Some (r\<lparr>rd_field := rd_field r @ [c]\<rparr>)"
    using assms by (simp add: process_char_def add_char_room[of r c s])
  let ?r = "r\<lparr>rd_field := rd_field r @ [c]\<rparr>"
  have e: "process_char excel None q = Some q" if "rd_state q = InQuotedField" for q
    using that by (simp add: process_char_def)
  consider "c \<noteq> LF" "c \<noteq> CR" | "c = LF" | "c = CR" by blast
  then show ?thesis
  proof cases
    case 1
    then show ?thesis by (simp add: resume_char p)
  next
    case 2
    then show ?thesis
      using p e[of ?r] assms(1,4) by (simp add: resume_def[of excel r] read_loop_resume)
  next
    case 3
    obtain c' u where t: "t = c' # u" using assms(4) by (cases t) auto
    show ?thesis
    proof (cases "c' = LF")
      case True
      then show ?thesis
        using 3 p by (simp add: resume_def t split: option.splits)
    next
      case False
      then show ?thesis
        using 3 p e[of ?r] assms(1) by (simp add: resume_def[of excel r] t read_loop_resume del: csv_lines.simps)
    qed
  qed
qed

lemma resume_quoted:
  assumes "rd_state r = InQuotedField" "room r s" "t \<noteq> []"
  shows "resume excel r (double_quotes s @ DQUOTE # t) =
    resume excel (r\<lparr>rd_state := QuoteInQuotedField, rd_field := rd_field r @ s\<rparr>) t"
  using assms
proof (induction s arbitrary: r)
  case Nil
  then show ?case by (simp add: double_quotes_def resume_char process_char_def)
next
  case (Cons c s)
  let ?r = "r\<lparr>rd_field := rd_field r @ [c]\<rparr>"
  have IH: "resume excel ?r (double_quotes s @ DQUOTE # t) =
      resume excel (?r\<lparr>rd_state := QuoteInQuotedField, rd_field := rd_field ?r @ s\<rparr>) t"
    by (rule Cons.IH) (use Cons.prems room_step in auto)
  have "resume excel r (double_quotes (c # s) @ DQUOTE # t) = resume excel ?r (double_quotes s @ DQUOTE # t)"
  proof (cases "c = DQUOTE")
    case True
    have same: "r\<lparr>rd_state := InQuotedField\<rparr> = r" using Cons.prems(1) by (cases r) simp
    have "add_char DQUOTE r = Some ?r" using add_char_room[of r DQUOTE s] Cons.prems(2) True by simp
    then show ?thesis
      using Cons.prems(1) True by (simp add: double_quotes_def resume_char process_char_def same)
  next
    case False
    then show ?thesis
      using resume_quoted_char[OF Cons.prems(1) False Cons.prems(2)] by (simp add: double_quotes_def)
  qed
  then show ?case using IH by simp
qed

text \<open>An unquoted field, from the start of a field or of a record.\<close>

lemma resume_in_field:
  assumes "rd_state r = InField" "\<not> needs_quotes s" "room r s"
  shows "resume excel r (s @ t) = resume excel (r\<lparr>rd_field := rd_field r @ s\<rparr>) t"
  using assms
proof (induction s arbitrary: r)
  case (Cons c s)
  have c: "c \<noteq> LF" "c \<noteq> CR" "c \<noteq> CHR '',''" "\<not> needs_quotes s" using Cons.prems(2) by (auto simp: needs_quotes_def)
  let ?r = "r\<lparr>rd_field := rd_field r @ [c]\<rparr>"
  have "resume excel r (c # s @ t) = resume excel ?r (s @ t)"
    using Cons.prems(1) c add_char_room[OF Cons.prems(3)]
    by (simp add: resume_char process_char_def is_newline_def)
  also have "\<dots> = resume excel (?r\<lparr>rd_field := rd_field ?r @ s\<rparr>) t"
    by (rule Cons.IH) (use Cons.prems c(4) room_step in auto)
  finally show ?case by simp
qed simp

definition at_start :: "reader \<Rightarrow> bool" where
  "at_start r \<longleftrightarrow> rd_field r = [] \<and> rd_state r \<in> {StartRecord, StartField}"

lemma at_start_char:
  assumes "at_start r" "c \<noteq> LF" "c \<noteq> CR"
  shows "process_char excel (Some c) r = start_field excel (Some c) r"
  using assms by (auto simp: at_start_def process_char_def is_newline_def)

text \<open>Reading one written field brings the reader to its end, whatever follows.\<close>

lemma resume_field:
  assumes r: "at_start r" and s: "int (py_len s) \<le> FIELD_SIZE_LIMIT" and t: "t \<noteq> []"
    and ne: "csv_field alone s \<noteq> []"
  shows "\<exists>r'. resume excel r (csv_field alone s @ t) = resume excel r' t
           \<and> rd_fields r' = rd_fields r \<and> rd_field r' = s \<and> rd_state r' \<in> {InField, QuoteInQuotedField}"
proof (cases "needs_quotes s \<or> (alone \<and> s = [])")
  case True
  let ?q = "r\<lparr>rd_state := InQuotedField\<rparr>"
  have "resume excel r (csv_field alone s @ t) = resume excel ?q (double_quotes s @ DQUOTE # t)"
    using True at_start_char[OF r, of DQUOTE]
    by (simp add: csv_field_def resume_char start_field_def is_newline_def)
  also have "\<dots> = resume excel (?q\<lparr>rd_state := QuoteInQuotedField, rd_field := rd_field ?q @ s\<rparr>) t"
    using r s t by (intro resume_quoted) (auto simp: room_def at_start_def)
  finally show ?thesis
    using r by (intro exI[of _ "?q\<lparr>rd_state := QuoteInQuotedField, rd_field := rd_field ?q @ s\<rparr>"])
      (auto simp: at_start_def)
next
  case False
  then obtain c u where cu: "s = c # u" using ne by (cases s) (auto simp: csv_field_def)
  let ?r = "r\<lparr>rd_state := InField, rd_field := [c]\<rparr>"
  have c: "c \<noteq> LF" "c \<noteq> CR" "c \<noteq> CHR '',''" "c \<noteq> DQUOTE" "\<not> needs_quotes u"
    using False by (auto simp: needs_quotes_def cu)
  have "room (r\<lparr>rd_state := InField\<rparr>) (c # u)" using s r by (simp add: room_def at_start_def cu)
  from add_char_room[OF this] have "add_char c (r\<lparr>rd_state := InField\<rparr>) = Some ?r"
    using r by (simp add: at_start_def)
  then have "resume excel r (c # u @ t) = resume excel ?r (u @ t)"
    using c at_start_char[OF r, of c] by (simp add: resume_char start_field_def is_newline_def)
  also have "\<dots> = resume excel (?r\<lparr>rd_field := rd_field ?r @ u\<rparr>) t"
    using s by (intro resume_in_field) (use c cu in \<open>auto simp: room_def\<close>)
  finally show ?thesis
    using False cu by (intro exI[of _ "?r\<lparr>rd_field := rd_field ?r @ u\<rparr>"]) (auto simp: csv_field_def)
qed

section \<open>One row\<close>

lemma ended_newline:
  "rd_state r \<in> {InField, QuoteInQuotedField, StartField} \<Longrightarrow> is_newline x \<Longrightarrow> process_char excel x r = Some (end_field x r)"
  by (auto simp: process_char_def start_field_def is_newline_def)

lemma ended_comma:
  "rd_state r \<in> {InField, QuoteInQuotedField, StartField} \<Longrightarrow>
     process_char excel (Some CHR '','') r = Some ((save_field r)\<lparr>rd_state := StartField\<rparr>)"
  by (auto simp: process_char_def start_field_def is_newline_def)

text \<open>A field and what ends it; an empty field is not quoted and leaves the reader where it was.\<close>

lemma resume_field_end:
  assumes r: "at_start r" and s: "int (py_len s) \<le> FIELD_SIZE_LIMIT" and t: "t \<noteq> []"
    and st: "csv_field alone s = [] \<Longrightarrow> rd_state r = StartField"
  shows "\<exists>r'. resume excel r (csv_field alone s @ t) = resume excel r' t
           \<and> rd_fields r' = rd_fields r \<and> rd_field r' = s
           \<and> rd_state r' \<in> {InField, QuoteInQuotedField, StartField}"
proof (cases "csv_field alone s = []")
  case True
  then have "s = []" by (auto simp: csv_field_def split: if_splits)
  then show ?thesis using True r st by (intro exI[of _ r]) (auto simp: at_start_def)
next
  case False
  then show ?thesis using resume_field[OF r s t False] by blast
qed

lemma resume_row:
  assumes "fs \<noteq> []" "list_all (\<lambda>s. int (py_len s) \<le> FIELD_SIZE_LIMIT) fs" "rd_state r = StartField" "rd_field r = []"
  shows "resume excel r (join [CHR '',''] (map (csv_field False) fs) @ CR # LF # t) =
     Record (rd_fields r @ fs) (csv_lines t)"
  using assms
proof (induction fs arbitrary: r rule: induct_list012)
  case (2 s)
  then obtain r' where "resume excel r (csv_field False s @ CR # LF # t) = resume excel r' (CR # LF # t)"
      "rd_fields r' = rd_fields r" "rd_field r' = s" "rd_state r' \<in> {InField, QuoteInQuotedField, StartField}"
    using resume_field_end[of r s "CR # LF # t" False] by (auto simp: at_start_def)
  then show ?case using resume_end[of excel r' t] ended_newline by simp
next
  case (3 s s' fs)
  let ?t = "join [CHR '',''] (map (csv_field False) (s' # fs)) @ CR # LF # t"
  obtain r' where r': "resume excel r (csv_field False s @ CHR '','' # ?t) = resume excel r' (CHR '','' # ?t)"
      "rd_fields r' = rd_fields r" "rd_field r' = s" "rd_state r' \<in> {InField, QuoteInQuotedField, StartField}"
    using 3 resume_field_end[of r s "CHR '','' # ?t" False] by (auto simp: at_start_def)
  let ?r = "(save_field r')\<lparr>rd_state := StartField\<rparr>"
  have "resume excel r' (CHR '','' # ?t) = resume excel ?r ?t"
    using ended_comma[OF r'(4)] by (simp add: resume_char)
  also have "\<dots> = Record (rd_fields ?r @ s' # fs) (csv_lines t)"
    by (rule 3(2)) (use 3 in \<open>auto simp: save_field_def\<close>)
  finally show ?case using r' by (simp add: save_field_def)
qed simp

text \<open>A whole row, read from the beginning of a record.\<close>

lemma next_record_row:
  assumes fs: "fs \<noteq> []" "list_all (\<lambda>s. int (py_len s) \<le> FIELD_SIZE_LIMIT) fs"
  shows "next_record excel (csv_lines (csv_row fs @ t)) = Record fs (csv_lines t)"
proof -
  let ?r = fresh_reader
  have start: "at_start ?r" by (simp add: at_start_def fresh_reader_def)
  have nonempty: "csv_row fs @ t \<noteq> []" by (simp add: csv_row_def)
  have "resume excel ?r (csv_row fs @ t) = Record fs (csv_lines t)"
  proof (cases fs)
    case (Cons s ss)
    show ?thesis
    proof (cases ss)
      case Nil
      have "csv_field True s \<noteq> []" by (auto simp: csv_field_def)
      then obtain r' where r': "resume excel ?r (csv_field True s @ CR # LF # t) = resume excel r' (CR # LF # t)"
          "rd_fields r' = rd_fields ?r" "rd_field r' = s" "rd_state r' \<in> {InField, QuoteInQuotedField}"
        using resume_field[OF start, of s "CR # LF # t" True] fs(2) by (auto simp: Cons Nil)
      moreover have "resume excel r' (CR # LF # t) = Record (rd_fields r' @ [rd_field r']) (csv_lines t)"
        by (rule resume_end) (use r'(4) ended_newline in auto)
      ultimately show ?thesis by (simp add: csv_row_def Cons Nil fresh_reader_def)
    next
      case (Cons s' ss')
      let ?t = "join [CHR '',''] (map (csv_field False) ss) @ CR # LF # t"
      have row: "csv_row fs @ t = csv_field False s @ CHR '','' # ?t"
        by (simp add: csv_row_def \<open>fs = s # ss\<close> Cons)
      have "\<exists>q. resume excel ?r (csv_field False s @ CHR '','' # ?t) = resume excel q ?t
          \<and> rd_fields q = [s] \<and> rd_field q = [] \<and> rd_state q = StartField"
      proof (cases "csv_field False s = []")
        case True
        then have "s = []" by (auto simp: csv_field_def split: if_splits)
        then show ?thesis
          using at_start_char[OF start, of "CHR '',''"] True
          by (intro exI[of _ "(save_field ?r)\<lparr>rd_state := StartField\<rparr>"])
            (simp add: resume_char start_field_def is_newline_def save_field_def fresh_reader_def)
      next
        case False
        obtain r' where r': "resume excel ?r (csv_field False s @ CHR '','' # ?t) = resume excel r' (CHR '','' # ?t)"
            "rd_fields r' = rd_fields ?r" "rd_field r' = s" "rd_state r' \<in> {InField, QuoteInQuotedField}"
          using resume_field[OF start, of s "CHR '','' # ?t" False] fs(2) False by (auto simp: \<open>fs = s # ss\<close>)
        then have "process_char excel (Some CHR '','') r' = Some ((save_field r')\<lparr>rd_state := StartField\<rparr>)"
          by (intro ended_comma) auto
        then show ?thesis
          using r' by (intro exI[of _ "(save_field r')\<lparr>rd_state := StartField\<rparr>"])
            (simp add: resume_char save_field_def fresh_reader_def)
      qed
      then obtain q where q: "resume excel ?r (csv_row fs @ t) = resume excel q ?t"
          "rd_fields q = [s]" "rd_field q = []" "rd_state q = StartField" unfolding row by blast
      have "resume excel q ?t = Record (rd_fields q @ ss) (csv_lines t)"
        by (rule resume_row) (use fs q Cons in \<open>auto simp: \<open>fs = s # ss\<close>\<close>)
      then show ?thesis using q by (simp add: \<open>fs = s # ss\<close>)
    qed
  qed (use fs in simp)
  then show ?thesis using read_loop_resume[OF nonempty] by (simp add: next_record_def)
qed

section \<open>A whole file\<close>

lemma next_record_end: "next_record excel (csv_lines []) = StopIteration"
  by (simp add: next_record_def fresh_reader_def)

definition cells_ok :: "csv_limits \<Rightarrow> nat \<Rightarrow> string list \<Rightarrow> bool" where
  "cells_ok limits n row \<longleftrightarrow> length row = n
     \<and> list_all (\<lambda>v. py_len v \<le> max_cell_length limits \<and> int (py_len v) \<le> FIELD_SIZE_LIMIT) row"

lemma load_rows_serialized:
  assumes "list_all (cells_ok limits n) rows" "0 < n" "length acc + length rows \<le> max_rows limits"
  shows "load_rows excel limits n (csv_lines (concat (map csv_row rows))) k acc issues = Inr (acc @ rows, issues)"
  using assms
proof (induction rows arbitrary: k acc issues)
  case Nil
  then show ?case by (subst load_rows.simps) (simp add: next_record_end del: csv_lines.simps)
next
  case (Cons row rows)
  have row: "length row = n" "row \<noteq> []" "list_all (\<lambda>v. int (py_len v) \<le> FIELD_SIZE_LIMIT) row"
      "\<forall>v \<in> set row. py_len v \<le> max_cell_length limits"
    using Cons.prems(1,2) by (auto simp: cells_ok_def list_all_iff)
  have long: "long_cell (max_cell_length limits) row = None"
    using row(4) by (auto simp: long_cell_def find_None_iff enum_iff not_less) (metis not_le nth_mem)
  have IH: "load_rows excel limits n (csv_lines (concat (map csv_row rows))) (Suc k) (acc @ [row]) issues =
      Inr ((acc @ [row]) @ rows, issues)"
    by (rule Cons.IH) (use Cons.prems in auto)
  show ?case
    using next_record_row[OF row(2,3), of "concat (map csv_row rows)"] IH Cons.prems(3) row(1) long
    by (subst load_rows.simps) (simp add: fit_row_def del: csv_lines.simps)
qed

section \<open>Encoding\<close>

lemma utf8_append: "utf8_ok s \<Longrightarrow> utf8_ok t \<Longrightarrow> utf8_ok (s @ t)"
  by (induction s rule: utf8_ok.induct) (auto split: if_splits list.splits)

lemma utf8_ascii: "code c < 128 \<Longrightarrow> utf8_ok [c]"
  by simp

lemma utf8_concat: "list_all utf8_ok ss \<Longrightarrow> utf8_ok (concat ss)"
  by (induction ss) (auto intro: utf8_append)

lemma double_quotes_simps:
  "double_quotes [] = []"
  "double_quotes (c # s) = (if c = DQUOTE then [c, c] else [c]) @ double_quotes s"
  by (simp_all add: double_quotes_def)

lemma cont_not_quote: "py_cont c \<Longrightarrow> c \<noteq> DQUOTE"
  by (auto simp: py_cont_def DQUOTE_def)

lemma high_not_quote: "\<not> code c < 128 \<Longrightarrow> c \<noteq> DQUOTE"
  by (auto simp: DQUOTE_def)

lemma utf8_ok_high:
  assumes ok: "utf8_ok (a # s)" and high: "\<not> code a < 128"
  obtains (two) b t where "s = b # t" "194 \<le> code a \<and> code a < 224" "py_cont b" "utf8_ok t"
    | (three) b c t where "s = b # c # t" "224 \<le> code a \<and> code a < 240" "py_cont b" "py_cont c"
        "code a = 224 \<longrightarrow> 160 \<le> code b" "code a = 237 \<longrightarrow> code b < 160" "utf8_ok t"
    | (four) b c d t where "s = b # c # d # t" "240 \<le> code a \<and> code a < 245" "py_cont b" "py_cont c" "py_cont d"
        "code a = 240 \<longrightarrow> 144 \<le> code b" "code a = 244 \<longrightarrow> code b < 144" "utf8_ok t"
proof -
  have "194 \<le> code a" using ok high by (cases "194 \<le> code a") simp_all
  moreover have "code a < 245" using ok high by (cases "code a < 245") simp_all
  ultimately consider "194 \<le> code a \<and> code a < 224" | "224 \<le> code a \<and> code a < 240" | "240 \<le> code a \<and> code a < 245"
    by linarith
  then show thesis
  proof cases
    case 1
    then obtain b t where "s = b # t" using ok high by (cases s) auto
    then show ?thesis using 1 ok high by (intro two[of b t]) auto
  next
    case 2
    then obtain b c t where "s = b # c # t" using ok high by (cases s; cases "tl s") auto
    then show ?thesis using 2 ok high by (intro three[of b c t]) auto
  next
    case 3
    then obtain b c d t where "s = b # c # d # t"
      using ok high by (cases s; cases "tl s"; cases "tl (tl s)") auto
    then show ?thesis using 3 ok high by (intro four[of b c d t]) auto
  qed
qed

lemma utf8_double_quotes: "utf8_ok s \<Longrightarrow> utf8_ok (double_quotes s)"
proof (induction s rule: length_induct)
  case (1 s)
  have IH: "utf8_ok (double_quotes t)" if "length t < length s" "utf8_ok t" for t
    using 1(1) that by blast
  show ?case
  proof (cases s)
    case (Cons a s')
    show ?thesis
    proof (cases "code a < 128")
      case True
      then show ?thesis using IH[of s'] 1(2) by (simp add: Cons double_quotes_simps DQUOTE_def)
    next
      case False
      note a = high_not_quote[OF False]
      have ok: "utf8_ok (a # s')" using 1(2) by (simp only: Cons)
      show ?thesis using ok False
      proof (cases rule: utf8_ok_high)
        case (two b t)
        then have "utf8_ok (double_quotes t)" using IH[of t] by (simp add: Cons)
        then show ?thesis using two a False by (simp add: Cons double_quotes_simps cont_not_quote)
      next
        case (three b c t)
        then have "utf8_ok (double_quotes t)" using IH[of t] by (simp add: Cons)
        then show ?thesis using three a False by (simp add: Cons double_quotes_simps cont_not_quote)
      next
        case (four b c d t)
        then have "utf8_ok (double_quotes t)" using IH[of t] by (simp add: Cons)
        then show ?thesis using four a False by (simp add: Cons double_quotes_simps cont_not_quote)
      qed
    qed
  qed (simp add: double_quotes_simps)
qed

lemma utf8_csv_field: "utf8_ok s \<Longrightarrow> utf8_ok (csv_field alone s)"
  using utf8_append[OF utf8_double_quotes utf8_ascii, of s DQUOTE]
  by (simp add: csv_field_def DQUOTE_def)

lemma utf8_join: "list_all utf8_ok ss \<Longrightarrow> utf8_ok (join [CHR '',''] ss)"
  by (induction "[CHR '','']" ss rule: join.induct) (auto intro!: utf8_append)

lemma utf8_csv_row: "list_all utf8_ok fs \<Longrightarrow> utf8_ok (csv_row fs)"
  unfolding csv_row_def
  by (intro utf8_append utf8_join) (auto simp: list_all_iff utf8_csv_field CR_def LF_def)

lemma utf8_serialize: "list_all (list_all utf8_ok) (hs # rows) \<Longrightarrow> utf8_ok (serialize_csv hs rows)"
  unfolding serialize_csv_def by (intro utf8_concat) (auto simp: list_all_iff utf8_csv_row)

section \<open>Written files are read back\<close>

text \<open>What a file must satisfy to be stored and loaded again under the configured limits.\<close>

definition storable :: "csv_limits \<Rightarrow> string list \<Rightarrow> string list list \<Rightarrow> bool" where
  "storable limits hs rows \<longleftrightarrow> hs \<noteq> [] \<and> length hs \<le> max_columns limits \<and> length rows \<le> max_rows limits
     \<and> list_all (\<lambda>h. strip h = h \<and> int (py_len h) \<le> FIELD_SIZE_LIMIT) hs
     \<and> list_all (cells_ok limits (length hs)) rows
     \<and> list_all (list_all utf8_ok) (hs # rows)
     \<and> length (serialize_csv hs rows) \<le> max_file_size_bytes limits
     \<and> take 3 (serialize_csv hs rows) \<noteq> BOM"

lemma visible_char: "c \<in> set s \<Longrightarrow> \<not> py_space c \<Longrightarrow> strip s \<noteq> []"
  by (auto simp: strip_eq_empty_iff list_all_iff)

lemma visible_row:
  assumes "hs \<noteq> []" "list_all (\<lambda>h. strip h = h) hs"
  shows "\<exists>c \<in> set (csv_row hs). \<not> py_space c"
proof (cases hs)
  case (Cons h hs')
  show ?thesis
  proof (cases hs')
    case Nil
    show ?thesis
    proof (cases "needs_quotes h \<or> h = []")
      case True
      then show ?thesis by (auto simp: csv_row_def Cons Nil csv_field_def py_space_def DQUOTE_def)
    next
      case False
      then have "\<not> py_space (hd h)" using assms(2) strip_hd[of h] by (simp add: Cons)
      moreover have "hd h \<in> set h" using False by simp
      ultimately show ?thesis using False by (auto simp: csv_row_def Cons Nil csv_field_def)
    qed
  next
    case (Cons h' hs'')
    then show ?thesis by (auto simp: csv_row_def \<open>hs = h # hs'\<close> py_space_def)
  qed
qed (use assms in simp)


definition sample_csv_limits :: csv_limits where
  "sample_csv_limits = \<lparr>max_file_size_bytes = 1000, max_rows = 5, max_columns = 5, max_cell_length = 20,
     max_distinct_values = 3, max_sample_values = 3\<rparr>"


text \<open>The loader guesses the dialect again from the first 8192 characters of the file the previous
  handler wrote.  If no quoted cell is among them the sniffer reports that quotes are not doubled,
  and a cell with a quote further down comes back with one quote too many.\<close>

theorem undoubled_quotes_drift:
  "load_csv (\<lambda>s. Some (excel\<lparr>doublequote := False\<rparr>)) sample_csv_limits
     (serialize_csv [''h''] [[''a'' @ [DQUOTE] @ ''b'']]) =
   Inr \<lparr>ld_size = 11, ld_delimiter = CHR '','', ld_headers = [''h''],
        ld_rows = [[''a'' @ [DQUOTE] @ ''b'' @ [DQUOTE]]], ld_issues = []\<rparr>"
  unfolding load_csv_def by code_simp

section \<open>What a loaded file satisfies\<close>

lemma fit_row_length: "length (fst (fit_row n k row)) = n"
  by (simp add: fit_row_def)

lemma long_cell_None: "long_cell limit row = None \<longleftrightarrow> list_all (\<lambda>v. py_len v \<le> limit) row"
proof -
  have "list_all (\<lambda>v. py_len v \<le> limit) (map snd (enum row)) \<longleftrightarrow> list_all (\<lambda>x. py_len (snd x) \<le> limit) (enum row)"
    unfolding list.pred_map comp_def ..
  moreover have "long_cell limit row = None \<longleftrightarrow> list_all (\<lambda>x. py_len (snd x) \<le> limit) (enum row)"
    by (fastforce simp: long_cell_def find_None_iff list_all_iff not_less)
  ultimately show ?thesis by simp
qed

definition rows_fit :: "csv_limits \<Rightarrow> nat \<Rightarrow> string list list \<Rightarrow> bool" where
  "rows_fit limits n rows \<longleftrightarrow> length rows \<le> max_rows limits
     \<and> list_all (\<lambda>row. length row = n \<and> list_all (\<lambda>v. py_len v \<le> max_cell_length limits) row) rows"

lemma load_rows_fit:
  "load_rows d limits n ls k acc issues = Inr (rows, found) \<Longrightarrow> rows_fit limits n acc \<Longrightarrow> rows_fit limits n rows"
proof (induction d limits n ls k acc issues rule: load_rows.induct)
  case (1 d limits n ls k acc issues)
  show ?case
  proof (cases "next_record d ls")
    case (Record row rest)
    obtain row' more where f: "fit_row n k row = (row', more)" by force
    have len: "length row' = n" using fit_row_length[of n k row] by (simp add: f)
    have room: "\<not> max_rows limits \<le> length acc" "long_cell (max_cell_length limits) row' = None"
      "load_rows d limits n rest (Suc k) (acc @ [row']) (issues @ more) = Inr (rows, found)"
      using 1(2) by (simp_all add: load_rows.simps[of d limits n ls] Record f split: if_splits option.splits)
    have "rows_fit limits n (acc @ [row'])"
      using 1(3) len room(1,2) by (simp add: rows_fit_def long_cell_None)
    then show ?thesis using 1(1)[OF Record room(1) f[symmetric] room(2)] room(3) by simp
  qed (use 1 in \<open>simp_all add: load_rows.simps[of d limits n ls]\<close>)
qed

text \<open>Whatever the file and the dialect, a successful load gives a uniform table within the configured
  limits: at least one header, no more than the allowed columns, headers without surrounding
  whitespace, and every row as long as the header with no cell above the length limit.\<close>

theorem load_csv_uniform:
  assumes "load_csv sniff limits raw = Inr l"
  shows "ld_headers l \<noteq> [] \<and> length (ld_headers l) \<le> max_columns limits
    \<and> list_all (\<lambda>h. strip h = h) (ld_headers l)
    \<and> rows_fit limits (length (ld_headers l)) (ld_rows l)
    \<and> ld_size l \<le> max_file_size_bytes limits"
proof -
  obtain hs ls d rows issues where l: "hs \<noteq> []" "length hs \<le> max_columns limits" "length raw \<le> max_file_size_bytes limits"
      "load_rows d limits (length hs) ls 2 [] (header_issues 0 Map.empty (map strip hs)) = Inr (rows, issues)"
      "l = \<lparr>ld_size = length raw, ld_delimiter = delimiter d, ld_headers = map strip hs, ld_rows = rows, ld_issues = issues\<rparr>"
    using assms unfolding load_csv_def Let_def
    by (auto simp: not_less split: if_splits option.splits read_result.splits sum.splits)
  have "rows_fit limits (length hs) rows"
    by (rule load_rows_fit[OF l(4)]) (simp add: rows_fit_def)
  then show ?thesis using l by (simp add: list_all_iff)
qed

lemma load_csv_uniform_witness:
  "rows_fit sample_csv_limits 2 [[''1'', []], [''2'', ''3'']]"
proof -
  have "load_csv (\<lambda>s. None) sample_csv_limits (''a,b'' @ [LF] @ ''1'' @ [LF] @ ''2,3,4'') =
    Inr \<lparr>ld_size = 11, ld_delimiter = CHR '','', ld_headers = [''a'', ''b''],
         ld_rows = [[''1'', []], [''2'', ''3'']], ld_issues = [TooFewFields 2 1, TooManyFields 3 3]\<rparr>"
    unfolding load_csv_def by code_simp
  from load_csv_uniform[OF this] show ?thesis by (simp add: numeral_2_eq_2)
qed

end
