(* ===== verification/Accounts.thy ===== *)
theory Accounts
  imports Store Uuid
begin

text \<open>
  Organizations and users: slugs and emails (\<open>app.core.security\<close>), the payloads (\<open>app.schemas.auth\<close>), register and
  login (\<open>app.api.auth\<close>), and who a token stands for (\<open>app.api.deps\<close>).

  bcrypt, the signing of tokens and the check of email addresses are third-party code and are fields of
  the environment.  Registration reads, then commits; other sessions commit in between, so the two halves
  are separate definitions.  Identifiers are the numbers of the UUIDs; \<open>lower\<close> is exact on ASCII.
\<close>

section \<open>Slugs\<close>

definition slug_char :: "char \<Rightarrow> bool" where
  "slug_char c \<longleftrightarrow> py_lower_letter c \<or> py_digit c"

text \<open>\<open>re.sub(r"[^a-z0-9]+", "-", s)\<close>; a non-ASCII character is a run of bytes outside the class.\<close>

function dash_invalid :: "string \<Rightarrow> string" where
  "dash_invalid [] = []"
| "dash_invalid (c # s) =
     (if slug_char c then c # dash_invalid s else CHR ''-'' # dash_invalid (dropWhile (\<lambda>x. \<not> slug_char x) s))"
  by pat_completeness auto
termination
  by (relation "measure length") (simp_all add: length_dropWhile_le less_Suc_eq_le)

text \<open>\<open>re.sub(r"-{2,}", "-", s)\<close>\<close>

fun collapse_dashes :: "string \<Rightarrow> string" where
  "collapse_dashes [] = []"
| "collapse_dashes [c] = [c]"
| "collapse_dashes (c # d # s) = (if c = CHR ''-'' \<and> d = CHR ''-'' then collapse_dashes (d # s) else c # collapse_dashes (d # s))"

text \<open>\<open>s.strip("-")\<close>\<close>

definition strip_dashes :: "string \<Rightarrow> string" where
  "strip_dashes s = (let dash = (\<lambda>c. c = CHR ''-'') in rev (dropWhile dash (rev (dropWhile dash s))))"

definition generate_slug :: "string \<Rightarrow> string" where
  "generate_slug name = strip_dashes (collapse_dashes (dash_invalid (lower (strip name))))"

text \<open>The pattern \<open>^[a-z0-9](?:[a-z0-9-]*[a-z0-9])?$\<close>; the dollar also matches before a final newline.\<close>

definition slug_pattern :: "string \<Rightarrow> bool" where
  "slug_pattern s \<longleftrightarrow>
     (let t = (if s \<noteq> [] \<and> last s = CHR 0x0A then butlast s else s) in
      t \<noteq> [] \<and> slug_char (hd t) \<and> slug_char (last t) \<and> list_all (\<lambda>c. slug_char c \<or> c = CHR ''-'') t)"

definition is_valid_slug :: "string \<Rightarrow> bool" where
  "is_valid_slug slug \<longleftrightarrow> slug \<noteq> [] \<and> slug_pattern slug \<and> \<not> contains ''--'' slug"

definition normalize_email :: "string \<Rightarrow> string" where
  "normalize_email email = lower (strip email)"

section \<open>Tables and environment\<close>

record organization =
  og_id :: nat
  og_name :: string
  og_slug :: string

record account = user +
  ac_password :: string
  ac_active :: bool

record directory =
  dr_organizations :: "organization table"
  dr_accounts :: "account table"
  dr_supply :: nat

text \<open>The claims of a token; \<open>payload.get\<close> may find nothing.\<close>

record token_claims =
  tk_sub :: "string option"
  tk_org :: "string option"
  tk_exp :: time

text \<open>\<open>bcrypt.checkpw\<close> raises \<open>ValueError\<close> on a malformed hash (\<open>None\<close>); \<open>jwt.decode\<close> raises on a token that is not
  signed with the key or has expired.\<close>

record auth_env =
  au_email_str :: "string \<Rightarrow> string option"
  au_hash :: "string \<Rightarrow> nat \<Rightarrow> string"
  au_check :: "string \<Rightarrow> string \<Rightarrow> bool option"
  au_encode :: "token_claims \<Rightarrow> string"
  au_decode :: "time \<Rightarrow> string \<Rightarrow> token_claims option"
  au_expire_minutes :: int

datatype auth_error = InvalidPayload | SlugTaken | InvalidCredentials | CouldNotValidate | InactiveUser
  | SuperuserRequired | PasswordTooLong | DirectoryError

section \<open>Passwords and tokens\<close>

definition BCRYPT_MAX_BYTES :: nat where
  "BCRYPT_MAX_BYTES = 72"

definition hash_password :: "auth_env \<Rightarrow> string \<Rightarrow> nat \<Rightarrow> auth_error + string" where
  "hash_password env password salt =
     (if length password > BCRYPT_MAX_BYTES then Inl PasswordTooLong else Inr (au_hash env password salt))"

definition verify_password :: "auth_env \<Rightarrow> string \<Rightarrow> string \<Rightarrow> bool" where
  "verify_password env password hashed = (case au_check env password hashed of None \<Rightarrow> False | Some b \<Rightarrow> b)"

definition create_access_token :: "auth_env \<Rightarrow> nat \<Rightarrow> nat \<Rightarrow> time \<Rightarrow> string" where
  "create_access_token env subject org now =
     au_encode env \<lparr>tk_sub = Some (uuid_text subject), tk_org = Some (uuid_text org),
                    tk_exp = now + seconds (60 * au_expire_minutes env)\<rparr>"

section \<open>Payloads\<close>

definition MIN_PASSWORD_LENGTH :: nat where
  "MIN_PASSWORD_LENGTH = 8"

definition MAX_PASSWORD_BYTES :: nat where
  "MAX_PASSWORD_BYTES = 72"

definition validate_password_strength :: "string \<Rightarrow> bool" where
  "validate_password_strength password \<longleftrightarrow> MIN_PASSWORD_LENGTH \<le> py_len password \<and> length password \<le> MAX_PASSWORD_BYTES"

record register_request =
  rg_name :: string
  rg_slug :: "string option"
  rg_email :: string
  rg_password :: string
  rg_full_name :: "string option"

definition short_text :: "string option \<Rightarrow> bool" where
  "short_text x \<longleftrightarrow> (case x of None \<Rightarrow> True | Some s \<Rightarrow> py_len s \<le> 255)"

definition validate_register :: "auth_env \<Rightarrow> register_request \<Rightarrow> auth_error + register_request" where
  "validate_register env p =
     (case au_email_str env (rg_email p) of
        None \<Rightarrow> Inl InvalidPayload
      | Some email \<Rightarrow>
          if 1 \<le> py_len (rg_name p) \<and> py_len (rg_name p) \<le> 255 \<and> strip (rg_name p) \<noteq> []
             \<and> short_text (rg_slug p) \<and> short_text (rg_full_name p)
             \<and> (case rg_slug p of None \<Rightarrow> True | Some s \<Rightarrow> is_valid_slug (lower (strip s)))
             \<and> validate_password_strength (rg_password p)
          then Inr (p\<lparr>rg_name := strip (rg_name p), rg_slug := map_option (\<lambda>s. lower (strip s)) (rg_slug p),
                      rg_email := normalize_email email\<rparr>)
          else Inl InvalidPayload)"

text \<open>\<open>self.organization_slug or generate_slug(self.organization_name)\<close>\<close>

definition resolved_slug :: "register_request \<Rightarrow> string" where
  "resolved_slug p = (case rg_slug p of Some (c # s) \<Rightarrow> c # s | _ \<Rightarrow> generate_slug (rg_name p))"

record login_request =
  lg_slug :: string
  lg_email :: string
  lg_password :: string

definition validate_login :: "auth_env \<Rightarrow> login_request \<Rightarrow> auth_error + login_request" where
  "validate_login env p =
     (case au_email_str env (lg_email p) of
        None \<Rightarrow> Inl InvalidPayload
      | Some email \<Rightarrow> Inr (p\<lparr>lg_slug := lower (strip (lg_slug p)), lg_email := normalize_email email\<rparr>))"

section \<open>Endpoints\<close>

definition one_found :: "'r list \<Rightarrow> auth_error + 'r option" where
  "one_found xs = (case scalar_one_or_none xs of Inl _ \<Rightarrow> Inl DirectoryError | Inr x \<Rightarrow> Inr x)"

text \<open>The check of the slug, and the two rows the request will insert.\<close>

definition register_prepare ::
  "auth_env \<Rightarrow> nat \<Rightarrow> register_request \<Rightarrow> directory \<Rightarrow> auth_error + organization \<times> account"
where
  "register_prepare env salt p d =
     (case validate_register env p of
        Inl e \<Rightarrow> Inl e
      | Inr q \<Rightarrow>
          (let slug = resolved_slug q in
           case one_found (filter (\<lambda>g. og_slug g = slug) (dr_organizations d)) of
             Inl e \<Rightarrow> Inl e
           | Inr (Some g) \<Rightarrow> Inl SlugTaken
           | Inr None \<Rightarrow>
               (case hash_password env (rg_password q) salt of
                  Inl e \<Rightarrow> Inl e
                | Inr hashed \<Rightarrow>
                    Inr (\<lparr>og_id = 0, og_name = rg_name q, og_slug = slug\<rparr>,
                         \<lparr>us_id = 0, us_org = 0, us_superuser = True, us_full_name = rg_full_name q, us_email = rg_email q,
                          ac_password = hashed, ac_active = True\<rparr>))))"

text \<open>One transaction: both rows or, when the slug is there, none.  Returns the user.\<close>

definition register_commit :: "organization \<times> account \<Rightarrow> directory \<Rightarrow> auth_error + account \<times> directory" where
  "register_commit rows d =
     (case rows of (g, a) \<Rightarrow>
        if \<exists>x \<in> set (dr_organizations d). og_slug x = og_slug g then Inl SlugTaken
        else let oid = dr_supply d; a' = a\<lparr>us_id := Suc oid, us_org := oid\<rparr> in
             Inr (a', \<lparr>dr_organizations = dr_organizations d @ [g\<lparr>og_id := oid\<rparr>], dr_accounts = dr_accounts d @ [a'],
                       dr_supply = oid + 2\<rparr>))"

definition register_organization ::
  "auth_env \<Rightarrow> nat \<Rightarrow> register_request \<Rightarrow> time \<Rightarrow> directory \<Rightarrow> auth_error + string \<times> directory"
where
  "register_organization env salt p now d =
     (case register_prepare env salt p d of
        Inl e \<Rightarrow> Inl e
      | Inr rows \<Rightarrow>
          (case register_commit rows d of
             Inl e \<Rightarrow> Inl e
           | Inr (a, d') \<Rightarrow> Inr (create_access_token env (us_id a) (us_org a) now, d')))"

definition login :: "auth_env \<Rightarrow> login_request \<Rightarrow> time \<Rightarrow> directory \<Rightarrow> auth_error + string" where
  "login env p now d =
     (case validate_login env p of
        Inl e \<Rightarrow> Inl e
      | Inr q \<Rightarrow>
          (case one_found (filter (\<lambda>g. og_slug g = lg_slug q) (dr_organizations d)) of
             Inl e \<Rightarrow> Inl e
           | Inr None \<Rightarrow> Inl InvalidCredentials
           | Inr (Some g) \<Rightarrow>
               (case one_found (filter (\<lambda>a. us_org a = og_id g \<and> us_email a = lg_email q) (dr_accounts d)) of
                  Inl e \<Rightarrow> Inl e
                | Inr None \<Rightarrow> Inl InvalidCredentials
                | Inr (Some a) \<Rightarrow>
                    if \<not> verify_password env (lg_password q) (ac_password a) then Inl InvalidCredentials
                    else if \<not> ac_active a then Inl InactiveUser
                    else Inr (create_access_token env (us_id a) (us_org a) now))))"

definition get_current_user :: "auth_env \<Rightarrow> time \<Rightarrow> string \<Rightarrow> directory \<Rightarrow> auth_error + account" where
  "get_current_user env now token d =
     (case au_decode env now token of
        None \<Rightarrow> Inl CouldNotValidate
      | Some payload \<Rightarrow>
          (case (tk_sub payload, tk_org payload) of
             (Some (c # s), Some (c' # s')) \<Rightarrow>
               (case parse_uuid (c # s) of
                  None \<Rightarrow> Inl CouldNotValidate
                | Some uid \<Rightarrow>
                    (case get_row us_id uid (dr_accounts d) of
                       None \<Rightarrow> Inl CouldNotValidate
                     | Some a \<Rightarrow> if uuid_text (us_org a) \<noteq> c' # s' then Inl CouldNotValidate else Inr a))
           | _ \<Rightarrow> Inl CouldNotValidate))"

definition get_current_active_user :: "auth_env \<Rightarrow> time \<Rightarrow> string \<Rightarrow> directory \<Rightarrow> auth_error + account" where
  "get_current_active_user env now token d =
     (case get_current_user env now token d of Inl e \<Rightarrow> Inl e | Inr a \<Rightarrow> if ac_active a then Inr a else Inl InactiveUser)"

definition get_current_superuser :: "auth_env \<Rightarrow> time \<Rightarrow> string \<Rightarrow> directory \<Rightarrow> auth_error + account" where
  "get_current_superuser env now token d =
     (case get_current_active_user env now token d of
        Inl e \<Rightarrow> Inl e | Inr a \<Rightarrow> if us_superuser a then Inr a else Inl SuperuserRequired)"

end
