(* ===== verification/AccountsProps.thy ===== *)
theory AccountsProps
  imports Accounts
begin

text \<open>
  Slugs are valid or empty; organizations and users stay consistent however registrations overlap; and
  a login gives a token that stands for the registered user and for nobody else.
\<close>

section \<open>Slugs\<close>

lemma slug_char_not_dash: "slug_char c \<Longrightarrow> c \<noteq> CHR ''-'' \<and> \<not> py_space c \<and> lower_char c = c \<and> c \<noteq> CHR 0x0A"
  by (auto simp: slug_char_def py_lower_letter_def py_digit_def py_space_def lower_char_def py_upper_letter_def)

definition dashed :: "string \<Rightarrow> bool" where
  "dashed s \<longleftrightarrow> list_all (\<lambda>c. slug_char c \<or> c = CHR ''-'') s"

fun no_double :: "string \<Rightarrow> bool" where
  "no_double (c # d # s) \<longleftrightarrow> \<not> (c = CHR ''-'' \<and> d = CHR ''-'') \<and> no_double (d # s)"
| "no_double _ \<longleftrightarrow> True"

lemma no_double_contains: "no_double s \<longleftrightarrow> \<not> contains ''--'' s"
  by (induction s rule: no_double.induct) (auto simp: starts_with_def)

lemma dash_invalid_dashed: "dashed (dash_invalid s)"
  by (induction s rule: dash_invalid.induct) (auto simp: dashed_def)

lemma dash_invalid_empty: "list_all (\<lambda>c. \<not> slug_char c) s \<Longrightarrow> dash_invalid s = (if s = [] then [] else ''-'')"
  by (cases s) (simp_all add: list_all_iff dropWhile_eq_Nil_conv[THEN iffD2])

lemma collapse_hd: "collapse_dashes (c # s) = c # tl (collapse_dashes (c # s))"
  by (induction s rule: collapse_dashes.induct) auto

lemma collapse_dashed: "dashed s \<Longrightarrow> dashed (collapse_dashes s)"
  by (induction s rule: collapse_dashes.induct) (auto simp: dashed_def)

lemma collapse_no_double: "no_double (collapse_dashes s)"
proof (induction s rule: collapse_dashes.induct)
  case (3 c d s)
  then show ?case using collapse_hd[of d s] by (cases "collapse_dashes (d # s)") auto
qed auto

lemma collapse_id: "no_double s \<Longrightarrow> collapse_dashes s = s"
  by (induction s rule: collapse_dashes.induct) auto

lemma no_double_dropWhile: "no_double s \<Longrightarrow> no_double (dropWhile P s)"
  by (induction s rule: no_double.induct) auto

lemma no_double_append: "no_double (s @ t) \<Longrightarrow> no_double s"
  by (induction s rule: no_double.induct) (auto elim: no_double.elims)

lemma rev_drop_prefix: "rev (dropWhile P (rev s)) @ rev (takeWhile P (rev s)) = s"
  by (metis rev_append rev_rev_ident takeWhile_dropWhile_id)

lemma no_double_rev_drop: "no_double s \<Longrightarrow> no_double (rev (dropWhile P (rev s)))"
  using no_double_append[of "rev (dropWhile P (rev s))" "rev (takeWhile P (rev s))"] by (simp add: rev_drop_prefix)

lemma set_strip_dashes: "set (strip_dashes s) \<subseteq> set s"
  unfolding strip_dashes_def Let_def by (metis set_dropWhileD set_rev subsetI)

lemma strip_dashes_facts:
  assumes "dashed s" "no_double s"
  shows "strip_dashes s = [] \<or> is_valid_slug (strip_dashes s)"
proof (cases "strip_dashes s = []")
  case False
  let ?t = "strip_dashes s"
  note sub = set_strip_dashes[of s]
  have ends: "hd ?t \<noteq> CHR ''-''" "last ?t \<noteq> CHR ''-''"
  proof -
    let ?u = "dropWhile (\<lambda>c. c = CHR ''-'') s"
    have e: "?t = rev (dropWhile (\<lambda>c. c = CHR ''-'') (rev ?u))" by (simp add: strip_dashes_def Let_def)
    have ne: "dropWhile (\<lambda>c. c = CHR ''-'') (rev ?u) \<noteq> []" using False e by auto
    show "last ?t \<noteq> CHR ''-''" using hd_dropWhile[OF ne] by (simp add: e last_rev)
    have "hd ?u = hd ?t"
      using hd_append2[OF False, of "rev (takeWhile (\<lambda>c. c = CHR ''-'') (rev ?u))"] unfolding e rev_drop_prefix by simp
    moreover have "?u \<noteq> []" using ne by (metis dropWhile.simps(1) rev.simps(1))
    ultimately show "hd ?t \<noteq> CHR ''-''" using hd_dropWhile[of "\<lambda>c. c = CHR ''-''" s] by simp
  qed
  have all: "list_all (\<lambda>c. slug_char c \<or> c = CHR ''-'') ?t" using assms(1) sub by (auto simp: dashed_def list_all_iff)
  have "hd ?t \<in> set ?t" "last ?t \<in> set ?t" using False by auto
  then have "slug_char (hd ?t)" "slug_char (last ?t)" using all ends by (auto simp: list_all_iff)
  moreover have "\<not> contains ''--'' ?t"
    using no_double_rev_drop[OF no_double_dropWhile[OF assms(2)]] unfolding strip_dashes_def Let_def no_double_contains .
  ultimately show ?thesis
    using False all slug_char_not_dash[of "last ?t"] by (simp add: is_valid_slug_def slug_pattern_def Let_def)
qed simp

lemma generated_slug: "generate_slug name = [] \<or> is_valid_slug (generate_slug name)"
  unfolding generate_slug_def by (intro strip_dashes_facts collapse_dashed dash_invalid_dashed collapse_no_double)

lemma dash_invalid_id: "dashed s \<Longrightarrow> no_double s \<Longrightarrow> dash_invalid s = s"
proof (induction s rule: dash_invalid.induct)
  case (2 c s)
  show ?case
  proof (cases "slug_char c")
    case False
    then have c: "c = CHR ''-''" using 2(3) by (simp add: dashed_def)
    have "dropWhile (\<lambda>x. \<not> slug_char x) s = s"
      using 2(3,4) c by (cases s) (auto simp: dashed_def)
    moreover have "no_double s" using 2(4) by (cases s) auto
    ultimately show ?thesis using 2(2)[OF False] 2(3) c False by (simp add: dashed_def)
  next
    case True
    moreover have "no_double s" using 2(4) by (cases s) auto
    ultimately show ?thesis using 2(1)[OF True] 2(3) by (simp add: dashed_def)
  qed
qed simp

lemma newline_not_dash: "CHR 0x0A \<noteq> CHR ''-''"
  by simp

lemma lower_dash: "lower_char (CHR ''-'') = CHR ''-''"
  by code_simp

lemma lower_dashed: "dashed s \<Longrightarrow> lower s = s"
proof -
  assume "dashed s"
  then have "lower_char c = c" if "c \<in> set s" for c
    using that slug_char_not_dash lower_dash by (auto simp: dashed_def list_all_iff)
  then show ?thesis by (simp add: lower_def map_idI)
qed

lemma valid_slug_fixed:
  assumes "is_valid_slug s" "last s \<noteq> CHR 0x0A"
  shows "generate_slug s = s"
proof -
  have ne: "s \<noteq> []" and d: "dashed s" and n: "no_double s" and h: "slug_char (hd s)" and l: "slug_char (last s)"
    using assms by (auto simp: is_valid_slug_def slug_pattern_def Let_def dashed_def no_double_contains)
  have "strip s = s" using ne h l slug_char_not_dash by (intro strip_fixed) auto
  moreover have "strip_dashes s = s"
  proof -
    have a: "dropWhile (\<lambda>c. c = CHR ''-'') s = s" using ne h slug_char_not_dash by (cases s) auto
    have "dropWhile (\<lambda>c. c = CHR ''-'') (rev s) = rev s"
      using ne l slug_char_not_dash by (cases s rule: rev_cases) auto
    then show ?thesis by (simp add: strip_dashes_def Let_def a)
  qed
  ultimately show ?thesis
    by (simp add: generate_slug_def lower_dashed[OF d] dash_invalid_id[OF d n] collapse_id[OF n])
qed

lemma generate_slug_idem: "generate_slug (generate_slug name) = generate_slug name"
proof (cases "generate_slug name = []")
  case True
  then show ?thesis unfolding True by code_simp
next
  case False
  then have v: "is_valid_slug (generate_slug name)" using generated_slug by blast
  have d: "dashed (generate_slug name)"
    using collapse_dashed[OF dash_invalid_dashed, of "lower (strip name)"] set_strip_dashes
    unfolding generate_slug_def dashed_def list_all_iff by blast
  have "last (generate_slug name) \<noteq> CHR 0x0A"
    using d last_in_set[OF False] slug_char_not_dash newline_not_dash unfolding dashed_def list_all_iff by metis
  then show ?thesis using valid_slug_fixed[OF v] by simp
qed

lemma nameless_slug: "list_all (\<lambda>c. \<not> slug_char c) (lower (strip name)) \<Longrightarrow> generate_slug name = []"
  by (simp add: generate_slug_def dash_invalid_empty strip_dashes_def Let_def)

text \<open>A slug that is derived from a name is valid or empty, and deriving again changes nothing; an
  explicit valid slug derives to itself.  It is empty exactly for what a non-Latin name gives: when no letter from
  a to z and no digit is left, every such organization has the same, empty slug.\<close>
theorem generated_slugs_valid_or_empty:
  assumes "is_valid_slug s" "last s \<noteq> CHR 0x0A" "list_all (\<lambda>c. \<not> slug_char c) (lower (strip foreign))"
  shows "(generate_slug name = [] \<or> is_valid_slug (generate_slug name)) \<and> generate_slug (generate_slug name) = generate_slug name
    \<and> generate_slug s = s \<and> generate_slug foreign = []"
  using generated_slug generate_slug_idem valid_slug_fixed[OF assms(1,2)] nameless_slug[OF assms(3)] by blast

lemma generated_slugs_valid_or_empty_witness:
  "generate_slug ''acme-corp'' = ''acme-corp'' \<and> generate_slug [CHR 0xE6, CHR 0x97, CHR 0xA5] = []"
proof -
  have "is_valid_slug ''acme-corp''" "last ''acme-corp'' \<noteq> CHR 0x0A" by code_simp+
  moreover have "list_all (\<lambda>c. \<not> slug_char c) (lower (strip [CHR 0xE6, CHR 0x97, CHR 0xA5]))" by code_simp
  ultimately show ?thesis using generated_slugs_valid_or_empty by blast
qed

section \<open>Organizations and their users\<close>

text \<open>Every organization was committed together with one active superuser; nothing else creates either.\<close>

definition directory_ok :: "directory \<Rightarrow> bool" where
  "directory_ok d \<longleftrightarrow>
     distinct (map og_slug (dr_organizations d)) \<and> map us_org (dr_accounts d) = map og_id (dr_organizations d)
     \<and> distinct (map og_id (dr_organizations d)) \<and> distinct (map us_id (dr_accounts d))
     \<and> list_all (\<lambda>a. us_superuser a \<and> ac_active a \<and> us_id a < dr_supply d \<and> us_org a < dr_supply d) (dr_accounts d)"

text \<open>A commit, of rows that a request prepared at any earlier time.\<close>

inductive directory_step :: "auth_env \<Rightarrow> directory \<Rightarrow> directory \<Rightarrow> bool" for env where
  registered: "register_prepare env salt p d0 = Inr rows \<Longrightarrow> register_commit rows d = Inr (a, d') \<Longrightarrow> directory_step env d d'"

lemma prepared_rows:
  "register_prepare env salt p d0 = Inr (g, a) \<Longrightarrow> us_superuser a \<and> ac_active a"
  by (auto simp: register_prepare_def Let_def split: sum.splits option.splits)

lemma directory_step_ok:
  assumes "directory_step env d d'" "directory_ok d"
  shows "directory_ok d'"
  using assms(1)
proof cases
  case (registered salt p d0 rows a')
  obtain g a where r: "rows = (g, a)" by (cases rows)
  have new: "og_slug g \<notin> og_slug ` set (dr_organizations d)"
    and d': "d' = \<lparr>dr_organizations = dr_organizations d @ [g\<lparr>og_id := dr_supply d\<rparr>],
      dr_accounts = dr_accounts d @ [a\<lparr>us_id := Suc (dr_supply d), us_org := dr_supply d\<rparr>], dr_supply = dr_supply d + 2\<rparr>"
    using registered(2) by (auto simp: r register_commit_def Let_def split: if_splits)
  have ok: "map us_org (dr_accounts d) = map og_id (dr_organizations d)"
    "list_all (\<lambda>a. us_id a < dr_supply d \<and> us_org a < dr_supply d) (dr_accounts d)"
    using assms(2) by (auto simp: directory_ok_def list_all_iff)
  have "og_id ` set (dr_organizations d) = us_org ` set (dr_accounts d)" using ok(1) by (metis set_map)
  then have "dr_supply d \<notin> og_id ` set (dr_organizations d)" "Suc (dr_supply d) \<notin> us_id ` set (dr_accounts d)"
    using ok(2) by (auto simp: list_all_iff)
  then show ?thesis
    using assms(2) new prepared_rows[OF registered(1)[unfolded r]] by (auto simp: directory_ok_def d' list_all_iff)
qed

lemma directory_steps_ok: "(directory_step env)\<^sup>*\<^sup>* d d' \<Longrightarrow> directory_ok d \<Longrightarrow> directory_ok d'"
  by (induction rule: rtranclp_induct) (auto intro: directory_step_ok)

definition kept :: "directory \<Rightarrow> directory \<Rightarrow> bool" where
  "kept d d' \<longleftrightarrow> (\<exists>gs as. dr_organizations d' = dr_organizations d @ gs \<and> dr_accounts d' = dr_accounts d @ as)"

lemma directory_step_kept: "directory_step env d d' \<Longrightarrow> kept d d'"
  by (auto simp: kept_def register_commit_def Let_def elim!: directory_step.cases split: if_splits prod.splits)

lemma directory_steps_kept: "(directory_step env)\<^sup>*\<^sup>* d d' \<Longrightarrow> kept d d'"
proof (induction rule: rtranclp_induct)
  case (step y z)
  then show ?case using directory_step_kept[OF step(2)] by (auto simp: kept_def)
qed (simp add: kept_def)

section \<open>Login\<close>

text \<open>What \<open>bcrypt.checkpw\<close> and \<open>jwt.decode\<close> document: the hash of a password accepts it, and a token gives back its
  claims until its expiry, which is truncated to a second.\<close>

definition bcrypt_accepts :: "auth_env \<Rightarrow> bool" where
  "bcrypt_accepts env \<longleftrightarrow> (\<forall>p salt. length p \<le> 72 \<longrightarrow> au_check env p (au_hash env p salt) = Some True)"

definition truncated :: "time \<Rightarrow> time" where
  "truncated t = seconds (t div seconds 1)"

definition jwt_returns :: "auth_env \<Rightarrow> bool" where
  "jwt_returns env \<longleftrightarrow>
     (\<forall>now u v e. au_decode env now (au_encode env \<lparr>tk_sub = Some (uuid_text u), tk_org = Some (uuid_text v), tk_exp = e\<rparr>) =
       (if now < truncated e then Some \<lparr>tk_sub = Some (uuid_text u), tk_org = Some (uuid_text v), tk_exp = truncated e\<rparr> else None))"

definition expiry :: "auth_env \<Rightarrow> time \<Rightarrow> time" where
  "expiry env issued = truncated (issued + seconds (60 * au_expire_minutes env))"

lemma uuid_text_Cons: "\<exists>c s. uuid_text n = c # s"
proof -
  have "length (uuid_text n) \<noteq> 0" by (simp add: uuid_text_def Let_def)
  then show ?thesis by (cases "uuid_text n") auto
qed

lemma token_stands_for:
  assumes "jwt_returns env" "directory_ok d" "a \<in> set (dr_accounts d)" "us_id a < 2 ^ 128" "now < expiry env issued"
  shows "get_current_superuser env now (create_access_token env (us_id a) (us_org a) issued) d = Inr a"
proof -
  obtain c s where u: "uuid_text (us_id a) = c # s" using uuid_text_Cons by blast
  obtain c' s' where o: "uuid_text (us_org a) = c' # s'" using uuid_text_Cons by blast
  have "parse_uuid (c # s) = Some (us_id a)" using uuid_roundtrip[OF assms(4)] unfolding u .
  moreover have "get_row us_id (us_id a) (dr_accounts d) = Some a"
    using assms(2,3) by (intro get_row_eqI) (auto simp: directory_ok_def)
  moreover have "ac_active a" "us_superuser a" using assms(2,3) by (auto simp: directory_ok_def list_all_iff)
  moreover have "au_decode env now (create_access_token env (us_id a) (us_org a) issued) =
      Some \<lparr>tk_sub = Some (c # s), tk_org = Some (c' # s'), tk_exp = expiry env issued\<rparr>"
    using assms(1,5) unfolding u[symmetric] o[symmetric] by (simp add: jwt_returns_def create_access_token_def expiry_def)
  ultimately show ?thesis
    by (simp add: get_current_superuser_def get_current_active_user_def get_current_user_def o)
qed

lemma filter_keyed: "distinct (map f xs) \<Longrightarrow> x \<in> set xs \<Longrightarrow> filter (\<lambda>y. f y = f x) xs = [x]"
  by (induction xs) (auto simp: filter_empty_conv image_iff)

lemma registered_facts:
  assumes "register_organization env salt p now d = Inr (token, d1)"
  shows "\<exists>q g a. validate_register env p = Inr q \<and> g \<in> set (dr_organizations d1) \<and> og_slug g = resolved_slug q
    \<and> a \<in> set (dr_accounts d1) \<and> us_org a = og_id g \<and> us_email a = rg_email q
    \<and> ac_password a = au_hash env (rg_password q) salt \<and> length (rg_password q) \<le> 72
    \<and> token = create_access_token env (us_id a) (us_org a) now \<and> directory_step env d d1"
proof -
  obtain g a a' where p: "register_prepare env salt p d = Inr (g, a)" and c: "register_commit (g, a) d = Inr (a', d1)"
    and t: "token = create_access_token env (us_id a') (us_org a') now"
    using assms by (auto simp: register_organization_def split: sum.splits prod.splits)
  obtain q where q: "validate_register env p = Inr q" "og_slug g = resolved_slug q" "us_email a = rg_email q"
      "ac_password a = au_hash env (rg_password q) salt" "length (rg_password q) \<le> 72"
    using p by (auto simp: register_prepare_def hash_password_def BCRYPT_MAX_BYTES_def Let_def split: sum.splits option.splits if_splits)
  have "directory_step env d d1" using p c by (rule registered)
  moreover have "g\<lparr>og_id := dr_supply d\<rparr> \<in> set (dr_organizations d1)" "a' \<in> set (dr_accounts d1)"
    "a' = a\<lparr>us_id := Suc (dr_supply d), us_org := dr_supply d\<rparr>"
    using c by (auto simp: register_commit_def Let_def split: if_splits)
  ultimately show ?thesis
    using q t by (intro exI[of _ q] exI[of _ "g\<lparr>og_id := dr_supply d\<rparr>"] exI[of _ a']) simp
qed

lemma validated_login:
  assumes "validate_register env p = Inr q" "lg_email l = rg_email p"
  shows "\<exists>k. validate_login env l = Inr k \<and> lg_slug k = lower (strip (lg_slug l)) \<and> lg_email k = rg_email q
    \<and> lg_password k = lg_password l \<and> rg_password q = rg_password p"
  using assms by (auto simp: validate_register_def validate_login_def split: option.splits if_splits)

text \<open>C11: Who registers an organization can log in, and is then who the token stands for: however many other
  registrations follow or overlap, a login with the registered slug, email and password gives a token that
  until its expiry is the token of the active superuser of the organization with that slug,
  and so is the token of the registration; every slug has one organization, and every organization one user.
  The hashing and the token library behave as documented.\<close>
theorem registered_user_logs_in:
  assumes "bcrypt_accepts env" "jwt_returns env" "directory_ok d"
    and "register_organization env salt p now d = Inr (token, d1)" "(directory_step env)\<^sup>*\<^sup>* d1 d2"
    and "list_all (\<lambda>a. us_id a < 2 ^ 128) (dr_accounts d2)"
    and "validate_register env p = Inr q" "lower (strip (lg_slug l)) = resolved_slug q"
    and "lg_email l = rg_email p" "lg_password l = rg_password p"
  shows "\<exists>g a. filter (\<lambda>x. og_slug x = resolved_slug q) (dr_organizations d2) = [g]
    \<and> filter (\<lambda>x. us_org x = og_id g) (dr_accounts d2) = [a]
    \<and> (\<exists>t. login env l later d2 = Inr t \<and> (\<forall>moment. moment < expiry env later \<longrightarrow> get_current_superuser env moment t d2 = Inr a))
    \<and> (\<forall>moment. moment < expiry env now \<longrightarrow> get_current_superuser env moment token d2 = Inr a)"
proof -
  obtain g a where f: "g \<in> set (dr_organizations d1)" "og_slug g = resolved_slug q" "a \<in> set (dr_accounts d1)"
      "us_org a = og_id g" "us_email a = rg_email q" "ac_password a = au_hash env (rg_password q) salt"
      "length (rg_password q) \<le> 72" "token = create_access_token env (us_id a) (us_org a) now" "directory_step env d d1"
    using registered_facts[OF assms(4)] assms(7) by auto
  have ok: "directory_ok d2" using directory_steps_ok[OF assms(5) directory_step_ok[OF f(9) assms(3)]] .
  have in2: "g \<in> set (dr_organizations d2)" "a \<in> set (dr_accounts d2)"
    using directory_steps_kept[OF assms(5)] f(1,3) by (auto simp: kept_def)
  have small: "us_id a < 2 ^ 128" "ac_active a" using assms(6) in2(2) ok by (auto simp: list_all_iff directory_ok_def)
  have orgs: "filter (\<lambda>x. og_slug x = resolved_slug q) (dr_organizations d2) = [g]"
    using filter_keyed[of og_slug "dr_organizations d2" g] ok in2(1) f(2) by (simp add: directory_ok_def)
  have "distinct (map us_org (dr_accounts d2))" using ok by (simp add: directory_ok_def)
  then have users: "filter (\<lambda>x. us_org x = og_id g) (dr_accounts d2) = [a]"
    using filter_keyed[OF _ in2(2)] f(4) by metis
  obtain k where k: "validate_login env l = Inr k" "lg_slug k = resolved_slug q" "lg_email k = rg_email q"
      "lg_password k = rg_password q"
    using validated_login[OF assms(7,9)] assms(8,10) by auto
  have "filter (\<lambda>x. us_org x = og_id g \<and> us_email x = rg_email q) (dr_accounts d2) = [a]"
    using filter_filter[of "\<lambda>x. us_email x = rg_email q" "\<lambda>x. us_org x = og_id g" "dr_accounts d2"] unfolding users by (simp add: f(5))
  moreover have "au_check env (rg_password q) (ac_password a) = Some True"
    using assms(1) f(6,7) by (simp add: bcrypt_accepts_def)
  ultimately have "login env l later d2 = Inr (create_access_token env (us_id a) (us_org a) later)"
    by (simp add: login_def k orgs one_found_def verify_password_def small(2))
  then show ?thesis
    using token_stands_for[OF assms(2) ok in2(2) small(1)] orgs users unfolding f(8) by blast
qed

section \<open>A sample environment\<close>

definition token_text :: "token_claims \<Rightarrow> string" where
  "token_text c =
     (let e = tk_exp c div seconds 1 in
      the (tk_sub c) @ the (tk_org c) @ (if 0 \<le> e then ''+'' else ''-'') @ replicate (nat \<bar>e\<bar>) (CHR ''1''))"

definition read_token :: "time \<Rightarrow> string \<Rightarrow> token_claims option" where
  "read_token now s =
     (let t = drop 72 s; n = int (length t) - 1; e = seconds (if take 1 t = ''+'' then n else - n) in
      if now < e then Some \<lparr>tk_sub = Some (take 36 s), tk_org = Some (take 36 (drop 36 s)), tk_exp = e\<rparr> else None)"

definition sample_auth :: auth_env where
  "sample_auth = \<lparr>au_email_str = Some, au_hash = (\<lambda>p _. p), au_check = (\<lambda>p h. Some (p = h)), au_encode = token_text,
     au_decode = read_token, au_expire_minutes = 1\<rparr>"

definition acme :: register_request where
  "acme = \<lparr>rg_name = ''Acme'', rg_slug = None, rg_email = ''A@x.org'', rg_password = ''password'', rg_full_name = None\<rparr>"

definition empty_directory :: directory where
  "empty_directory = \<lparr>dr_organizations = [], dr_accounts = [], dr_supply = 1\<rparr>"

lemma length_uuid_text: "length (uuid_text n) = 36"
  by (simp add: uuid_text_def Let_def)

lemma sample_contracts: "bcrypt_accepts sample_auth" "jwt_returns sample_auth"
proof -
  show "bcrypt_accepts sample_auth" by (simp add: bcrypt_accepts_def sample_auth_def)
  show "jwt_returns sample_auth"
    by (simp add: jwt_returns_def sample_auth_def token_text_def read_token_def Let_def length_uuid_text truncated_def)
qed

lemma registered_user_logs_in_witness:
  "\<exists>t. login sample_auth \<lparr>lg_slug = '' ACME'', lg_email = ''A@x.org'', lg_password = ''password''\<rparr> 9
     (snd (projr (register_organization sample_auth 0 acme 5 empty_directory))) = Inr t"
proof -
  let ?r = "register_organization sample_auth 0 acme 5 empty_directory"
  let ?q = "projr (validate_register sample_auth acme)"
  have e: "?r = Inr (fst (projr ?r), snd (projr ?r)) \<and> validate_register sample_auth acme = Inr ?q
      \<and> map us_id (dr_accounts (snd (projr ?r))) = [2] \<and> lower (strip '' ACME'') = resolved_slug ?q" by code_simp
  then have r: "?r = Inr (fst (projr ?r), snd (projr ?r))" and q: "validate_register sample_auth acme = Inr ?q"
    and s: "lower (strip '' ACME'') = resolved_slug ?q" by blast+
  from e have i: "list_all (\<lambda>a. us_id a < 2 ^ 128) (dr_accounts (snd (projr ?r)))" by auto
  have "directory_ok empty_directory" by (simp add: directory_ok_def empty_directory_def)
  from registered_user_logs_in[OF sample_contracts this r rtranclp.rtrancl_refl i q,
      of "\<lparr>lg_slug = '' ACME'', lg_email = ''A@x.org'', lg_password = ''password''\<rparr>" 9] s
  show ?thesis by (auto simp: acme_def)
qed

section \<open>Names without a slug\<close>

definition nameless :: "register_request \<Rightarrow> bool" where
  "nameless p \<longleftrightarrow> rg_slug p = None \<and> list_all (\<lambda>c. \<not> slug_char c) (lower (strip (rg_name p)))"

lemma nameless_resolved: "validate_register env p = Inr q \<Longrightarrow> nameless p \<Longrightarrow> resolved_slug q = []"
  by (auto simp: validate_register_def nameless_def resolved_slug_def nameless_slug split: option.splits if_splits)

text \<open>Of the organizations whose names have no letter from a to z and no digit, only one can register without an
  explicit slug: it takes the empty slug, which is not a valid slug, and every later one, whatever
  its name, is told that the slug is taken.\<close>
theorem nameless_organizations_collide:
  assumes "directory_ok d" "register_organization env salt p now d = Inr (token, d1)" "nameless p"
    and "(directory_step env)\<^sup>*\<^sup>* d1 d2" "validate_register env p' = Inr q'" "nameless p'"
  shows "[] \<in> og_slug ` set (dr_organizations d2) \<and> \<not> is_valid_slug []
    \<and> register_organization env salt' p' later d2 = Inl SlugTaken"
proof -
  obtain q g where f: "validate_register env p = Inr q" "g \<in> set (dr_organizations d1)" "og_slug g = resolved_slug q" "directory_step env d d1"
    using registered_facts[OF assms(2)] by blast
  have g: "g \<in> set (dr_organizations d2)" "og_slug g = []"
    using directory_steps_kept[OF assms(4)] f(2,3) nameless_resolved[OF f(1) assms(3)] by (auto simp: kept_def)
  have "directory_ok d2" using directory_steps_ok[OF assms(4) directory_step_ok[OF f(4) assms(1)]] .
  then have "filter (\<lambda>x. og_slug x = []) (dr_organizations d2) = [g]"
    using filter_keyed[of og_slug "dr_organizations d2" g] g by (simp add: directory_ok_def)
  then have "register_organization env salt' p' later d2 = Inl SlugTaken"
    by (simp add: register_organization_def register_prepare_def assms(5) nameless_resolved[OF assms(5,6)] one_found_def Let_def)
  moreover have "[] \<in> og_slug ` set (dr_organizations d2)" using g by (metis image_eqI)
  ultimately show ?thesis by (simp add: is_valid_slug_def)
qed

definition tokyo :: register_request where
  "tokyo = acme\<lparr>rg_name := [CHR 0xE6, CHR 0x97, CHR 0xA5]\<rparr>"

lemma nameless_organizations_collide_witness:
  "register_organization sample_auth 0 (acme\<lparr>rg_name := [CHR 0xE4, CHR 0xBA, CHR 0xAC]\<rparr>) 6
     (snd (projr (register_organization sample_auth 0 tokyo 5 empty_directory))) = Inl SlugTaken"
proof -
  let ?r = "register_organization sample_auth 0 tokyo 5 empty_directory"
  let ?p = "acme\<lparr>rg_name := [CHR 0xE4, CHR 0xBA, CHR 0xAC]\<rparr>"
  have "?r = Inr (fst (projr ?r), snd (projr ?r)) \<and> validate_register sample_auth ?p = Inr (projr (validate_register sample_auth ?p))
      \<and> nameless tokyo \<and> nameless ?p" by code_simp
  then have r: "?r = Inr (fst (projr ?r), snd (projr ?r))" and n: "nameless tokyo" "nameless ?p"
    and q: "validate_register sample_auth ?p = Inr (projr (validate_register sample_auth ?p))" by blast+
  have "directory_ok empty_directory" by (simp add: directory_ok_def empty_directory_def)
  from nameless_organizations_collide[OF this r n(1) rtranclp.rtrancl_refl q n(2)] show ?thesis by blast
qed

end
