(* ===== verification/DataSources.thy ===== *)
theory DataSources
  imports TasksApi
begin

text \<open>
  Data sources (\<open>app.api.data_sources\<close>, \<open>app.schemas.data_source\<close>, \<open>app.core.validation\<close>) and their stored
  credentials (\<open>app.worker.credentials\<close>, \<open>app.core.encryption\<close>).

  A request reads and checks, then writes and commits; other sessions commit in between.  The rows extend
  the data sources of the store with the columns that only these endpoints use; time stamps are
  not carried.  Credentials are carried as their JSON text.  Fernet is third-party code: its
  operations are fields of the environment.
\<close>

section \<open>Secret-like keys\<close>

datatype json = JNull | JBool bool | JNumber rat | JString string | JArray "json list" | JObject "(string \<times> json) list"

definition SECRET_KEY_DENYLIST :: "string list" where
  "SECRET_KEY_DENYLIST =
     [''password'', ''passwd'', ''pwd'', ''secret'', ''token'', ''api_key'', ''apikey'', ''access_key'', ''accesskey'',
      ''private_key'', ''privatekey'', ''client_secret'', ''credential'', ''credentials'', ''ssh_key'', ''cert'',
      ''certificate'', ''pem'']"

definition secret_like :: "string \<Rightarrow> bool" where
  "secret_like key \<longleftrightarrow> list_ex (\<lambda>bad. contains bad (lower key)) SECRET_KEY_DENYLIST"

text \<open>\<open>if found:\<close> is also false for an empty text.\<close>

fun find_secret_like_key :: "json \<Rightarrow> string \<Rightarrow> string option"
  and find_in_object :: "(string \<times> json) list \<Rightarrow> string \<Rightarrow> string option"
  and find_in_array :: "nat \<Rightarrow> json list \<Rightarrow> string \<Rightarrow> string option" where
  "find_secret_like_key (JObject kvs) path = find_in_object kvs path"
| "find_secret_like_key (JArray xs) path = find_in_array 0 xs path"
| "find_secret_like_key JNull path = None"
| "find_secret_like_key (JBool b) path = None"
| "find_secret_like_key (JNumber q) path = None"
| "find_secret_like_key (JString s) path = None"
| "find_in_object [] path = None"
| "find_in_object ((key, v) # kvs) path =
     (let current_path = (if path \<noteq> [] then path @ ''.'' @ key else key) in
      if secret_like key then Some current_path
      else case find_secret_like_key v current_path of
             Some (c # s) \<Rightarrow> Some (c # s)
           | _ \<Rightarrow> find_in_object kvs path)"
| "find_in_array i [] path = None"
| "find_in_array i (x # xs) path =
     (case find_secret_like_key x (path @ ''['' @ show_nat i @ '']'') of
        Some (c # s) \<Rightarrow> Some (c # s)
      | _ \<Rightarrow> find_in_array (Suc i) xs path)"

definition validate_connection_metadata :: "json \<Rightarrow> bool" where
  "validate_connection_metadata v \<longleftrightarrow> (case find_secret_like_key v [] of Some (c # s) \<Rightarrow> False | _ \<Rightarrow> True)"

section \<open>Tables and payloads\<close>

record source_row = data_source +
  ds_name :: string
  ds_metadata :: json
  ds_created_by :: nat

record source_credential =
  cd_id :: nat
  cd_org :: nat
  cd_source :: nat
  cd_payload :: string
  cd_key_version :: nat

record source_tables =
  sr_sources :: "source_row table"
  sr_credentials :: "source_credential table"
  sr_supply :: nat

record source_create =
  sc_name :: string
  sc_type :: source_type
  sc_metadata :: json

record source_update =
  su_name :: "string option"
  su_type :: "source_type option"
  su_metadata :: "json option"

definition source_create_valid :: "source_create \<Rightarrow> bool" where
  "source_create_valid p \<longleftrightarrow> name_valid (sc_name p) \<and> validate_connection_metadata (sc_metadata p)"

definition source_update_valid :: "source_update \<Rightarrow> bool" where
  "source_update_valid p \<longleftrightarrow> (case su_name p of None \<Rightarrow> True | Some n \<Rightarrow> name_valid n)
     \<and> (case su_metadata p of None \<Rightarrow> True | Some v \<Rightarrow> validate_connection_metadata v)"

text \<open>\<open>connection_metadata.get("file_path")\<close>, where it is a text: the column that the handlers read.\<close>

definition file_path_of :: "json \<Rightarrow> string option" where
  "file_path_of metadata =
     (case metadata of
        JObject kvs \<Rightarrow> (case map_of (rev kvs) ''file_path'' of Some (JString s) \<Rightarrow> Some s | _ \<Rightarrow> None)
      | _ \<Rightarrow> None)"

section \<open>Checks\<close>

definition source_name_taken :: "source_tables \<Rightarrow> nat \<Rightarrow> string \<Rightarrow> nat option \<Rightarrow> http_error + unit" where
  "source_name_taken t org name exclude =
     (case scalar_one_or_none (filter (\<lambda>r. so_org r = org \<and> sql_key (ds_name r) = lower (strip name) \<and> so_active r
             \<and> Some (so_id r) \<noteq> exclude) (sr_sources t)) of
        Inl e \<Rightarrow> Inl ServerError | Inr (Some _) \<Rightarrow> Inl Conflict | Inr None \<Rightarrow> Inr ())"

definition get_active_source_or_404 :: "source_tables \<Rightarrow> nat \<Rightarrow> nat \<Rightarrow> http_error + source_row" where
  "get_active_source_or_404 t sid org =
     found (scalar_one_or_none (filter (\<lambda>r. so_id r = sid \<and> so_org r = org \<and> so_active r) (sr_sources t)))"

text \<open>\<open>ix_data_sources_org_name_active\<close>, checked at the commit.\<close>

definition source_key :: "source_row \<Rightarrow> nat \<times> string" where
  "source_key r = (so_org r, sql_key (ds_name r))"

definition commit_sources :: "source_row table \<Rightarrow> source_tables \<Rightarrow> http_error + source_tables" where
  "commit_sources T t = (if distinct (map source_key (filter so_active T)) then Inr (t\<lparr>sr_sources := T\<rparr>) else Inl Conflict)"

section \<open>Endpoints\<close>

definition create_data_source_check :: "source_create \<Rightarrow> user \<Rightarrow> source_tables \<Rightarrow> http_error + source_row" where
  "create_data_source_check p u t =
     (if \<not> source_create_valid p then Inl Unprocessable
      else let name = normalize_name (sc_name p) in
           case source_name_taken t (us_org u) name None of
             Inl e \<Rightarrow> Inl e
           | Inr _ \<Rightarrow> Inr \<lparr>so_id = 0, so_org = us_org u, so_type = sc_type p, so_active = True,
                          so_file_path = file_path_of (sc_metadata p), ds_name = name, ds_metadata = sc_metadata p, ds_created_by = us_id u\<rparr>)"

definition create_data_source_commit :: "source_row \<Rightarrow> source_tables \<Rightarrow> http_error + source_tables" where
  "create_data_source_commit r t =
     commit_sources (sr_sources t @ [r\<lparr>so_id := sr_supply t\<rparr>]) (t\<lparr>sr_supply := Suc (sr_supply t)\<rparr>)"

definition create_data_source :: "source_create \<Rightarrow> user \<Rightarrow> source_tables \<Rightarrow> http_error + source_tables" where
  "create_data_source p u t =
     (case create_data_source_check p u t of Inl e \<Rightarrow> Inl e | Inr r \<Rightarrow> create_data_source_commit r t)"

text \<open>The rows of a page in the order of their creation, newest first; the table is in the order of creation.\<close>

definition list_data_sources :: "bool \<Rightarrow> nat \<Rightarrow> nat \<Rightarrow> user \<Rightarrow> source_tables \<Rightarrow> source_row list \<times> nat" where
  "list_data_sources include_inactive limit offset u t =
     (let selected = filter (\<lambda>r. so_org r = us_org u \<and> (include_inactive \<or> so_active r)) (sr_sources t)
      in (take limit (drop offset (rev selected)), length selected))"

definition get_data_source :: "nat \<Rightarrow> user \<Rightarrow> source_tables \<Rightarrow> http_error + source_row" where
  "get_data_source sid u t = get_active_source_or_404 t sid (us_org u)"

definition rename_source :: "source_tables \<Rightarrow> nat \<Rightarrow> string option \<Rightarrow> source_row \<Rightarrow> http_error + source_row" where
  "rename_source t org name r =
     (case name of None \<Rightarrow> Inr r
      | Some n \<Rightarrow>
          if lower n = lower (strip (ds_name r)) then Inr r
          else (case source_name_taken t org n (Some (so_id r)) of Inl e \<Rightarrow> Inl e | Inr _ \<Rightarrow> Inr (r\<lparr>ds_name := n\<rparr>)))"

text \<open>The row as it was read, and the row with the changes of the request.\<close>

definition update_data_source_check ::
  "nat \<Rightarrow> source_update \<Rightarrow> user \<Rightarrow> source_tables \<Rightarrow> http_error + source_row \<times> source_row"
where
  "update_data_source_check sid p u t =
     (if \<not> source_update_valid p then Inl Unprocessable
      else case get_active_source_or_404 t sid (us_org u) of Inl e \<Rightarrow> Inl e | Inr r \<Rightarrow>
        (case rename_source t (us_org u) (map_option normalize_name (su_name p)) r of Inl e \<Rightarrow> Inl e | Inr r1 \<Rightarrow>
           let metadata = (case su_metadata p of None \<Rightarrow> ds_metadata r1 | Some v \<Rightarrow> v) in
           Inr (r, r1\<lparr>so_type := (case su_type p of None \<Rightarrow> so_type r1 | Some ty \<Rightarrow> ty),
                      so_file_path := file_path_of metadata, ds_metadata := metadata\<rparr>)))"

text \<open>The session writes the columns whose values changed, over the row as it is then.\<close>

definition merge_source :: "source_row \<Rightarrow> source_row \<Rightarrow> source_row \<Rightarrow> source_row" where
  "merge_source old new cur =
     (let metadata = (if ds_metadata new = ds_metadata old then ds_metadata cur else ds_metadata new) in
      cur\<lparr>ds_name := (if ds_name new = ds_name old then ds_name cur else ds_name new),
          so_type := (if so_type new = so_type old then so_type cur else so_type new),
          so_file_path := file_path_of metadata, ds_metadata := metadata\<rparr>)"

definition update_data_source_commit :: "source_row \<times> source_row \<Rightarrow> source_tables \<Rightarrow> http_error + source_tables" where
  "update_data_source_commit p t =
     (case p of (old, new) \<Rightarrow> commit_sources (update_where (\<lambda>r. so_id r = so_id old) (merge_source old new) (sr_sources t)) t)"

definition update_data_source :: "nat \<Rightarrow> source_update \<Rightarrow> user \<Rightarrow> source_tables \<Rightarrow> http_error + source_tables" where
  "update_data_source sid p u t =
     (case update_data_source_check sid p u t of Inl e \<Rightarrow> Inl e | Inr q \<Rightarrow> update_data_source_commit q t)"

definition delete_data_source_commit :: "nat \<Rightarrow> source_tables \<Rightarrow> source_tables" where
  "delete_data_source_commit sid t =
     t\<lparr>sr_sources := update_where (\<lambda>x. so_id x = sid) (\<lambda>x. x\<lparr>so_active := False\<rparr>) (sr_sources t)\<rparr>"

definition delete_data_source :: "nat \<Rightarrow> user \<Rightarrow> source_tables \<Rightarrow> http_error + source_tables" where
  "delete_data_source sid u t =
     (case get_active_source_or_404 t sid (us_org u) of
        Inl e \<Rightarrow> Inl e
      | Inr r \<Rightarrow> Inr (delete_data_source_commit (so_id r) t))"

section \<open>Encryption\<close>

text \<open>\<open>Fernet(key)\<close> rejects a malformed key; \<open>decrypt\<close> raises \<open>InvalidToken\<close>.\<close>

record crypto_env =
  ce_key :: "string option"
  ce_production :: bool
  ce_key_ok :: "string \<Rightarrow> bool"
  ce_encrypt :: "string \<Rightarrow> nat \<Rightarrow> string \<Rightarrow> string"
  ce_decrypt :: "string \<Rightarrow> string \<Rightarrow> string option"

datatype credential_error = CredentialEncryptionError | CredentialNotFoundError | CredentialQueryError

definition CURRENT_KEY_VERSION :: nat where
  "CURRENT_KEY_VERSION = 1"

definition DEV_KEY :: string where
  "DEV_KEY = ''ZGV2LW9ubHktaW5zZWN1cmUtZmVybmV0LWtleS0zMmI=''"

definition get_fernet :: "crypto_env \<Rightarrow> credential_error + string" where
  "get_fernet env =
     (let missing = (ce_key env = None \<or> ce_key env = Some []) in
      if missing \<and> ce_production env then Inl CredentialEncryptionError
      else let key = (if missing then DEV_KEY else the (ce_key env)) in
           if ce_key_ok env key then Inr key else Inl CredentialEncryptionError)"

definition encrypt_credentials :: "crypto_env \<Rightarrow> nat \<Rightarrow> string \<Rightarrow> credential_error + string" where
  "encrypt_credentials env nonce body = (case get_fernet env of Inl e \<Rightarrow> Inl e | Inr key \<Rightarrow> Inr (ce_encrypt env key nonce body))"

definition decrypt_credentials :: "crypto_env \<Rightarrow> string \<Rightarrow> credential_error + string" where
  "decrypt_credentials env blob =
     (case get_fernet env of
        Inl e \<Rightarrow> Inl e
      | Inr key \<Rightarrow> (case ce_decrypt env key blob of None \<Rightarrow> Inl CredentialEncryptionError | Some text \<Rightarrow> Inr text))"

section \<open>Credentials\<close>

definition credential_rows :: "nat \<Rightarrow> nat \<Rightarrow> source_tables \<Rightarrow> source_credential list" where
  "credential_rows org sid t = filter (\<lambda>c. cd_org c = org \<and> cd_source c = sid) (sr_credentials t)"

definition get_credentials :: "crypto_env \<Rightarrow> data_source \<Rightarrow> source_tables \<Rightarrow> credential_error + string" where
  "get_credentials env src t =
     (case scalar_one_or_none (credential_rows (so_org src) (so_id src) t) of
        Inl _ \<Rightarrow> Inl CredentialQueryError
      | Inr None \<Rightarrow> Inl CredentialNotFoundError
      | Inr (Some row) \<Rightarrow> decrypt_credentials env (cd_payload row))"

text \<open>The row that the request writes, with the identifier of the row it updates, if it found one.  An error of
  the encryption is not caught by the endpoint.\<close>

definition set_credentials_check ::
  "crypto_env \<Rightarrow> nat \<Rightarrow> nat \<Rightarrow> string \<Rightarrow> user \<Rightarrow> source_tables \<Rightarrow> http_error + nat option \<times> source_credential"
where
  "set_credentials_check env nonce sid text u t =
     (if text = ''{}'' then Inl Unprocessable
      else case get_active_source_or_404 t sid (us_org u) of Inl e \<Rightarrow> Inl e | Inr r \<Rightarrow>
        (case encrypt_credentials env nonce text of Inl _ \<Rightarrow> Inl ServerError | Inr blob \<Rightarrow>
        (case scalar_one_or_none (credential_rows (us_org u) (so_id r) t) of
           Inl _ \<Rightarrow> Inl ServerError
         | Inr existing \<Rightarrow>
             Inr (map_option cd_id existing, \<lparr>cd_id = 0, cd_org = us_org u, cd_source = so_id r, cd_payload = blob,
                                             cd_key_version = CURRENT_KEY_VERSION\<rparr>))))"

text \<open>\<open>UNIQUE(data_source_id)\<close>: a violation is not caught.\<close>

definition set_credentials_commit :: "nat option \<times> source_credential \<Rightarrow> source_tables \<Rightarrow> http_error + source_tables" where
  "set_credentials_commit p t =
     (case p of
        (Some i, c) \<Rightarrow>
          Inr (t\<lparr>sr_credentials := update_where (\<lambda>x. cd_id x = i)
                  (\<lambda>x. x\<lparr>cd_payload := cd_payload c, cd_key_version := cd_key_version c\<rparr>) (sr_credentials t)\<rparr>)
      | (None, c) \<Rightarrow>
          if \<exists>x \<in> set (sr_credentials t). cd_source x = cd_source c then Inl ServerError
          else Inr (t\<lparr>sr_credentials := sr_credentials t @ [c\<lparr>cd_id := sr_supply t\<rparr>], sr_supply := Suc (sr_supply t)\<rparr>))"

definition set_data_source_credentials ::
  "crypto_env \<Rightarrow> nat \<Rightarrow> nat \<Rightarrow> string \<Rightarrow> user \<Rightarrow> source_tables \<Rightarrow> http_error + source_tables"
where
  "set_data_source_credentials env nonce sid text u t =
     (case set_credentials_check env nonce sid text u t of Inl e \<Rightarrow> Inl e | Inr p \<Rightarrow> set_credentials_commit p t)"

end
