(* ===== verification/DataSourcesProps.thy ===== *)
theory DataSourcesProps
  imports DataSources
begin

text \<open>
  No stored metadata has a secret-like key at any depth; data sources stay well-formed and
  credentials stay one per source however requests overlap; credentials come back as they were stored.
\<close>

section \<open>Secret-like keys\<close>

text \<open>Every key, at any depth.\<close>

fun json_keys :: "json \<Rightarrow> string list" where
  "json_keys (JObject kvs) = concat (map (\<lambda>(k, v). k # json_keys v) kvs)"
| "json_keys (JArray xs) = concat (map json_keys xs)"
| "json_keys _ = []"

definition truthy_text :: "string option \<Rightarrow> bool" where
  "truthy_text x \<longleftrightarrow> x \<noteq> None \<and> x \<noteq> Some []"

lemma truthy_text_case: "(case x of Some (c # s) \<Rightarrow> P c s | _ \<Rightarrow> Q) = (if truthy_text x then P (hd (the x)) (tl (the x)) else Q)"
  by (auto simp: truthy_text_def split: option.splits list.splits)

lemma secret_like_nonempty: "secret_like key \<Longrightarrow> key \<noteq> []"
proof -
  have "\<not> secret_like []" by code_simp
  then show "secret_like key \<Longrightarrow> key \<noteq> []" by auto
qed

lemma find_truthy_Cons:
  "truthy_text (find_in_object ((k, v) # kvs) path) \<longleftrightarrow>
     secret_like k \<or> truthy_text (find_secret_like_key v (if path \<noteq> [] then path @ ''.'' @ k else k)) \<or> truthy_text (find_in_object kvs path)"
  "truthy_text (find_in_array i (x # xs) path) \<longleftrightarrow>
     truthy_text (find_secret_like_key x (path @ ''['' @ show_nat i @ '']'')) \<or> truthy_text (find_in_array (Suc i) xs path)"
  by (auto simp: truthy_text_def Let_def split: option.splits list.splits dest: secret_like_nonempty)

lemma find_truthy_Nil: "\<not> truthy_text (find_in_object [] path)" "\<not> truthy_text (find_in_array i [] path)"
  by (simp_all add: truthy_text_def)

lemma find_in_object_iff:
  assumes "\<And>kv path. kv \<in> set kvs \<Longrightarrow> truthy_text (find_secret_like_key (snd kv) path) \<longleftrightarrow> list_ex secret_like (json_keys (snd kv))"
  shows "truthy_text (find_in_object kvs path) \<longleftrightarrow> list_ex secret_like (json_keys (JObject kvs))"
  using assms
proof (induction kvs)
  case (Cons kv kvs)
  obtain k v where kv: "kv = (k, v)" by (cases kv)
  have "truthy_text (find_secret_like_key v p) \<longleftrightarrow> list_ex secret_like (json_keys v)" for p using Cons.prems[of kv p] by (simp add: kv)
  moreover have "truthy_text (find_in_object kvs path) \<longleftrightarrow> list_ex secret_like (json_keys (JObject kvs))"
    by (rule Cons.IH) (rule Cons.prems, simp)
  ultimately show ?case unfolding kv find_truthy_Cons by simp
qed (simp add: truthy_text_def)

lemma find_in_array_iff:
  assumes "\<And>x path. x \<in> set xs \<Longrightarrow> truthy_text (find_secret_like_key x path) \<longleftrightarrow> list_ex secret_like (json_keys x)"
  shows "truthy_text (find_in_array i xs path) \<longleftrightarrow> list_ex secret_like (json_keys (JArray xs))"
  using assms
proof (induction xs arbitrary: i)
  case (Cons x xs)
  have "truthy_text (find_in_array (Suc i) xs path) \<longleftrightarrow> list_ex secret_like (json_keys (JArray xs))"
    by (rule Cons.IH) (rule Cons.prems, simp)
  then show ?case using Cons.prems[of x] unfolding find_truthy_Cons by simp
qed (simp add: truthy_text_def)

lemma find_secret_iff: "truthy_text (find_secret_like_key j path) \<longleftrightarrow> list_ex secret_like (json_keys j)"
proof (induction j arbitrary: path)
  case (JObject kvs)
  have "truthy_text (find_secret_like_key (snd kv) p) \<longleftrightarrow> list_ex secret_like (json_keys (snd kv))" if "kv \<in> set kvs" for kv p
    using JObject[of kv "snd kv" p] that by (cases kv) simp
  from find_in_object_iff[OF this] show ?case by simp
next
  case (JArray xs)
  then show ?case using find_in_array_iff[of xs 0 path] by simp
qed (simp_all add: truthy_text_def)

text \<open>The check of connection metadata finds a secret-like key exactly when some object, at any depth of
  nested objects and arrays, has a key that contains an entry of the deny list, ignoring case.\<close>
theorem metadata_check_is_deep:
  "validate_connection_metadata v \<longleftrightarrow> list_all (\<lambda>key. \<not> list_ex (\<lambda>bad. contains bad (lower key)) SECRET_KEY_DENYLIST) (json_keys v)"
proof -
  have "validate_connection_metadata v \<longleftrightarrow> \<not> truthy_text (find_secret_like_key v [])"
    by (simp add: validate_connection_metadata_def truthy_text_case)
  then show ?thesis unfolding find_secret_iff by (simp add: list_ex_iff list_all_iff secret_like_def)
qed

section \<open>Well-formed tables\<close>

definition source_ok :: "source_row \<Rightarrow> bool" where
  "source_ok r \<longleftrightarrow> ds_name r \<noteq> [] \<and> strip (ds_name r) = ds_name r \<and> validate_connection_metadata (ds_metadata r)
     \<and> so_file_path r = file_path_of (ds_metadata r)"

definition credential_ok :: "source_row table \<Rightarrow> source_credential \<Rightarrow> bool" where
  "credential_ok T c \<longleftrightarrow> (\<exists>r \<in> set T. so_id r = cd_source c \<and> so_org r = cd_org c)"

definition sources_ok :: "source_tables \<Rightarrow> bool" where
  "sources_ok t \<longleftrightarrow>
     keyed so_id (sr_sources t) \<and> distinct (map source_key (filter so_active (sr_sources t)))
     \<and> list_all source_ok (sr_sources t) \<and> list_all (\<lambda>r. so_id r < sr_supply t) (sr_sources t)
     \<and> keyed cd_id (sr_credentials t) \<and> list_all (\<lambda>c. cd_id c < sr_supply t) (sr_credentials t)
     \<and> distinct (map cd_source (sr_credentials t)) \<and> list_all (credential_ok (sr_sources t)) (sr_credentials t)"

text \<open>What a check passes on is still a good row later: rows are never removed and keep their owner.\<close>

definition sources_evolve :: "source_tables \<Rightarrow> source_tables \<Rightarrow> bool" where
  "sources_evolve t t' \<longleftrightarrow> (\<exists>rows. map (\<lambda>r. (so_id r, so_org r)) (sr_sources t') = map (\<lambda>r. (so_id r, so_org r)) (sr_sources t) @ rows)"

lemma evolve_refl: "sources_evolve t t"
  by (simp add: sources_evolve_def)

lemma evolve_trans: "sources_evolve a b \<Longrightarrow> sources_evolve b c \<Longrightarrow> sources_evolve a c"
  by (auto simp: sources_evolve_def)

inductive source_step :: "crypto_env \<Rightarrow> source_tables \<Rightarrow> source_tables \<Rightarrow> bool" for env where
  create: "create_data_source_check p u t0 = Inr r \<Longrightarrow> create_data_source_commit r t = Inr t' \<Longrightarrow> source_step env t t'"
| update: "update_data_source_check sid p u t0 = Inr q \<Longrightarrow> update_data_source_commit q t = Inr t' \<Longrightarrow> source_step env t t'"
| delete: "source_step env t (delete_data_source_commit sid t)"
| credentials: "set_credentials_check env nonce sid body u t0 = Inr q \<Longrightarrow> sources_evolve t0 t \<Longrightarrow> set_credentials_commit q t = Inr t' \<Longrightarrow>
    source_step env t t'"

lemma name_valid_strip: "name_valid n \<Longrightarrow> normalize_name n \<noteq> [] \<and> strip (normalize_name n) = normalize_name n"
  by (simp add: name_valid_def normalize_name_def strip_idem)

lemma create_check_row: "create_data_source_check p u t0 = Inr r \<Longrightarrow> source_ok r"
  by (auto simp: create_data_source_check_def source_create_valid_def source_ok_def name_valid_strip Let_def
      split: sum.splits if_splits)

lemma update_check_row:
  assumes "update_data_source_check sid p u t0 = Inr (old, new)"
  shows "(ds_name new \<noteq> ds_name old \<longrightarrow> ds_name new \<noteq> [] \<and> strip (ds_name new) = ds_name new)
    \<and> (ds_metadata new \<noteq> ds_metadata old \<longrightarrow> validate_connection_metadata (ds_metadata new))"
  using assms name_valid_strip
  by (auto simp: update_data_source_check_def source_update_valid_def rename_source_def Let_def
      split: sum.splits if_splits option.splits)

lemma merge_source_simps [simp]:
  "so_id (merge_source old new cur) = so_id cur" "so_org (merge_source old new cur) = so_org cur"
  "so_active (merge_source old new cur) = so_active cur"
  by (simp_all add: merge_source_def Let_def)

lemma merge_source_ok:
  "update_data_source_check sid p u t0 = Inr (old, new) \<Longrightarrow> source_ok cur \<Longrightarrow> source_ok (merge_source old new cur)"
  using update_check_row[of sid p u t0 old new] by (auto simp: source_ok_def merge_source_def Let_def)

lemma commit_sources_Inr:
  "commit_sources T t = Inr t' \<longleftrightarrow> distinct (map source_key (filter so_active T)) \<and> t' = t\<lparr>sr_sources := T\<rparr>"
  by (auto simp: commit_sources_def)

lemma credential_ok_cong:
  "map (\<lambda>r. (so_id r, so_org r)) T' = map (\<lambda>r. (so_id r, so_org r)) T @ xs \<Longrightarrow> credential_ok T c \<Longrightarrow> credential_ok T' c"
proof -
  assume e: "map (\<lambda>r. (so_id r, so_org r)) T' = map (\<lambda>r. (so_id r, so_org r)) T @ xs" and c: "credential_ok T c"
  have "(cd_source c, cd_org c) \<in> set (map (\<lambda>r. (so_id r, so_org r)) T)" using c unfolding credential_ok_def set_map by force
  then have "(cd_source c, cd_org c) \<in> set (map (\<lambda>r. (so_id r, so_org r)) T')" unfolding e by (simp only: set_append Un_iff simp_thms)
  then show ?thesis by (auto simp: credential_ok_def)
qed

lemma update_keeps_owner:
  "(\<And>r. so_id (f r) = so_id r \<and> so_org (f r) = so_org r) \<Longrightarrow>
     map (\<lambda>r. (so_id r, so_org r)) (update_where P f T) = map (\<lambda>r. (so_id r, so_org r)) T"
  by (rule map_update_where) simp

lemma evolve_update:
  "(\<And>r. so_id (f r) = so_id r \<and> so_org (f r) = so_org r) \<Longrightarrow> sources_evolve t (t\<lparr>sr_sources := update_where P f (sr_sources t)\<rparr>)"
  by (simp add: sources_evolve_def update_keeps_owner)

lemma updated_table_ok:
  assumes "sources_ok t" "\<And>r. so_id (f r) = so_id r \<and> so_org (f r) = so_org r" "\<And>r. source_ok r \<Longrightarrow> source_ok (f r)"
    and "distinct (map source_key (filter so_active (update_where P f (sr_sources t))))"
  shows "sources_ok (t\<lparr>sr_sources := update_where P f (sr_sources t)\<rparr>)"
proof -
  note k = update_keeps_owner[of f P "sr_sources t", OF assms(2)]
  have "map so_id (update_where P f (sr_sources t)) = map so_id (sr_sources t)"
    by (rule map_update_where) (simp add: assms(2))
  moreover have "list_all (credential_ok (update_where P f (sr_sources t))) (sr_credentials t)"
    using assms(1) credential_ok_cong[of "update_where P f (sr_sources t)" "sr_sources t" "[]"] k
    by (auto simp: sources_ok_def list_all_iff)
  moreover have "list_all source_ok (update_where P f (sr_sources t))" "list_all (\<lambda>r. so_id r < sr_supply t) (update_where P f (sr_sources t))"
    using assms(1-3) by (auto simp: sources_ok_def list_all_iff set_update_where)
  ultimately show ?thesis using assms(1,4) by (simp add: sources_ok_def)
qed

lemma deleted_distinct:
  "distinct (map source_key (filter so_active T)) \<Longrightarrow>
     distinct (map source_key (filter so_active (update_where P (\<lambda>x. x\<lparr>so_active := False\<rparr>) T)))"
proof (induction T)
  case (Cons r T)
  have sub: "set (map source_key (filter so_active (update_where P (\<lambda>x. x\<lparr>so_active := False\<rparr>) T))) \<subseteq> set (map source_key (filter so_active T))"
    by (auto simp: set_update_where split: if_splits)
  have "distinct (map source_key (filter so_active T))" using Cons.prems by (cases "so_active r") simp_all
  then show ?case using Cons sub by (cases "P r"; cases "so_active r") (auto simp: update_where_Cons)
qed simp

lemma set_check_row:
  assumes "set_credentials_check env nonce sid body u t0 = Inr (ex, c)"
  shows "credential_ok (sr_sources t0) c"
proof -
  obtain r where "get_active_source_or_404 t0 sid (us_org u) = Inr r" "cd_source c = so_id r" "cd_org c = us_org u"
    using assms by (auto simp: set_credentials_check_def split: sum.splits if_splits)
  then have "r \<in> set (sr_sources t0) \<and> so_org r = us_org u" "cd_source c = so_id r" "cd_org c = us_org u"
    by (auto simp: get_active_source_or_404_def found_def scalar_Inr_Some split: sum.splits option.splits dest!: filter_single)
  then show ?thesis unfolding credential_ok_def by metis
qed

lemma set_commit_ok:
  assumes "set_credentials_commit (ex, c) t = Inr t'" "sources_ok t" "credential_ok (sr_sources t) c"
  shows "sources_ok t' \<and> sr_sources t' = sr_sources t"
proof (cases ex)
  case None
  then have t': "t' = t\<lparr>sr_credentials := sr_credentials t @ [c\<lparr>cd_id := sr_supply t\<rparr>], sr_supply := Suc (sr_supply t)\<rparr>"
    and "cd_source c \<notin> cd_source ` set (sr_credentials t)"
    using assms(1) by (auto simp: set_credentials_commit_def split: if_splits)
  moreover have "sr_supply t \<notin> cd_id ` set (sr_credentials t)" using assms(2) by (auto simp: sources_ok_def list_all_iff)
  ultimately show ?thesis
    using assms(2,3) by (auto simp: sources_ok_def list_all_iff credential_ok_def less_SucI)
next
  case (Some i)
  let ?f = "\<lambda>x. x\<lparr>cd_payload := cd_payload c, cd_key_version := cd_key_version c\<rparr>"
  let ?T = "update_where (\<lambda>x. cd_id x = i) ?f (sr_credentials t)"
  have t': "t' = t\<lparr>sr_credentials := ?T\<rparr>" using assms(1) Some by (simp add: set_credentials_commit_def)
  have "map cd_id ?T = map cd_id (sr_credentials t)" "map cd_source ?T = map cd_source (sr_credentials t)"
    by (simp_all add: update_where_def)
  moreover have "list_all (credential_ok (sr_sources t)) ?T" "list_all (\<lambda>x. cd_id x < sr_supply t) ?T"
    using assms(2) by (auto simp: sources_ok_def list_all_iff set_update_where credential_ok_def)
  ultimately show ?thesis using assms(2) by (simp add: t' sources_ok_def)
qed

lemma source_step_ok:
  assumes "source_step env t t'" "sources_ok t"
  shows "sources_ok t' \<and> sources_evolve t t'"
  using assms(1)
proof cases
  case (create p u t0 r)
  then have t': "t' = t\<lparr>sr_supply := Suc (sr_supply t), sr_sources := sr_sources t @ [r\<lparr>so_id := sr_supply t\<rparr>]\<rparr>"
    and d: "distinct (map source_key (filter so_active (sr_sources t @ [r\<lparr>so_id := sr_supply t\<rparr>])))"
    by (simp_all add: create_data_source_commit_def commit_sources_Inr)
  have "list_all (credential_ok (sr_sources t @ [r\<lparr>so_id := sr_supply t\<rparr>])) (sr_credentials t)"
    using assms(2) by (auto simp: sources_ok_def list_all_iff credential_ok_def)
  then show ?thesis
    using assms(2) create_check_row[OF create(1)] d unfolding t'
    by (auto simp: sources_ok_def sources_evolve_def source_ok_def list_all_iff)
next
  case (update sid p u t0 q)
  obtain old new where q: "q = (old, new)" by (cases q)
  have t': "t' = t\<lparr>sr_sources := update_where (\<lambda>r. so_id r = so_id old) (merge_source old new) (sr_sources t)\<rparr>"
    and d: "distinct (map source_key (filter so_active (update_where (\<lambda>r. so_id r = so_id old) (merge_source old new) (sr_sources t))))"
    using update(2) by (simp_all add: q update_data_source_commit_def commit_sources_Inr)
  show ?thesis
    using updated_table_ok[OF assms(2) _ merge_source_ok[OF update(1)[unfolded q]] d] evolve_update[of "merge_source old new"]
    by (simp add: t')
next
  case (delete sid)
  then show ?thesis
    using updated_table_ok[OF assms(2), of "\<lambda>x. x\<lparr>so_active := False\<rparr>" "\<lambda>x. so_id x = sid"] deleted_distinct
      evolve_update[of "\<lambda>x. x\<lparr>so_active := False\<rparr>"] assms(2)
    by (simp add: delete_data_source_commit_def source_ok_def sources_ok_def)
next
  case (credentials nonce sid body u t0 q)
  obtain ex c where q: "q = (ex, c)" by (cases q)
  have "credential_ok (sr_sources t) c"
    using credentials(2) credential_ok_cong[OF _ set_check_row[OF credentials(1)[unfolded q]]] by (auto simp: sources_evolve_def)
  from set_commit_ok[OF credentials(3)[unfolded q] assms(2) this] show ?thesis by (simp add: sources_evolve_def)
qed

lemma source_steps_ok: "(source_step env)\<^sup>*\<^sup>* t t' \<Longrightarrow> sources_ok t \<Longrightarrow> sources_ok t' \<and> sources_evolve t t'"
  by (induction rule: rtranclp_induct) (use source_step_ok evolve_refl evolve_trans in blast)+

text \<open>C20: However creations, updates, deletions and changes of credentials overlap, each checking a state that others
  have changed since: no two active data sources of an organization have the same name up to case
  and surrounding blanks, every name is trimmed and not blank, no metadata has a secret-like key, every data source
  keeps its owner, and every data source has at most one row of credentials, of its own organization.\<close>
theorem sources_stay_wellformed:
  assumes "(source_step env)\<^sup>*\<^sup>* t t'" "sources_ok t"
  shows "sources_ok t' \<and> sources_evolve t t'"
  by (rule source_steps_ok[OF assms])

section \<open>Credentials\<close>

text \<open>What Fernet documents: what was encrypted with a key decrypts with it to itself.\<close>

definition fernet_returns :: "crypto_env \<Rightarrow> bool" where
  "fernet_returns env \<longleftrightarrow> (\<forall>key nonce body. ce_decrypt env key (ce_encrypt env key nonce body) = Some body)"

lemma filter_one: "distinct xs \<Longrightarrow> x \<in> set xs \<Longrightarrow> filter (\<lambda>y. y = x) xs = [x]"
  by (induction xs) (auto simp: filter_empty_conv)

lemma credential_rows_single:
  assumes "sources_ok t" "c \<in> set (sr_credentials t)"
  shows "credential_rows (cd_org c) (cd_source c) t = [c]"
proof -
  have d: "distinct (sr_credentials t)" "inj_on cd_source (set (sr_credentials t))"
    using assms(1) by (simp_all add: sources_ok_def distinct_map)
  have "credential_rows (cd_org c) (cd_source c) t = filter (\<lambda>x. x = c) (sr_credentials t)"
    unfolding credential_rows_def by (rule filter_cong) (use d(2) assms(2) in \<open>auto dest: inj_onD\<close>)
  also have "\<dots> = [c]" using filter_one[OF d(1) assms(2)] .
  finally show ?thesis .
qed

lemma set_credentials_stored:
  assumes "set_data_source_credentials env nonce sid body u t = Inr t'" "sources_ok t"
  shows "\<exists>key c. get_fernet env = Inr key \<and> c \<in> set (sr_credentials t') \<and> cd_org c = us_org u \<and> cd_source c = sid
    \<and> cd_payload c = ce_encrypt env key nonce body
    \<and> filter (\<lambda>x. cd_source x \<noteq> sid) (sr_credentials t') = filter (\<lambda>x. cd_source x \<noteq> sid) (sr_credentials t)"
proof -
  obtain ex c where ck: "set_credentials_check env nonce sid body u t = Inr (ex, c)" and cm: "set_credentials_commit (ex, c) t = Inr t'"
    using assms(1) by (auto simp: set_data_source_credentials_def split: sum.splits)
  obtain r key row where r: "get_active_source_or_404 t sid (us_org u) = Inr r" and key: "get_fernet env = Inr key"
    and row: "scalar_one_or_none (credential_rows (us_org u) (so_id r) t) = Inr row" "ex = map_option cd_id row"
    and c: "cd_org c = us_org u" "cd_source c = so_id r" "cd_payload c = ce_encrypt env key nonce body"
    using ck by (auto simp: set_credentials_check_def encrypt_credentials_def split: sum.splits if_splits)
  have sid: "so_id r = sid"
    using r by (auto simp: get_active_source_or_404_def found_def scalar_Inr_Some split: sum.splits option.splits dest!: filter_single)
  show ?thesis
  proof (cases row)
    case None
    then have "t' = t\<lparr>sr_credentials := sr_credentials t @ [c\<lparr>cd_id := sr_supply t\<rparr>], sr_supply := Suc (sr_supply t)\<rparr>"
      using cm row(2) by (auto simp: set_credentials_commit_def split: if_splits)
    then show ?thesis using key c sid by (intro exI[of _ key] exI[of _ "c\<lparr>cd_id := sr_supply t\<rparr>"]) simp
  next
    case (Some x)
    let ?f = "\<lambda>x. x\<lparr>cd_payload := cd_payload c, cd_key_version := cd_key_version c\<rparr>"
    have t': "t' = t\<lparr>sr_credentials := update_where (\<lambda>y. cd_id y = cd_id x) ?f (sr_credentials t)\<rparr>"
      using cm row(2) Some by (simp add: set_credentials_commit_def)
    have x: "x \<in> set (sr_credentials t)" "cd_org x = us_org u" "cd_source x = sid"
      using row(1) Some sid by (auto simp: credential_rows_def scalar_Inr_Some dest!: filter_single)
    have other: "cd_source y = sid" if "y \<in> set (sr_credentials t)" "cd_id y = cd_id x" for y
      using keyed_inj[of cd_id "sr_credentials t" y x] that x assms(2) by (simp add: sources_ok_def)
    have "filter (\<lambda>x. cd_source x \<noteq> sid) (update_where (\<lambda>y. cd_id y = cd_id x) ?f T) = filter (\<lambda>x. cd_source x \<noteq> sid) T"
      if "set T \<subseteq> set (sr_credentials t)" for T
      using that other by (induction T) (auto simp: update_where_Cons)
    then have "filter (\<lambda>x. cd_source x \<noteq> sid) (sr_credentials t') = filter (\<lambda>x. cd_source x \<noteq> sid) (sr_credentials t)"
      by (simp add: t')
    moreover have "?f x \<in> set (sr_credentials t')" using x(1) by (auto simp: t' set_update_where image_iff)
    ultimately show ?thesis
      using key c x by (intro exI[of _ key] exI[of _ "?f x"]) simp
  qed
qed

text \<open>C19: Credentials come back as they were stored, to the data source they were stored for and to no other: after a
  request that sets them, the provider returns them for that data source; for every other
  data source it returns what it returned before, and for another organization nothing.\<close>
theorem credentials_come_back:
  assumes "sources_ok t" "fernet_returns env" "set_data_source_credentials env nonce sid body u t = Inr t'"
    and "so_id src = sid" "so_org src = us_org u" "so_id other \<noteq> sid" "so_id foreign = sid" "so_org foreign \<noteq> us_org u"
  shows "get_credentials env src t' = Inr body \<and> get_credentials env other t' = get_credentials env other t
    \<and> get_credentials env foreign t' = Inl CredentialNotFoundError"
proof -
  obtain key c where c: "get_fernet env = Inr key" "c \<in> set (sr_credentials t')" "cd_org c = us_org u" "cd_source c = sid"
      "cd_payload c = ce_encrypt env key nonce body"
      "filter (\<lambda>x. cd_source x \<noteq> sid) (sr_credentials t') = filter (\<lambda>x. cd_source x \<noteq> sid) (sr_credentials t)"
    using set_credentials_stored[OF assms(3,1)] by blast
  obtain ex d where "set_credentials_check env nonce sid body u t = Inr (ex, d)" "set_credentials_commit (ex, d) t = Inr t'"
    using assms(3) by (auto simp: set_data_source_credentials_def split: sum.splits)
  then have ok: "sources_ok t'" using set_commit_ok[OF _ assms(1) set_check_row] by blast
  have own: "credential_rows (us_org u) sid t' = [c]" using credential_rows_single[OF ok c(2)] c(3,4) by simp
  have "credential_rows (so_org foreign) sid t' = []"
  proof -
    have "x = c" if "x \<in> set (sr_credentials t')" "cd_source x = sid" for x
      using keyed_inj[of cd_source "sr_credentials t'" x c] that c(2,4) ok by (simp add: sources_ok_def)
    then show ?thesis using c(3) assms(8) by (auto simp: credential_rows_def filter_empty_conv)
  qed
  moreover have "credential_rows (so_org other) (so_id other) t' = credential_rows (so_org other) (so_id other) t"
  proof -
    have e: "filter (\<lambda>x. cd_org x = so_org other \<and> cd_source x = so_id other) T
        = filter (\<lambda>x. cd_org x = so_org other \<and> cd_source x = so_id other) (filter (\<lambda>x. cd_source x \<noteq> sid) T)" for T
      using assms(6) by (induction T) auto
    show ?thesis unfolding credential_rows_def e[of "sr_credentials t'"] e[of "sr_credentials t"] c(6) ..
  qed
  ultimately show ?thesis
    using own assms(2,4,5,7) c(1,5) by (simp add: get_credentials_def decrypt_credentials_def fernet_returns_def)
qed

section \<open>A sample\<close>

definition plain_crypto :: crypto_env where
  "plain_crypto = \<lparr>ce_key = None, ce_production = False, ce_key_ok = (\<lambda>_. True), ce_encrypt = (\<lambda>k n s. s), ce_decrypt = (\<lambda>k s. Some s)\<rparr>"

definition source_user :: user where
  "source_user = \<lparr>us_id = 7, us_org = 0, us_superuser = True, us_full_name = None, us_email = ''a@x.org''\<rparr>"

definition sales_source :: source_create where
  "sales_source = \<lparr>sc_name = '' Sales '', sc_type = CSV_UPLOAD, sc_metadata = JObject [(''file_path'', JString ''a.csv'')]\<rparr>"

definition no_sources :: source_tables where
  "no_sources = \<lparr>sr_sources = [], sr_credentials = [], sr_supply = 1\<rparr>"

definition one_source :: source_tables where
  "one_source = projr (create_data_source sales_source source_user no_sources)"

lemma sample_created:
  "create_data_source_check sales_source source_user no_sources = Inr (projr (create_data_source_check sales_source source_user no_sources))"
  "create_data_source_commit (projr (create_data_source_check sales_source source_user no_sources)) no_sources = Inr one_source"
  and sample_stored: "set_data_source_credentials plain_crypto 0 1 ''{1}'' source_user one_source
      = Inr (projr (set_data_source_credentials plain_crypto 0 1 ''{1}'' source_user one_source))"
proof -
  let ?c = "create_data_source_check sales_source source_user no_sources"
  have "?c = Inr (projr ?c) \<and> create_data_source_commit (projr ?c) no_sources = Inr one_source
    \<and> set_data_source_credentials plain_crypto 0 1 ''{1}'' source_user one_source
      = Inr (projr (set_data_source_credentials plain_crypto 0 1 ''{1}'' source_user one_source))" by code_simp
  then show "?c = Inr (projr ?c)" "create_data_source_commit (projr ?c) no_sources = Inr one_source"
    "set_data_source_credentials plain_crypto 0 1 ''{1}'' source_user one_source
      = Inr (projr (set_data_source_credentials plain_crypto 0 1 ''{1}'' source_user one_source))" by blast+
qed

lemma no_sources_ok: "sources_ok no_sources"
  by (simp add: sources_ok_def no_sources_def)

lemma sources_stay_wellformed_witness: "sources_ok one_source"
  using sources_stay_wellformed[OF r_into_rtranclp[of "source_step plain_crypto", OF create[OF sample_created]] no_sources_ok] by blast

lemma one_source_ok: "sources_ok one_source"
  using source_step_ok[OF create[OF sample_created] no_sources_ok] by blast

lemma credentials_come_back_witness:
  "get_credentials plain_crypto \<lparr>so_id = 1, so_org = 0, so_type = CSV_UPLOAD, so_active = True, so_file_path = None\<rparr>
     (projr (set_data_source_credentials plain_crypto 0 1 ''{1}'' source_user one_source)) = Inr ''{1}''"
proof -
  have f: "fernet_returns plain_crypto" by (simp add: fernet_returns_def plain_crypto_def)
  from credentials_come_back[OF one_source_ok f sample_stored,
      of "\<lparr>so_id = 1, so_org = 0, so_type = CSV_UPLOAD, so_active = True, so_file_path = None\<rparr>"
         "\<lparr>so_id = 2, so_org = 0, so_type = CSV_UPLOAD, so_active = True, so_file_path = None\<rparr>"
         "\<lparr>so_id = 1, so_org = 5, so_type = CSV_UPLOAD, so_active = True, so_file_path = None\<rparr>"]
  show ?thesis by (simp add: source_user_def)
qed

lemma credentials_need_no_superuser:
  "set_data_source_credentials env nonce sid body (u\<lparr>us_superuser := b\<rparr>) t = set_data_source_credentials env nonce sid body u t"
proof -
  have e: "us_org (u\<lparr>us_superuser := b\<rparr>) = us_org u" by simp
  show ?thesis unfolding set_data_source_credentials_def set_credentials_check_def e ..
qed

end
