(* ===== verification/ConfigApi.thy ===== *)
theory ConfigApi
  imports Transform TasksApi
begin

text \<open>
  The configuration endpoints of \<open>app.api.tasks\<close>: column mappings and lookup entries of the
  standardization, and versioned rule sets of the matching, with their payload checks.

  A request reads and checks, then writes and commits; the halves are separate definitions.
  The rows extend those that the handlers load with their identifiers.  The identifiers of
  the fields of a rule set are UUIDs drawn at random, so they are an argument.
\<close>

section \<open>Tables\<close>

record mapping_row = column_mapping +
  mp_id :: nat

record lookup_row = lookup_entry +
  lp_id :: nat

record config_tables =
  cf_store :: store
  cf_mappings :: "mapping_row table"
  cf_lookups :: "lookup_row table"
  cf_rule_sets :: "match_rule_set table"
  cf_rule_fields :: "match_rule_field table"
  cf_supply :: nat

text \<open>What the handlers see of the configuration.\<close>

definition configured_workspace :: "config_tables \<Rightarrow> workspace \<Rightarrow> workspace" where
  "configured_workspace t w =
     w\<lparr>wk_mappings := map column_mapping.truncate (cf_mappings t), wk_lookups := map lookup_entry.truncate (cf_lookups t),
       wk_rule_sets := cf_rule_sets t, wk_rule_fields := cf_rule_fields t\<rparr>"

section \<open>Names of field types\<close>

definition STANDARDIZATION_FIELD_TYPES :: "(string \<times> field_type) list" where
  "STANDARDIZATION_FIELD_TYPES =
     [(''person_name'', PersonName), (''company_name'', CompanyName), (''email'', Email), (''phone'', Phone),
      (''postal_address'', PostalAddress), (''city'', City), (''state_province'', StateProvince), (''country'', Country),
      (''postal_code'', PostalCode), (''date'', Date), (''time'', Time), (''boolean'', Boolean), (''numeric'', Numeric),
      (''currency'', Currency)]"

section \<open>Column mappings\<close>

record mapping_create =
  kc_source :: "nat option"
  kc_column :: string
  kc_field_type :: string

text \<open>The index is on the scope, which is a data source or the whole organization, and \<open>lower(trim(column_name))\<close>.\<close>

definition mapping_key :: "mapping_row \<Rightarrow> nat \<times> nat option \<times> string" where
  "mapping_key m = (cm_org m, cm_source m, sql_key (cm_column m))"

definition create_mapping_check :: "mapping_create \<Rightarrow> user \<Rightarrow> config_tables \<Rightarrow> http_error + mapping_row" where
  "create_mapping_check p u t =
     (case map_of STANDARDIZATION_FIELD_TYPES (kc_field_type p) of
        None \<Rightarrow> Inl Unprocessable
      | Some ft \<Rightarrow>
          if \<not> name_valid (kc_column p) then Inl Unprocessable
          else case validate_data_source_ref (cf_store t) (kc_source p) (us_org u) of
                 Inl e \<Rightarrow> Inl e
               | Inr _ \<Rightarrow> Inr \<lparr>cm_org = us_org u, cm_source = kc_source p, cm_active = True,
                              cm_column = normalize_name (kc_column p), cm_field_type = ft, mp_id = 0\<rparr>)"

definition create_mapping_commit :: "mapping_row \<Rightarrow> config_tables \<Rightarrow> http_error + config_tables" where
  "create_mapping_commit m t =
     (let rows = cf_mappings t @ [m\<lparr>mp_id := cf_supply t\<rparr>] in
      if distinct (map mapping_key (filter cm_active rows))
      then Inr (t\<lparr>cf_mappings := rows, cf_supply := Suc (cf_supply t)\<rparr>) else Inl Conflict)"

definition create_standardization_column_mapping :: "mapping_create \<Rightarrow> user \<Rightarrow> config_tables \<Rightarrow> http_error + config_tables" where
  "create_standardization_column_mapping p u t =
     (case create_mapping_check p u t of Inl e \<Rightarrow> Inl e | Inr m \<Rightarrow> create_mapping_commit m t)"

definition list_standardization_column_mappings :: "bool \<Rightarrow> nat \<Rightarrow> nat \<Rightarrow> user \<Rightarrow> config_tables \<Rightarrow> mapping_row list \<times> nat" where
  "list_standardization_column_mappings include_inactive limit offset u t =
     (let selected = filter (\<lambda>m. cm_org m = us_org u \<and> (include_inactive \<or> cm_active m)) (cf_mappings t)
      in (take limit (drop offset (rev selected)), length selected))"

definition delete_standardization_column_mapping :: "nat \<Rightarrow> user \<Rightarrow> config_tables \<Rightarrow> http_error + config_tables" where
  "delete_standardization_column_mapping i u t =
     (case found (scalar_one_or_none (filter (\<lambda>m. mp_id m = i \<and> cm_org m = us_org u \<and> cm_active m) (cf_mappings t))) of
        Inl e \<Rightarrow> Inl e
      | Inr m \<Rightarrow> Inr (t\<lparr>cf_mappings := update_where (\<lambda>x. mp_id x = mp_id m) (\<lambda>x. x\<lparr>cm_active := False\<rparr>) (cf_mappings t)\<rparr>))"

section \<open>Lookup entries\<close>

record lookup_create =
  lc_field_type :: "string option"
  lc_key :: string
  lc_value :: string

definition lookup_key :: "lookup_row \<Rightarrow> nat \<times> field_type option \<times> string" where
  "lookup_key e = (le_org e, le_field_type e, sql_key (le_key e))"

definition create_lookup_check :: "lookup_create \<Rightarrow> user \<Rightarrow> http_error + lookup_row" where
  "create_lookup_check p u =
     (let row = (\<lambda>ft. \<lparr>le_org = us_org u, le_field_type = ft, le_active = True, le_key = normalize_name (lc_key p),
                       le_value = normalize_name (lc_value p), lp_id = 0\<rparr>)
      in if \<not> name_valid (lc_key p) \<or> \<not> name_valid (lc_value p) then Inl Unprocessable
         else case lc_field_type p of
                None \<Rightarrow> Inr (row None)
              | Some n \<Rightarrow> (case map_of STANDARDIZATION_FIELD_TYPES n of None \<Rightarrow> Inl Unprocessable | Some ft \<Rightarrow> Inr (row (Some ft))))"

definition create_lookup_commit :: "lookup_row \<Rightarrow> config_tables \<Rightarrow> http_error + config_tables" where
  "create_lookup_commit e t =
     (let rows = cf_lookups t @ [e\<lparr>lp_id := cf_supply t\<rparr>] in
      if distinct (map lookup_key (filter le_active rows))
      then Inr (t\<lparr>cf_lookups := rows, cf_supply := Suc (cf_supply t)\<rparr>) else Inl Conflict)"

definition create_standardization_lookup_entry :: "lookup_create \<Rightarrow> user \<Rightarrow> config_tables \<Rightarrow> http_error + config_tables" where
  "create_standardization_lookup_entry p u t =
     (case create_lookup_check p u of Inl e \<Rightarrow> Inl e | Inr r \<Rightarrow> create_lookup_commit r t)"

definition list_standardization_lookup_entries :: "bool \<Rightarrow> nat \<Rightarrow> nat \<Rightarrow> user \<Rightarrow> config_tables \<Rightarrow> lookup_row list \<times> nat" where
  "list_standardization_lookup_entries include_inactive limit offset u t =
     (let selected = filter (\<lambda>e. le_org e = us_org u \<and> (include_inactive \<or> le_active e)) (cf_lookups t)
      in (take limit (drop offset (rev selected)), length selected))"

definition delete_standardization_lookup_entry :: "nat \<Rightarrow> user \<Rightarrow> config_tables \<Rightarrow> http_error + config_tables" where
  "delete_standardization_lookup_entry i u t =
     (case found (scalar_one_or_none (filter (\<lambda>e. lp_id e = i \<and> le_org e = us_org u \<and> le_active e) (cf_lookups t))) of
        Inl e \<Rightarrow> Inl e
      | Inr r \<Rightarrow> Inr (t\<lparr>cf_lookups := update_where (\<lambda>x. lp_id x = lp_id r) (\<lambda>x. x\<lparr>le_active := False\<rparr>) (cf_lookups t)\<rparr>))"

section \<open>Rule sets\<close>

record rule_set_create =
  rc_source :: "nat option"
  rc_duplicate :: rat
  rc_review :: rat
  rc_fields :: "rule_field list"

definition MATCH_RULE_COMPARISON_TYPES :: "string list" where
  "MATCH_RULE_COMPARISON_TYPES = [''exact'', ''normalized_exact'']"

definition rule_field_valid :: "rule_field \<Rightarrow> bool" where
  "rule_field_valid f \<longleftrightarrow> name_valid (mf_column f) \<and> mf_comparison f \<in> set MATCH_RULE_COMPARISON_TYPES \<and> 0 < mf_weight f"

definition rule_set_valid :: "rule_set_create \<Rightarrow> bool" where
  "rule_set_valid p \<longleftrightarrow>
     0 \<le> rc_duplicate p \<and> rc_duplicate p \<le> 1 \<and> 0 \<le> rc_review p \<and> rc_review p \<le> 1
     \<and> rc_fields p \<noteq> [] \<and> list_all rule_field_valid (rc_fields p)
     \<and> distinct (map (\<lambda>f. lower (strip (mf_column f))) (rc_fields p)) \<and> rc_review p < rc_duplicate p"

definition in_scope :: "nat \<Rightarrow> nat option \<Rightarrow> match_rule_set \<Rightarrow> bool" where
  "in_scope org source r \<longleftrightarrow> rs_org r = org \<and> rs_source r = source"

text \<open>The rule set to deactivate, if any, the new one, and its fields.\<close>

definition create_rule_set_check ::
  "rule_set_create \<Rightarrow> user \<Rightarrow> config_tables \<Rightarrow> http_error + nat option \<times> match_rule_set \<times> rule_field list"
where
  "create_rule_set_check p u t =
     (if \<not> rule_set_valid p then Inl Unprocessable
      else case validate_data_source_ref (cf_store t) (rc_source p) (us_org u) of Inl e \<Rightarrow> Inl e | Inr _ \<Rightarrow>
        (let scoped = filter (in_scope (us_org u) (rc_source p)) (cf_rule_sets t) in
         case scalar_one_or_none (filter rs_active scoped) of
           Inl _ \<Rightarrow> Inl ServerError
         | Inr prior \<Rightarrow>
             Inr (map_option rs_set_id prior,
                  \<lparr>rs_set_id = 0, rs_org = us_org u, rs_source = rc_source p, rs_active = True,
                   rs_version = length scoped + 1, rs_duplicate = rc_duplicate p, rs_review = rc_review p\<rparr>,
                  map (\<lambda>f. f\<lparr>mf_column := normalize_name (mf_column f)\<rparr>) (rc_fields p))))"

text \<open>The unique indexes on active rule sets refuse the insert at \<open>db.flush()\<close>, which is before the
  \<open>try\<close> block whose handler would answer with a conflict.\<close>

definition create_rule_set_commit ::
  "nat list \<Rightarrow> time \<Rightarrow> nat option \<times> match_rule_set \<times> rule_field list \<Rightarrow> config_tables \<Rightarrow> http_error + config_tables"
where
  "create_rule_set_commit ids now q t =
     (case q of (prior, r, fs) \<Rightarrow>
        let i = cf_supply t;
            rows = update_where (\<lambda>x. Some (rs_set_id x) = prior) (\<lambda>x. x\<lparr>rs_active := False\<rparr>) (cf_rule_sets t) @ [r\<lparr>rs_set_id := i\<rparr>]
        in if distinct (map (\<lambda>x. (rs_org x, rs_source x)) (filter rs_active rows))
           then Inr (t\<lparr>cf_rule_sets := rows, cf_supply := Suc i,
                       cf_rule_fields := cf_rule_fields t
                         @ map (\<lambda>(j, f). \<lparr>rf_id = j, rf_rule_set = i, rf_created_at = now, rf_field = f\<rparr>) (zip ids fs)\<rparr>)
           else Inl ServerError)"

definition create_match_rule_set ::
  "nat list \<Rightarrow> time \<Rightarrow> rule_set_create \<Rightarrow> user \<Rightarrow> config_tables \<Rightarrow> http_error + config_tables"
where
  "create_match_rule_set ids now p u t =
     (case create_rule_set_check p u t of Inl e \<Rightarrow> Inl e | Inr q \<Rightarrow> create_rule_set_commit ids now q t)"

definition list_match_rule_sets :: "bool \<Rightarrow> nat \<Rightarrow> nat \<Rightarrow> user \<Rightarrow> config_tables \<Rightarrow> match_rule_set list \<times> nat" where
  "list_match_rule_sets include_inactive limit offset u t =
     (let selected = filter (\<lambda>r. rs_org r = us_org u \<and> (include_inactive \<or> rs_active r)) (cf_rule_sets t)
      in (take limit (drop offset (rev selected)), length selected))"

end
