(* ===== verification/ConfigProps.thy ===== *)
theory ConfigProps
  imports ConfigApi OutputHandlers ReviewProps "HOL-Library.Multiset"
begin

text \<open>
  The configuration stays unambiguous however requests overlap, and what a request configures is what the
  handlers load.
\<close>

section \<open>Rule sets\<close>

definition scope :: "match_rule_set \<Rightarrow> nat \<times> nat option" where
  "scope r = (rs_org r, rs_source r)"

lemma scope_id [simp]: "scope (r\<lparr>rs_set_id := i\<rparr>) = scope r"
  by (simp add: scope_def)

lemma in_scope_iff: "in_scope org source r \<longleftrightarrow> scope r = (org, source)"
  by (simp add: in_scope_def scope_def)

definition scoped_sets :: "nat \<times> nat option \<Rightarrow> match_rule_set list \<Rightarrow> match_rule_set list" where
  "scoped_sets sc T = filter (\<lambda>r. scope r = sc) T"

text \<open>Only the newest of a scope is active, and the versions count from one.\<close>

definition versioned :: "match_rule_set list \<Rightarrow> bool" where
  "versioned rs \<longleftrightarrow> map rs_version rs = [1 ..< Suc (length rs)]
     \<and> (rs = [] \<or> rs_active (last rs) \<and> list_all (\<lambda>r. \<not> rs_active r) (butlast rs))"

definition rule_sets_ok :: "match_rule_set table \<Rightarrow> bool" where
  "rule_sets_ok T \<longleftrightarrow> keyed rs_set_id T \<and> (\<forall>sc. versioned (scoped_sets sc T))"

lemma filter_update_where: "(\<And>x. Q (f x) = Q x) \<Longrightarrow> filter Q (update_where P f T) = update_where P f (filter Q T)"
  by (induction T) (auto simp: update_where_Cons)

abbreviation deactivate :: "match_rule_set \<Rightarrow> match_rule_set" where
  "deactivate r \<equiv> r\<lparr>rs_active := False\<rparr>"

definition superseded :: "nat option \<Rightarrow> match_rule_set list \<Rightarrow> match_rule_set list" where
  "superseded prior T = update_where (\<lambda>x. Some (rs_set_id x) = prior) deactivate T"

lemma scoped_superseded: "scoped_sets sc (superseded prior T) = superseded prior (scoped_sets sc T)"
  unfolding scoped_sets_def superseded_def by (rule filter_update_where) (simp add: scope_def)

lemma superseded_same:
  "(\<And>x. x \<in> set T \<Longrightarrow> Some (rs_set_id x) \<noteq> prior) \<Longrightarrow> superseded prior T = T"
  unfolding superseded_def update_where_def by (rule map_idI) auto

lemma superseded_ids [simp]: "map rs_set_id (superseded prior T) = map rs_set_id T"
  by (simp add: superseded_def update_where_def)

lemma superseded_versions [simp]: "map rs_version (superseded prior T) = map rs_version T"
  by (simp add: superseded_def update_where_def)

lemma length_superseded [simp]: "length (superseded prior T) = length T"
  by (simp add: superseded_def)

lemma active_of_versioned:
  assumes "versioned rs"
  shows "filter rs_active rs = (if rs = [] then [] else [last rs])"
proof (cases "rs = []")
  case False
  then have e: "rs = butlast rs @ [last rs]" by simp
  have "filter rs_active rs = filter rs_active (butlast rs) @ filter rs_active [last rs]" by (subst e) (simp only: filter_append)
  then show ?thesis using assms False by (auto simp: versioned_def filter_empty_conv list_all_iff)
qed simp

lemma superseded_last:
  assumes "versioned rs" "keyed rs_set_id rs" "rs \<noteq> []"
  shows "list_all (\<lambda>r. \<not> rs_active r) (superseded (Some (rs_set_id (last rs))) rs)"
proof -
  have "rs_set_id r = rs_set_id (last rs)" if "r \<in> set rs" "rs_active r" for r
  proof -
    have "r \<in> set (filter rs_active rs)" using that by simp
    then show ?thesis using active_of_versioned[OF assms(1)] assms(3) by simp
  qed
  then show ?thesis by (auto simp: list_all_iff superseded_def set_update_where)
qed

section \<open>Creating a rule set\<close>

definition rule_sets_evolve :: "match_rule_set table \<Rightarrow> match_rule_set table \<Rightarrow> bool" where
  "rule_sets_evolve T T' \<longleftrightarrow> (\<exists>rest. map (\<lambda>r. (rs_set_id r, scope r)) T' = map (\<lambda>r. (rs_set_id r, scope r)) T @ rest)"

lemma evolve_scoped:
  assumes "rule_sets_evolve T T'"
  shows "\<exists>ids. map rs_set_id (scoped_sets sc T') = map rs_set_id (scoped_sets sc T) @ ids"
proof -
  have e: "map rs_set_id (scoped_sets sc S) = map fst (filter (\<lambda>x. snd x = sc) (map (\<lambda>r. (rs_set_id r, scope r)) S))" for S
    by (simp add: scoped_sets_def filter_map o_def)
  show ?thesis using assms unfolding e rule_sets_evolve_def by auto
qed

lemma check_facts:
  assumes "create_rule_set_check p u t = Inr (prior, r, fs)" "rule_sets_ok (cf_rule_sets t)"
  shows "let rs = scoped_sets (us_org u, rc_source p) (cf_rule_sets t) in
    scope r = (us_org u, rc_source p) \<and> rs_active r \<and> rs_version r = Suc (length rs)
    \<and> prior = (if rs = [] then None else Some (rs_set_id (last rs)))
    \<and> rs_duplicate r = rc_duplicate p \<and> rs_review r = rc_review p
    \<and> fs = map (\<lambda>f. f\<lparr>mf_column := normalize_name (mf_column f)\<rparr>) (rc_fields p) \<and> rule_set_valid p"
proof -
  let ?rs = "scoped_sets (us_org u, rc_source p) (cf_rule_sets t)"
  have s: "filter (in_scope (us_org u) (rc_source p)) (cf_rule_sets t) = ?rs"
    by (simp add: scoped_sets_def in_scope_iff[abs_def])
  have "versioned ?rs" using assms(2) by (simp add: rule_sets_ok_def)
  then have "scalar_one_or_none (filter rs_active ?rs) = Inr (if ?rs = [] then None else Some (last ?rs))"
    by (simp add: active_of_versioned)
  then show ?thesis
    using assms(1) by (auto simp: create_rule_set_check_def Let_def s scope_def split: sum.splits if_splits)
qed

lemma last_prefix_length:
  assumes "distinct ys" "ys = xs @ zs" "xs \<noteq> []" "last xs = last ys"
  shows "length xs = length ys"
proof (cases "zs = []")
  case False
  then have "last ys \<in> set zs" using assms(2) by simp
  moreover have "last ys \<in> set xs" using assms(3,4) by (metis last_in_set)
  ultimately show ?thesis using assms(1,2) by auto
qed (simp add: assms(2))

lemma commit_rows:
  assumes "create_rule_set_commit ids now (prior, r, fs) t = Inr t'"
  shows "cf_rule_sets t' = superseded prior (cf_rule_sets t) @ [r\<lparr>rs_set_id := cf_supply t\<rparr>]
    \<and> distinct (map scope (filter rs_active (cf_rule_sets t')))
    \<and> cf_rule_fields t' = cf_rule_fields t @ map (\<lambda>(j, f). \<lparr>rf_id = j, rf_rule_set = cf_supply t, rf_created_at = now, rf_field = f\<rparr>) (zip ids fs)
    \<and> cf_supply t' = Suc (cf_supply t) \<and> cf_store t' = cf_store t \<and> cf_mappings t' = cf_mappings t \<and> cf_lookups t' = cf_lookups t"
  using assms by (auto simp: create_rule_set_commit_def Let_def superseded_def scope_def[abs_def] split: if_splits)

text \<open>Whoever commits has read the newest state of its scope.\<close>

lemma commit_is_current:
  assumes "create_rule_set_check p u t0 = Inr (prior, r, fs)" "rule_sets_ok (cf_rule_sets t0)"
    and "rule_sets_evolve (cf_rule_sets t0) (cf_rule_sets t)" "rule_sets_ok (cf_rule_sets t)"
    and "create_rule_set_commit ids now (prior, r, fs) t = Inr t'"
  defines "rs \<equiv> scoped_sets (us_org u, rc_source p) (cf_rule_sets t)"
  shows "prior = (if rs = [] then None else Some (rs_set_id (last rs))) \<and> rs_version r = Suc (length rs)"
proof -
  let ?rs0 = "scoped_sets (us_org u, rc_source p) (cf_rule_sets t0)"
  have c: "scope r = (us_org u, rc_source p)" "rs_active r" "rs_version r = Suc (length ?rs0)"
      "prior = (if ?rs0 = [] then None else Some (rs_set_id (last ?rs0)))"
    using check_facts[OF assms(1,2)] by (simp_all add: Let_def)
  obtain xs where ids: "map rs_set_id rs = map rs_set_id ?rs0 @ xs" using evolve_scoped[OF assms(3)] unfolding rs_def by blast
  have k: "distinct (map rs_set_id rs)" "versioned rs"
    using assms(4) unfolding rule_sets_ok_def rs_def scoped_sets_def by (auto simp: distinct_map_filter)
  note cm = commit_rows[OF assms(5)]
  show ?thesis
  proof (cases "rs = []")
    case True
    then have "?rs0 = []" using ids by simp
    then show ?thesis using c(3,4) True by simp
  next
    case False
    have act: "rs_active (last rs)" using k(2) False by (auto simp: versioned_def)
    have pr: "prior = Some (rs_set_id (last rs))"
    proof (rule ccontr)
      assume n: "prior \<noteq> Some (rs_set_id (last rs))"
      have "last rs \<in> set (cf_rule_sets t)" "scope (last rs) = scope r"
        using last_in_set[OF False] unfolding rs_def c(1) by (auto simp: scoped_sets_def)
      then have "last rs \<in> set (superseded prior (cf_rule_sets t))" using n by (auto simp: superseded_def set_update_where image_iff)
      then have "last rs \<in> set (filter rs_active (superseded prior (cf_rule_sets t)))" using act by simp
      then have "scope r \<in> scope ` set (filter rs_active (superseded prior (cf_rule_sets t)))"
        using \<open>scope (last rs) = scope r\<close> by (metis image_eqI)
      moreover have "distinct (map scope (filter rs_active (superseded prior (cf_rule_sets t) @ [r\<lparr>rs_set_id := cf_supply t\<rparr>])))"
        using cm by metis
      ultimately show False using c(2) by simp
    qed
    then have p: "?rs0 \<noteq> []" "last (map rs_set_id ?rs0) = last (map rs_set_id rs)"
      using c(4) False pr by (auto simp: last_map split: if_splits)
    from last_prefix_length[OF k(1) ids _ p(2)] p(1) have "length ?rs0 = length rs" by simp
    then show ?thesis using c(3) pr False by simp
  qed
qed

lemma commit_keeps_sets:
  assumes "create_rule_set_check p u t0 = Inr (prior, r, fs)" "rule_sets_ok (cf_rule_sets t0)"
    and "rule_sets_evolve (cf_rule_sets t0) (cf_rule_sets t)" "rule_sets_ok (cf_rule_sets t)"
    and "create_rule_set_commit ids now (prior, r, fs) t = Inr t'"
    and "list_all (\<lambda>x. rs_set_id x < cf_supply t) (cf_rule_sets t)"
  shows "rule_sets_ok (cf_rule_sets t')"
proof -
  define sc where "sc = (us_org u, rc_source p)"
  define rs where "rs = scoped_sets sc (cf_rule_sets t)"
  have c: "scope r = sc" "rs_active r" using check_facts[OF assms(1,2)] by (simp_all add: Let_def sc_def)
  have p: "prior = (if rs = [] then None else Some (rs_set_id (last rs)))" "rs_version r = Suc (length rs)"
    using commit_is_current[OF assms(1-5)] unfolding rs_def sc_def by blast+
  have k: "keyed rs_set_id (cf_rule_sets t)" "versioned (scoped_sets x (cf_rule_sets t))" for x
    using assms(4) unfolding rule_sets_ok_def by blast+
  have kr: "keyed rs_set_id rs" using k(1) by (simp add: rs_def scoped_sets_def distinct_map_filter)
  note cm = commit_rows[OF assms(5)]
  have new: "cf_supply t \<notin> rs_set_id ` set (cf_rule_sets t)" using assms(6) by (auto simp: list_all_iff)
  have split: "scoped_sets x (cf_rule_sets t') = superseded prior (scoped_sets x (cf_rule_sets t)) @ (if x = sc then [r\<lparr>rs_set_id := cf_supply t\<rparr>] else [])" for x
    using cm c(1) by (simp add: scoped_superseded[symmetric]) (auto simp: scoped_sets_def scope_def)
  have "versioned (scoped_sets x (cf_rule_sets t'))" for x
  proof (cases "x = sc")
    case True
    have "list_all (\<lambda>r. \<not> rs_active r) (superseded prior rs)"
      using superseded_last[of rs] k(2)[of sc] kr p(1) unfolding rs_def by (cases "scoped_sets sc (cf_rule_sets t) = []") (auto simp: superseded_def)
    moreover have "map rs_version rs = [1 ..< Suc (length rs)]" using k(2)[of sc] by (simp add: versioned_def rs_def)
    ultimately show ?thesis
      unfolding split using True p(2) c(2) by (simp add: versioned_def rs_def[symmetric])
  next
    case False
    have "superseded prior (scoped_sets x (cf_rule_sets t)) = scoped_sets x (cf_rule_sets t)"
    proof (rule superseded_same)
      fix y assume y: "y \<in> set (scoped_sets x (cf_rule_sets t))"
      show "Some (rs_set_id y) \<noteq> prior"
      proof
        assume e: "Some (rs_set_id y) = prior"
        then have "rs \<noteq> []" "rs_set_id y = rs_set_id (last rs)" using p(1) by (auto split: if_splits)
        moreover have "last rs \<in> set (cf_rule_sets t) \<and> scope (last rs) = sc"
          using last_in_set[OF \<open>rs \<noteq> []\<close>] by (simp add: rs_def scoped_sets_def)
        ultimately have "y = last rs" using keyed_inj[OF k(1)] y by (auto simp: scoped_sets_def)
        then show False using y False \<open>last rs \<in> _ \<and> _\<close> by (simp add: scoped_sets_def)
      qed
    qed
    then show ?thesis unfolding split using False k(2) by simp
  qed
  moreover have "keyed rs_set_id (cf_rule_sets t')" using cm k(1) new by simp
  ultimately show ?thesis by (simp add: rule_sets_ok_def)
qed

section \<open>Steps\<close>

definition config_ok :: "config_tables \<Rightarrow> bool" where
  "config_ok t \<longleftrightarrow>
     rule_sets_ok (cf_rule_sets t) \<and> list_all (\<lambda>x. rs_set_id x < cf_supply t) (cf_rule_sets t)
     \<and> list_all (\<lambda>f. rf_rule_set f < cf_supply t) (cf_rule_fields t)
     \<and> distinct (map mapping_key (filter cm_active (cf_mappings t))) \<and> list_all (\<lambda>m. strip (cm_column m) = cm_column m) (cf_mappings t)
     \<and> distinct (map lookup_key (filter le_active (cf_lookups t))) \<and> list_all (\<lambda>e. strip (le_key e) = le_key e) (cf_lookups t)"

text \<open>A commit follows a check of any earlier state.\<close>

inductive config_step :: "config_tables \<Rightarrow> config_tables \<Rightarrow> bool" where
  create_mapping: "create_mapping_check p u t0 = Inr m \<Longrightarrow> create_mapping_commit m t = Inr t' \<Longrightarrow> config_step t t'"
| delete_mapping: "delete_standardization_column_mapping i u t = Inr t' \<Longrightarrow> config_step t t'"
| create_lookup: "create_lookup_check q u = Inr e \<Longrightarrow> create_lookup_commit e t = Inr t' \<Longrightarrow> config_step t t'"
| delete_lookup: "delete_standardization_lookup_entry i u t = Inr t' \<Longrightarrow> config_step t t'"
| create_rule_set: "create_rule_set_check r u t0 = Inr c \<Longrightarrow> rule_sets_ok (cf_rule_sets t0) \<Longrightarrow>
    rule_sets_evolve (cf_rule_sets t0) (cf_rule_sets t) \<Longrightarrow> create_rule_set_commit ids now c t = Inr t' \<Longrightarrow> config_step t t'"

lemma evolve_rules_refl: "rule_sets_evolve T T"
  by (simp add: rule_sets_evolve_def)

lemma mapping_check_row:
  "create_mapping_check p u t0 = Inr m \<Longrightarrow> cm_org m = us_org u \<and> cm_source m = kc_source p \<and> cm_active m
     \<and> cm_column m = strip (kc_column p) \<and> Some (cm_field_type m) = map_of STANDARDIZATION_FIELD_TYPES (kc_field_type p)"
  by (auto simp: create_mapping_check_def normalize_name_def split: option.splits sum.splits if_splits)

lemma lookup_check_row:
  "create_lookup_check p u = Inr e \<Longrightarrow> le_org e = us_org u \<and> le_active e \<and> le_key e = strip (lc_key p)
     \<and> le_value e = strip (lc_value p)"
  by (auto simp: create_lookup_check_def normalize_name_def Let_def split: option.splits if_splits)

lemma inactive_distinct:
  assumes "\<And>x. k (f x) = k x" "\<And>x. \<not> a (f x)"
  shows "distinct (map k (filter a T)) \<Longrightarrow> distinct (map k (filter a (update_where P f T)))"
proof (induction T)
  case (Cons x T)
  have sub: "set (map k (filter a (update_where P f T))) \<subseteq> set (map k (filter a T))"
    using assms by (auto simp: set_update_where)
  have "distinct (map k (filter a T))" using Cons.prems by (cases "a x") simp_all
  then show ?case using Cons sub assms by (cases "P x"; cases "a x") (auto simp: update_where_Cons)
qed simp

lemma config_step_ok:
  assumes "config_step t t'" "config_ok t"
  shows "config_ok t' \<and> rule_sets_evolve (cf_rule_sets t) (cf_rule_sets t')"
  using assms(1)
proof cases
  case (create_mapping p u t0 m)
  then show ?thesis
    using assms(2) mapping_check_row[OF create_mapping(1)]
    by (auto simp: create_mapping_commit_def config_ok_def Let_def evolve_rules_refl list_all_iff strip_idem less_SucI split: if_splits)
next
  case (delete_mapping i u)
  then obtain j where t': "t' = t\<lparr>cf_mappings := update_where (\<lambda>x. mp_id x = j) (\<lambda>x. x\<lparr>cm_active := False\<rparr>) (cf_mappings t)\<rparr>"
    by (auto simp: delete_standardization_column_mapping_def split: sum.splits)
  have "distinct (map mapping_key (filter cm_active (cf_mappings t')))"
    using inactive_distinct[of mapping_key "\<lambda>x. x\<lparr>cm_active := False\<rparr>" cm_active] assms(2) by (simp add: t' config_ok_def mapping_key_def)
  then show ?thesis using assms(2) by (auto simp: t' config_ok_def evolve_rules_refl list_all_iff set_update_where)
next
  case (create_lookup q u e)
  then show ?thesis
    using assms(2) lookup_check_row[OF create_lookup(1)]
    by (auto simp: create_lookup_commit_def config_ok_def Let_def evolve_rules_refl list_all_iff strip_idem less_SucI split: if_splits)
next
  case (delete_lookup i u)
  then obtain j where t': "t' = t\<lparr>cf_lookups := update_where (\<lambda>x. lp_id x = j) (\<lambda>x. x\<lparr>le_active := False\<rparr>) (cf_lookups t)\<rparr>"
    by (auto simp: delete_standardization_lookup_entry_def split: sum.splits)
  have "distinct (map lookup_key (filter le_active (cf_lookups t')))"
    using inactive_distinct[of lookup_key "\<lambda>x. x\<lparr>le_active := False\<rparr>" le_active] assms(2) by (simp add: t' config_ok_def lookup_key_def)
  then show ?thesis using assms(2) by (auto simp: t' config_ok_def evolve_rules_refl list_all_iff set_update_where)
next
  case (create_rule_set r u t0 c ids now)
  obtain prior x fs where c: "c = (prior, x, fs)" by (metis prod.exhaust)
  note cm = commit_rows[OF create_rule_set(4)[unfolded c]]
  have ok: "rule_sets_ok (cf_rule_sets t)" "list_all (\<lambda>x. rs_set_id x < cf_supply t) (cf_rule_sets t)"
    using assms(2) by (simp_all add: config_ok_def)
  have "rule_sets_ok (cf_rule_sets t')"
    using commit_keeps_sets[OF create_rule_set(1)[unfolded c] create_rule_set(2,3) ok(1) create_rule_set(4)[unfolded c] ok(2)] .
  moreover have "map (\<lambda>r. (rs_set_id r, scope r)) (superseded prior (cf_rule_sets t)) = map (\<lambda>r. (rs_set_id r, scope r)) (cf_rule_sets t)"
    by (simp add: superseded_def update_where_def scope_def)
  moreover have "list_all (\<lambda>x. rs_set_id x < cf_supply t') (cf_rule_sets t')"
    using ok(2) cm by (auto simp: list_all_iff superseded_def set_update_where less_SucI)
  moreover have "list_all (\<lambda>f. rf_rule_set f < cf_supply t') (cf_rule_fields t')"
    using assms(2) cm by (auto simp: config_ok_def list_all_iff less_SucI)
  ultimately show ?thesis using assms(2) cm by (simp add: config_ok_def rule_sets_evolve_def)
qed


text \<open>C36: Of two requests that create a rule set for the same scope at the same time, the later is refused
  by the unique index, but as a server error: the insert is sent before the block that would answer with a conflict.\<close>
theorem rule_set_race_is_server_error:
  assumes "config_ok t" "create_rule_set_check p u t = Inr q"
    and "create_match_rule_set ids now p' u' t = Inr t1" "us_org u' = us_org u" "rc_source p' = rc_source p"
  shows "create_rule_set_commit ids' later q t1 = Inl ServerError"
proof (rule ccontr)
  assume n: "create_rule_set_commit ids' later q t1 \<noteq> Inl ServerError"
  obtain prior r fs where q: "q = (prior, r, fs)" by (metis prod.exhaust)
  obtain t2 where c: "create_rule_set_commit ids' later (prior, r, fs) t1 = Inr t2"
    using n by (auto simp: q create_rule_set_commit_def Let_def split: if_splits)
  obtain prior' r' fs' where k: "create_rule_set_check p' u' t = Inr (prior', r', fs')" and c': "create_rule_set_commit ids now (prior', r', fs') t = Inr t1"
    using assms(3) by (auto simp: create_match_rule_set_def split: sum.splits)
  have ok: "rule_sets_ok (cf_rule_sets t)" using assms(1) by (simp add: config_ok_def)
  have s: "config_ok t1 \<and> rule_sets_evolve (cf_rule_sets t) (cf_rule_sets t1)"
    by (rule config_step_ok[OF create_rule_set[OF k ok evolve_rules_refl c'] assms(1)])
  let ?sc = "(us_org u, rc_source p)"
  have "rs_version r = Suc (length (scoped_sets ?sc (cf_rule_sets t1)))"
    using commit_is_current[OF assms(2)[unfolded q] ok _ _ c] s by (simp add: config_ok_def)
  moreover have "rs_version r = Suc (length (scoped_sets ?sc (cf_rule_sets t)))"
    using check_facts[OF assms(2)[unfolded q] ok] by (simp add: Let_def)
  moreover have "length (scoped_sets ?sc (cf_rule_sets t1)) = Suc (length (scoped_sets ?sc (cf_rule_sets t)))"
  proof -
    have "scope r' = ?sc" using check_facts[OF k ok] assms(4,5) by (simp add: Let_def)
    then have "scoped_sets ?sc (cf_rule_sets t1) = superseded prior' (scoped_sets ?sc (cf_rule_sets t)) @ [r'\<lparr>rs_set_id := cf_supply t\<rparr>]"
      using commit_rows[OF c'] unfolding scoped_superseded[symmetric] by (simp add: scoped_sets_def)
    then show ?thesis by simp
  qed
  ultimately show False by simp
qed

section \<open>What is configured takes effect\<close>

lemma strip_fixed_ends: "strip s = s \<Longrightarrow> s \<noteq> [] \<Longrightarrow> hd s \<noteq> CHR '' '' \<and> last s \<noteq> CHR '' ''"
proof -
  assume s: "strip s = s" "s \<noteq> []"
  have sp: "py_space (CHR '' '')" by code_simp
  show ?thesis using strip_hd[of s] strip_last[of s] s sp by auto
qed

lemma dropWhile_hd: "xs = [] \<or> \<not> P (hd xs) \<Longrightarrow> dropWhile P xs = xs"
  by (cases xs) auto

lemma sql_key_stripped: "strip s = s \<Longrightarrow> sql_key s = lower s"
proof (cases "s = []")
  case False
  assume s: "strip s = s"
  have "dropWhile (\<lambda>c. c = CHR '' '') s = s" "dropWhile (\<lambda>c. c = CHR '' '') (rev s) = rev s"
    using strip_fixed_ends[OF s False] False by (simp_all add: dropWhile_hd hd_rev)
  then show ?thesis by (simp add: sql_key_def sql_trim_def)
qed (simp add: sql_key_def sql_trim_def)

lemma truncate_mapping:
  "cm_org (column_mapping.truncate m) = cm_org m" "cm_source (column_mapping.truncate m) = cm_source m"
  "cm_active (column_mapping.truncate m) = cm_active m" "cm_column (column_mapping.truncate m) = cm_column m"
  "cm_field_type (column_mapping.truncate m) = cm_field_type m"
  by (simp_all add: column_mapping.defs)

lemma truncate_lookup:
  "le_org (lookup_entry.truncate e) = le_org e" "le_field_type (lookup_entry.truncate e) = le_field_type e"
  "le_active (lookup_entry.truncate e) = le_active e" "le_key (lookup_entry.truncate e) = le_key e"
  "le_value (lookup_entry.truncate e) = le_value e"
  by (simp_all add: lookup_entry.defs)

text \<open>The entries of a scope, in the order of the rows.\<close>

definition mapping_entries :: "nat \<Rightarrow> nat option \<Rightarrow> mapping_row list \<Rightarrow> (string \<times> field_type) list" where
  "mapping_entries org sc T =
     map (\<lambda>m. (lower (strip (cm_column m)), cm_field_type m)) (filter (\<lambda>m. cm_org m = org \<and> cm_active m \<and> cm_source m = sc) T)"

lemma overrides_eq:
  "load_column_overrides (configured_workspace t w) org src =
     map_of (mapping_entries org None (cf_mappings t)) ++ map_of (rev (mapping_entries org (Some src) (cf_mappings t)))"
  by (simp add: load_column_overrides_def configured_workspace_def mapping_entries_def filter_map o_def truncate_mapping
      conj_commute conj_left_commute Let_def)

lemma map_of_snoc: "k \<notin> fst ` set xs \<Longrightarrow> map_of (xs @ [(k, v)]) = [k \<mapsto> v] ++ map_of xs"
  by (rule ext) (auto simp: map_add_def map_of_eq_None_iff split: option.splits)

lemma map_of_snoc_add: "k \<notin> fst ` set xs \<Longrightarrow> map_of (xs @ [(k, v)]) ++ f = [k \<mapsto> v] ++ (map_of xs ++ f)"
  by (simp add: map_of_snoc map_add_assoc)

lemma created_mapping:
  assumes "config_ok t" "create_standardization_column_mapping p u t = Inr t'"
  shows "\<exists>m. cf_mappings t' = cf_mappings t @ [m] \<and> cm_org m = us_org u \<and> cm_source m = kc_source p \<and> cm_active m
    \<and> cm_column m = strip (kc_column p) \<and> Some (cm_field_type m) = map_of STANDARDIZATION_FIELD_TYPES (kc_field_type p)
    \<and> lower (strip (kc_column p)) \<notin> fst ` set (mapping_entries (us_org u) (kc_source p) (cf_mappings t))"
proof -
  obtain m where m: "create_mapping_check p u t = Inr m" "create_mapping_commit m t = Inr t'"
    using assms(2) by (auto simp: create_standardization_column_mapping_def split: sum.splits)
  note r = mapping_check_row[OF m(1)]
  have rows: "cf_mappings t' = cf_mappings t @ [m\<lparr>mp_id := cf_supply t\<rparr>]"
    and d: "mapping_key m \<notin> mapping_key ` set (filter cm_active (cf_mappings t))"
    using m(2) r by (auto simp: create_mapping_commit_def Let_def mapping_key_def split: if_splits)
  have "lower (strip (kc_column p)) \<noteq> lower (strip (cm_column x))"
    if "x \<in> set (cf_mappings t)" "cm_active x" "cm_org x = us_org u" "cm_source x = kc_source p" for x
  proof
    assume e: "lower (strip (kc_column p)) = lower (strip (cm_column x))"
    have x: "strip (cm_column x) = cm_column x" using assms(1) that(1) by (auto simp: config_ok_def list_all_iff)
    have "mapping_key x = mapping_key m" using e that r x by (simp add: mapping_key_def sql_key_stripped strip_idem)
    moreover have "mapping_key x \<in> mapping_key ` set (filter cm_active (cf_mappings t))" using that(1,2) by simp
    ultimately show False using d by simp
  qed
  then have "lower (strip (kc_column p)) \<notin> fst ` set (mapping_entries (us_org u) (kc_source p) (cf_mappings t))"
    by (force simp: mapping_entries_def)
  then show ?thesis using rows r by (intro exI[of _ "m\<lparr>mp_id := cf_supply t\<rparr>"]) simp
qed

text \<open>A configured mapping takes effect, exactly in its scope: after the request, the standardization
  handler loads for the column, up to case and blanks, the configured field type: for one data source
  unconditionally, for the whole organization where the data source has no mapping of its own.
  Other columns, other data sources and other organizations load what they did before.\<close>
theorem mapping_takes_effect:
  assumes "config_ok t" "create_standardization_column_mapping p u t = Inr t'"
    and "map_of STANDARDIZATION_FIELD_TYPES (kc_field_type p) = Some ft"
  shows "load_column_overrides (configured_workspace t' w) org src =
    (let old = load_column_overrides (configured_workspace t w) org src; col = lower (strip (kc_column p)) in
     if org \<noteq> us_org u \<or> kc_source p \<notin> {None, Some src} then old
     else if kc_source p = None then [col \<mapsto> ft] ++ old else old(col \<mapsto> ft))"
proof -
  obtain m where m: "cf_mappings t' = cf_mappings t @ [m]" "cm_org m = us_org u" "cm_source m = kc_source p" "cm_active m"
      "cm_column m = strip (kc_column p)" "cm_field_type m = ft"
      "lower (strip (kc_column p)) \<notin> fst ` set (mapping_entries (us_org u) (kc_source p) (cf_mappings t))"
    using created_mapping[OF assms(1,2)] assms(3) by auto
  have e: "mapping_entries org sc (cf_mappings t') = mapping_entries org sc (cf_mappings t)
      @ (if org = us_org u \<and> sc = kc_source p then [(lower (strip (kc_column p)), ft)] else [])" for sc
    using m by (auto simp: mapping_entries_def strip_idem)
  show ?thesis
    unfolding overrides_eq e Let_def using m(7)
    by (cases "org = us_org u"; cases "kc_source p"; cases "kc_source p = Some src")
      (simp_all add: map_of_snoc_add)
qed

definition lookup_entries :: "nat \<Rightarrow> field_type option \<Rightarrow> lookup_row list \<Rightarrow> (string \<times> string) list" where
  "lookup_entries org ft T =
     map (\<lambda>e. (lower (strip (le_key e)), le_value e)) (filter (\<lambda>e. le_org e = org \<and> le_active e \<and> le_field_type e = ft) T)"

lemma lookups_eq:
  "load_lookup_tables (configured_workspace t w) org =
     \<lparr>scoped = (\<lambda>ft. map_of (rev (lookup_entries org (Some ft) (cf_lookups t)))),
      global_lookup = map_of (rev (lookup_entries org None (cf_lookups t)))\<rparr>"
  by (simp add: load_lookup_tables_def configured_workspace_def lookup_entries_def filter_map o_def truncate_lookup
      conj_commute conj_left_commute Let_def)

text \<open>A configured lookup entry takes effect, exactly in its scope: the handler then loads the value for
  the key, up to case and blanks, in the table of the field type, or in the table of all; no
  other key, table or organization changes.\<close>
theorem lookup_takes_effect:
  assumes "create_standardization_lookup_entry p u t = Inr t'"
  shows "load_lookup_tables (configured_workspace t' w) org =
    (let old = load_lookup_tables (configured_workspace t w) org; key = lower (strip (lc_key p)); v = strip (lc_value p) in
     if org \<noteq> us_org u then old
     else case lc_field_type p of
            None \<Rightarrow> old\<lparr>global_lookup := (global_lookup old)(key \<mapsto> v)\<rparr>
          | Some n \<Rightarrow>
              let ft = the (map_of STANDARDIZATION_FIELD_TYPES n) in
              old\<lparr>scoped := (scoped old)(ft := ((scoped old ft)(key \<mapsto> v)))\<rparr>)"
proof -
  obtain e where e: "create_lookup_check p u = Inr e" "create_lookup_commit e t = Inr t'"
    using assms by (auto simp: create_standardization_lookup_entry_def split: sum.splits)
  have rows: "cf_lookups t' = cf_lookups t @ [e\<lparr>lp_id := cf_supply t\<rparr>]"
    using e(2) by (auto simp: create_lookup_commit_def Let_def split: if_splits)
  have ft: "le_field_type e = (case lc_field_type p of None \<Rightarrow> None | Some n \<Rightarrow> Some (the (map_of STANDARDIZATION_FIELD_TYPES n)))"
    using e(1) by (auto simp: create_lookup_check_def Let_def split: option.splits if_splits)
  note r = lookup_check_row[OF e(1)]
  have "lookup_entries org sc (cf_lookups t') = lookup_entries org sc (cf_lookups t)
      @ (if org = us_org u \<and> sc = le_field_type e then [(lower (strip (lc_key p)), strip (lc_value p))] else [])" for sc
    using rows r by (auto simp: lookup_entries_def strip_idem)
  then show ?thesis
    unfolding lookups_eq Let_def using ft by (cases "lc_field_type p") (auto simp: fun_eq_iff)
qed

section \<open>A rule set takes effect\<close>

lemma superseded_empty: "superseded q xs = [] \<longleftrightarrow> xs = []" "superseded q [] = []"
  by (simp_all add: superseded_def update_where_def)

lemma scoped_active:
  "filter (\<lambda>r. rs_source r = sc) (filter (\<lambda>r. rs_org r = org \<and> rs_active r) T) = filter rs_active (scoped_sets (org, sc) T)"
  by (auto simp: scoped_sets_def scope_def intro: filter_cong)

definition scope_row :: "match_rule_set table \<Rightarrow> nat \<Rightarrow> nat option \<Rightarrow> match_rule_set option" where
  "scope_row T org sc = (let rs = scoped_sets (org, sc) T in if rs = [] then None else Some (last rs))"

lemma load_rule_set_newest:
  assumes "rule_sets_ok (cf_rule_sets t)"
  shows "load_rule_set (configured_workspace t w) org src =
    (case (case scope_row (cf_rule_sets t) org (Some src) of Some r \<Rightarrow> Some r | None \<Rightarrow> scope_row (cf_rule_sets t) org None) of
       None \<Rightarrow> (None, None)
     | Some r \<Rightarrow>
        (let fields = sort_key (\<lambda>f. (rf_created_at f, rf_id f)) (filter (\<lambda>f. rf_rule_set f = rs_set_id r) (cf_rule_fields t))
         in if fields = [] then (Some r, None)
            else (Some r, Some \<lparr>ms_duplicate_threshold = rs_duplicate r, ms_review_threshold = rs_review r, ms_fields = map rf_field fields\<rparr>)))"
proof -
  have v: "versioned (scoped_sets sc (cf_rule_sets t))" for sc using assms unfolding rule_sets_ok_def by blast
  have f: "filter (\<lambda>r. rs_source r = sc) (filter (\<lambda>r. rs_org r = org \<and> rs_active r) (cf_rule_sets t))
      = (case scope_row (cf_rule_sets t) org sc of None \<Rightarrow> [] | Some r \<Rightarrow> [r])" for sc
    unfolding scoped_active using active_of_versioned[OF v] by (simp add: scope_row_def Let_def)
  have ws: "wk_rule_sets (configured_workspace t w) = cf_rule_sets t" "wk_rule_fields (configured_workspace t w) = cf_rule_fields t"
    by (simp_all add: configured_workspace_def)
  show ?thesis
    unfolding load_rule_set_def Let_def ws f
    by (cases "scope_row (cf_rule_sets t) org (Some src)"; cases "scope_row (cf_rule_sets t) org None"; simp)
qed

lemma created_rule_set:
  assumes "config_ok t" "create_match_rule_set ids now p u t = Inr t'"
  obtains r fs where "scope_row (cf_rule_sets t') (us_org u) (rc_source p) = Some r"
    "scope_row (cf_rule_sets t') (us_org u) None = (if rc_source p = None then Some r else scope_row (cf_rule_sets t) (us_org u) None)"
    "\<And>src. rc_source p = None \<Longrightarrow> scope_row (cf_rule_sets t') (us_org u) (Some src) = None
       \<longleftrightarrow> scope_row (cf_rule_sets t) (us_org u) (Some src) = None"
    "rs_version r = Suc (length (scoped_sets (us_org u, rc_source p) (cf_rule_sets t)))"
    "rs_duplicate r = rc_duplicate p" "rs_review r = rc_review p"
    "filter (\<lambda>f. rf_rule_set f = rs_set_id r) (cf_rule_fields t')
       = map (\<lambda>(j, f). \<lparr>rf_id = j, rf_rule_set = rs_set_id r, rf_created_at = now, rf_field = f\<rparr>) (zip ids fs)"
    "fs = map (\<lambda>f. f\<lparr>mf_column := normalize_name (mf_column f)\<rparr>) (rc_fields p)" "rc_fields p \<noteq> []"
    "rule_sets_ok (cf_rule_sets t')"
proof -
  obtain prior r fs where k: "create_rule_set_check p u t = Inr (prior, r, fs)" and c: "create_rule_set_commit ids now (prior, r, fs) t = Inr t'"
    using assms(2) by (auto simp: create_match_rule_set_def split: sum.splits)
  have ok: "rule_sets_ok (cf_rule_sets t)" using assms(1) by (simp add: config_ok_def)
  have ok': "rule_sets_ok (cf_rule_sets t')"
    using config_step_ok[OF create_rule_set[OF k ok evolve_rules_refl c] assms(1)] by (simp add: config_ok_def)
  note f = check_facts[OF k ok, unfolded Let_def]
  note cm = commit_rows[OF c]
  let ?r = "r\<lparr>rs_set_id := cf_supply t\<rparr>"
  have split: "scoped_sets x (cf_rule_sets t') = superseded prior (scoped_sets x (cf_rule_sets t))
      @ (if x = (us_org u, rc_source p) then [?r] else [])" for x
    using cm f by (simp add: scoped_superseded[symmetric]) (auto simp: scoped_sets_def scope_def)
  have same: "superseded prior (scoped_sets (us_org u, None) (cf_rule_sets t)) = scoped_sets (us_org u, None) (cf_rule_sets t)"
    if "rc_source p \<noteq> None"
  proof (rule superseded_same)
    fix y assume y: "y \<in> set (scoped_sets (us_org u, None) (cf_rule_sets t))"
    let ?rs = "scoped_sets (us_org u, rc_source p) (cf_rule_sets t)"
    show "Some (rs_set_id y) \<noteq> prior"
    proof
      assume "Some (rs_set_id y) = prior"
      then have n: "?rs \<noteq> []" "rs_set_id y = rs_set_id (last ?rs)" using f by (auto split: if_splits)
      have l: "last ?rs \<in> set (cf_rule_sets t) \<and> scope (last ?rs) = (us_org u, rc_source p)"
        using last_in_set[OF n(1)] by (simp add: scoped_sets_def)
      have "y = last ?rs" using keyed_inj[of rs_set_id "cf_rule_sets t" y "last ?rs"] ok y l n(2)
        by (simp add: rule_sets_ok_def scoped_sets_def)
      then show False using y l that by (simp add: scoped_sets_def)
    qed
  qed
  have fields: "filter (\<lambda>f. rf_rule_set f = cf_supply t) (cf_rule_fields t')
      = map (\<lambda>(j, f). \<lparr>rf_id = j, rf_rule_set = cf_supply t, rf_created_at = now, rf_field = f\<rparr>) (zip ids fs)"
    using cm assms(1) by (auto simp: config_ok_def list_all_iff filter_empty_conv filter_map o_def case_prod_unfold)
  show thesis
    by (rule that[of ?r fs]; use f ok' fields same in \<open>simp add: scope_row_def Let_def split superseded_empty rule_set_valid_def\<close>)
qed

text \<open>C17: A configured rule set takes effect: the matching handler then runs with the new version, its
  thresholds and exactly its fields, for its data source, or for every data source without a rule
  set of its own when it is the organization's.\<close>
theorem rule_set_takes_effect:
  assumes "config_ok t" "create_match_rule_set ids now p u t = Inr t'" "length ids = length (rc_fields p)"
    and "rc_source p = Some src \<or> rc_source p = None \<and> fst (load_rule_set (configured_workspace t w) (us_org u) src) \<in> insert None {Some r |r. rs_source r = None}"
  shows "\<exists>r cfg. load_rule_set (configured_workspace t' w) (us_org u) src = (Some r, Some cfg)
    \<and> rs_version r = Suc (length (scoped_sets (us_org u, rc_source p) (cf_rule_sets t)))
    \<and> ms_duplicate_threshold cfg = rc_duplicate p \<and> ms_review_threshold cfg = rc_review p
    \<and> mset (ms_fields cfg) = mset (map (\<lambda>f. f\<lparr>mf_column := normalize_name (mf_column f)\<rparr>) (rc_fields p))"
proof (rule created_rule_set[OF assms(1,2)])
  fix r fs
  assume r: "scope_row (cf_rule_sets t') (us_org u) (rc_source p) = Some r"
    "\<And>src. rc_source p = None \<Longrightarrow> scope_row (cf_rule_sets t') (us_org u) (Some src) = None
       \<longleftrightarrow> scope_row (cf_rule_sets t) (us_org u) (Some src) = None"
    "rs_version r = Suc (length (scoped_sets (us_org u, rc_source p) (cf_rule_sets t)))"
    "rs_duplicate r = rc_duplicate p" "rs_review r = rc_review p"
    and fields: "filter (\<lambda>f. rf_rule_set f = rs_set_id r) (cf_rule_fields t')
       = map (\<lambda>(j, f). \<lparr>rf_id = j, rf_rule_set = rs_set_id r, rf_created_at = now, rf_field = f\<rparr>) (zip ids fs)"
    "fs = map (\<lambda>f. f\<lparr>mf_column := normalize_name (mf_column f)\<rparr>) (rc_fields p)" "rc_fields p \<noteq> []"
    and ok': "rule_sets_ok (cf_rule_sets t')"
  have ok: "rule_sets_ok (cf_rule_sets t)" using assms(1) by (simp add: config_ok_def)
  have row: "(case scope_row (cf_rule_sets t') (us_org u) (Some src) of Some r \<Rightarrow> Some r | None \<Rightarrow> scope_row (cf_rule_sets t') (us_org u) None) = Some r"
  proof (cases "rc_source p")
    case None
    have "scope_row (cf_rule_sets t) (us_org u) (Some src) = None"
    proof (rule ccontr)
      assume "scope_row (cf_rule_sets t) (us_org u) (Some src) \<noteq> None"
      then obtain x where x: "scope_row (cf_rule_sets t) (us_org u) (Some src) = Some x" by blast
      then have "fst (load_rule_set (configured_workspace t w) (us_org u) src) = Some x"
        unfolding load_rule_set_newest[OF ok] by (simp add: Let_def)
      moreover have "rs_source x = Some src"
        using x last_in_set[of "scoped_sets (us_org u, Some src) (cf_rule_sets t)"]
        by (auto simp: scope_row_def Let_def scoped_sets_def scope_def split: if_splits)
      ultimately show False using assms(4) None by auto
    qed
    then have "scope_row (cf_rule_sets t') (us_org u) (Some src) = None" using r(2)[OF None] by simp
    then show ?thesis using r(1) None by simp
  qed (use assms(4) r(1) in simp)
  let ?k = "\<lambda>f. (rf_created_at f, rf_id f)" and ?fs = "map (\<lambda>(j, f). \<lparr>rf_id = j, rf_rule_set = rs_set_id r, rf_created_at = now, rf_field = f\<rparr>) (zip ids fs)"
  have l: "length ids = length fs" "fs \<noteq> []" using assms(3) fields(2,3) by simp_all
  then have n: "sort_key ?k ?fs \<noteq> []" by (cases ids; cases fs) (simp_all flip: mset_zero_iff)
  have "mset (map rf_field (sort_key ?k ?fs)) = mset (map rf_field ?fs)" by (simp only: mset_map mset_sort)
  also have "map rf_field ?fs = fs" using l(1) by (simp add: o_def case_prod_unfold)
  finally have m: "mset (map rf_field (sort_key ?k ?fs)) = mset fs" .
  have "load_rule_set (configured_workspace t' w) (us_org u) src =
    (Some r, Some \<lparr>ms_duplicate_threshold = rs_duplicate r, ms_review_threshold = rs_review r, ms_fields = map rf_field (sort_key ?k ?fs)\<rparr>)"
    unfolding load_rule_set_newest[OF ok'] row by (simp only: option.case Let_def fields(1) n if_False)
  then show ?thesis using r(3-5) m fields(2) by simp
qed

section \<open>Samples\<close>

definition unwrap :: "'a \<Rightarrow> 'e + 'a \<Rightarrow> 'a" where
  "unwrap d r = (case r of Inl _ \<Rightarrow> d | Inr x \<Rightarrow> x)"

definition empty_config :: config_tables where
  "empty_config = \<lparr>cf_store = review_store, cf_mappings = [], cf_lookups = [], cf_rule_sets = [], cf_rule_fields = [], cf_supply = 1\<rparr>"

definition sample_mapping :: mapping_create where
  "sample_mapping = \<lparr>kc_source = None, kc_column = '' Name '', kc_field_type = ''person_name''\<rparr>"

definition sample_lookup :: lookup_create where
  "sample_lookup = \<lparr>lc_field_type = Some ''city'', lc_key = ''NYC'', lc_value = ''New York''\<rparr>"

definition sample_rules :: rule_set_create where
  "sample_rules = \<lparr>rc_source = None, rc_duplicate = 9/10, rc_review = 1/2,
     rc_fields = [\<lparr>mf_column = ''email'', mf_comparison = ''exact'', mf_weight = 1\<rparr>]\<rparr>"

definition mapped :: config_tables where
  "mapped = unwrap empty_config (create_standardization_column_mapping sample_mapping sample_user empty_config)"

definition looked_up :: config_tables where
  "looked_up = unwrap empty_config (create_standardization_lookup_entry sample_lookup sample_user empty_config)"

definition ruled :: config_tables where
  "ruled = unwrap empty_config (create_match_rule_set [7] 3 sample_rules sample_user empty_config)"

lemma empty_config_ok: "config_ok empty_config"
  by (simp add: config_ok_def empty_config_def rule_sets_ok_def versioned_def scoped_sets_def)

definition sample_check :: "nat option \<times> match_rule_set \<times> rule_field list" where
  "sample_check = unwrap (None, \<lparr>rs_set_id = 0, rs_org = 0, rs_source = None, rs_active = True, rs_version = 0, rs_duplicate = 0, rs_review = 0\<rparr>, [])
     (create_rule_set_check sample_rules sample_user empty_config)"

lemma samples:
  "create_standardization_column_mapping sample_mapping sample_user empty_config = Inr mapped
   \<and> create_standardization_lookup_entry sample_lookup sample_user empty_config = Inr looked_up
   \<and> create_match_rule_set [7] 3 sample_rules sample_user empty_config = Inr ruled
   \<and> create_rule_set_check sample_rules sample_user empty_config = Inr sample_check
   \<and> lower (strip (kc_column sample_mapping)) = ''name'' \<and> lower (strip (lc_key sample_lookup)) = ''nyc''
   \<and> strip (lc_value sample_lookup) = ''New York''
   \<and> map_of STANDARDIZATION_FIELD_TYPES (kc_field_type sample_mapping) = Some PersonName
   \<and> map_of STANDARDIZATION_FIELD_TYPES ''city'' = Some City"
  by code_simp

lemmas mapped_eq = samples[THEN conjunct1]
lemmas looked_up_eq = samples[THEN conjunct2, THEN conjunct1]
lemmas ruled_eq = samples[THEN conjunct2, THEN conjunct2, THEN conjunct1]


lemma rule_set_race_is_server_error_witness: "create_rule_set_commit [8] 4 sample_check ruled = Inl ServerError"
  using samples by (intro rule_set_race_is_server_error[OF empty_config_ok _ ruled_eq refl refl]) blast

lemma mapping_takes_effect_witness:
  "\<forall>w. load_column_overrides (configured_workspace mapped w) 0 6 ''name'' = Some PersonName"
proof
  fix w
  have "load_column_overrides (configured_workspace empty_config w) 0 6 = Map.empty"
    by (simp add: overrides_eq empty_config_def mapping_entries_def)
  moreover have "us_org sample_user = 0" "kc_source sample_mapping = None" by (simp_all add: sample_user_def sample_mapping_def)
  ultimately show "load_column_overrides (configured_workspace mapped w) 0 6 ''name'' = Some PersonName"
    using mapping_takes_effect[OF empty_config_ok mapped_eq, of PersonName w 0 6] samples by (simp add: Let_def)
qed

lemma lookup_takes_effect_witness:
  "\<forall>w. scoped (load_lookup_tables (configured_workspace looked_up w) 0) City ''nyc'' = Some ''New York''"
proof
  fix w
  have "us_org sample_user = 0" "lc_field_type sample_lookup = Some ''city''" by (simp_all add: sample_user_def sample_lookup_def)
  then show "scoped (load_lookup_tables (configured_workspace looked_up w) 0) City ''nyc'' = Some ''New York''"
    using lookup_takes_effect[OF looked_up_eq, of w 0] samples by (simp add: Let_def)
qed

lemma rule_set_takes_effect_witness:
  "\<forall>w. \<exists>r cfg. load_rule_set (configured_workspace ruled w) 0 6 = (Some r, Some cfg) \<and> rs_version r = 1"
proof
  fix w
  have e: "scoped_sets x (cf_rule_sets empty_config) = []" for x by (simp add: empty_config_def scoped_sets_def)
  have "fst (load_rule_set (configured_workspace empty_config w) 0 6) = None"
    using load_rule_set_newest[of empty_config w 0 6] empty_config_ok by (simp add: config_ok_def scope_row_def e)
  then show "\<exists>r cfg. load_rule_set (configured_workspace ruled w) 0 6 = (Some r, Some cfg) \<and> rs_version r = 1"
    using rule_set_takes_effect[OF empty_config_ok ruled_eq, of 6 w] e by (auto simp: sample_rules_def sample_user_def)
qed

end
