(* ===== verification/Spec2Isabelle.thy ===== *)
theory Spec2Isabelle
  imports OutputChain LateWriter ReviewQueueProps ProfilingProps DownloadProps QualityRelease AuditTrail PyText WorkerLoop Tenancy TasksApiProps DetectionEngine StandardizeProps RemediationProps CleaningProps ExportProps CsvProps AccountsProps DataSourcesProps ConfigProps
begin

text \<open>
  A verification development for the AI Data Operations Employee backend (\<open>src/backend/app\<close>).
\<close>

end
